(* ===== verification/Prelude.thy ===== *)
theory Prelude
  imports Complex_Main "HOL-Library.AList" "HOL-Library.Log_Nat"
begin

text \<open>
  The shared ground of the development: the theorem collections the component proofs feed to the
  simplifier, the error values of the Python the repository is written in, and generic facts on
  lists and association lists that several components use.

  \<^item> \<open>py_simps\<close>: unfolding lemmas for the small operations of the modelled Python values;
  \<^item> \<open>vocab_simps\<close>: the closed vocabularies (statuses, reasons, check ids) as explicit sets.
\<close>

named_theorems py_simps \<open>operations on modelled Python values\<close>
named_theorems vocab_simps \<open>closed string vocabularies of the components\<close>

text \<open>The exceptions of Python that the modelled code can raise or catch.\<close>

datatype py_error = ValueError | TypeError | KeyError | IndexError | AttributeError
  | OverflowError | OSError

type_synonym 'a result = "py_error + 'a"

abbreviation Raise :: "py_error \<Rightarrow> 'a result" where "Raise e \<equiv> Inl e"
abbreviation Ret :: "'a \<Rightarrow> 'a result" where "Ret x \<equiv> Inr x"

text \<open>Sequencing of computations that may raise: the first exception ends the rest.\<close>

definition bind_result :: "'a result \<Rightarrow> ('a \<Rightarrow> 'b result) \<Rightarrow> 'b result" where
  "bind_result m k = (case m of Inl e \<Rightarrow> Raise e | Inr x \<Rightarrow> k x)"

fun map_result :: "('a \<Rightarrow> 'b result) \<Rightarrow> 'a list \<Rightarrow> 'b list result" where
  "map_result f [] = Ret []"
| "map_result f (x # xs) = bind_result (f x) (\<lambda>y. bind_result (map_result f xs) (\<lambda>ys. Ret (y # ys)))"

lemma bind_result_simps [simp]: "bind_result (Inl e) k = Raise e" "bind_result (Inr x) k = k x"
  by (simp_all add: bind_result_def)

lemma bind_result_Ret: "bind_result m k = Ret y \<longleftrightarrow> (\<exists>x. m = Ret x \<and> k x = Ret y)"
  by (cases m) simp_all

lemma map_result_Ret: "(\<And>x. x \<in> set xs \<Longrightarrow> f x = Ret (g x)) \<Longrightarrow> map_result f xs = Ret (map g xs)"
  by (induction xs) simp_all

lemma map_result_length: "map_result f xs = Ret ys \<Longrightarrow> length ys = length xs"
  by (induction xs arbitrary: ys) (auto simp: bind_result_Ret)

lemma map_result_Raise:
  "f x = Raise e \<Longrightarrow> \<forall>y \<in> set xs. \<exists>z. f y = Ret z \<Longrightarrow> map_result f (xs @ x # ys) = Raise e"
  by (induction xs) auto

lemma in_map_result: "map_result f xs = Ret ys \<Longrightarrow> y \<in> set ys \<longleftrightarrow> (\<exists>x \<in> set xs. f x = Ret y)"
  by (induction xs arbitrary: ys) (auto simp: bind_result_Ret)

lemma map_result_each: "map_result f xs = Ret ys \<Longrightarrow> x \<in> set xs \<Longrightarrow> \<exists>y. f x = Ret y \<and> y \<in> set ys"
  by (induction xs arbitrary: ys) (auto simp: bind_result_Ret)

lemma map_result_ex: "map_result f xs = Ret ys \<Longrightarrow> (\<exists>y \<in> set ys. P y) \<longleftrightarrow> (\<exists>x \<in> set xs. \<exists>y. f x = Ret y \<and> P y)"
  by (induction xs arbitrary: ys) (auto simp: bind_result_Ret)

lemma map_result_filter:
  assumes "map_result f xs = Ret bs" and "\<And>x b. x \<in> set xs \<Longrightarrow> f x = Ret b \<Longrightarrow> P x \<longleftrightarrow> b"
  shows "filter P xs = map fst (filter snd (zip xs bs))"
  using assms by (induction xs arbitrary: bs) (auto simp: bind_result_Ret)

lemma list_all2_map_result: "map_result f xs = Ret ys \<Longrightarrow> list_all2 (\<lambda>x y. f x = Ret y) xs ys"
  by (induction xs arbitrary: ys) (auto simp: bind_result_Ret)

lemma length_filter_zip_snd: "length bs = length xs \<Longrightarrow> length (filter snd (zip xs bs)) = length (filter (\<lambda>b. b) bs)"
  by (induction xs bs rule: list_induct2') auto

section \<open>Lists\<close>

lemma filter_all: "length (filter P xs) = length xs \<Longrightarrow> filter P xs = xs"
  using length_filter_less [of _ xs P] by (metis filter_True less_irrefl)

text \<open>\<open>filter_first p xs\<close> is Python's \<open>next((x for x in xs if p(x)), None)\<close>.\<close>

definition first_such :: "('a \<Rightarrow> bool) \<Rightarrow> 'a list \<Rightarrow> 'a option" where
  "first_such p xs = List.find p xs"

lemma first_such_Some: "first_such p xs = Some x \<Longrightarrow> x \<in> set xs \<and> p x"
  by (induction xs) (auto simp: first_such_def split: if_splits)

lemma first_such_None: "first_such p xs = None \<longleftrightarrow> (\<forall>x \<in> set xs. \<not> p x)"
  by (auto simp: first_such_def find_None_iff)

text \<open>Python's \<open>enumerate(xs, start=1)\<close> on an explicit first index.\<close>

fun enum_from :: "nat \<Rightarrow> 'a list \<Rightarrow> (nat \<times> 'a) list" where
  "enum_from n [] = []"
| "enum_from n (x # xs) = (n, x) # enum_from (Suc n) xs"

lemma length_enum_from [simp]: "length (enum_from n xs) = length xs"
  by (induction xs arbitrary: n) auto

lemma nth_enum_from: "i < length xs \<Longrightarrow> enum_from n xs ! i = (n + i, xs ! i)"
  by (induction xs arbitrary: n i) (auto simp: nth_Cons split: nat.splits)

lemma map_snd_enum_from [simp]: "map snd (enum_from n xs) = xs"
  by (induction xs arbitrary: n) auto

lemma enum_from_append: "enum_from n (xs @ ys) = enum_from n xs @ enum_from (n + length xs) ys"
  by (induction xs arbitrary: n) auto

lemma in_set_enum_from:
  "(i, x) \<in> set (enum_from n xs) \<longleftrightarrow> (\<exists>k < length xs. i = n + k \<and> x = xs ! k)"
  by (auto simp: in_set_conv_nth nth_enum_from)

lemma map_fst_enum_from: "map fst (enum_from n xs) = [n..<n + length xs]"
proof (induction xs arbitrary: n)
  case Nil
  then show ?case by simp
next
  case (Cons x xs)
  have "[n..<n + length (x # xs)] = n # [Suc n..<Suc n + length xs]"
    by (simp add: upt_rec)
  with Cons show ?case by simp
qed

lemma sorted_fst_enum_from: "sorted (map fst (enum_from n xs))"
  by (simp add: map_fst_enum_from)

lemma distinct_fst_enum_from: "distinct (map fst (enum_from n xs))"
  by (simp add: map_fst_enum_from)

lemma last_or_default_filter: "filter p xs = [] \<longleftrightarrow> (\<forall>x \<in> set xs. \<not> p x)"
  by (simp add: filter_empty_conv)

lemma in_set_map_filter: "y \<in> set (List.map_filter f xs) \<longleftrightarrow> (\<exists>x \<in> set xs. f x = Some y)"
  by (induction xs) (auto simp: List.map_filter_simps split: option.split)

text \<open>The slice \<open>xs[:n]\<close>: a negative bound counts from the end.\<close>

definition py_take :: "int \<Rightarrow> 'a list \<Rightarrow> 'a list" where
  "py_take n xs = take (nat (if n < 0 then int (length xs) + n else n)) xs"

lemma py_take_nonneg [simp]: "0 \<le> n \<Longrightarrow> py_take n xs = take (nat n) xs"
  by (simp add: py_take_def)

text \<open>Python's \<open>max(xs, default=d)\<close> for a total order given by a key.\<close>

definition max_default :: "'a::linorder \<Rightarrow> 'a list \<Rightarrow> 'a" where
  "max_default d xs = (if xs = [] then d else Max (set xs))"

lemma max_default_Nil [simp]: "max_default d [] = d"
  by (simp add: max_default_def)

lemma max_default_ge: "x \<in> set xs \<Longrightarrow> x \<le> max_default d xs"
  by (auto simp: max_default_def)

lemma max_default_in: "xs \<noteq> [] \<Longrightarrow> max_default d xs \<in> set xs"
  by (simp add: max_default_def)

text \<open>\<open>max(xs, key=f)\<close>: the FIRST element whose key is largest.\<close>

fun max_key :: "('a \<Rightarrow> 'b::linorder) \<Rightarrow> 'a \<Rightarrow> 'a list \<Rightarrow> 'a" where
  "max_key f b [] = b"
| "max_key f b (x # xs) = (if f b < f x then max_key f x xs else max_key f b xs)"

lemma max_key_in: "max_key f b xs \<in> insert b (set xs)"
  by (induction xs arbitrary: b) auto

lemma max_key_ge_start: "f b \<le> f (max_key f b xs)"
proof (induction xs arbitrary: b)
  case (Cons y ys)
  show ?case
  proof (cases "f b < f y")
    case True
    then have "f b \<le> f y" by simp
    also have "\<dots> \<le> f (max_key f y ys)" by (rule Cons.IH)
    finally show ?thesis using True by simp
  next
    case False
    then show ?thesis using Cons.IH [of b] by simp
  qed
qed simp

lemma max_key_ge: "x \<in> insert b (set xs) \<Longrightarrow> f x \<le> f (max_key f b xs)"
proof (induction xs arbitrary: b)
  case Nil
  then show ?case by simp
next
  case (Cons y ys)
  consider "x = b" | "x = y" | "x \<in> set ys" using Cons.prems by auto
  then show ?case
  proof cases
    case 1
    then show ?thesis using max_key_ge_start [of f b "y # ys"] by (simp only: list.simps)
  next
    case 2
    then show ?thesis
      using max_key_ge_start [of f y ys] max_key_ge_start [of f b ys] by auto
  next
    case 3
    then show ?thesis using Cons.IH [of y] Cons.IH [of b] by simp
  qed
qed

section \<open>Association lists as Python dictionaries\<close>

text \<open>
  \<open>AList.update\<close> is the assignment \<open>d[k] = v\<close>: it replaces the value in place when the key is
  there and appends the pair otherwise, so the insertion order of a Python dictionary is kept.
\<close>

lemma map_of_update [simp]: "map_of (AList.update k v d) k' = (if k' = k then Some v else map_of d k')"
  by (simp add: update_conv')

lemma keys_update: "set (map fst (AList.update k v d)) = insert k (set (map fst d))"
  by (induction d) auto

lemma distinct_keys_update: "distinct (map fst d) \<Longrightarrow> distinct (map fst (AList.update k v d))"
  by (rule distinct_update)

lemma map_of_delete [simp]: "map_of (AList.delete k d) k' = (if k' = k then None else map_of d k')"
  by (simp add: delete_conv')

text \<open>\<open>d[k] = d.get(k, 0) + 1\<close>, and what counting a whole list gives.\<close>

definition bump :: "'k \<Rightarrow> ('k \<times> nat) list \<Rightarrow> ('k \<times> nat) list" where
  "bump k d = AList.update k (case map_of d k of None \<Rightarrow> 1 | Some n \<Rightarrow> n + 1) d"

definition tally :: "'k list \<Rightarrow> ('k \<times> nat) list" where
  "tally ks = foldl (\<lambda>d k. bump k d) [] ks"

lemma map_of_bump:
  "map_of (bump k d) k' = (if k' = k then Some (case map_of d k of None \<Rightarrow> 1 | Some n \<Rightarrow> n + 1) else map_of d k')"
  by (simp add: bump_def)

lemma map_of_foldl_bump:
  "map_of (foldl (\<lambda>d k. bump k d) d ks) r =
   (if r \<in> set ks then Some ((case map_of d r of None \<Rightarrow> 0 | Some n \<Rightarrow> n) + length (filter (\<lambda>k. k = r) ks))
    else map_of d r)"
  by (induction ks arbitrary: d) (auto simp: map_of_bump filter_empty_conv split: option.splits)

lemma map_of_tally:
  "map_of (tally ks) r = (if r \<in> set ks then Some (length (filter (\<lambda>k. k = r) ks)) else None)"
  by (simp add: tally_def map_of_foldl_bump)

lemma keys_tally: "set (map fst (tally ks)) = set ks"
proof -
  have "dom (map_of (tally ks)) = set ks" by (auto simp: map_of_tally dom_def split: if_splits)
  then show ?thesis by (simp add: dom_map_of_conv_image_fst)
qed

text \<open>\<open>groups[key].append(idx)\<close> over \<open>enumerate\<close>: the indices of each key, keys in order of first use.\<close>

definition add_index :: "('k \<times> nat list) list \<Rightarrow> nat \<times> 'k \<Rightarrow> ('k \<times> nat list) list" where
  "add_index d p = (case p of (i, k) \<Rightarrow>
     AList.update k ((case map_of d k of None \<Rightarrow> [] | Some is \<Rightarrow> is) @ [i]) d)"

definition index_groups :: "'k list \<Rightarrow> ('k \<times> nat list) list" where
  "index_groups ks = foldl add_index [] (enum_from 0 ks)"

lemma map_of_add_index: "map_of (add_index d (i, k)) k' =
    (if k' = k then Some ((case map_of d k of None \<Rightarrow> [] | Some is \<Rightarrow> is) @ [i]) else map_of d k')"
  by (simp add: add_index_def)

lemma index_groups_snoc: "index_groups (ks @ [k]) = add_index (index_groups ks) (length ks, k)"
  by (simp add: index_groups_def enum_from_append)

lemma map_of_index_groups:
  "map_of (index_groups ks) k =
   (if k \<in> set ks then Some (filter (\<lambda>i. ks ! i = k) [0..<length ks]) else None)"
proof (induction ks rule: rev_induct)
  case Nil
  then show ?case by (simp add: index_groups_def)
next
  case (snoc x ks)
  have "filter (\<lambda>i. (ks @ [x]) ! i = y) [0..<length ks] = filter (\<lambda>i. ks ! i = y) [0..<length ks]" for y
    by (rule filter_cong) (simp_all add: nth_append)
  moreover have "filter (\<lambda>i. ks ! i = y) [0..<length ks] = []" if "y \<notin> set ks" for y
    using that by (auto simp: filter_empty_conv)
  ultimately show ?case using snoc by (auto simp: index_groups_snoc map_of_add_index)
qed

lemma distinct_index_groups: "distinct (map fst (index_groups ks))"
proof (induction ks rule: rev_induct)
  case Nil
  then show ?case by (simp add: index_groups_def)
next
  case (snoc x ks)
  then show ?case by (simp add: index_groups_snoc add_index_def distinct_update)
qed

lemma in_index_groups:
  "(k, is) \<in> set (index_groups ks) \<longleftrightarrow> k \<in> set ks \<and> is = filter (\<lambda>i. ks ! i = k) [0..<length ks]"
  using map_of_eq_Some_iff [OF distinct_index_groups, of ks k "is"] by (auto simp: map_of_index_groups split: if_splits)

end
