(* ===== verification/Py_Text.thy ===== *)
theory Py_Text
  imports Prelude "HOL-Library.Sublist"
begin

text \<open>
  Python strings as HOL strings. A character stands for the code point of the same number, so the
  text of the model is the Latin-1 part of Unicode (U+0000 to U+00FF); on that part the predicates
  below agree with \<open>str.isspace\<close>, the \<open>\s\<close> and \<open>\d\<close> of \<open>re\<close>, \<open>str.lower\<close>, \<open>str.strip\<close>,
  \<open>str.splitlines\<close> and \<open>int\<close>. The theory holds those operations and the facts the components
  need of them: stripping and white-space folding are idempotent, \<open>int(str(n)) = n\<close>, joined lines
  split back.
\<close>

section \<open>Characters\<close>

definition py_spaces :: "char list" where
  "py_spaces = [CHR 0x09, CHR 0x0A, CHR 0x0B, CHR 0x0C, CHR 0x0D, CHR 0x1C, CHR 0x1D, CHR 0x1E,
     CHR 0x1F, CHR 0x20, CHR 0x85, CHR 0xA0]"

definition is_space :: "char \<Rightarrow> bool" where
  "is_space c = (c \<in> set py_spaces)"

definition line_breaks :: "char list" where
  "line_breaks = [CHR 0x0A, CHR 0x0B, CHR 0x0C, CHR 0x0D, CHR 0x1C, CHR 0x1D, CHR 0x1E, CHR 0x85]"

definition is_break :: "char \<Rightarrow> bool" where
  "is_break c = (c \<in> set line_breaks)"

definition is_digit :: "char \<Rightarrow> bool" where
  "is_digit c = (c \<in> set ''0123456789'')"

definition is_alpha_us :: "char \<Rightarrow> bool" where
  "is_alpha_us c = (c \<in> set ''ABCDEFGHIJKLMNOPQRSTUVWXYZabcdefghijklmnopqrstuvwxyz_'')"

definition lower_char :: "char \<Rightarrow> char" where
  "lower_char c = (let n = (of_char c :: nat) in
     if 65 \<le> n \<and> n \<le> 90 \<or> 192 \<le> n \<and> n \<le> 222 \<and> n \<noteq> 215 then char_of (n + 32) else c)"

definition lower :: "string \<Rightarrow> string" where
  "lower s = map lower_char s"

abbreviation NL :: char where "NL \<equiv> CHR 0x0A"

text \<open>The same tests on the bits of a character, for evaluation.\<close>

lemma is_digit_code [code]: "is_digit (Char b0 b1 b2 b3 b4 b5 b6 b7) =
    (if b7 then False else if b6 then False else if b5 then if b4 then if b3 then \<not> (b2 \<or> b1) else True
     else False else False)"
  by (cases b0; cases b1; cases b2; cases b3; cases b4; cases b5; cases b6; cases b7; simp add: is_digit_def)

lemma is_space_code [code]: "is_space (Char b0 b1 b2 b3 b4 b5 b6 b7) =
    (if b7 then (if b6 \<or> b4 \<or> b3 \<or> b1 then False else if b5 then \<not> b2 \<and> \<not> b0 else b2 \<and> b0)
     else if b6 then False
     else if b5 then \<not> (b4 \<or> b3 \<or> b2 \<or> b1 \<or> b0)
     else if b4 then b3 \<and> b2
     else if b3 then (if b2 then \<not> b1 else b1 \<or> b0) else False)"
  by (cases b0; cases b1; cases b2; cases b3; cases b4; cases b5; cases b6; cases b7;
      simp add: is_space_def py_spaces_def)

lemma is_alpha_us_code [code]: "is_alpha_us (Char b0 b1 b2 b3 b4 b5 b6 b7) =
    (if b7 then False else if b6 then
       (if b4 then (if b3 then (if b2 then b1 \<and> b0 \<and> \<not> b5 else \<not> (b1 \<and> b0)) else True)
        else b3 \<or> b2 \<or> b1 \<or> b0)
     else False)"
  by (cases b0; cases b1; cases b2; cases b3; cases b4; cases b5; cases b6; cases b7;
      simp add: is_alpha_us_def)

lemma lower_char_code [code]: "lower_char (Char b0 b1 b2 b3 b4 b5 b6 b7) =
    (if b5 then Char b0 b1 b2 b3 b4 b5 b6 b7 else if b6 then
       Char b0 b1 b2 b3 b4
         (if b7 then \<not> (b4 \<and> b2 \<and> b1 \<and> b0)
          else if b4 then \<not> (b3 \<and> (b2 \<or> (b1 \<and> b0))) else b3 \<or> b2 \<or> b1 \<or> b0) b6 b7
     else Char b0 b1 b2 b3 b4 b5 b6 b7)"
  by (cases b0; cases b1; cases b2; cases b3; cases b4; cases b5; cases b6; cases b7;
      simp add: lower_char_def char_of_def bit_0)

lemma break_is_space: "is_break c \<Longrightarrow> is_space c"
  by (auto simp: is_break_def is_space_def line_breaks_def py_spaces_def)

lemma digit_not_space: "is_digit c \<Longrightarrow> \<not> is_space c"
  by (auto simp: is_digit_def is_space_def py_spaces_def)

lemma digit_not_break: "is_digit c \<Longrightarrow> \<not> is_break c"
  using break_is_space digit_not_space by blast

lemma space_facts [simp]:
  "is_space (CHR '' '')" "is_space NL" "\<not> is_space (CHR '':'')" "\<not> is_digit (CHR '':'')"
  "\<not> is_digit (CHR '' '')" "is_break NL"
  by (simp_all add: is_space_def py_spaces_def is_digit_def is_break_def line_breaks_def)

section \<open>Stripping\<close>

definition strip_by :: "(char \<Rightarrow> bool) \<Rightarrow> string \<Rightarrow> string" where
  "strip_by p s = rev (dropWhile p (rev (dropWhile p s)))"

definition lstrip :: "string \<Rightarrow> string" where "lstrip s = dropWhile is_space s"

definition rstrip :: "string \<Rightarrow> string" where "rstrip s = rev (dropWhile is_space (rev s))"

definition strip :: "string \<Rightarrow> string" where "strip s = strip_by is_space s"

text \<open>\<open>trimmed p s\<close>: neither end of \<open>s\<close> is a character to strip.\<close>

definition trimmed :: "(char \<Rightarrow> bool) \<Rightarrow> string \<Rightarrow> bool" where
  "trimmed p s = (s = [] \<or> \<not> p (hd s) \<and> \<not> p (last s))"

lemma strip_by_trimmed_id: "trimmed p s \<Longrightarrow> strip_by p s = s"
proof (cases "s = []")
  case False
  assume t: "trimmed p s"
  then have h: "dropWhile p s = s" using False by (cases s) (auto simp: trimmed_def)
  have "dropWhile p (rev s) = rev s"
    using t False by (cases s rule: rev_cases) (auto simp: trimmed_def)
  then show ?thesis by (simp add: strip_by_def h)
qed (simp add: strip_by_def)

lemma last_dropWhile: "dropWhile p s \<noteq> [] \<Longrightarrow> last (dropWhile p s) = last s"
  by (induction s) (auto split: if_splits)

lemma trimmed_strip_by: "trimmed p (strip_by p s)"
proof -
  let ?t = "dropWhile p s" let ?u = "dropWhile p (rev ?t)"
  have "?u \<noteq> [] \<Longrightarrow> \<not> p (hd ?u)" by (rule hd_dropWhile)
  moreover have "?u \<noteq> [] \<Longrightarrow> \<not> p (last ?u)"
  proof -
    assume ne: "?u \<noteq> []"
    have t: "?t \<noteq> []"
    proof
      assume "?t = []"
      then have "?u = []" by (simp only: rev.simps dropWhile.simps)
      with ne show False ..
    qed
    have "last ?u = last (rev ?t)" by (rule last_dropWhile [OF ne])
    also have "\<dots> = hd ?t" using t by (simp add: last_rev)
    finally show ?thesis using hd_dropWhile [OF t] by simp
  qed
  ultimately show ?thesis
    by (auto simp: trimmed_def strip_by_def hd_rev last_rev)
qed

lemma strip_by_idem [simp]: "strip_by p (strip_by p s) = strip_by p s"
  by (rule strip_by_trimmed_id [OF trimmed_strip_by])

lemma strip_idem [simp]: "strip (strip s) = strip s"
  by (simp add: strip_def)

lemma strip_Nil [simp]: "strip [] = []"
  by (simp add: strip_def strip_by_def)

lemma strip_by_eq_Nil: "strip_by p s = [] \<longleftrightarrow> (\<forall>c \<in> set s. p c)"
proof -
  have "strip_by p s = [] \<longleftrightarrow> (\<forall>c \<in> set (dropWhile p s). p c)"
    by (simp add: strip_by_def)
  also have "\<dots> \<longleftrightarrow> dropWhile p s = []"
    using hd_dropWhile [of p s] list.set_sel(1) [of "dropWhile p s"]
    by (metis empty_iff empty_set)
  finally show ?thesis by simp
qed

lemma set_strip_by: "set (strip_by p s) \<subseteq> set s"
  by (auto simp: strip_by_def dest!: set_dropWhileD)

text \<open>\<open>re.sub(r"\s+", " ", s)\<close>: every run of white space becomes one space.\<close>

function fold_ws :: "string \<Rightarrow> string" where
  "fold_ws [] = []"
| "fold_ws (c # cs) =
     (if is_space c then CHR '' '' # fold_ws (dropWhile is_space cs) else c # fold_ws cs)"
  by pat_completeness auto
termination
  by (relation "measure length") (auto simp: le_imp_less_Suc length_dropWhile_le)

text \<open>The strings \<open>fold_ws\<close> leaves alone: their white space is single spaces.\<close>

fun single_spaced :: "string \<Rightarrow> bool" where
  "single_spaced [] = True"
| "single_spaced (c # cs) =
     ((is_space c \<longrightarrow> c = CHR '' '' \<and> (cs = [] \<or> \<not> is_space (hd cs))) \<and> single_spaced cs)"

lemma fold_ws_hd: "s = [] \<or> \<not> is_space (hd s) \<Longrightarrow> fold_ws s = [] \<or> \<not> is_space (hd (fold_ws s))"
  by (cases s) auto

lemma single_spaced_fold_ws: "single_spaced (fold_ws s)"
proof (induction s rule: fold_ws.induct)
  case (2 c cs)
  show ?case
  proof (cases "is_space c")
    case True
    let ?d = "dropWhile is_space cs"
    have "?d = [] \<or> \<not> is_space (hd ?d)" using hd_dropWhile by blast
    then have "fold_ws ?d = [] \<or> \<not> is_space (hd (fold_ws ?d))" by (rule fold_ws_hd)
    with True "2.IH"(1) show ?thesis by simp
  next
    case False
    with "2.IH"(2) show ?thesis by simp
  qed
qed simp

lemma fold_ws_id: "single_spaced s \<Longrightarrow> fold_ws s = s"
proof (induction s rule: fold_ws.induct)
  case (2 c cs)
  then show ?case
  proof (cases "is_space c")
    case True
    with "2.prems" have "c = CHR '' ''" "cs = [] \<or> \<not> is_space (hd cs)" "single_spaced cs" by auto
    moreover from this have "dropWhile is_space cs = cs" by (cases cs) auto
    ultimately show ?thesis using "2.IH"(1) True by simp
  qed auto
qed simp

lemma single_spaced_append: "single_spaced (xs @ ys) \<Longrightarrow> single_spaced xs \<and> single_spaced ys"
proof (induction xs)
  case (Cons a xs)
  then show ?case by (cases xs) auto
qed simp

lemma single_spaced_strip_by: "single_spaced s \<Longrightarrow> single_spaced (strip_by p s)"
proof -
  assume a: "single_spaced s"
  have "single_spaced (dropWhile p s)"
    using single_spaced_append [of "takeWhile p s" "dropWhile p s"] a by simp
  moreover have "dropWhile p s = strip_by p s @ rev (takeWhile p (rev (dropWhile p s)))"
    by (simp add: strip_by_def flip: rev_append)
  ultimately show ?thesis using single_spaced_append by metis
qed

definition collapse_text :: "string \<Rightarrow> string" where
  "collapse_text s = strip (fold_ws s)"

lemma collapse_text_idem [simp]: "collapse_text (collapse_text s) = collapse_text s"
proof -
  have "single_spaced (collapse_text s)"
    by (simp add: collapse_text_def strip_def single_spaced_strip_by single_spaced_fold_ws)
  then have "fold_ws (collapse_text s) = collapse_text s" by (rule fold_ws_id)
  then show ?thesis by (simp add: collapse_text_def)
qed

section \<open>Joining, splitting, searching\<close>

fun join :: "string \<Rightarrow> string list \<Rightarrow> string" where
  "join sep [] = []"
| "join sep [x] = x"
| "join sep (x # y # zs) = x @ sep @ join sep (y # zs)"

lemma join_Cons: "xs \<noteq> [] \<Longrightarrow> join sep (x # xs) = x @ sep @ join sep xs"
  by (cases xs) auto

abbreviation join_nl :: "string list \<Rightarrow> string" where
  "join_nl xs \<equiv> join [NL] xs"

text \<open>\<open>s.split("\n")\<close>: always at least one piece.\<close>

function split_nl :: "string \<Rightarrow> string list" where
  "split_nl s =
     (case dropWhile (\<lambda>c. c \<noteq> NL) s of
        [] \<Rightarrow> [s]
      | _ # rest \<Rightarrow> takeWhile (\<lambda>c. c \<noteq> NL) s # split_nl rest)"
  by pat_completeness auto
termination
proof (relation "measure length", goal_cases)
  case (2 s x rest)
  then have "length (x # rest) \<le> length s" by (metis length_dropWhile_le)
  then show ?case by simp
qed simp

declare split_nl.simps [simp del]

lemma split_nl_no_nl: "NL \<notin> set s \<Longrightarrow> split_nl s = [s]"
proof -
  assume "NL \<notin> set s"
  then have "dropWhile (\<lambda>c. c \<noteq> NL) s = []" by auto
  then show ?thesis by (subst split_nl.simps) (simp only: list.case)
qed

lemma split_nl_append: "NL \<notin> set x \<Longrightarrow> split_nl (x @ NL # s) = x # split_nl s"
proof -
  assume "NL \<notin> set x"
  then have "dropWhile (\<lambda>c. c \<noteq> NL) (x @ NL # s) = NL # s"
    "takeWhile (\<lambda>c. c \<noteq> NL) (x @ NL # s) = x"
    by (auto simp: dropWhile_append takeWhile_append)
  then show ?thesis by (subst split_nl.simps) simp
qed

lemma split_join_nl:
  "xs \<noteq> [] \<Longrightarrow> \<forall>x \<in> set xs. NL \<notin> set x \<Longrightarrow> split_nl (join_nl xs) = xs"
proof (induction "[NL]" xs rule: join.induct)
  case (3 x y zs)
  then show ?case by (simp add: split_nl_append)
qed (simp_all add: split_nl_no_nl)

text \<open>\<open>s.splitlines()\<close>: a final line break opens no further line; \<open>\r\n\<close> is one break.\<close>

function splitlines :: "string \<Rightarrow> string list" where
  "splitlines [] = []"
| "splitlines (c # cs) =
     (let s = c # cs; l = takeWhile (\<lambda>c. \<not> is_break c) s in
      case dropWhile (\<lambda>c. \<not> is_break c) s of
        [] \<Rightarrow> [l]
      | b # rest \<Rightarrow>
          l # splitlines (if b = CHR 0x0D \<and> rest \<noteq> [] \<and> hd rest = NL then tl rest else rest))"
  by pat_completeness auto
termination
proof (relation "measure length", goal_cases)
  case (2 c cs s l b rest)
  then have "length (b # rest) \<le> length (c # cs)" by (metis length_dropWhile_le)
  moreover have "length (if b = CHR 0x0D \<and> rest \<noteq> [] \<and> hd rest = NL then tl rest else rest)
    \<le> length rest" by simp
  ultimately show ?case by simp
qed simp

lemma splitlines_no_break: "s \<noteq> [] \<Longrightarrow> \<forall>c \<in> set s. \<not> is_break c \<Longrightarrow> splitlines s = [s]"
proof -
  assume ne: "s \<noteq> []" and nb: "\<forall>c \<in> set s. \<not> is_break c"
  then obtain c cs where s: "s = c # cs" by (cases s) auto
  have d: "dropWhile (\<lambda>c. \<not> is_break c) s = []" "takeWhile (\<lambda>c. \<not> is_break c) s = s"
    using nb by (simp_all add: takeWhile_eq_all_conv)
  show ?thesis unfolding s splitlines.simps Let_def
    using d unfolding s by (simp only: list.case)
qed

lemma splitlines_lines: "l \<in> set (splitlines s) \<Longrightarrow> c \<in> set l \<Longrightarrow> \<not> is_break c"
proof (induction s rule: splitlines.induct)
  case (2 d ds)
  then show ?case
    by (auto simp: Let_def dest: set_takeWhileD split: list.splits simp del: takeWhile.simps dropWhile.simps)
qed simp

lemma splitlines_append_nl:
  "\<forall>c \<in> set x. \<not> is_break c \<Longrightarrow> splitlines (x @ NL # s) = x # splitlines s"
proof -
  assume nb: "\<forall>c \<in> set x. \<not> is_break c"
  have d: "dropWhile (\<lambda>c. \<not> is_break c) (x @ NL # s) = NL # s"
    "takeWhile (\<lambda>c. \<not> is_break c) (x @ NL # s) = x"
    using nb by (auto simp: dropWhile_append takeWhile_append)
  obtain c cs where e: "x @ NL # s = c # cs" by (cases x) auto
  show ?thesis unfolding e splitlines.simps Let_def
    using d unfolding e by (simp only: list.case) simp
qed

text \<open>Joining lines and splitting them again gives them back, when none of them is cut by a break
  and the last one is not empty (an empty last line leaves no trace in the text).\<close>

lemma splitlines_join_nl:
  "\<forall>x \<in> set xs. \<forall>c \<in> set x. \<not> is_break c \<Longrightarrow> xs \<noteq> [] \<Longrightarrow> last xs \<noteq> [] \<Longrightarrow>
   splitlines (join_nl xs) = xs"
proof (induction "[NL]" xs rule: join.induct)
  case (2 x)
  then show ?case by (simp add: splitlines_no_break)
next
  case (3 x y zs)
  then show ?case by (simp add: splitlines_append_nl)
qed simp

definition starts_with :: "string \<Rightarrow> string \<Rightarrow> bool" where
  "starts_with s p = (take (length p) s = p)"

definition ends_with :: "string \<Rightarrow> string \<Rightarrow> bool" where
  "ends_with s p = (length p \<le> length s \<and> drop (length s - length p) s = p)"

lemma starts_with_prefix: "starts_with s p \<longleftrightarrow> prefix p s"
  unfolding starts_with_def prefix_def by (metis append_eq_conv_conj)

lemma starts_with_append [simp]: "starts_with (p @ s) p"
  by (simp add: starts_with_def)

text \<open>\<open>s.find(p)\<close> as an option: the least offset at which \<open>p\<close> occurs.\<close>

fun find_sub :: "string \<Rightarrow> string \<Rightarrow> nat option" where
  "find_sub p [] = (if p = [] then Some 0 else None)"
| "find_sub p (c # cs) =
     (if starts_with (c # cs) p then Some 0 else map_option Suc (find_sub p cs))"

definition contains :: "string \<Rightarrow> string \<Rightarrow> bool" where
  "contains p s = (find_sub p s \<noteq> None)"

lemma find_sub_Some:
  "find_sub p s = Some k \<Longrightarrow> \<exists>u v. s = u @ p @ v \<and> length u = k"
proof (induction p s arbitrary: k rule: find_sub.induct)
  case (2 p c cs)
  then show ?case
    by (fastforce split: if_splits simp: starts_with_prefix prefix_def intro: exI [of _ "c # _"])
qed (auto split: if_splits)

lemma find_sub_None: "find_sub p s = None \<longleftrightarrow> (\<nexists>u v. s = u @ p @ v)"
proof (induction p s rule: find_sub.induct)
  case (2 p c cs)
  show ?case
  proof (cases "starts_with (c # cs) p")
    case True
    then obtain v where "c # cs = [] @ p @ v" unfolding starts_with_prefix prefix_def by auto
    with True show ?thesis by (metis find_sub.simps(2) option.simps(3))
  next
    case False
    then have "(\<exists>u v. c # cs = u @ p @ v) \<longleftrightarrow> (\<exists>u v. cs = u @ p @ v)"
      unfolding starts_with_prefix prefix_def
      by (metis append_Cons append_eq_Cons_conv)
    with False "2.IH" show ?thesis by simp
  qed
qed auto

lemma contains_iff: "contains p s \<longleftrightarrow> (\<exists>u v. s = u @ p @ v)"
  using find_sub_None [of p s] by (auto simp: contains_def)

text \<open>\<open>s.split()\<close>: the fields between runs of white space.\<close>

function fields :: "string \<Rightarrow> string list" where
  "fields s =
     (case dropWhile is_space s of
        [] \<Rightarrow> []
      | c # cs \<Rightarrow> takeWhile (\<lambda>c. \<not> is_space c) (c # cs)
          # fields (dropWhile (\<lambda>c. \<not> is_space c) (c # cs)))"
  by pat_completeness auto
termination
proof (relation "measure length", goal_cases)
  case (2 s c cs)
  have "\<not> is_space c" using hd_dropWhile [of is_space s] 2 by simp
  then have "length (dropWhile (\<lambda>c. \<not> is_space c) (c # cs)) \<le> length cs"
    by (simp add: length_dropWhile_le)
  also have "\<dots> < length (c # cs)" by simp
  also have "\<dots> \<le> length s" using 2 by (metis length_dropWhile_le)
  finally show ?case by simp
qed simp

declare fields.simps [simp del]

section \<open>Decimal integers\<close>

definition digit_char :: "nat \<Rightarrow> char" where
  "digit_char d = ''0123456789'' ! d"

definition digit_val :: "char \<Rightarrow> nat" where
  "digit_val c = of_char c - 48"

fun str_nat :: "nat \<Rightarrow> string" where
  "str_nat n = (if n < 10 then [digit_char n] else str_nat (n div 10) @ [digit_char (n mod 10)])"

declare str_nat.simps [simp del]

definition nat_of_digits :: "string \<Rightarrow> nat" where
  "nat_of_digits ds = foldl (\<lambda>a c. a * 10 + digit_val c) 0 ds"

definition str_int :: "int \<Rightarrow> string" where
  "str_int i = (if i < 0 then CHR ''-'' # str_nat (nat (- i)) else str_nat (nat i))"

lemma digit_char_cases: "d < 10 \<Longrightarrow> d \<in> {0, 1, 2, 3, 4, 5, 6, 7, 8, 9::nat}"
  by auto

lemma digit_val_char: "d < 10 \<Longrightarrow> digit_val (digit_char d) = d"
  by (drule digit_char_cases) (auto simp: digit_val_def digit_char_def)

lemma is_digit_digit_char: "d < 10 \<Longrightarrow> is_digit (digit_char d)"
  by (drule digit_char_cases) (auto simp: is_digit_def digit_char_def)

lemma str_nat_digits: "c \<in> set (str_nat n) \<Longrightarrow> is_digit c"
proof (induction n rule: str_nat.induct)
  case (1 n)
  then show ?case
    by (cases "n < 10") (auto simp: str_nat.simps [of n] is_digit_digit_char)
qed

lemma str_nat_ne [simp]: "str_nat n \<noteq> []"
  by (subst str_nat.simps) simp

lemma nat_of_digits_str_nat [simp]: "nat_of_digits (str_nat n) = n"
proof (induction n rule: str_nat.induct)
  case (1 n)
  then show ?case
    by (cases "n < 10") (auto simp: str_nat.simps [of n] nat_of_digits_def digit_val_char)
qed

text \<open>The digits of an \<open>int\<close> literal: single underscores may stand between digits.\<close>

fun int_digits :: "bool \<Rightarrow> string \<Rightarrow> string option" where
  "int_digits after [] = (if after then Some [] else None)"
| "int_digits after (c # cs) =
     (if is_digit c then map_option (Cons c) (int_digits True cs)
      else if c = CHR ''_'' \<and> after then int_digits False cs else None)"

text \<open>CPython refuses to convert more than 4300 digits (\<open>sys.int_info.default_max_str_digits\<close>).\<close>

definition max_str_digits :: nat where "max_str_digits = 4300"

definition digits_value :: "string \<Rightarrow> nat option" where
  "digits_value s = (case int_digits False s of
     None \<Rightarrow> None
   | Some ds \<Rightarrow> if length ds \<le> max_str_digits then Some (nat_of_digits ds) else None)"

definition parse_int :: "string \<Rightarrow> int option" where
  "parse_int s = (case strip s of
     [] \<Rightarrow> None
   | c # cs \<Rightarrow>
       if c = CHR ''-'' then map_option (\<lambda>n. - int n) (digits_value cs)
       else if c = CHR ''+'' then map_option int (digits_value cs)
       else map_option int (digits_value (c # cs)))"

lemma int_digits_all: "\<forall>c \<in> set s. is_digit c \<Longrightarrow> s \<noteq> [] \<or> b \<Longrightarrow> int_digits b s = Some s"
  by (induction s arbitrary: b) auto

lemma int_digits_is_digit: "int_digits b s = Some ds \<Longrightarrow> c \<in> set ds \<Longrightarrow> is_digit c"
  by (induction b s arbitrary: ds rule: int_digits.induct) (auto split: if_splits)

lemma strip_digits: "\<forall>c \<in> set s. is_digit c \<Longrightarrow> strip s = s"
  unfolding strip_def
  by (rule strip_by_trimmed_id)
     (metis digit_not_space hd_in_set last_in_set trimmed_def)

lemma parse_int_str_nat:
  "length (str_nat n) \<le> max_str_digits \<Longrightarrow> parse_int (str_nat n) = Some (int n)"
proof -
  assume len: "length (str_nat n) \<le> max_str_digits"
  have d: "\<forall>c \<in> set (str_nat n). is_digit c" using str_nat_digits by blast
  obtain c cs where e: "str_nat n = c # cs" by (cases "str_nat n") auto
  have "c \<noteq> CHR ''-''" "c \<noteq> CHR ''+''" using d unfolding e by (auto simp: is_digit_def)
  moreover have "digits_value (str_nat n) = Some n"
    using len by (simp add: digits_value_def int_digits_all [OF d])
  ultimately show ?thesis
    unfolding parse_int_def strip_digits [OF d] by (simp add: e)
qed

end
