(* ===== verification/Py_Float.thy ===== *)
theory Py_Float
  imports Py_Text
begin

text \<open>
  Python's \<open>float\<close>: IEEE 754 binary64, as rational numbers. A finite float is the rational it stands
  for; \<open>fl64\<close> rounds an exact result to the nearest float, ties to even, with a 53-bit significand
  and the least exponent of the subnormal range. Every float operation of the modelled code is the
  exact operation followed by \<open>fl64\<close>. Overflow to infinity is modelled where text is converted
  (\<open>parse_float\<close>), the one place where the code can meet it; signed zero is not distinguished.

  The contract that component proofs use of rounding is the locale \<open>monotone_rounding\<close>, interpreted
  on \<open>fl64\<close>.
\<close>

section \<open>Rounding to nearest, ties to even\<close>

definition round_even :: "rat \<Rightarrow> int" where
  "round_even y = (let f = \<lfloor>y\<rfloor>; d = y - of_int f in
     if d < 1 / 2 then f else if 1 / 2 < d then f + 1 else if even f then f else f + 1)"

definition pow2 :: "int \<Rightarrow> rat" where
  "pow2 e = (if 0 \<le> e then 2 ^ nat e else 1 / 2 ^ nat (- e))"

text \<open>The exponent of the last place of the floats next to a positive rational.\<close>

definition ulp_exp :: "rat \<Rightarrow> int" where
  "ulp_exp x = (case quotient_of x of (p, q) \<Rightarrow>
     let e = bitlen p - bitlen q - 53 in max (-1074) (if x < pow2 (e + 53) then e else e + 1))"

definition fl_pos :: "rat \<Rightarrow> rat" where
  "fl_pos x = of_int (round_even (x / pow2 (ulp_exp x))) * pow2 (ulp_exp x)"

definition fl64 :: "rat \<Rightarrow> rat" where
  "fl64 x = (if x = 0 then 0 else if 0 < x then fl_pos x else - fl_pos (- x))"

definition is_double :: "rat \<Rightarrow> bool" where
  "is_double r \<longleftrightarrow> (\<exists>m e. r = of_int m * pow2 e \<and> \<bar>m\<bar> \<le> 2 ^ 53 \<and> -1074 \<le> e)"

lemma pow2_pos [simp]: "0 < pow2 e"
  by (simp add: pow2_def)

lemma pow2_ne0 [simp]: "pow2 e \<noteq> 0"
  using pow2_pos [of e] by linarith

lemma pow2_powi: "pow2 e = 2 powi e"
  by (simp add: pow2_def power_int_def power_one_over inverse_eq_divide)

lemma pow2_add: "pow2 (a + b) = pow2 a * pow2 b"
  by (simp add: pow2_powi power_int_add)

lemma pow2_nat: "pow2 (int n) = 2 ^ n"
  by (simp add: pow2_def)

lemma pow2_strict: "a < b \<Longrightarrow> pow2 a < pow2 b"
  unfolding pow2_powi by (rule power_int_strict_increasing) simp_all

lemma pow2_less: "pow2 a < pow2 b \<longleftrightarrow> a < b"
  using pow2_strict [of a b] pow2_strict [of b a] by (cases a b rule: linorder_cases) auto

lemma pow2_le: "pow2 a \<le> pow2 b \<longleftrightarrow> a \<le> b"
  by (simp add: pow2_less flip: not_less)

lemma round_even_int [simp]: "round_even (of_int n) = n"
  by (simp add: round_even_def)

lemma round_even_mono: "x \<le> y \<Longrightarrow> round_even x \<le> round_even y"
proof -
  assume le: "x \<le> y"
  then have f: "\<lfloor>x\<rfloor> \<le> \<lfloor>y\<rfloor>" by (rule floor_mono)
  show ?thesis
  proof (cases "\<lfloor>x\<rfloor> = \<lfloor>y\<rfloor>")
    case True
    then show ?thesis using le by (auto simp: round_even_def Let_def)
  next
    case False
    then have "\<lfloor>x\<rfloor> + 1 \<le> \<lfloor>y\<rfloor>" using f by simp
    moreover have "round_even x \<le> \<lfloor>x\<rfloor> + 1" "\<lfloor>y\<rfloor> \<le> round_even y"
      by (auto simp: round_even_def Let_def)
    ultimately show ?thesis by linarith
  qed
qed

lemma ulp_exp_bounds:
  assumes "0 < x"
  shows ulp_exp_upper: "x < pow2 (ulp_exp x + 53)"
    and ulp_exp_lower: "-1074 < ulp_exp x \<Longrightarrow> pow2 (ulp_exp x + 52) \<le> x"
    and ulp_exp_ge: "-1074 \<le> ulp_exp x"
proof -
  obtain p q where pq: "quotient_of x = (p, q)" by fastforce
  then have q: "0 < q" and x: "x = of_int p / of_int q"
    by (rule quotient_of_denom_pos, rule quotient_of_div)
  from assms q x have p: "0 < p" by (simp add: zero_less_divide_iff)
  let ?e = "bitlen p - bitlen q - 53"
  let ?k = "if x < pow2 (?e + 53) then ?e else ?e + 1"
  have bp: "2 ^ nat (bitlen p - 1) \<le> p" "p < 2 ^ nat (bitlen p)" using bitlen_bounds [OF p] by auto
  have bq: "2 ^ nat (bitlen q - 1) \<le> q" "q < 2 ^ nat (bitlen q)" using bitlen_bounds [OF q] by auto
  have np: "1 \<le> bitlen p" and nq: "1 \<le> bitlen q"
    using p q bitlen_nonneg [of p] bitlen_nonneg [of q] bitlen_eq_zero_iff [of p]
      bitlen_eq_zero_iff [of q] by linarith+
  have pow: "pow2 k = of_int (2 ^ nat k)" if "0 \<le> k" for k using that by (simp add: pow2_def)
  have P: "pow2 (bitlen p - 1) \<le> of_int p" "of_int p < pow2 (bitlen p)"
    using bp np by (simp_all only: pow [of "bitlen p - 1"] pow [of "bitlen p"] of_int_le_iff
        of_int_less_iff diff_ge_0_iff_ge bitlen_nonneg)
  have Q: "pow2 (bitlen q - 1) \<le> of_int q" "of_int q < pow2 (bitlen q)"
    using bq nq by (simp_all only: pow [of "bitlen q - 1"] pow [of "bitlen q"] of_int_le_iff
        of_int_less_iff diff_ge_0_iff_ge bitlen_nonneg)
  have q': "0 < (of_int q :: rat)" using q by simp
  have up: "x < pow2 (?e + 54)"
  proof -
    have "pow2 (?e + 54) * of_int q \<ge> pow2 (?e + 54) * pow2 (bitlen q - 1)"
      using Q(1) by (simp add: mult_left_mono less_imp_le)
    also have "pow2 (?e + 54) * pow2 (bitlen q - 1) = pow2 (bitlen p)"
      by (simp flip: pow2_add)
    finally have "of_int p < pow2 (?e + 54) * of_int q" using P(2) by linarith
    then show ?thesis using q' unfolding x by (simp add: divide_less_eq)
  qed
  have lo: "pow2 (?e + 52) \<le> x"
  proof -
    have "pow2 (?e + 52) * of_int q \<le> pow2 (?e + 52) * pow2 (bitlen q)"
      using Q(2) by (simp add: mult_left_mono less_imp_le)
    also have "\<dots> = pow2 (bitlen p - 1)" by (simp flip: pow2_add)
    finally have "pow2 (?e + 52) * of_int q \<le> of_int p" using P(1) by linarith
    then show ?thesis using q' unfolding x by (simp add: le_divide_eq)
  qed
  have u: "ulp_exp x = max (-1074) ?k" by (simp add: ulp_exp_def pq Let_def)
  have k: "x < pow2 (?k + 53)" "pow2 (?k + 52) \<le> x" using up lo by (auto simp: add.commute)
  have "pow2 (?k + 53) \<le> pow2 (ulp_exp x + 53)" unfolding u pow2_le by simp
  with k show "x < pow2 (ulp_exp x + 53)" by linarith
  show "-1074 \<le> ulp_exp x" unfolding u by simp
  show "pow2 (ulp_exp x + 52) \<le> x" if "-1074 < ulp_exp x"
  proof -
    from that have "ulp_exp x = ?k" unfolding u by (simp add: max_def split: if_split_asm)
    with k(2) show ?thesis by simp
  qed
qed

lemma fl_pos_le_pow2: "0 < x \<Longrightarrow> fl_pos x \<le> pow2 (ulp_exp x + 53)"
proof -
  assume x: "0 < x"
  have "x / pow2 (ulp_exp x) \<le> of_int (2 ^ 53)"
    using ulp_exp_upper [OF x] by (simp add: divide_le_eq pow2_add pow2_def [of 53] mult.commute)
  then have "round_even (x / pow2 (ulp_exp x)) \<le> round_even (of_int (2 ^ 53))"
    by (rule round_even_mono)
  then have "of_int (round_even (x / pow2 (ulp_exp x))) \<le> (2 ^ 53 :: rat)"
    unfolding round_even_int by (metis of_int_le_iff of_int_numeral of_int_power)
  then have "fl_pos x \<le> 2 ^ 53 * pow2 (ulp_exp x)"
    unfolding fl_pos_def by (rule mult_right_mono) (simp add: less_imp_le)
  then show ?thesis by (simp add: pow2_add pow2_def [of 53] mult.commute)
qed

lemma fl_pos_nonneg: "0 \<le> x \<Longrightarrow> 0 \<le> fl_pos x"
proof -
  assume "0 \<le> x"
  then have "0 \<le> x / pow2 (ulp_exp x)" by (simp add: less_imp_le)
  then have "round_even (of_int 0) \<le> round_even (x / pow2 (ulp_exp x))"
    by (intro round_even_mono) simp
  then show ?thesis unfolding fl_pos_def round_even_int by (simp add: less_imp_le)
qed

lemma fl_pos_ge_pow2: "0 < y \<Longrightarrow> -1074 < ulp_exp y \<Longrightarrow> pow2 (ulp_exp y + 52) \<le> fl_pos y"
proof -
  assume y: "0 < y" and e: "-1074 < ulp_exp y"
  have "of_int (2 ^ 52) \<le> y / pow2 (ulp_exp y)"
    using ulp_exp_lower [OF y e] by (simp add: le_divide_eq pow2_add pow2_def [of 52] mult.commute)
  then have "round_even (of_int (2 ^ 52)) \<le> round_even (y / pow2 (ulp_exp y))"
    by (rule round_even_mono)
  then have "(2 ^ 52 :: rat) \<le> of_int (round_even (y / pow2 (ulp_exp y)))"
    unfolding round_even_int by (metis of_int_le_iff of_int_numeral of_int_power)
  then have "2 ^ 52 * pow2 (ulp_exp y) \<le> fl_pos y"
    unfolding fl_pos_def by (rule mult_right_mono) (simp add: less_imp_le)
  then show ?thesis by (simp add: pow2_add pow2_def [of 52] mult.commute)
qed

lemma fl_pos_mono: "0 < x \<Longrightarrow> x \<le> y \<Longrightarrow> fl_pos x \<le> fl_pos y"
proof -
  assume x: "0 < x" and le: "x \<le> y"
  then have y: "0 < y" by simp
  consider "ulp_exp x = ulp_exp y" | "ulp_exp x < ulp_exp y" | "ulp_exp y < ulp_exp x" by linarith
  then show ?thesis
  proof cases
    case 1
    have "round_even (x / pow2 (ulp_exp y)) \<le> round_even (y / pow2 (ulp_exp y))"
      using le by (intro round_even_mono) (simp add: divide_right_mono less_imp_le)
    then show ?thesis unfolding fl_pos_def 1 by (simp add: mult_right_mono less_imp_le)
  next
    case 2
    then have e: "-1074 < ulp_exp y" using ulp_exp_ge [OF x] by simp
    have "fl_pos x \<le> pow2 (ulp_exp x + 53)" by (rule fl_pos_le_pow2 [OF x])
    also have "\<dots> \<le> pow2 (ulp_exp y + 52)" using 2 by (simp add: pow2_le)
    also have "\<dots> \<le> fl_pos y" by (rule fl_pos_ge_pow2 [OF y e])
    finally show ?thesis .
  next
    case 3
    then have "pow2 (ulp_exp x + 52) \<le> x" using ulp_exp_lower [OF x] ulp_exp_ge [OF y] by simp
    moreover have "pow2 (ulp_exp y + 53) \<le> pow2 (ulp_exp x + 52)" using 3 by (simp add: pow2_le)
    ultimately have "y < x" using ulp_exp_upper [OF y] by linarith
    with le show ?thesis by simp
  qed
qed

lemma fl64_0 [simp]: "fl64 0 = 0"
  by (simp add: fl64_def)

lemma fl64_minus: "fl64 (- x) = - fl64 x"
  by (simp add: fl64_def)

lemma fl64_mono: "x \<le> y \<Longrightarrow> fl64 x \<le> fl64 y"
proof -
  assume le: "x \<le> y"
  consider "0 < x" | "y < 0" | "x \<le> 0" "0 \<le> y" using le by linarith
  then show ?thesis
  proof cases
    case 1
    then show ?thesis using le fl_pos_mono by (simp add: fl64_def)
  next
    case 2
    then show ?thesis using le fl_pos_mono [of "- y" "- x"] by (simp add: fl64_def)
  next
    case 3
    then have "fl64 x \<le> 0" "0 \<le> fl64 y"
      using fl_pos_nonneg [of y] fl_pos_nonneg [of "- x"] by (auto simp: fl64_def)
    then show ?thesis by linarith
  qed
qed

text \<open>Floats are exactly the fixed points of rounding.\<close>

lemma fl_pos_double:
  assumes r: "0 < r" and d: "is_double r"
  shows "fl_pos r = r"
proof -
  obtain m e where m: "r = of_int m * pow2 e" and b: "\<bar>m\<bar> \<le> 2 ^ 53" and e: "-1074 \<le> e"
    using d unfolding is_double_def by blast
  let ?u = "ulp_exp r"
  have "\<exists>k. r / pow2 ?u = of_int k"
  proof (cases "?u \<le> e")
    case True
    then have "pow2 e = pow2 (?u + int (nat (e - ?u)))" by simp
    also have "\<dots> = pow2 ?u * 2 ^ nat (e - ?u)" by (simp only: pow2_add pow2_nat)
    finally have "pow2 e / pow2 ?u = 2 ^ nat (e - ?u)" by simp
    then have "r / pow2 ?u = of_int (m * 2 ^ nat (e - ?u))"
      using m by (metis of_int_mult of_int_numeral of_int_power times_divide_eq_right)
    then show ?thesis ..
  next
    case False
    with e have u: "-1074 < ?u" by simp
    have "pow2 (?u + 52) \<le> r" by (rule ulp_exp_lower [OF r u])
    moreover have "of_int m \<le> (2 ^ 53 :: rat)" using b
      by (metis abs_le_D1 of_int_le_iff of_int_numeral of_int_power)
    then have "r \<le> pow2 (e + 53)" unfolding m
      by (simp add: pow2_add pow2_def [of 53] mult.commute mult_right_mono less_imp_le)
    ultimately have "pow2 (?u + 52) \<le> pow2 (e + 53)" by linarith
    then have "?u = e + 1" using False unfolding pow2_le by simp
    then have "pow2 (?u + 52) = pow2 (e + 53)" by (simp add: add.commute)
    then have "r = pow2 (?u + 52)"
      using \<open>pow2 (?u + 52) \<le> r\<close> \<open>r \<le> pow2 (e + 53)\<close> by linarith
    then have "r / pow2 ?u = pow2 52"
      by (metis pow2_add pow2_ne0 nonzero_mult_div_cancel_left)
    then have "r / pow2 ?u = of_int (2 ^ 52)" by (simp add: pow2_def [of 52])
    then show ?thesis ..
  qed
  then obtain k where k: "r / pow2 ?u = of_int k" ..
  then have "of_int k * pow2 ?u = r" by (metis nonzero_eq_divide_eq pow2_ne0)
  then show ?thesis by (simp add: fl_pos_def k)
qed

lemma is_double_minus: "is_double (- r) \<longleftrightarrow> is_double r"
proof -
  have "is_double r \<Longrightarrow> is_double (- r)" for r
  proof -
    assume "is_double r"
    then obtain m e where "r = of_int m * pow2 e" "\<bar>m\<bar> \<le> 2 ^ 53" "-1074 \<le> e"
      unfolding is_double_def by blast
    then have "- r = of_int (- m) * pow2 e" "\<bar>- m\<bar> \<le> 2 ^ 53" by simp_all
    with \<open>-1074 \<le> e\<close> show ?thesis unfolding is_double_def by blast
  qed
  from this [of r] this [of "- r"] show ?thesis by auto
qed

lemma fl64_double: "is_double r \<Longrightarrow> fl64 r = r"
  using fl_pos_double [of r] fl_pos_double [of "- r"] by (auto simp: fl64_def is_double_minus)

lemma is_double_fl_pos: "0 < x \<Longrightarrow> is_double (fl_pos x)"
proof -
  assume x: "0 < x"
  let ?m = "round_even (x / pow2 (ulp_exp x))"
  have "of_int ?m * pow2 (ulp_exp x) \<le> 2 ^ 53 * pow2 (ulp_exp x)"
    using fl_pos_le_pow2 [OF x] by (simp add: fl_pos_def pow2_add pow2_def [of 53] mult.commute)
  then have "of_int ?m \<le> (2 ^ 53 :: rat)" by (simp add: mult_le_cancel_right)
  then have "?m \<le> 2 ^ 53" by (metis of_int_le_iff of_int_numeral of_int_power)
  moreover have "0 \<le> of_int ?m * pow2 (ulp_exp x)"
    using fl_pos_nonneg [of x] x by (simp add: fl_pos_def)
  then have "0 \<le> ?m" using pow2_pos [of "ulp_exp x"] by (auto simp: zero_le_mult_iff)
  ultimately show ?thesis unfolding is_double_def fl_pos_def
    using ulp_exp_ge [OF x] by (metis abs_of_nonneg)
qed

lemma is_double_fl64: "is_double (fl64 x)"
proof (cases "x = 0")
  case True
  have "is_double 0" unfolding is_double_def by (rule exI [of _ 0], rule exI [of _ 0]) simp
  with True show ?thesis by simp
next
  case False
  then show ?thesis
    using is_double_fl_pos [of x] is_double_fl_pos [of "- x"] by (auto simp: fl64_def is_double_minus)
qed

lemma is_double_int: "\<bar>n\<bar> \<le> 2 ^ 53 \<Longrightarrow> is_double (of_int n)"
  unfolding is_double_def by (rule exI [of _ n], rule exI [of _ 0]) (simp add: pow2_def)

section \<open>What components use of rounding\<close>

locale monotone_rounding =
  fixes rd :: "rat \<Rightarrow> rat" and exact :: "rat \<Rightarrow> bool"
  assumes rd_mono: "x \<le> y \<Longrightarrow> rd x \<le> rd y"
    and rd_exact: "exact r \<Longrightarrow> rd r = r"
    and exact_rd: "exact (rd x)"
begin

lemma rd_idem: "rd (rd x) = rd x"
  by (rule rd_exact [OF exact_rd])

lemma rd_lower: "exact lo \<Longrightarrow> lo \<le> x \<Longrightarrow> lo \<le> rd x"
  using rd_mono [of lo x] rd_exact [of lo] by simp

lemma rd_upper: "exact hi \<Longrightarrow> x \<le> hi \<Longrightarrow> rd x \<le> hi"
  using rd_mono [of x hi] rd_exact [of hi] by simp

end

interpretation double: monotone_rounding fl64 is_double
  by unfold_locales (auto intro: fl64_mono fl64_double is_double_fl64)

lemma fl64_idem [simp]: "fl64 (fl64 x) = fl64 x"
  by (rule double.rd_idem)

lemma is_double_01 [simp]: "is_double 0" "is_double 1"
  using is_double_int [of 0] is_double_int [of 1] by simp_all

lemma fl64_unit: "0 \<le> x \<Longrightarrow> x \<le> 1 \<Longrightarrow> 0 \<le> fl64 x \<and> fl64 x \<le> 1"
  by (simp add: double.rd_lower double.rd_upper)


section \<open>Float values, sums and text\<close>

datatype pyfloat = FNan | FInf bool | FFin rat

text \<open>
  \<open>sum(xs)\<close> over floats in CPython 3.12 and later (the repository requires 3.12): Neumaier's
  compensated summation. The state is the running sum and the compensation.
\<close>

fun fsum_step :: "rat \<times> rat \<Rightarrow> rat \<Rightarrow> rat \<times> rat" where
  "fsum_step (f, c) x =
     (let t = fl64 (f + x) in
      (t, fl64 (c + (if \<bar>x\<bar> \<le> \<bar>f\<bar> then fl64 (fl64 (f - t) + x) else fl64 (fl64 (x - t) + f)))))"

definition py_fsum :: "rat list \<Rightarrow> rat" where
  "py_fsum xs = (case xs of [] \<Rightarrow> 0
     | y # ys \<Rightarrow> (case foldl fsum_step (y, 0) ys of (f, c) \<Rightarrow> if c = 0 then f else fl64 (f + c)))"

lemma py_fsum_Nil [simp]: "py_fsum [] = 0"
  by (simp add: py_fsum_def)

lemma fsum_zeros: "\<forall>x \<in> set xs. x = 0 \<Longrightarrow> is_double f \<Longrightarrow> foldl fsum_step (f, 0) xs = (f, 0)"
  by (induction xs) (auto simp: fl64_double Let_def)

text \<open>Terms of weight zero leave a sum as it is: adding zero is exact in floating point.\<close>

lemma fsum_step_zero: "is_double f \<Longrightarrow> is_double c \<Longrightarrow> fsum_step (f, c) 0 = (f, c)"
  by (simp add: fl64_double Let_def)

lemma fsum_step_double: "is_double (fst (fsum_step s x)) \<and> is_double (snd (fsum_step s x))"
  by (cases s) (simp add: Let_def is_double_fl64)

lemma foldl_fsum_filter:
  "is_double (fst s) \<Longrightarrow> is_double (snd s) \<Longrightarrow>
   foldl fsum_step s (filter (\<lambda>x. x \<noteq> 0) xs) = foldl fsum_step s xs"
proof (induction xs arbitrary: s)
  case (Cons x xs)
  show ?case
  proof (cases "x = 0")
    case True
    then have "fsum_step s x = s"
      using Cons.prems by (cases s) (simp add: fsum_step_zero del: fsum_step.simps)
    then show ?thesis using True Cons by simp
  next
    case False
    then show ?thesis using Cons.IH [of "fsum_step s x"] fsum_step_double [of s x] by simp
  qed
qed simp

lemma fsum_step_from_zero: "is_double y \<Longrightarrow> fsum_step (0, 0) y = (y, 0)"
  by (simp add: Let_def fl64_double)

lemma py_fsum_foldl:
  assumes "\<forall>x \<in> set xs. is_double x"
  shows "py_fsum xs = (case foldl fsum_step (0, 0) xs of (f, c) \<Rightarrow> if c = 0 then f else fl64 (f + c))"
  using assms by (cases xs) (auto simp: py_fsum_def fsum_step_from_zero simp del: fsum_step.simps)

lemma py_fsum_filter_zero:
  assumes "\<forall>x \<in> set xs. is_double x"
  shows "py_fsum (filter (\<lambda>x. x \<noteq> 0) xs) = py_fsum xs"
  using assms by (simp add: py_fsum_foldl foldl_fsum_filter)

text \<open>\<open>float(text)\<close>: \<open>None\<close> is the \<open>ValueError\<close>; a value beyond the range is an infinity.\<close>

definition to_double :: "rat \<Rightarrow> pyfloat" where
  "to_double r = (let v = fl64 r in if 2 ^ 1024 \<le> \<bar>v\<bar> then FInf (v < 0) else FFin v)"

lemma to_double_small: "\<bar>v\<bar> < (1024 :: rat) \<Longrightarrow> \<not> 2 ^ 1024 \<le> \<bar>v\<bar>"
  by (rule notI, drule (1) order_le_less_trans) simp

text \<open>A value this small never overflows, and is evaluated without the bound.\<close>

lemma to_double_code [code]:
  "to_double r = (let v = fl64 r in if \<bar>v\<bar> < 1024 then FFin v else if 2 ^ 1024 \<le> \<bar>v\<bar> then FInf (v < 0) else FFin v)"
  using to_double_small [of "fl64 r"] by (simp add: to_double_def Let_def)

text \<open>
  Float addition and comparison with the special values. Only two magnitudes beyond the largest double
  make a sum of finite values infinite; the compensated sum itself is stated on finite values, and a
  sum that meets a special value is the plain left-to-right sum (its compensation is a NaN, which
  CPython drops).
\<close>

fun fl_add :: "pyfloat \<Rightarrow> pyfloat \<Rightarrow> pyfloat" where
  "fl_add (FFin a) (FFin b) = to_double (a + b)"
| "fl_add (FInf a) (FFin b) = FInf a"
| "fl_add (FFin a) (FInf b) = FInf b"
| "fl_add (FInf a) (FInf b) = (if a = b then FInf a else FNan)"
| "fl_add x y = FNan"

fun fl_less :: "pyfloat \<Rightarrow> pyfloat \<Rightarrow> bool" where
  "fl_less (FFin a) (FFin b) = (a < b)"
| "fl_less (FInf a) (FFin b) = a"
| "fl_less (FFin a) (FInf b) = (\<not> b)"
| "fl_less (FInf a) (FInf b) = (a \<and> \<not> b)"
| "fl_less x y = False"

definition fl_finite :: "pyfloat \<Rightarrow> bool" where
  "fl_finite x = (case x of FFin r \<Rightarrow> True | _ \<Rightarrow> False)"

definition fl_val :: "pyfloat \<Rightarrow> rat" where
  "fl_val x = (case x of FFin r \<Rightarrow> r | _ \<Rightarrow> 0)"

definition py_sum :: "pyfloat list \<Rightarrow> pyfloat" where
  "py_sum xs = (if list_all fl_finite xs then FFin (py_fsum (map fl_val xs))
     else foldl fl_add (FFin 0) xs)"

definition py_max :: "pyfloat \<Rightarrow> pyfloat \<Rightarrow> pyfloat" where
  "py_max a b = (if fl_less a b then b else a)"

definition py_min :: "pyfloat \<Rightarrow> pyfloat \<Rightarrow> pyfloat" where
  "py_min a b = (if fl_less b a then b else a)"

lemma fl_finite_simps [simp]: "fl_finite (FFin r)" "\<not> fl_finite FNan" "\<not> fl_finite (FInf b)"
  by (simp_all add: fl_finite_def)

lemma fl_val_simp [simp]: "fl_val (FFin r) = r"
  by (simp add: fl_val_def)

lemma fl_less_NaN [simp]: "\<not> fl_less FNan x" "\<not> fl_less x FNan"
  by (cases x; simp)+

lemma to_double_cases: "to_double r = FFin (fl64 r) \<or> (\<exists>b. to_double r = FInf b)"
  by (simp add: to_double_def Let_def)

lemma fl_add_not_nan: "fl_add (FFin a) (FFin b) \<noteq> FNan"
  using to_double_cases [of "a + b"] by auto

lemma foldl_fl_add_NaN: "foldl fl_add FNan xs = FNan"
proof (induction xs)
  case (Cons x xs)
  have "fl_add FNan x = FNan" by (cases x) simp_all
  then show ?case using Cons by simp
qed simp

lemma fl_add_NaN [simp]: "fl_add x FNan = FNan" "fl_add FNan x = FNan"
  by (cases x; simp)+

lemma py_sum_NaN: "FNan \<in> set xs \<Longrightarrow> py_sum xs = FNan"
proof -
  assume nan: "FNan \<in> set xs"
  have "foldl fl_add s xs = FNan" for s
    using nan
  proof (induction xs arbitrary: s)
    case (Cons x xs)
    then show ?case by (cases "x = FNan") (auto simp: foldl_fl_add_NaN)
  qed simp
  moreover have "\<not> list_all fl_finite xs" using nan fl_finite_simps(2) by (metis list_all_iff)
  ultimately show ?thesis by (simp only: py_sum_def if_False)
qed

definition opt_digits :: "string \<Rightarrow> string option" where
  "opt_digits s = (if s = [] then Some [] else int_digits False s)"

definition split_sign :: "string \<Rightarrow> bool \<times> string" where
  "split_sign s = (case s of [] \<Rightarrow> (False, [])
     | c # cs \<Rightarrow> if c = CHR ''-'' then (True, cs) else if c = CHR ''+'' then (False, cs) else (False, s))"

definition parse_exponent :: "string \<Rightarrow> int option" where
  "parse_exponent s = (case split_sign s of (neg, ds) \<Rightarrow>
     map_option (\<lambda>d. (if neg then - 1 else 1) * int (nat_of_digits d)) (int_digits False ds))"

definition parse_decimal :: "string \<Rightarrow> rat option" where
  "parse_decimal s =
     (let is_e = (\<lambda>c. c = CHR ''e'' \<or> c = CHR ''E'');
          mant = takeWhile (\<lambda>c. \<not> is_e c) s; ex = dropWhile (\<lambda>c. \<not> is_e c) s;
          ip = takeWhile (\<lambda>c. c \<noteq> CHR ''.'') mant; fp = drop 1 (dropWhile (\<lambda>c. c \<noteq> CHR ''.'') mant)
      in case (opt_digits ip, opt_digits fp, if ex = [] then Some 0 else parse_exponent (tl ex)) of
           (Some i, Some f, Some e) \<Rightarrow>
             if i = [] \<and> f = [] then None
             else Some (of_nat (nat_of_digits (i @ f)) * 10 powi (e - int (length f)))
         | _ \<Rightarrow> None)"

definition parse_float :: "string \<Rightarrow> pyfloat option" where
  "parse_float s = (case split_sign (strip s) of (neg, body) \<Rightarrow>
     if lower body \<in> {''inf'', ''infinity''} then Some (FInf neg)
     else if lower body = ''nan'' then Some FNan
     else map_option (\<lambda>r. to_double (if neg then - r else r)) (parse_decimal body))"

lemma parse_float_double: "parse_float s = Some (FFin r) \<Longrightarrow> is_double r"
  by (auto simp: parse_float_def to_double_def Let_def is_double_fl64 split: prod.splits if_splits)

text \<open>\<open>int(x)\<close> of a finite float: truncation towards zero.\<close>

definition trunc :: "rat \<Rightarrow> int" where
  "trunc r = (if 0 \<le> r then \<lfloor>r\<rfloor> else \<lceil>r\<rceil>)"

lemma trunc_of_int [simp]: "trunc (of_int n) = n"
  by (simp add: trunc_def)

text \<open>
  \<open>repr(x)\<close>: the shortest decimal that rounds to \<open>x\<close>, the nearest one of that length. Any decimal of
  \<open>n\<close> digits that rounds to \<open>x\<close> has a neighbour of \<open>x\<close> on its own side that does, so the two
  candidates next to \<open>x\<close> are enough.
\<close>

definition dec_exp :: "rat \<Rightarrow> int" where
  "dec_exp x = (case quotient_of x of (p, q) \<Rightarrow>
     let k = int (length (str_nat (nat p))) - int (length (str_nat (nat q)))
     in if 10 powi k \<le> x then k else k - 1)"

definition dec_candidate :: "rat \<Rightarrow> nat \<Rightarrow> int option" where
  "dec_candidate x n =
     (let s = 10 powi (dec_exp x - int n + 1); lo = \<lfloor>x / s\<rfloor>; hi = \<lceil>x / s\<rceil>;
          ok = (\<lambda>m. fl64 (of_int m * s) = x)
      in if ok lo \<and> (ok hi \<longrightarrow> round_even (x / s) = lo) then Some lo
         else if ok hi then Some hi else None)"

definition strip_zeros :: "string \<Rightarrow> string" where
  "strip_zeros ds = rev (dropWhile (\<lambda>c. c = CHR ''0'') (rev ds))"

definition repr_digits :: "string \<Rightarrow> int \<Rightarrow> string" where
  "repr_digits ds pt =
     (let n = int (length ds) in
      if -4 < pt \<and> pt \<le> 16 then
        (if pt \<le> 0 then ''0.'' @ replicate (nat (- pt)) (CHR ''0'') @ ds
         else if n \<le> pt then ds @ replicate (nat (pt - n)) (CHR ''0'') @ ''.0''
         else take (nat pt) ds @ ''.'' @ drop (nat pt) ds)
      else take 1 ds @ (if n = 1 then [] else ''.'' @ drop 1 ds) @ ''e'' @
        (if pt \<le> 0 then ''-'' else ''+'') @
        (let e = str_nat (nat \<bar>pt - 1\<bar>) in if length e = 1 then CHR ''0'' # e else e))"

definition repr_pos :: "rat \<Rightarrow> string" where
  "repr_pos x = (case List.map_filter (\<lambda>n. map_option (Pair n) (dec_candidate x n)) [1..<18] of
     [] \<Rightarrow> []
   | (n, m) # _ \<Rightarrow>
       (let ds = str_nat (nat m); pt = dec_exp x + 1 + (int (length ds) - int n)
        in repr_digits (strip_zeros ds) pt))"

definition float_repr :: "pyfloat \<Rightarrow> string" where
  "float_repr f = (case f of
     FNan \<Rightarrow> ''nan'' | FInf neg \<Rightarrow> (if neg then ''-inf'' else ''inf'')
   | FFin r \<Rightarrow> if r = 0 then ''0.0'' else if 0 < r then repr_pos r else CHR ''-'' # repr_pos (- r))"

end
