(* ===== verification/Py_Value.thy ===== *)
theory Py_Value
  imports Py_Float
begin

text \<open>
  The values the code passes around untyped: a finding is a \<open>dict[str, Any]\<close> that came from JSON, a
  cache or the database. \<open>pyval\<close> has the JSON types; a dictionary is an association list in
  insertion order, so \<open>d[k] = v\<close> is \<open>AList.update\<close> and \<open>d.pop(k, None)\<close> is \<open>AList.delete\<close>. The theory
  holds truth values, \<open>dict.get\<close>, \<open>x or y\<close>, \<open>str(x)\<close> and the well-formedness (no key twice) that
  every dictionary operation keeps.
\<close>

datatype pyval = PNone | PBool bool | PInt int | PFloat pyfloat | PStr string
  | PList "pyval list" | PDict "(string \<times> pyval) list"

type_synonym pydict = "(string \<times> pyval) list"

section \<open>Truth and access\<close>

fun truthy :: "pyval \<Rightarrow> bool" where
  "truthy PNone = False"
| "truthy (PBool b) = b"
| "truthy (PInt i) = (i \<noteq> 0)"
| "truthy (PFloat f) = (f \<noteq> FFin 0)"
| "truthy (PStr s) = (s \<noteq> [])"
| "truthy (PList xs) = (xs \<noteq> [])"
| "truthy (PDict d) = (d \<noteq> [])"

definition py_or :: "pyval \<Rightarrow> pyval \<Rightarrow> pyval" where
  "py_or a b = (if truthy a then a else b)"

text \<open>\<open>d.get(k, dflt)\<close> and \<open>d.get(k)\<close>.\<close>

definition get_or :: "pydict \<Rightarrow> string \<Rightarrow> pyval \<Rightarrow> pyval" where
  "get_or d k dflt = (case map_of d k of None \<Rightarrow> dflt | Some v \<Rightarrow> v)"

abbreviation get :: "pydict \<Rightarrow> string \<Rightarrow> pyval" where "get d k \<equiv> get_or d k PNone"

abbreviation put :: "string \<Rightarrow> pyval \<Rightarrow> pydict \<Rightarrow> pydict" where "put k v d \<equiv> AList.update k v d"

abbreviation pop :: "string \<Rightarrow> pydict \<Rightarrow> pydict" where "pop k d \<equiv> AList.delete k d"

definition has_key :: "pydict \<Rightarrow> string \<Rightarrow> bool" where
  "has_key d k = (map_of d k \<noteq> None)"

definition wf_dict :: "pydict \<Rightarrow> bool" where
  "wf_dict d = distinct (map fst d)"

lemma get_put [simp]: "get_or (put k v d) k' dflt = (if k' = k then v else get_or d k' dflt)"
  by (simp add: get_or_def)

lemma get_pop [simp]: "get_or (pop k d) k' dflt = (if k' = k then dflt else get_or d k' dflt)"
  by (simp add: get_or_def)

lemma get_Nil [simp]: "get_or [] k dflt = dflt"
  by (simp add: get_or_def)

lemma wf_put [simp]: "wf_dict d \<Longrightarrow> wf_dict (put k v d)"
  by (simp add: wf_dict_def distinct_update)

lemma wf_pop [simp]: "wf_dict d \<Longrightarrow> wf_dict (pop k d)"
  by (simp add: wf_dict_def distinct_delete)

lemma has_key_put [simp]: "has_key (put k v d) k' \<longleftrightarrow> k' = k \<or> has_key d k'"
  by (simp add: has_key_def)

lemma put_ne [simp]: "put k v d \<noteq> []"
  by (cases d) auto

text \<open>The dictionary contract: what a reader sees after each write.\<close>

locale dict_contract =
  fixes emp :: 'd and upd :: "'k \<Rightarrow> 'v \<Rightarrow> 'd \<Rightarrow> 'd" and del :: "'k \<Rightarrow> 'd \<Rightarrow> 'd"
    and look :: "'d \<Rightarrow> 'k \<Rightarrow> 'v option" and ok :: "'d \<Rightarrow> bool"
  assumes look_emp: "look emp k = None"
    and look_upd: "look (upd k v d) k' = (if k' = k then Some v else look d k')"
    and look_del: "look (del k d) k' = (if k' = k then None else look d k')"
    and ok_emp: "ok emp"
    and ok_upd: "ok d \<Longrightarrow> ok (upd k v d)"
    and ok_del: "ok d \<Longrightarrow> ok (del k d)"
begin

lemma look_upd_same: "look (upd k v d) k = Some v"
  by (simp add: look_upd)

lemma look_upd_other: "k' \<noteq> k \<Longrightarrow> look (upd k v d) k' = look d k'"
  by (simp add: look_upd)

lemma look_del_upd: "k' \<noteq> k \<Longrightarrow> look (del k (upd k v d)) k' = look d k'"
  by (simp add: look_upd look_del)

lemma ok_fold_upd: "ok d \<Longrightarrow> ok (foldl (\<lambda>d (k, v). upd k v d) d kvs)"
  by (induction kvs arbitrary: d) (auto simp: ok_upd)

end

interpretation pdict: dict_contract "[] :: pydict" AList.update AList.delete map_of wf_dict
  by unfold_locales (auto simp: wf_dict_def distinct_update distinct_delete)

section \<open>Text of a value\<close>

definition hex_digit :: "nat \<Rightarrow> char" where
  "hex_digit d = ''0123456789abcdef'' ! d"

definition repr_char :: "char \<Rightarrow> char \<Rightarrow> string" where
  "repr_char q c = (let n = (of_char c :: nat) in
     if c = q \<or> c = CHR 0x5C then [CHR 0x5C, c]
     else if c = NL then [CHR 0x5C, CHR ''n''] else if c = CHR 0x0D then [CHR 0x5C, CHR ''r'']
     else if c = CHR 0x09 then [CHR 0x5C, CHR ''t'']
     else if n < 32 \<or> 127 \<le> n \<and> n \<le> 160 \<or> n = 173
       then [CHR 0x5C, CHR ''x'', hex_digit (n div 16), hex_digit (n mod 16)]
     else [c])"

definition repr_str :: "string \<Rightarrow> string" where
  "repr_str s = (let q = (if CHR 0x27 \<in> set s \<and> CHR 0x22 \<notin> set s then CHR 0x22 else CHR 0x27)
     in q # concat (map (repr_char q) s) @ [q])"

fun py_repr :: "pyval \<Rightarrow> string" where
  "py_repr PNone = ''None''"
| "py_repr (PBool b) = (if b then ''True'' else ''False'')"
| "py_repr (PInt i) = str_int i"
| "py_repr (PFloat f) = float_repr f"
| "py_repr (PStr s) = repr_str s"
| "py_repr (PList xs) = ''['' @ join '', '' (map py_repr xs) @ '']''"
| "py_repr (PDict d) =
     ''{'' @ join '', '' (map (\<lambda>(k, v). repr_str k @ '': '' @ py_repr v) d) @ ''}''"

definition py_str :: "pyval \<Rightarrow> string" where
  "py_str v = (case v of PStr s \<Rightarrow> s | _ \<Rightarrow> py_repr v)"

lemma py_str_PStr [simp]: "py_str (PStr s) = s"
  by (simp add: py_str_def)

text \<open>\<open>str(d.get(k) or "")\<close>, the reading most text fields get.\<close>

definition text_field :: "pydict \<Rightarrow> string \<Rightarrow> string" where
  "text_field d k = py_str (py_or (get d k) (PStr []))"

lemma text_field_put [simp]:
  "text_field (put k v d) k' = (if k' = k then py_str (py_or v (PStr [])) else text_field d k')"
  by (simp add: text_field_def)

text \<open>\<open>isinstance\<close> tests, as the sub-value or nothing.\<close>

definition as_dict :: "pyval \<Rightarrow> pydict option" where
  "as_dict v = (case v of PDict d \<Rightarrow> Some d | _ \<Rightarrow> None)"

definition as_list :: "pyval \<Rightarrow> pyval list option" where
  "as_list v = (case v of PList xs \<Rightarrow> Some xs | _ \<Rightarrow> None)"

text \<open>\<open>float(x)\<close> of a value, and iteration over one.\<close>

definition py_float :: "pyval \<Rightarrow> pyfloat result" where
  "py_float v = (case v of
     PFloat f \<Rightarrow> Ret f
   | PBool b \<Rightarrow> Ret (FFin (of_bool b))
   | PInt i \<Rightarrow> (case to_double (of_int i) of FFin r \<Rightarrow> Ret (FFin r) | _ \<Rightarrow> Raise OverflowError)
   | PStr s \<Rightarrow> (case parse_float (strip s) of Some f \<Rightarrow> Ret f | None \<Rightarrow> Raise ValueError)
   | _ \<Rightarrow> Raise TypeError)"

definition py_iter :: "pyval \<Rightarrow> pyval list result" where
  "py_iter v = (case v of
     PList xs \<Rightarrow> Ret xs
   | PStr s \<Rightarrow> Ret (map (\<lambda>c. PStr [c]) s)
   | PDict d \<Rightarrow> Ret (map (\<lambda>(k, _). PStr k) d)
   | _ \<Rightarrow> Raise TypeError)"

lemma py_float_simps [simp]: "py_float (PFloat f) = Ret f"
  by (simp add: py_float_def)

lemma py_iter_simps [simp]: "py_iter (PList xs) = Ret xs"
  by (simp add: py_iter_def)

lemma as_dict_simps [simp]: "as_dict (PDict d) = Some d" "as_dict (PList xs) = None" "as_dict PNone = None"
  by (simp_all add: as_dict_def)

lemma as_list_simps [simp]: "as_list (PList xs) = Some xs" "as_list (PDict d) = None" "as_list PNone = None"
  by (simp_all add: as_list_def)

lemma as_dict_Some: "as_dict v = Some d \<longleftrightarrow> v = PDict d"
  by (cases v) (auto simp: as_dict_def)

lemma as_list_Some: "as_list v = Some xs \<longleftrightarrow> v = PList xs"
  by (cases v) (auto simp: as_list_def)

end
