(* ===== verification/Lines_Env.thy ===== *)
theory Lines_Env
  imports Py_Value
begin

text \<open>
  The leaf helpers every component reads its inputs through: the lenient line-number parser
  (\<open>shared/lines.py\<close>), Go's white space (\<open>shared/gospace.py\<close>), the environment switches
  (\<open>shared/env.py\<close>), the LLM-provenance rule (\<open>shared/provenance.py\<close>) and the audit mode
  (\<open>shared/llm/mode.py\<close>). The process environment is a map from names to values; the warning that
  \<open>env_flag\<close> and \<open>env_mode\<close> log for an unrecognised value is not modelled (it changes no result).
\<close>

type_synonym env = "string \<Rightarrow> string option"

section \<open>Line numbers\<close>

fun parse_line :: "pyval \<Rightarrow> int \<Rightarrow> int" where
  "parse_line (PBool b) dflt = dflt"
| "parse_line (PInt i) dflt = i"
| "parse_line (PFloat f) dflt = (case f of FFin r \<Rightarrow> trunc r | _ \<Rightarrow> dflt)"
| "parse_line v dflt = (case parse_int (strip (py_str v)) of None \<Rightarrow> dflt | Some i \<Rightarrow> i)"

lemma parse_line_None [simp]: "parse_line PNone d = d"
proof -
  have "parse_int (strip (py_str PNone)) = None" by code_simp
  then show ?thesis by simp
qed

lemma strip_str_nat [simp]: "strip (str_nat n) = str_nat n"
  by (rule strip_digits) (use str_nat_digits in blast)

lemma parse_line_numeral:
  "length (str_nat n) \<le> max_str_digits \<Longrightarrow> parse_line (PStr (str_nat n)) d = int n"
  by (simp add: parse_int_str_nat)

section \<open>Go's white space\<close>

definition GO_SPACE :: "char list" where
  "GO_SPACE = [CHR 0x09, CHR 0x0A, CHR 0x0B, CHR 0x0C, CHR 0x0D, CHR 0x20, CHR 0x85, CHR 0xA0]"

definition trim_go_space :: "string \<Rightarrow> string" where
  "trim_go_space value = strip_by (\<lambda>c. c \<in> set GO_SPACE) value"

lemma trim_go_space_idem [simp]: "trim_go_space (trim_go_space s) = trim_go_space s"
  by (simp add: trim_go_space_def)

section \<open>Environment switches\<close>

definition TRUTHY :: "string list" where
  "TRUTHY = [''true'', ''1'', ''yes'', ''on'']"

definition FALSEY :: "string list" where
  "FALSEY = [''false'', ''0'', ''no'', ''off'']"

definition environ_get :: "env \<Rightarrow> string \<Rightarrow> string" where
  "environ_get env name = (case env name of None \<Rightarrow> [] | Some v \<Rightarrow> v)"

definition env_token :: "env \<Rightarrow> string \<Rightarrow> string" where
  "env_token env name = lower (trim_go_space (environ_get env name))"

definition env_truthy :: "env \<Rightarrow> string \<Rightarrow> bool" where
  "env_truthy env name = (env_token env name \<in> set TRUTHY)"

definition env_flag :: "env \<Rightarrow> string \<Rightarrow> bool \<Rightarrow> bool" where
  "env_flag env name dflt = (let raw = env_token env name in
     if raw \<in> set TRUTHY then True else if raw \<in> set FALSEY then False else dflt)"

definition env_mode :: "env \<Rightarrow> string \<Rightarrow> string list \<Rightarrow> string \<Rightarrow> string" where
  "env_mode env name modes dflt = (let raw = env_token env name in
     if raw = [] then dflt
     else if raw \<in> set FALSEY then ''off''
     else if raw \<in> set modes then raw else dflt)"

lemma TRUTHY_FALSEY_disjoint: "x \<in> set TRUTHY \<Longrightarrow> x \<notin> set FALSEY"
  by (auto simp: TRUTHY_def FALSEY_def)

lemma env_truthy_flag: "env_truthy env name = env_flag env name False"
  by (simp add: env_truthy_def env_flag_def Let_def)

lemma env_mode_range: "env_mode env name modes dflt \<in> insert ''off'' (insert dflt (set modes))"
  by (simp add: env_mode_def Let_def)

text \<open>A switch moves away from its default only on a token of the other side: unset, blank and
  misspelt values leave it where it is, whatever the case and the white space around the token.\<close>

theorem env_flag_default_unless_token:
  "env_flag env name d \<noteq> d \<longleftrightarrow>
   env_token env name \<in> set (if d then FALSEY else TRUTHY)"
  using TRUTHY_FALSEY_disjoint [of "env_token env name"]
  by (auto simp: env_flag_def Let_def)

section \<open>Provenance and mode\<close>

definition is_llm_provenance :: "pyval \<Rightarrow> bool" where
  "is_llm_provenance provenance = (case provenance of
     PStr s \<Rightarrow> starts_with (lower (trim_go_space s)) ''llm'' | _ \<Rightarrow> False)"

definition llm_enabled :: "env \<Rightarrow> bool" where
  "llm_enabled env = env_flag env ''VULTURE_USE_LLM'' False"

definition is_skills_only :: "env \<Rightarrow> bool" where
  "is_skills_only env = (\<not> llm_enabled env)"

definition is_llm_required :: "env \<Rightarrow> bool" where
  "is_llm_required env = (lower (environ_get env ''VULTURE_REQUIRE_LLM'') = ''true'')"

end
