(* ===== verification/Line_Format.thy ===== *)
theory Line_Format
  imports Lines_Env
begin

text \<open>
  The line-number format the model is shown (\<open>shared/tools/line_format.py\<close>): the write direction
  \<open>number_lines\<close> and the read direction \<open>strip_line_number\<close> and \<open>read_line_number\<close>, and the round
  trip between them. The regular expression \<open>^(\s*)(\d+):\s?(.*)$\<close> (DOTALL) has one way to match,
  because white space and digits are disjoint and a colon is neither; \<open>number_match\<close> is that match.
\<close>

definition number_row :: "nat \<Rightarrow> string \<Rightarrow> string" where
  "number_row n line = str_nat n @ '': '' @ line"

definition number_lines :: "string list \<Rightarrow> nat \<Rightarrow> nat option \<Rightarrow> string" where
  "number_lines lines start endo =
     (let e = (case endo of None \<Rightarrow> length lines | Some e \<Rightarrow> e) in
      join_nl (map (\<lambda>i. number_row (i + 1) (lines ! i)) [start..<min e (length lines)]))"

text \<open>The three groups of \<open>NUMBER_RE\<close>: leading white space, the number, the original line.\<close>

definition number_match :: "string \<Rightarrow> (string \<times> string \<times> string) option" where
  "number_match line =
     (let ws = takeWhile is_space line; r = dropWhile is_space line;
          ds = takeWhile is_digit r; r' = dropWhile is_digit r in
      if ds = [] then None
      else (case r' of
        [] \<Rightarrow> None
      | c # rest \<Rightarrow>
          if c \<noteq> CHR '':'' then None
          else Some (ws, ds, if rest \<noteq> [] \<and> is_space (hd rest) then tl rest else rest)))"

definition strip_line_number :: "string \<Rightarrow> string" where
  "strip_line_number line = (case number_match line of None \<Rightarrow> line | Some (_, _, rest) \<Rightarrow> rest)"

text \<open>\<open>int(match.group(2))\<close> raises \<open>ValueError\<close> on more digits than CPython converts.\<close>

definition read_line_number :: "string \<Rightarrow> nat option result" where
  "read_line_number line = (case number_match line of
     None \<Rightarrow> Ret None
   | Some (_, ds, _) \<Rightarrow>
       if length ds \<le> max_str_digits then Ret (Some (nat_of_digits ds)) else Raise ValueError)"

section \<open>Round trip\<close>

lemma number_match_row: "number_match (number_row n line) = Some ([], str_nat n, line)"
proof -
  obtain c cs where e: "str_nat n = c # cs" by (cases "str_nat n") auto
  have "is_digit c" using str_nat_digits [of c n] e by simp
  then have "\<not> is_space c" by (rule digit_not_space)
  then have ws: "takeWhile is_space (number_row n line) = []"
    "dropWhile is_space (number_row n line) = number_row n line"
    by (simp_all add: number_row_def e)
  have d: "\<forall>c \<in> set (str_nat n). is_digit c" using str_nat_digits by blast
  have ds: "takeWhile is_digit (number_row n line) = str_nat n"
    "dropWhile is_digit (number_row n line) = '': '' @ line"
    using d by (simp_all add: number_row_def takeWhile_append dropWhile_append)
  show ?thesis by (simp add: number_match_def ws ds Let_def)
qed

lemma strip_number_row [simp]: "strip_line_number (number_row n line) = line"
  by (simp add: strip_line_number_def number_match_row)

lemma read_number_row:
  "length (str_nat n) \<le> max_str_digits \<Longrightarrow> read_line_number (number_row n line) = Ret (Some n)"
  by (simp add: read_line_number_def number_match_row)

lemma strip_line_number_id: "number_match line = None \<Longrightarrow> strip_line_number line = line"
  by (simp add: strip_line_number_def)

lemma number_row_no_nl: "NL \<notin> set line \<Longrightarrow> NL \<notin> set (number_row n line)"
  using str_nat_digits [of NL n] by (auto simp: number_row_def is_digit_def)

text \<open>Numbering a window and stripping the numbers gives the window's lines back, for lines as a
  line reader yields them (no newline inside a line).\<close>

theorem number_lines_roundtrip:
  assumes nonempty: "start < min e (length lines)"
    and no_nl: "\<forall>l \<in> set lines. NL \<notin> set l"
  shows "map strip_line_number (split_nl (number_lines lines start (Some e))) =
    take (min e (length lines) - start) (drop start lines)"
proof -
  let ?rows = "map (\<lambda>i. number_row (i + 1) (lines ! i)) [start..<min e (length lines)]"
  have "\<forall>r \<in> set ?rows. NL \<notin> set r" using no_nl by (auto intro!: number_row_no_nl)
  moreover have "?rows \<noteq> []" using nonempty by (cases lines) (auto simp: min_def split: if_splits)
  ultimately have "split_nl (join_nl ?rows) = ?rows" by (rule split_join_nl [rotated])
  then have "split_nl (number_lines lines start (Some e)) = ?rows"
    by (simp only: number_lines_def Let_def option.case)
  then have "map strip_line_number (split_nl (number_lines lines start (Some e))) =
      map ((!) lines) [start..<min e (length lines)]" by simp
  also have "\<dots> = take (min e (length lines) - start) (drop start lines)"
    by (rule nth_equalityI) (simp_all add: less_diff_conv add.commute del: min_less_iff_conj)
  finally show ?thesis .
qed

theorem number_lines_roundtrip_witness:
  "map strip_line_number (split_nl (number_lines [''x = 1'', ''12: y'', ''z''] 1 (Some 9))) = [''12: y'', ''z'']"
proof -
  have "map strip_line_number (split_nl (number_lines [''x = 1'', ''12: y'', ''z''] 1 (Some 9))) =
      take (min 9 (length [''x = 1'', ''12: y'', ''z'']) - 1) (drop 1 [''x = 1'', ''12: y'', ''z''])"
    by (rule number_lines_roundtrip) simp_all
  then show ?thesis by simp
qed

end
