(* ===== verification/Anchor.thy ===== *)
theory Anchor
  imports Line_Format "HOL-Library.Product_Lexorder"
begin

text \<open>
  The anchor verifier (\<open>shared/anchor.py\<close>): given a finding that quotes code and the file it accuses,
  decide without a model whether the quote is there. The file system is the reader
  \<open>rd :: path \<Rightarrow> lines option\<close> (\<open>read_file_lines\<close>, \<open>None\<close> for a file that cannot be read); the knobs are
  read from the environment at call time. \<open>_code_index\<close> memoises a pure function of the reader and is
  modelled as that function.

  The lemmas: the windows of a file are exactly the runs of consecutive code lines; a status comes
  from a closed set; a quote that is in the file is never refuted; a verdict that moves a line moves
  it to a place where the quote stands.
\<close>

type_synonym path = string
type_synonym reader = "path \<Rightarrow> string list option"

section \<open>Vocabulary and knobs\<close>

definition STATUSES :: "string list" where
  "STATUSES = [''exact'', ''reanchored'', ''ambiguous'', ''near_miss'', ''found_elsewhere'',
     ''absent'', ''unquoted'', ''unreadable'', ''oversize'']"

definition RANGE_IN_FILE :: string where "RANGE_IN_FILE = ''in_file''"
definition RANGE_PAST_EOF :: string where "RANGE_PAST_EOF = ''past_eof''"
definition RANGE_NO_LINE :: string where "RANGE_NO_LINE = ''no_line''"

definition ANCHOR_CHECK_ID :: string where "ANCHOR_CHECK_ID = ''anchor''"

definition knob_default :: "string \<Rightarrow> rat" where
  "knob_default name = (case map_of
     [(''MIN_CHARS'', 24), (''MIN_TOKENS'', 2), (''MAX_LINES'', 3), (''MAX_LINE_CHARS'', 400),
      (''MAX_CHARS'', 1200), (''RADIUS'', 25), (''MAX_DELTA'', 200), (''NEAR_MISS_MIN'', fl64 (6 / 10))]
     name of Some v \<Rightarrow> v | None \<Rightarrow> 0)"

record anchor_result =
  ar_status :: string
  ar_reason :: string
  ar_new_line :: "int option"
  ar_delta :: "int option"
  ar_candidates :: nat
  ar_other_path :: "path option"
  ar_quote_chars :: nat
  ar_quote_tokens :: nat

definition anchor_outcome :: "string \<Rightarrow> string \<Rightarrow> anchor_result" where
  "anchor_outcome status reason = \<lparr>ar_status = status, ar_reason = reason, ar_new_line = None,
     ar_delta = None, ar_candidates = 0, ar_other_path = None, ar_quote_chars = 0, ar_quote_tokens = 0\<rparr>"

definition knob :: "env \<Rightarrow> string \<Rightarrow> rat" where
  "knob env name =
     (case parse_float (strip (environ_get env (''VULTURE_LLM_QUOTE_'' @ name))) of
        Some (FFin v) \<Rightarrow> if 0 \<le> v then v else knob_default name
      | _ \<Rightarrow> knob_default name)"

definition knob_int :: "env \<Rightarrow> string \<Rightarrow> int" where
  "knob_int env name = trunc (knob env name)"

definition anchor_weight :: "env \<Rightarrow> string \<Rightarrow> rat" where
  "anchor_weight env status =
     (if status \<noteq> ''absent'' then 0
      else if env_truthy env ''VULTURE_LLM_QUOTE_DEMOTE_ABSENT'' then -1 else 0)"

section \<open>Primitives\<close>

definition collapse_ws :: "string \<Rightarrow> string" where
  "collapse_ws text = collapse_text text"

definition normalise :: "string \<Rightarrow> string" where
  "normalise line = collapse_ws (strip_line_number (collapse_ws line))"

definition is_word :: "char \<Rightarrow> bool" where
  "is_word c = (is_alpha_us c \<or> is_digit c)"

function tokens :: "string \<Rightarrow> string list" where
  "tokens [] = []"
| "tokens (c # cs) =
     (if is_alpha_us c then (c # takeWhile is_word cs) # tokens (dropWhile is_word cs)
      else if is_digit c then (c # takeWhile is_digit cs) # tokens (dropWhile is_digit cs)
      else tokens cs)"
  by pat_completeness auto
termination
  by (relation "measure length") (auto simp: le_imp_less_Suc length_dropWhile_le)

definition is_header :: "string \<Rightarrow> bool" where
  "is_header s = (starts_with s ''--- '' \<and> ends_with s '' ---'' \<and> 9 \<le> length s \<and> NL \<notin> set s)"

definition is_presentation :: "string \<Rightarrow> bool" where
  "is_presentation nl = (nl = [] \<or> nl = ''...'' \<or> is_header nl)"

definition code_lines :: "string list \<Rightarrow> string list" where
  "code_lines lines = filter (\<lambda>nl. \<not> is_presentation nl) (map normalise lines)"

definition anchor_key :: "string list \<Rightarrow> string" where
  "anchor_key lines = join_nl (code_lines lines)"

definition numbered_code_lines :: "string list \<Rightarrow> (nat \<times> string) list" where
  "numbered_code_lines file_lines =
     filter (\<lambda>(_, nl). \<not> is_presentation nl) (enum_from 1 (map normalise file_lines))"

definition windows_from :: "(nat \<times> string) list \<Rightarrow> nat \<Rightarrow> (nat \<times> string) list" where
  "windows_from kept n =
     (if n = 0 then []
      else map (\<lambda>first. (fst (kept ! first), join_nl (map snd (take n (drop first kept)))))
             [0..<length kept + 1 - n])"

definition windows :: "string list \<Rightarrow> nat \<Rightarrow> (nat \<times> string) list" where
  "windows file_lines n = windows_from (numbered_code_lines file_lines) n"

definition distance :: "string \<Rightarrow> string \<Rightarrow> rat" where
  "distance a b =
     (let ta = tokens a; tb = tokens b; union = remdups (ta @ tb);
          inter = remdups (filter (\<lambda>t. t \<in> set tb) ta) in
      if union = [] then 0 else fl64 (of_nat (length inter) / of_nat (length union)))"

section \<open>The verifier\<close>

definition as_int :: "pyval \<Rightarrow> int" where
  "as_int value = parse_line value 0"

lemma as_int_PInt [simp]: "as_int (PInt i) = i"
  by (simp add: as_int_def)

lemma as_int_PNone [simp]: "as_int PNone = 0"
  by code_simp

definition int_field :: "pydict \<Rightarrow> string \<Rightarrow> int" where
  "int_field finding name = as_int (get finding name)"

function shrink :: "int \<Rightarrow> string list \<Rightarrow> string list" where
  "shrink budget kept =
     (if 1 < length kept \<and> budget < int (length (join_nl kept)) then shrink budget (butlast kept)
      else kept)"
  by pat_completeness auto
termination
  by (relation "measure (\<lambda>(_, kept). length kept)") auto

declare shrink.simps [simp del]

definition truncate_quote :: "env \<Rightarrow> string list \<Rightarrow> string list \<times> bool" where
  "truncate_quote env quoted =
     (let kept = shrink (knob_int env ''MAX_CHARS'') (take (nat (knob_int env ''MAX_LINES'')) quoted)
      in (kept, kept \<noteq> quoted))"

definition size_status :: "anchor_result \<Rightarrow> bool \<Rightarrow> anchor_result" where
  "size_status outcome truncated =
     (if \<not> truncated \<or> ar_status outcome \<in> {''unquoted'', ''unreadable''} then outcome
      else if ar_status outcome = ''absent'' then anchor_outcome ''unquoted'' ''oversize_truncated''
      else outcome\<lparr>ar_status := ''oversize'', ar_reason := ''truncated:'' @ ar_status outcome\<rparr>)"

definition passes_floor :: "env \<Rightarrow> string \<Rightarrow> bool" where
  "passes_floor env needle =
     (knob_int env ''MIN_CHARS'' \<le> int (length needle) \<and>
      knob_int env ''MIN_TOKENS'' \<le> int (length (tokens needle)))"

definition anchor_candidates :: "string \<Rightarrow> nat \<Rightarrow> string list \<Rightarrow> int list" where
  "anchor_candidates needle width file_lines =
     map (\<lambda>(start, _). int start) (filter (\<lambda>(_, text). text = needle) (windows file_lines width))"

definition may_move :: "env \<Rightarrow> int list \<Rightarrow> int \<Rightarrow> int \<Rightarrow> bool" where
  "may_move env ordered claimed delta =
     (if knob_int env ''MAX_DELTA'' < \<bar>delta\<bar> then False
      else if length ordered = 1 then True
      else \<bar>delta\<bar> < \<bar>ordered ! 1 - claimed\<bar> \<and> \<bar>delta\<bar> \<le> knob_int env ''RADIUS'')"

definition refusal_reason :: "int list \<Rightarrow> string" where
  "refusal_reason ordered = (if length ordered = 1 then ''beyond_max_delta'' else ''not_unique'')"

definition reanchor :: "env \<Rightarrow> int list \<Rightarrow> int \<Rightarrow> anchor_result" where
  "reanchor env found claimed =
     (let ordered = sort_key (\<lambda>start. (\<bar>start - claimed\<bar>, start)) found;
          delta = hd ordered - claimed in
      if \<not> may_move env ordered claimed delta
      then (anchor_outcome ''ambiguous'' (refusal_reason ordered))\<lparr>ar_candidates := length found\<rparr>
      else (anchor_outcome ''reanchored'' [])
        \<lparr>ar_new_line := Some (hd ordered), ar_delta := Some delta, ar_candidates := length found\<rparr>)"

definition select_hit :: "env \<Rightarrow> string \<Rightarrow> nat \<Rightarrow> string list \<Rightarrow> int \<Rightarrow> anchor_result option" where
  "select_hit env needle width file_lines claimed =
     (let found = anchor_candidates needle width file_lines in
      if found = [] then None
      else if claimed \<in> set found then
        Some ((anchor_outcome ''exact'' [])
          \<lparr>ar_new_line := Some claimed, ar_delta := Some 0, ar_candidates := length found\<rparr>)
      else Some (reanchor env found claimed))"

definition siblings :: "path option \<Rightarrow> path list option \<Rightarrow> path list" where
  "siblings file_path batch_paths =
     filter (\<lambda>other. Some other \<noteq> file_path) (case batch_paths of None \<Rightarrow> [] | Some ps \<Rightarrow> ps)"

definition code_index :: "reader \<Rightarrow> path \<Rightarrow> (nat \<times> string) list" where
  "code_index rd p = (case rd p of None \<Rightarrow> [] | Some lines \<Rightarrow> numbered_code_lines lines)"

definition windows_of :: "reader \<Rightarrow> path \<Rightarrow> nat \<Rightarrow> (nat \<times> string) list" where
  "windows_of rd p n = windows_from (code_index rd p) n"

definition quote_in :: "reader \<Rightarrow> path \<Rightarrow> string \<Rightarrow> nat \<Rightarrow> bool" where
  "quote_in rd p needle width = list_ex (\<lambda>(_, text). text = needle) (windows_of rd p width)"

definition search_batch ::
  "reader \<Rightarrow> string \<Rightarrow> nat \<Rightarrow> path option \<Rightarrow> path list option \<Rightarrow> path option" where
  "search_batch rd needle width file_path batch_paths =
     first_such (\<lambda>other. quote_in rd other needle width) (siblings file_path batch_paths)"

definition best_distance :: "string \<Rightarrow> nat \<Rightarrow> string list \<Rightarrow> rat" where
  "best_distance needle width file_lines =
     max_default 0 (map (\<lambda>(_, text). distance needle text) (windows file_lines width))"

definition fallback :: "env \<Rightarrow> reader \<Rightarrow> string \<Rightarrow> nat \<Rightarrow> string list \<Rightarrow> path option
    \<Rightarrow> path list option \<Rightarrow> anchor_result" where
  "fallback env rd needle width file_lines file_path batch_paths =
     (case search_batch rd needle width file_path batch_paths of
        Some other \<Rightarrow> (anchor_outcome ''found_elsewhere'' ''cross_file'')\<lparr>ar_other_path := Some other\<rparr>
      | None \<Rightarrow>
          if knob env ''NEAR_MISS_MIN'' \<le> best_distance needle width file_lines
          then anchor_outcome ''near_miss'' ''similar''
          else anchor_outcome ''absent'' ''not_found'')"

definition read_lines :: "reader \<Rightarrow> path option \<Rightarrow> string list option" where
  "read_lines rd p = (case p of None \<Rightarrow> None | Some p \<Rightarrow> rd p)"

definition unread_reason :: "path option \<Rightarrow> string" where
  "unread_reason file_path = (if file_path = None then ''no_path'' else ''unreadable'')"

definition locate :: "env \<Rightarrow> reader \<Rightarrow> pydict \<Rightarrow> path option \<Rightarrow> path list option \<Rightarrow> string list
    \<Rightarrow> anchor_result" where
  "locate env rd finding file_path batch_paths needle_lines =
     (let needle = join_nl needle_lines in
      if \<not> passes_floor env needle then anchor_outcome ''unquoted'' ''below_floor''
      else (case read_lines rd file_path of
        None \<Rightarrow> anchor_outcome ''unreadable'' (unread_reason file_path)
      | Some file_lines \<Rightarrow>
          let width = length needle_lines in
          (case select_hit env needle width file_lines (int_field finding ''line_start'') of
             Some hit \<Rightarrow> hit
           | None \<Rightarrow> fallback env rd needle width file_lines file_path batch_paths)))"

definition classify :: "env \<Rightarrow> reader \<Rightarrow> pydict \<Rightarrow> path option \<Rightarrow> path list option \<Rightarrow> string list
    \<Rightarrow> anchor_result" where
  "classify env rd finding file_path batch_paths quoted =
     (if quoted = [] then anchor_outcome ''unquoted'' ''missing''
      else if knob_int env ''MAX_LINE_CHARS'' < Max (set (map (\<lambda>l. int (length l)) quoted))
      then anchor_outcome ''unquoted'' ''line_too_long''
      else (case truncate_quote env quoted of (needle_lines, truncated) \<Rightarrow>
        size_status (locate env rd finding file_path batch_paths needle_lines) truncated))"

definition quoted_lines :: "pydict \<Rightarrow> string list" where
  "quoted_lines finding = code_lines (splitlines (text_field finding ''evidence_quote''))"

definition verify_anchor :: "env \<Rightarrow> reader \<Rightarrow> pydict \<Rightarrow> path option \<Rightarrow> path list option
    \<Rightarrow> anchor_result" where
  "verify_anchor env rd finding file_path batch_paths =
     (let quoted = quoted_lines finding; whole = join_nl quoted in
      (classify env rd finding file_path batch_paths quoted)
        \<lparr>ar_quote_chars := length whole, ar_quote_tokens := length (tokens whole)\<rparr>)"

section \<open>Readers of the verdict\<close>

definition max_delta :: "env \<Rightarrow> int" where
  "max_delta env = knob_int env ''MAX_DELTA''"

definition line_range :: "int \<Rightarrow> nat \<Rightarrow> string" where
  "line_range line line_count =
     (if line < 1 then RANGE_NO_LINE
      else if line \<le> int line_count then RANGE_IN_FILE else RANGE_PAST_EOF)"

definition claimed_line_range :: "reader \<Rightarrow> pydict \<Rightarrow> path option \<Rightarrow> string option" where
  "claimed_line_range rd finding file_path =
     (let claimed = int_field finding ''line_start'' in
      if claimed < 1 then Some RANGE_NO_LINE
      else map_option (\<lambda>lines. line_range claimed (length lines)) (read_lines rd file_path))"

definition validation_checks :: "pydict \<Rightarrow> pyval list" where
  "validation_checks finding =
     (case as_dict (get finding ''validation'') of
        None \<Rightarrow> []
      | Some blob \<Rightarrow> (case as_list (get blob ''checks'') of None \<Rightarrow> [] | Some cs \<Rightarrow> cs))"

definition check_has_id :: "string \<Rightarrow> pyval \<Rightarrow> bool" where
  "check_has_id i check = (case check of PDict c \<Rightarrow> get c ''id'' = PStr i | _ \<Rightarrow> False)"

definition is_anchor_check :: "pyval \<Rightarrow> bool" where
  "is_anchor_check check = check_has_id ANCHOR_CHECK_ID check"

definition check_field :: "pyval \<Rightarrow> string \<Rightarrow> pyval \<Rightarrow> pyval" where
  "check_field check k dflt = (case check of PDict c \<Rightarrow> get_or c k dflt | _ \<Rightarrow> dflt)"

definition anchor_extras :: "pydict \<Rightarrow> pydict" where
  "anchor_extras finding =
     (let found = foldl (\<lambda>_ check. check_field check ''extras'' PNone) PNone
                    (filter is_anchor_check (validation_checks finding))
      in case as_dict found of None \<Rightarrow> [] | Some d \<Rightarrow> d)"

section \<open>Windows\<close>

lemma map_snd_filter_enum:
  "map snd (filter (\<lambda>(_, x). P x) (enum_from n xs)) = filter P xs"
  by (induction xs arbitrary: n) auto

lemma snd_numbered_code_lines: "map snd (numbered_code_lines ls) = code_lines ls"
  by (simp add: numbered_code_lines_def code_lines_def map_snd_filter_enum)

lemma numbered_code_lines_pos: "x \<in> set (numbered_code_lines ls) \<Longrightarrow> 0 < fst x"
  by (cases x) (auto simp: numbered_code_lines_def in_set_enum_from)

lemma distinct_numbered: "distinct (map fst (numbered_code_lines ls))"
  by (simp add: numbered_code_lines_def distinct_map_filter distinct_fst_enum_from)

lemma windows_from_member:
  "(l, t) \<in> set (windows_from kept n) \<longleftrightarrow>
   0 < n \<and> (\<exists>i. i + n \<le> length kept \<and> l = fst (kept ! i) \<and> t = join_nl (map snd (take n (drop i kept))))"
  by (auto simp: windows_from_def image_iff)
     (metis Suc_diff_le atLeastLessThan_iff le_add2 less_Suc_eq_le less_diff_conv not_less_eq_eq zero_le)

lemma window_of_sublist:
  assumes "sublist ws (code_lines ls)" and "ws \<noteq> []"
  shows "\<exists>l. (l, join_nl ws) \<in> set (windows ls (length ws))"
proof -
  obtain us vs where e: "code_lines ls = us @ ws @ vs" using assms(1) by (auto simp: sublist_def)
  let ?k = "numbered_code_lines ls"
  have m: "map snd ?k = us @ ws @ vs" by (simp add: snd_numbered_code_lines e)
  then have len: "length us + length ws \<le> length ?k"
    by (metis length_append length_map add.assoc le_add1)
  have "map snd (take (length ws) (drop (length us) ?k)) = ws"
    by (simp add: m flip: take_map drop_map)
  with len have "(fst (?k ! length us), join_nl ws) \<in> set (windows_from ?k (length ws))"
    using assms(2) by (auto simp: windows_from_member intro!: exI [of _ "length us"])
  then show ?thesis by (auto simp: windows_def)
qed

lemma candidates_ne:
  "sublist ws (code_lines ls) \<Longrightarrow> ws \<noteq> [] \<Longrightarrow> anchor_candidates (join_nl ws) (length ws) ls \<noteq> []"
  using window_of_sublist [of ws ls] by (fastforce simp: anchor_candidates_def filter_empty_conv)

lemma candidate_window:
  "c \<in> set (anchor_candidates needle n ls) \<Longrightarrow> (nat c, needle) \<in> set (windows ls n) \<and> 0 < c"
proof -
  assume "c \<in> set (anchor_candidates needle n ls)"
  then obtain l where l: "(l, needle) \<in> set (windows ls n)" "c = int l"
    by (auto simp: anchor_candidates_def)
  then obtain i where "0 < n" "i + n \<le> length (numbered_code_lines ls)"
    "l = fst (numbered_code_lines ls ! i)"
    by (auto simp: windows_def windows_from_member)
  then have "0 < l" using numbered_code_lines_pos [of "numbered_code_lines ls ! i" ls] by simp
  with l show ?thesis by simp
qed

lemma distinct_candidates: "distinct (anchor_candidates needle n ls)"
proof -
  let ?k = "numbered_code_lines ls"
  have "distinct (map fst (windows_from ?k n))"
  proof (cases "n = 0")
    case False
    then have "map fst (windows_from ?k n) = map (\<lambda>i. map fst ?k ! i) [0..<length ?k + 1 - n]"
      by (auto simp: windows_from_def)
    then have "map fst (windows_from ?k n) = take (length ?k + 1 - n) (map fst ?k)"
      using False by (simp add: list_eq_iff_nth_eq)
    then show ?thesis using distinct_numbered by (metis distinct_take)
  qed (simp add: windows_from_def)
  then have "distinct (map fst (filter (\<lambda>(_, text). text = needle) (windows ls n)))"
    unfolding windows_def by (rule distinct_map_filter)
  then have "distinct (map int (map fst (filter (\<lambda>(_, text). text = needle) (windows ls n))))"
    by (simp only: distinct_map [of int] inj_on_of_nat)
  moreover have "anchor_candidates needle n ls =
      map int (map fst (filter (\<lambda>(_, text). text = needle) (windows ls n)))"
    by (simp add: anchor_candidates_def case_prod_beta comp_def)
  ultimately show ?thesis by simp
qed

section \<open>Where the verdicts come from\<close>

lemma anchor_outcome_simps [simp]:
  "ar_status (anchor_outcome st r) = st" "ar_reason (anchor_outcome st r) = r"
  "ar_new_line (anchor_outcome st r) = None" "ar_delta (anchor_outcome st r) = None"
  by (simp_all add: anchor_outcome_def)

lemma reanchor_status: "ar_status (reanchor env found claimed) \<in> {''reanchored'', ''ambiguous''}"
  by (simp add: reanchor_def Let_def)

lemma select_hit_status:
  "select_hit env needle n ls claimed = Some hit \<Longrightarrow>
   ar_status hit \<in> {''exact'', ''reanchored'', ''ambiguous''}"
  using reanchor_status [of env _ claimed] by (auto simp: select_hit_def Let_def split: if_splits)

lemma select_hit_None:
  "select_hit env needle n ls claimed = None \<longleftrightarrow> anchor_candidates needle n ls = []"
  by (simp add: select_hit_def Let_def)

lemma fallback_status:
  "ar_status (fallback env rd needle n ls fp bp) \<in> {''found_elsewhere'', ''near_miss'', ''absent''}"
  by (simp add: fallback_def split: option.splits)

lemma size_status_truncated:
  "ar_status (size_status outcome True) \<in> {''unquoted'', ''unreadable'', ''oversize''}"
  by (simp add: size_status_def)

lemma size_status_whole [simp]: "size_status outcome False = outcome"
  by (simp add: size_status_def)

lemma shrink_prefix: "prefix (shrink b kept) kept"
proof (induction b kept rule: shrink.induct)
  case (1 b kept)
  show ?case
  proof (cases "1 < length kept \<and> b < int (length (join_nl kept))")
    case True
    then have "prefix (shrink b (butlast kept)) (butlast kept)" using "1.IH" by blast
    also have "prefix (butlast kept) kept" by (metis prefixeq_butlast)
    finally show ?thesis using True by (simp add: shrink.simps [of b kept])
  next
    case False
    then have "shrink b kept = kept" by (simp only: shrink.simps [of b kept] if_False)
    then show ?thesis by simp
  qed
qed

lemma truncate_quote_prefix: "truncate_quote env quoted = (kept, t) \<Longrightarrow> prefix kept quoted"
proof -
  assume "truncate_quote env quoted = (kept, t)"
  then have "prefix kept (take (nat (knob_int env ''MAX_LINES'')) quoted)"
    using shrink_prefix by (simp add: truncate_quote_def Let_def) blast
  then show ?thesis using take_is_prefix prefix_order.trans by blast
qed

lemma truncate_quote_whole: "truncate_quote env quoted = (kept, False) \<Longrightarrow> kept = quoted"
  by (auto simp: truncate_quote_def Let_def)

lemma verify_anchor_status:
  "ar_status (verify_anchor env rd f fp bp) = ar_status (classify env rd f fp bp (quoted_lines f))"
  "ar_new_line (verify_anchor env rd f fp bp) = ar_new_line (classify env rd f fp bp (quoted_lines f))"
  "ar_delta (verify_anchor env rd f fp bp) = ar_delta (classify env rd f fp bp (quoted_lines f))"
  by (simp_all add: verify_anchor_def Let_def)

lemma locate_cases:
  obtains (floor) "locate env rd f fp bp ls = anchor_outcome ''unquoted'' ''below_floor''"
  | (unread) "locate env rd f fp bp ls = anchor_outcome ''unreadable'' (unread_reason fp)"
  | (hit) p fls hit where "fp = Some p" "rd p = Some fls"
      "select_hit env (join_nl ls) (length ls) fls (int_field f ''line_start'') = Some hit"
      "locate env rd f fp bp ls = hit"
  | (miss) p fls where "fp = Some p" "rd p = Some fls" "passes_floor env (join_nl ls)"
      "anchor_candidates (join_nl ls) (length ls) fls = []"
      "locate env rd f fp bp ls = fallback env rd (join_nl ls) (length ls) fls fp bp"
proof (cases "passes_floor env (join_nl ls)")
  case False
  then show thesis using floor by (simp add: locate_def Let_def)
next
  case True
  note fl = True
  show thesis
  proof (cases "read_lines rd fp")
    case None
    then show thesis using unread fl by (simp add: locate_def Let_def)
  next
    case (Some fls)
    then obtain p where p: "fp = Some p" "rd p = Some fls"
      by (auto simp: read_lines_def split: option.splits)
    show thesis
    proof (cases "select_hit env (join_nl ls) (length ls) fls (int_field f ''line_start'')")
      case None
      with Some fl have "locate env rd f fp bp ls = fallback env rd (join_nl ls) (length ls) fls fp bp"
        by (simp add: locate_def Let_def)
      with None p fl show thesis using miss by (simp add: select_hit_None)
    next
      case (Some h)
      with \<open>read_lines rd fp = Some fls\<close> fl have "locate env rd f fp bp ls = h"
        by (simp add: locate_def Let_def)
      with Some p show thesis using hit by blast
    qed
  qed
qed

lemma locate_status: "ar_status (locate env rd f fp bp ls) \<in> set STATUSES"
  by (rule locate_cases [of env rd f fp bp ls])
     (use select_hit_status fallback_status in \<open>fastforce simp: STATUSES_def\<close>)+

lemma classify_cases:
  obtains (none) r where "classify env rd f fp bp q = anchor_outcome ''unquoted'' r"
  | (some) kept t where "q \<noteq> []" "truncate_quote env q = (kept, t)"
      "classify env rd f fp bp q = size_status (locate env rd f fp bp kept) t"
proof (cases "q = [] \<or> knob_int env ''MAX_LINE_CHARS'' < Max (set (map (\<lambda>l. int (length l)) q))")
  case True
  then have "classify env rd f fp bp q =
      anchor_outcome ''unquoted'' (if q = [] then ''missing'' else ''line_too_long'')"
    by (auto simp: classify_def)
  then show thesis by (rule none)
next
  case False
  then show thesis using some by (cases "truncate_quote env q") (simp add: classify_def)
qed

lemma classify_hit:
  assumes "read_lines rd fp = Some fls" and "sublist q (code_lines fls)"
  shows "ar_status (classify env rd f fp bp q) \<notin> {''absent'', ''near_miss'', ''found_elsewhere''}"
proof (cases rule: classify_cases [of env rd f fp bp q])
  case (none r)
  then show ?thesis by simp
next
  case (some kept t)
  show ?thesis
  proof (cases t)
    case True
    then show ?thesis
      using some(3) size_status_truncated [of "locate env rd f fp bp kept"] by auto
  next
    case False
    then have kept: "kept = q" using some(2) truncate_quote_whole [of env q kept] by simp
    show ?thesis
    proof (cases rule: locate_cases [of env rd f fp bp kept])
      case (hit p fls' h)
      then show ?thesis using some(3) False select_hit_status [OF hit(3)] by auto
    next
      case (miss p fls')
      then have "fls' = fls" using assms(1) by (simp add: read_lines_def)
      then show ?thesis using miss(4) candidates_ne assms(2) some(1) kept by blast
    qed (use some(3) False in simp_all)
  qed
qed

lemma anchor_status_closed: "ar_status (verify_anchor env rd f fp bp) \<in> set STATUSES"
proof (cases rule: classify_cases [of env rd f fp bp "quoted_lines f"])
  case (none r)
  then show ?thesis by (simp add: verify_anchor_status STATUSES_def)
next
  case (some kept t)
  then show ?thesis
    using size_status_truncated [of "locate env rd f fp bp kept"] locate_status
    by (cases t) (auto simp: verify_anchor_status STATUSES_def)
qed

text \<open>
  The contract the clients of the verifier rely on: statuses come from the closed set, and a quote
  that stands in the cited file is never reported missing from it.
\<close>

locale quote_verifier =
  fixes verify :: "pydict \<Rightarrow> path option \<Rightarrow> path list option \<Rightarrow> anchor_result"
    and stands_in :: "pydict \<Rightarrow> path option \<Rightarrow> bool"
  assumes status_closed: "ar_status (verify f p b) \<in> set STATUSES"
    and never_refuted: "stands_in f p \<Longrightarrow>
      ar_status (verify f p b) \<notin> {''absent'', ''near_miss'', ''found_elsewhere''}"
begin

lemma absent_not_there: "ar_status (verify f p b) = ''absent'' \<Longrightarrow> \<not> stands_in f p"
  using never_refuted [of f p b] by auto

lemma standing_statuses:
  "stands_in f p \<Longrightarrow> ar_status (verify f p b) \<in>
     {''exact'', ''reanchored'', ''ambiguous'', ''unquoted'', ''unreadable'', ''oversize''}"
  using status_closed [of f p b] never_refuted [of f p b] by (auto simp: STATUSES_def)

end

definition quote_stands_in :: "reader \<Rightarrow> pydict \<Rightarrow> path option \<Rightarrow> bool" where
  "quote_stands_in rd f fp \<longleftrightarrow>
     (\<exists>fls. read_lines rd fp = Some fls \<and> sublist (quoted_lines f) (code_lines fls))"

interpretation anchor: quote_verifier "verify_anchor env rd" "quote_stands_in rd" for env rd
proof unfold_locales
  fix f p b
  show "ar_status (verify_anchor env rd f p b) \<in> set STATUSES" by (rule anchor_status_closed)
next
  fix f p b
  assume "quote_stands_in rd f p"
  then show "ar_status (verify_anchor env rd f p b) \<notin> {''absent'', ''near_miss'', ''found_elsewhere''}"
    unfolding quote_stands_in_def verify_anchor_status(1) using classify_hit by blast
qed

section \<open>Properties\<close>

text \<open>C7. A quote whose code lines stand consecutively in the cited file, whatever the numbering,
  indentation or blank lines around them, is never reported missing: the verdict is neither
  \<open>absent\<close> (the one status that can demote a finding) nor a weaker miss.\<close>

theorem quoted_code_is_never_refuted:
  assumes "rd p = Some fls" and "sublist (quoted_lines f) (code_lines fls)"
  shows "ar_status (verify_anchor env rd f (Some p) batch)
    \<notin> {''absent'', ''near_miss'', ''found_elsewhere''}"
  using assms by (intro anchor.never_refuted) (simp add: quote_stands_in_def read_lines_def)

text \<open>C2. \<open>absent\<close> is a complete search: the quote was whole (never truncated), met the evidence
  floor, the file was read, and neither the file nor any other file of the batch holds it.\<close>

theorem absent_means_searched_everywhere:
  assumes "ar_status (verify_anchor env rd f fp batch) = ''absent''"
  shows "\<exists>p fls. fp = Some p \<and> rd p = Some fls \<and> quoted_lines f \<noteq> []
    \<and> truncate_quote env (quoted_lines f) = (quoted_lines f, False)
    \<and> passes_floor env (join_nl (quoted_lines f))
    \<and> \<not> sublist (quoted_lines f) (code_lines fls)
    \<and> list_all (\<lambda>o'. \<not> quote_in rd o' (join_nl (quoted_lines f)) (length (quoted_lines f)))
        (siblings fp batch)"
proof (cases rule: classify_cases [of env rd f fp batch "quoted_lines f"])
  case (none r)
  then show ?thesis using assms by (simp add: verify_anchor_status)
next
  case (some kept t)
  have t: "\<not> t"
    using assms some(3) size_status_truncated [of "locate env rd f fp batch kept"]
    by (auto simp: verify_anchor_status)
  then have kept: "kept = quoted_lines f"
    using some(2) truncate_quote_whole [of env "quoted_lines f" kept] by simp
  have st: "ar_status (locate env rd f fp batch kept) = ''absent''"
    using assms some(3) t by (simp add: verify_anchor_status)
  show ?thesis
  proof (cases rule: locate_cases [of env rd f fp batch kept])
    case (hit p fls h)
    then show ?thesis using st select_hit_status [OF hit(3)] by auto
  next
    case (miss p fls)
    then have "search_batch rd (join_nl kept) (length kept) fp batch = None"
      using st by (auto simp: fallback_def split: option.splits)
    then have "list_all (\<lambda>o'. \<not> quote_in rd o' (join_nl kept) (length kept)) (siblings fp batch)"
      by (simp add: search_batch_def first_such_None list_all_iff)
    moreover have "\<not> sublist (quoted_lines f) (code_lines fls)"
      using miss(1,2) assms anchor.absent_not_there [of env rd f fp batch]
      by (auto simp: quote_stands_in_def read_lines_def)
    ultimately show ?thesis using miss some t kept by auto
  qed (use st in simp_all)
qed

lemma knob_nonneg: "0 \<le> knob env name"
proof -
  have "0 \<le> fl64 (6 / 10)" by (rule double.rd_lower) simp_all
  then have d: "0 \<le> knob_default name"
    by (auto simp: knob_default_def split: option.splits if_splits)
  then show ?thesis by (auto simp: knob_def split: option.splits pyfloat.splits)
qed

lemma max_delta_nonneg: "0 \<le> max_delta env"
  using knob_nonneg [of env "''MAX_DELTA''"] by (simp add: max_delta_def knob_int_def trunc_def)

lemma size_status_new_line:
  "ar_new_line (size_status outcome t) = Some l \<Longrightarrow>
   ar_new_line outcome = Some l \<and> ar_delta (size_status outcome t) = ar_delta outcome"
  by (auto simp: size_status_def split: if_splits)

lemma select_hit_new_line:
  assumes "select_hit env needle n fls claimed = Some hit" and "ar_new_line hit = Some l"
  shows "l \<in> set (anchor_candidates needle n fls) \<and> ar_delta hit = Some (l - claimed)
    \<and> \<bar>l - claimed\<bar> \<le> max_delta env"
proof -
  let ?found = "anchor_candidates needle n fls"
  have ne: "?found \<noteq> []" using assms(1) by (auto simp: select_hit_def Let_def)
  show ?thesis
  proof (cases "claimed \<in> set ?found")
    case True
    then show ?thesis using assms max_delta_nonneg [of env] by (auto simp: select_hit_def Let_def ne)
  next
    case False
    let ?ordered = "sort_key (\<lambda>start. (\<bar>start - claimed\<bar>, start)) ?found"
    have "set ?ordered = set ?found" by simp
    then have "hd ?ordered \<in> set ?found" using ne by (metis hd_in_set set_empty)
    then show ?thesis
      using assms False ne
      by (auto simp: select_hit_def reanchor_def may_move_def max_delta_def Let_def split: if_splits)
  qed
qed

text \<open>A verdict names a line only where the quote stands: when the verifier reports a line, the file
  was read, the (possibly shortened) quote is exactly the window starting at that line, the reported
  delta is its distance from the claim, and the move is within the operator's bound.\<close>

theorem reported_line_carries_the_quote:
  assumes "ar_new_line (verify_anchor env rd f fp batch) = Some l"
  shows "\<exists>p fls kept. fp = Some p \<and> rd p = Some fls \<and> prefix kept (quoted_lines f) \<and> 0 < l
    \<and> (nat l, join_nl kept) \<in> set (windows fls (length kept))
    \<and> ar_delta (verify_anchor env rd f fp batch) = Some (l - int_field f ''line_start'')
    \<and> \<bar>l - int_field f ''line_start''\<bar> \<le> max_delta env"
proof (cases rule: classify_cases [of env rd f fp batch "quoted_lines f"])
  case (none r)
  then show ?thesis using assms by (simp add: verify_anchor_status)
next
  case (some kept t)
  let ?o = "locate env rd f fp batch kept"
  have "ar_new_line (size_status ?o t) = Some l" using assms by (simp only: verify_anchor_status some(3))
  note nd = size_status_new_line [OF this]
  then have nl: "ar_new_line ?o = Some l" ..
  have d: "ar_delta (verify_anchor env rd f fp batch) = ar_delta ?o"
    using nd by (simp only: verify_anchor_status some(3))
  show ?thesis
  proof (cases rule: locate_cases [of env rd f fp batch kept])
    case (hit p fls h)
    have "ar_new_line h = Some l" using nl hit(4) by simp
    note at = select_hit_new_line [OF hit(3) this]
    then show ?thesis
      using hit d candidate_window truncate_quote_prefix [OF some(2)] by (metis (no_types))
  next
    case (miss p fls)
    then show ?thesis using nl by (auto simp: fallback_def split: option.splits if_splits)
  qed (use nl in simp_all)
qed

text \<open>Re-anchoring never arbitrates a tie: a claim moves to a place only when every other place
  where the quote stands is strictly farther from the claim.\<close>

theorem reanchor_strictly_nearest:
  assumes "select_hit env needle n fls claimed = Some hit" and "ar_status hit = ''reanchored''"
    and "ar_new_line hit = Some l" and "other \<in> set (anchor_candidates needle n fls)"
  shows "other = l \<or> \<bar>l - claimed\<bar> < \<bar>other - claimed\<bar>"
proof -
  let ?found = "anchor_candidates needle n fls"
  let ?key = "\<lambda>start. (\<bar>start - claimed\<bar>, start)"
  let ?ordered = "sort_key ?key ?found"
  have ne: "?found \<noteq> []" and "claimed \<notin> set ?found"
    using assms(1,2) by (auto simp: select_hit_def Let_def split: if_splits)
  then have mv: "may_move env ?ordered claimed (hd ?ordered - claimed)" and l: "l = hd ?ordered"
    using assms by (auto simp: select_hit_def reanchor_def Let_def split: if_splits)
  have dist: "distinct ?ordered" by (simp add: distinct_candidates)
  have other: "other \<in> set ?ordered" using assms(4) by simp
  show ?thesis
  proof (cases "?ordered")
    case Nil
    then show ?thesis using other by simp
  next
    case (Cons a rest)
    show ?thesis
    proof (cases rest)
      case Nil
      then show ?thesis using other l Cons by simp
    next
      case (Cons b rest')
      note o2 = \<open>?ordered = a # rest\<close> Cons
      have "sorted (map ?key (a # b # rest'))" using sorted_sort_key [of ?key ?found] o2 by simp
      then have far: "\<bar>b - claimed\<bar> \<le> \<bar>x - claimed\<bar>" if "x \<in> set rest" for x
        using that Cons by (auto simp: less_eq_prod_def)
      have near: "\<bar>a - claimed\<bar> < \<bar>b - claimed\<bar>"
        using mv o2 by (simp add: may_move_def split: if_splits)
      have "l = a" "other = a \<or> other \<in> set rest" using l other o2 by simp_all
      then show ?thesis using near far [of other] by linarith
    qed
  qed
qed

end
