(* ===== verification/Anchor_Examples.thy ===== *)
theory Anchor_Examples imports Anchor begin

text \<open>
  A small file and findings against it, on which the properties of the anchor verifier are applied:
  the file of four lines below, a finding that quotes its last line with a reader's line number and
  doubled spaces but claims line 2, and a finding whose quote is nowhere. All knobs are unset.
\<close>

lemma parse_float_blank: "parse_float [] = None"
  by (simp add: parse_float_def split_sign_def parse_decimal_def opt_digits_def lower_def Let_def)

lemma knob_unset:
  "env (''VULTURE_LLM_QUOTE_'' @ name) = None \<Longrightarrow> knob env name = knob_default name"
  by (simp add: knob_def environ_get_def parse_float_blank)

lemma knob_int_unset: "knob_int (\<lambda>_. None) name = trunc (knob_default name)"
  by (simp add: knob_int_def knob_unset)

lemma trunc_numeral [simp]: "trunc (numeral k) = numeral k"
  using trunc_of_int [of "numeral k"] by simp

lemma knob_ints:
  "knob_int (\<lambda>_. None) ''MIN_CHARS'' = 24" "knob_int (\<lambda>_. None) ''MIN_TOKENS'' = 2"
  "knob_int (\<lambda>_. None) ''MAX_LINES'' = 3" "knob_int (\<lambda>_. None) ''MAX_LINE_CHARS'' = 400"
  "knob_int (\<lambda>_. None) ''MAX_CHARS'' = 1200" "knob_int (\<lambda>_. None) ''RADIUS'' = 25"
  "knob_int (\<lambda>_. None) ''MAX_DELTA'' = 200"
  by (simp_all add: knob_int_unset knob_default_def)

definition ex_lines :: "string list" where
  "ex_lines = [''def load(name):'', ''    data = open(name).read()'', '''', ''    return eval(data, globals())'']"

definition ex_rd :: reader where
  "ex_rd = (\<lambda>p. if p = ''app.py'' then Some ex_lines else None)"

definition ex_finding :: "pydict" where
  "ex_finding = [(''line_start'', PInt 2),
     (''evidence_quote'', PStr (''4:  return  eval(data, globals())''))]"

definition ex_missing :: "pydict" where
  "ex_missing = [(''line_start'', PInt 2), (''evidence_quote'', PStr ''os.remove(target_path, force=True)'')]"

lemma ex_quotes:
  "quoted_lines ex_finding = [''return eval(data, globals())'']"
  "quoted_lines ex_missing = [''os.remove(target_path, force=True)'']"
  by code_simp+

lemma ex_windows:
  "windows ex_lines (Suc 0) = [(1, ''def load(name):''), (2, ''data = open(name).read()''), (4, ''return eval(data, globals())'')]"
  by code_simp

lemma ex_code_lines:
  "code_lines ex_lines = [''def load(name):'', ''data = open(name).read()'', ''return eval(data, globals())'']"
  by code_simp

lemma ex_token_counts:
  "length (tokens ''os.remove(target_path, force=True)'') = 5"
  "length (tokens ''return eval(data, globals())'') = 4"
  by code_simp+

lemma ex_distances:
  "distance ''os.remove(target_path, force=True)'' ''def load(name):'' = 0"
  "distance ''os.remove(target_path, force=True)'' ''data = open(name).read()'' = 0"
  "distance ''os.remove(target_path, force=True)'' ''return eval(data, globals())'' = 0"
  by code_simp+

lemma near_miss_pos: "\<not> knob (\<lambda>_. None) ''NEAR_MISS_MIN'' \<le> 0"
proof -
  have "is_double (1 / 2)" unfolding is_double_def by (rule exI [of _ 1], rule exI [of _ "-1"]) (simp add: pow2_def)
  then have "1 / 2 \<le> fl64 (6 / 10)" by (rule double.rd_lower) simp
  then show ?thesis by (simp add: knob_unset knob_default_def)
qed

lemma shrink_single: "shrink b [x] = [x]"
  by (subst shrink.simps) simp

lemma ex_lengths:
  "length ''os.remove(target_path, force=True)'' = 34"
  "length ''return eval(data, globals())'' = 28"
  by code_simp+

lemma ex_passes:
  "passes_floor (\<lambda>_. None) ''os.remove(target_path, force=True)''"
  "passes_floor (\<lambda>_. None) ''return eval(data, globals())''"
  by (simp_all only: passes_floor_def knob_ints ex_token_counts ex_lengths) simp_all

lemma ex_truncate: "truncate_quote (\<lambda>_. None) [x] = ([x], False)"
  by (simp add: truncate_quote_def knob_ints shrink_single)

lemma ex_candidates:
  "anchor_candidates ''os.remove(target_path, force=True)'' (Suc 0) ex_lines = []"
  "anchor_candidates ''return eval(data, globals())'' (Suc 0) ex_lines = [4]"
  by (simp_all add: anchor_candidates_def ex_windows)

lemma ex_best_distance:
  "best_distance ''os.remove(target_path, force=True)'' (Suc 0) ex_lines = 0"
  by (simp add: best_distance_def ex_windows ex_distances max_default_def)

lemma ex_read: "ex_rd ''app.py'' = Some ex_lines"
  by (simp add: ex_rd_def)

lemma ex_classify: "length x \<le> 400 \<Longrightarrow>
  classify (\<lambda>_. None) rd f fp b [x] = locate (\<lambda>_. None) rd f fp b [x]"
  by (simp add: classify_def ex_truncate knob_ints size_status_def)

lemma ex_absent:
  "ar_status (verify_anchor (\<lambda>_. None) ex_rd ex_missing (Some ''app.py'') (Some [''app.py''])) = ''absent''"
  by (simp add: verify_anchor_status ex_quotes ex_classify locate_def ex_passes read_lines_def ex_read
      select_hit_def ex_candidates fallback_def search_batch_def siblings_def first_such_def
      ex_best_distance near_miss_pos anchor_outcome_def)

lemma ex_claim: "int_field ex_finding ''line_start'' = 2"
  by (simp add: int_field_def as_int_def ex_finding_def get_or_def)

lemma ex_new_line:
  "ar_new_line (verify_anchor (\<lambda>_. None) ex_rd ex_finding (Some ''app.py'') None) = Some 4"
  by (simp add: verify_anchor_def ex_quotes ex_classify locate_def ex_passes read_lines_def ex_read
      select_hit_def ex_candidates ex_claim reanchor_def may_move_def knob_ints anchor_outcome_def Let_def)

theorem quoted_code_is_never_refuted_witness:
  "ar_status (verify_anchor (\<lambda>_. None) ex_rd ex_finding (Some ''app.py'') None)
    \<notin> {''absent'', ''near_miss'', ''found_elsewhere''}"
proof (rule quoted_code_is_never_refuted [of ex_rd "''app.py''" ex_lines ex_finding])
  show "ex_rd ''app.py'' = Some ex_lines" by (simp add: ex_rd_def)
  show "sublist (quoted_lines ex_finding) (code_lines ex_lines)"
    unfolding ex_quotes ex_code_lines sublist_def by (rule exI [of _ "[_, _]"]) simp
qed

theorem absent_means_searched_everywhere_witness:
  "ex_rd ''app.py'' = Some ex_lines
    \<and> \<not> sublist (quoted_lines ex_missing) (code_lines ex_lines)"
  using absent_means_searched_everywhere [OF ex_absent] by (auto simp: ex_rd_def)

theorem reported_line_carries_the_quote_witness:
  "ar_delta (verify_anchor (\<lambda>_. None) ex_rd ex_finding (Some ''app.py'') None) = Some 2"
  using reported_line_carries_the_quote [OF ex_new_line]
  by (auto simp: int_field_def as_int_def ex_finding_def get_or_def)

definition ex_twice :: "string list" where
  "ex_twice = [''a = f(1)'', ''b = g(2)'', ''return eval(data, globals())'', ''c = 3'', ''d = 4'',
     ''return eval(data, globals())'']"

lemma ex_twice_candidates:
  "anchor_candidates ''return eval(data, globals())'' 1 ex_twice = [3, 6]"
  by code_simp

lemma ex_twice_order: "sort_key (\<lambda>start. (\<bar>start - 2\<bar>, start)) [3, 6 :: int] = [3, 6]"
  by code_simp

theorem reanchor_strictly_nearest_witness:
  "(6::int) = 3 \<or> \<bar>3 - 2\<bar> < \<bar>(6::int) - 2\<bar>"
  by (rule reanchor_strictly_nearest [of "\<lambda>_. None" "''return eval(data, globals())''" 1 ex_twice 2
        "anchor_outcome ''reanchored'' [] \<lparr>ar_new_line := Some 3, ar_delta := Some 1, ar_candidates := 2\<rparr>"])
    (simp_all add: select_hit_def reanchor_def may_move_def ex_twice_candidates ex_twice_order Let_def
      knob_ints anchor_outcome_def del: One_nat_def)

end
