(* ===== verification/Voter.thy ===== *)
theory Voter
  imports Anchor
begin

text \<open>
  The check and validation records (\<open>shared/validate/types.py\<close>), the voter that collapses a finding's
  checks into a status and a confidence (\<open>shared/validate/voter.py\<close>) and the compliance-mode override
  (\<open>shared/validate/compliance.py\<close>). The fields of a check are the values JSON gives them; the weight
  is a float with its special values, because \<open>from_json\<close> accepts them. Weights are summed the way
  \<open>sum\<close> sums floats.

  The lemmas: the status vocabulary and the confidence bounds, when each status is reached, that
  bookkeeping checks of weight zero leave the vote alone, and the JSON round trip.
\<close>

section \<open>Records\<close>

record validation_check =
  vc_id :: pyval
  vc_result :: pyval
  vc_weight :: pyfloat
  vc_reason :: pyval
  vc_extras :: pyval

definition new_check :: "string \<Rightarrow> string \<Rightarrow> rat \<Rightarrow> string \<Rightarrow> pydict \<Rightarrow> validation_check" where
  "new_check i r w reason extras = \<lparr>vc_id = PStr i, vc_result = PStr r, vc_weight = FFin w,
     vc_reason = PStr reason, vc_extras = PDict extras\<rparr>"

lemma new_check_sel [simp]:
  "vc_id (new_check i r w why x) = PStr i" "vc_result (new_check i r w why x) = PStr r"
  "vc_weight (new_check i r w why x) = FFin w" "vc_reason (new_check i r w why x) = PStr why"
  "vc_extras (new_check i r w why x) = PDict x"
  by (simp_all add: new_check_def)

definition check_to_json :: "validation_check \<Rightarrow> pydict" where
  "check_to_json c = [(''id'', vc_id c), (''result'', vc_result c), (''weight'', PFloat (vc_weight c)),
     (''reason'', vc_reason c), (''extras'', vc_extras c)]"

definition check_from_json :: "pydict \<Rightarrow> validation_check result" where
  "check_from_json data =
     (case (map_of data ''id'', map_of data ''result'', map_of data ''weight'') of
        (Some i, Some r, Some w) \<Rightarrow>
          bind_result (py_float w) (\<lambda>wt. Ret \<lparr>vc_id = i, vc_result = r, vc_weight = wt,
            vc_reason = get_or data ''reason'' (PStr []), vc_extras = get_or data ''extras'' (PDict [])\<rparr>)
      | _ \<Rightarrow> Raise KeyError)"

text \<open>Indexing anything but a dictionary by a string raises \<open>TypeError\<close>.\<close>

definition check_of_value :: "pyval \<Rightarrow> validation_check result" where
  "check_of_value v = (case v of PDict d \<Rightarrow> check_from_json d | _ \<Rightarrow> Raise TypeError)"

record finding_validation =
  fv_status :: pyval
  fv_confidence :: pyfloat
  fv_checks :: "validation_check list"
  fv_validated_at :: pyval

definition validation_to_json :: "finding_validation \<Rightarrow> pydict" where
  "validation_to_json v = [(''status'', fv_status v), (''confidence'', PFloat (fv_confidence v)),
     (''checks'', PList (map (\<lambda>c. PDict (check_to_json c)) (fv_checks v))),
     (''validated_at'', fv_validated_at v)]"

definition validation_from_json :: "string \<Rightarrow> pydict \<Rightarrow> finding_validation result" where
  "validation_from_json now data =
     (case (map_of data ''status'', map_of data ''confidence'') of
        (Some s, Some c) \<Rightarrow>
          bind_result (py_float c) (\<lambda>conf.
          bind_result (py_iter (get_or data ''checks'' (PList []))) (\<lambda>raw.
          bind_result (map_result check_of_value raw) (\<lambda>cs.
            Ret \<lparr>fv_status = s, fv_confidence = conf, fv_checks = cs,
              fv_validated_at = get_or data ''validated_at'' (PStr now)\<rparr>)))
      | _ \<Rightarrow> Raise KeyError)"

section \<open>Vocabulary\<close>

definition AUTHORITATIVE_CHECKS :: "string list" where
  "AUTHORITATIVE_CHECKS = [''suppression'', ANCHOR_CHECK_ID]"

definition AUTHORITATIVE_POSITIVE :: "string list" where
  "AUTHORITATIVE_POSITIVE = [''memory'']"

definition OBLIGATION_ID :: string where "OBLIGATION_ID = ''obligation''"
definition OBLIGATION_UNKNOWN :: string where "OBLIGATION_UNKNOWN = ''unknown''"
definition OBLIGATION_DISCHARGED :: string where "OBLIGATION_DISCHARGED = ''discharged''"
definition OBLIGATION_REFUTED :: string where "OBLIGATION_REFUTED = ''refuted''"
definition SECRET_VALUE_ID :: string where "SECRET_VALUE_ID = ''secret_value''"
definition SECRET_VALUE_ABSENT :: string where "SECRET_VALUE_ABSENT = ''absent''"
definition INPUT_VALIDATION_ID :: string where "INPUT_VALIDATION_ID = ''input_validation''"
definition INPUT_VALIDATION_GUARDED :: string where "INPUT_VALIDATION_GUARDED = ''guarded''"
definition JUDGE_CITED :: string where "JUDGE_CITED = ''real_bug''"
definition CONFIDENCE_CEILING_UNVERIFIED :: pyfloat where
  "CONFIDENCE_CEILING_UNVERIFIED = FFin (fl64 (99 / 100))"

lemmas voter_vocab [vocab_simps] = OBLIGATION_ID_def OBLIGATION_UNKNOWN_def OBLIGATION_DISCHARGED_def
  OBLIGATION_REFUTED_def SECRET_VALUE_ID_def SECRET_VALUE_ABSENT_def INPUT_VALIDATION_ID_def
  INPUT_VALIDATION_GUARDED_def JUDGE_CITED_def AUTHORITATIVE_CHECKS_def AUTHORITATIVE_POSITIVE_def
  ANCHOR_CHECK_ID_def

section \<open>The vote\<close>

definition vote_clamp :: "pyfloat \<Rightarrow> pyfloat \<Rightarrow> pyfloat \<Rightarrow> pyfloat" where
  "vote_clamp value lo hi = (if fl_less value lo then lo else if fl_less hi value then hi else value)"

definition negative :: "validation_check \<Rightarrow> bool" where
  "negative c = fl_less (vc_weight c) (FFin 0)"

definition positive :: "validation_check \<Rightarrow> bool" where
  "positive c = fl_less (FFin 0) (vc_weight c)"

definition has_authoritative_demotion :: "validation_check list \<Rightarrow> bool" where
  "has_authoritative_demotion checks =
     list_ex (\<lambda>c. vc_id c \<in> set (map PStr AUTHORITATIVE_CHECKS) \<and> negative c) checks"

definition is_refuted :: "validation_check list \<Rightarrow> bool" where
  "is_refuted checks =
     list_ex (\<lambda>c. vc_id c = PStr OBLIGATION_ID \<and> vc_result c = PStr OBLIGATION_REFUTED) checks"

definition count_demoting :: "validation_check list \<Rightarrow> nat" where
  "count_demoting checks = length (filter negative checks)"

definition vote_classify :: "pyfloat \<Rightarrow> nat \<Rightarrow> string" where
  "vote_classify confidence demoting_count =
     (if fl_less confidence (FFin (fl64 (30 / 100))) \<and> 2 \<le> demoting_count then ''likely_fp''
      else if fl_less confidence (FFin (fl64 (55 / 100))) then ''suspicious''
      else ''high_confidence'')"

definition has_authoritative_positive :: "validation_check list \<Rightarrow> bool" where
  "has_authoritative_positive checks =
     list_ex (\<lambda>c. vc_id c \<in> set (map PStr AUTHORITATIVE_POSITIVE) \<and> positive c) checks"

definition judge_verdict_admissible :: "validation_check \<Rightarrow> bool" where
  "judge_verdict_admissible check = (vc_result check = PStr JUDGE_CITED)"

definition sole_promoter_is_inadmissible_judge :: "validation_check list \<Rightarrow> bool" where
  "sole_promoter_is_inadmissible_judge checks =
     (case filter positive checks of
        [only] \<Rightarrow> vc_id only = PStr ''llm_judge'' \<and> \<not> judge_verdict_admissible only
      | _ \<Rightarrow> False)"

definition may_confirm :: "validation_check list \<Rightarrow> bool" where
  "may_confirm checks =
     (if has_authoritative_positive checks then True
      else if list_ex (\<lambda>c. vc_id c = PStr OBLIGATION_ID \<and> vc_result c = PStr OBLIGATION_UNKNOWN) checks
        then False
      else if list_ex (\<lambda>c. vc_id c = PStr SECRET_VALUE_ID \<and> vc_result c = PStr SECRET_VALUE_ABSENT) checks
        then False
      else if list_ex (\<lambda>c. vc_id c = PStr INPUT_VALIDATION_ID
          \<and> vc_result c = PStr INPUT_VALIDATION_GUARDED) checks
        then False
      else \<not> sole_promoter_is_inadmissible_judge checks)"

definition vote_ceiling :: "validation_check list \<Rightarrow> pyfloat" where
  "vote_ceiling checks =
     (if has_authoritative_positive checks then FFin 1 else CONFIDENCE_CEILING_UNVERIFIED)"

definition vote_confidence :: "validation_check list \<Rightarrow> pyfloat" where
  "vote_confidence checks =
     vote_clamp (fl_add (FFin (1 / 2)) (py_sum (map vc_weight checks))) (FFin 0) (vote_ceiling checks)"

definition vote :: "validation_check list \<Rightarrow> string \<times> pyfloat" where
  "vote checks =
     (let confidence = vote_confidence checks in
      if has_authoritative_demotion checks
        then (''likely_fp'', py_min confidence (FFin (fl64 (5 / 100))))
      else if is_refuted checks then (''likely_fp'', confidence)
      else let status = vote_classify confidence (count_demoting checks) in
        (if status = ''high_confidence'' \<and> \<not> may_confirm checks then ''suspicious'' else status,
         confidence))"

section \<open>Compliance mode\<close>

definition compliance_check :: validation_check where
  "compliance_check = new_check ''compliance'' ''neutered'' 0
     ''compliance_mode prevents likely_fp; status forced to suspicious for review'' []"

definition apply_compliance_mode :: "finding_validation \<Rightarrow> finding_validation" where
  "apply_compliance_mode v =
     (if fv_status v \<noteq> PStr ''likely_fp'' then v
      else \<lparr>fv_status = PStr ''suspicious'', fv_confidence = py_max (fv_confidence v) (FFin (fl64 (40 / 100))),
        fv_checks = fv_checks v @ [compliance_check], fv_validated_at = fv_validated_at v\<rparr>)"

section \<open>What the vote promises\<close>

lemma ceiling_le_1: "fl64 (99 / 100) \<le> 1" "0 \<le> fl64 (99 / 100)"
  using fl64_unit [of "99 / 100"] by simp_all

lemma threshold_order: "0 \<le> fl64 (5 / 100)" "fl64 (30 / 100) \<le> fl64 (55 / 100)" "fl64 (5 / 100) \<le> 1"
  using fl64_unit [of "5 / 100"] fl64_mono [of "30 / 100" "55 / 100"] by simp_all

lemma vote_status_range: "fst (vote cs) \<in> {''likely_fp'', ''suspicious'', ''high_confidence''}"
  by (simp add: vote_def vote_classify_def Let_def)

lemma clamp_range:
  assumes "x \<noteq> FNan" and "lo \<le> hi"
  shows "\<exists>r. vote_clamp x (FFin lo) (FFin hi) = FFin r \<and> lo \<le> r \<and> r \<le> hi"
  using assms by (cases x) (auto simp: vote_clamp_def)

lemma confidence_range:
  assumes "list_all (\<lambda>c. fl_finite (vc_weight c)) cs"
  shows "\<exists>r hi. vote_confidence cs = FFin r \<and> vote_ceiling cs = FFin hi \<and> 0 \<le> r \<and> r \<le> hi \<and> hi \<le> 1"
proof -
  obtain hi where hi: "vote_ceiling cs = FFin hi" "0 \<le> hi" "hi \<le> 1"
    using ceiling_le_1
    by (cases "has_authoritative_positive cs") (auto simp: vote_ceiling_def CONFIDENCE_CEILING_UNVERIFIED_def)
  have "list_all fl_finite (map vc_weight cs)" using assms by (simp add: list_all_iff)
  then have "fl_add (FFin (1 / 2)) (py_sum (map vc_weight cs)) \<noteq> FNan"
    by (simp add: py_sum_def fl_add_not_nan del: fl_add.simps)
  then show ?thesis using clamp_range [of _ 0 hi] hi by (auto simp: vote_confidence_def)
qed

text \<open>C39. A vote over finite weights is total and bounded: the status is one of the three, the
  confidence is a number between 0 and the ceiling, the ceiling is 1 only when an operator's own
  positive label (a \<open>memory\<close> check of positive weight) is there and 0.99 otherwise, and an
  authoritative demotion caps it at 0.05.\<close>

theorem vote_bounds:
  assumes "list_all (\<lambda>c. fl_finite (vc_weight c)) cs"
  shows "\<exists>s r. vote cs = (s, FFin r) \<and> s \<in> {''likely_fp'', ''suspicious'', ''high_confidence''}
    \<and> 0 \<le> r \<and> r \<le> (if has_authoritative_positive cs then 1 else fl64 (99 / 100))
    \<and> (has_authoritative_demotion cs \<longrightarrow> s = ''likely_fp'' \<and> r \<le> fl64 (5 / 100))"
proof -
  obtain r hi where r: "vote_confidence cs = FFin r" "vote_ceiling cs = FFin hi" "0 \<le> r" "r \<le> hi"
    using confidence_range [OF assms] by blast
  have hi: "hi = (if has_authoritative_positive cs then 1 else fl64 (99 / 100))"
    using r(2) by (auto simp: vote_ceiling_def CONFIDENCE_CEILING_UNVERIFIED_def split: if_splits)
  show ?thesis
  proof (cases "has_authoritative_demotion cs")
    case True
    then show ?thesis
      using r hi threshold_order(1) by (auto simp: vote_def Let_def py_min_def)
  next
    case False
    then show ?thesis
      using r hi vote_status_range [of cs] by (auto simp: vote_def Let_def)
  qed
qed

definition blocks_label :: "validation_check \<Rightarrow> bool" where
  "blocks_label c \<longleftrightarrow> (vc_id c, vc_result c) \<in> {(PStr ''obligation'', PStr ''unknown''),
     (PStr ''secret_value'', PStr ''absent''), (PStr ''input_validation'', PStr ''guarded'')}"

lemma may_confirm_iff:
  "may_confirm cs \<longleftrightarrow> has_authoritative_positive cs \<or>
     (list_all (\<lambda>c. \<not> blocks_label c) cs \<and> \<not> sole_promoter_is_inadmissible_judge cs)"
  by (auto simp: may_confirm_def blocks_label_def list_all_iff list_ex_iff vocab_simps)

text \<open>C1. Exactly when a finding is confirmed: no operator suppression or proven-absent quote, no
  refuted obligation, a confidence of at least 0.55, and either an operator's own positive label or
  neither an unsearched obligation, nor an empty secret, nor a guarded input, nor a judge that cites
  nothing as the only promoter.\<close>

theorem confirmed_exactly_when:
  "fst (vote cs) = ''high_confidence'' \<longleftrightarrow>
     \<not> (\<exists>c \<in> set cs. vc_id c \<in> {PStr ''suppression'', PStr ''anchor''} \<and> negative c)
   \<and> \<not> (\<exists>c \<in> set cs. vc_id c = PStr ''obligation'' \<and> vc_result c = PStr ''refuted'')
   \<and> \<not> fl_less (vote_confidence cs) (FFin (fl64 (55 / 100)))
   \<and> ((\<exists>c \<in> set cs. vc_id c = PStr ''memory'' \<and> positive c)
      \<or> (\<forall>c \<in> set cs. \<not> blocks_label c)
        \<and> \<not> (\<exists>j. filter positive cs = [j] \<and> vc_id j = PStr ''llm_judge''
               \<and> vc_result j \<noteq> PStr ''real_bug''))"
proof -
  have judge: "sole_promoter_is_inadmissible_judge cs \<longleftrightarrow> (\<exists>j. filter positive cs = [j]
      \<and> vc_id j = PStr ''llm_judge'' \<and> vc_result j \<noteq> PStr ''real_bug'')"
    by (auto simp: sole_promoter_is_inadmissible_judge_def judge_verdict_admissible_def vocab_simps
        split: list.splits)
  have dem: "has_authoritative_demotion cs \<longleftrightarrow>
      (\<exists>c \<in> set cs. vc_id c \<in> {PStr ''suppression'', PStr ''anchor''} \<and> negative c)"
    by (auto simp: has_authoritative_demotion_def list_ex_iff vocab_simps)
  have ref: "is_refuted cs \<longleftrightarrow>
      (\<exists>c \<in> set cs. vc_id c = PStr ''obligation'' \<and> vc_result c = PStr ''refuted'')"
    by (simp add: is_refuted_def list_ex_iff vocab_simps)
  have pos: "has_authoritative_positive cs \<longleftrightarrow>
      (\<exists>c \<in> set cs. vc_id c = PStr ''memory'' \<and> positive c)"
    by (simp add: has_authoritative_positive_def list_ex_iff vocab_simps)
  have low: "fl_less c (FFin (fl64 (30 / 100))) \<Longrightarrow> fl_less c (FFin (fl64 (55 / 100)))" for c
    using threshold_order(2) by (cases c) auto
  have cls: "vote_classify c n = ''high_confidence'' \<longleftrightarrow> \<not> fl_less c (FFin (fl64 (55 / 100)))" for c n
    using low [of c] by (auto simp: vote_classify_def)
  show ?thesis
    unfolding dem [symmetric] ref [symmetric] pos [symmetric] judge [symmetric]
    by (auto simp: vote_def Let_def cls may_confirm_iff list_all_iff)
qed

text \<open>Dismissal without an override needs agreement: when no suppression, no proven-absent quote
  and no refuted obligation is there, \<open>likely_fp\<close> takes at least two demoting checks and a confidence
  below 0.30.\<close>

theorem dismissal_needs_two_demotions:
  assumes "fst (vote cs) = ''likely_fp''" and "\<not> has_authoritative_demotion cs" and "\<not> is_refuted cs"
  shows "2 \<le> count_demoting cs \<and> fl_less (snd (vote cs)) (FFin (fl64 (30 / 100)))"
  using assms by (auto simp: vote_def vote_classify_def Let_def split: if_splits)

section \<open>Bookkeeping checks\<close>

definition bookkeeping :: "validation_check \<Rightarrow> bool" where
  "bookkeeping c \<longleftrightarrow> vc_weight c = FFin 0 \<and> \<not> blocks_label c
     \<and> (vc_id c, vc_result c) \<noteq> (PStr ''obligation'', PStr ''refuted'')"

definition double_weights :: "validation_check list \<Rightarrow> bool" where
  "double_weights cs = list_all (\<lambda>c. \<exists>r. vc_weight c = FFin r \<and> is_double r) cs"

lemma bookkeeping_sign: "bookkeeping c \<Longrightarrow> \<not> negative c \<and> \<not> positive c"
  by (simp add: bookkeeping_def negative_def positive_def)

lemma py_sum_filter_zero:
  assumes "list_all (\<lambda>x. \<exists>r. x = FFin r \<and> is_double r) ws"
  shows "py_sum (filter (\<lambda>w. w \<noteq> FFin 0) ws) = py_sum ws"
proof -
  have fin: "list_all fl_finite ws" using assms by (auto simp: list_all_iff)
  then have fin': "list_all fl_finite (filter (\<lambda>w. w \<noteq> FFin 0) ws)" by (auto simp: list_all_iff)
  have "map fl_val (filter (\<lambda>w. w \<noteq> FFin 0) ws) = filter (\<lambda>x. x \<noteq> 0) (map fl_val ws)"
    using assms by (induction ws) auto
  moreover have "\<forall>x \<in> set (map fl_val ws). is_double x" using assms by (auto simp: list_all_iff)
  ultimately show ?thesis
    using fin fin' py_fsum_filter_zero [of "map fl_val ws"] by (simp add: py_sum_def)
qed

lemma py_sum_drop_zeros:
  assumes "double_weights cs"
    and "\<And>c. c \<in> set cs \<Longrightarrow> p c \<Longrightarrow> vc_weight c = FFin 0"
  shows "py_sum (map vc_weight (filter (\<lambda>c. \<not> p c) cs)) = py_sum (map vc_weight cs)"
proof -
  let ?z = "filter (\<lambda>w. w \<noteq> FFin 0)"
  have w: "list_all (\<lambda>x. \<exists>r. x = FFin r \<and> is_double r) (map vc_weight (filter q cs))" for q
    using assms(1) by (auto simp: double_weights_def list_all_iff)
  have "?z (map vc_weight (filter (\<lambda>c. \<not> p c) cs)) = ?z (map vc_weight cs)"
    using assms(2) by (induction cs) auto
  then have "py_sum (?z (map vc_weight (filter (\<lambda>c. \<not> p c) cs))) = py_sum (?z (map vc_weight cs))"
    by simp
  then show ?thesis
    using py_sum_filter_zero [OF w, of "\<lambda>c. \<not> p c"] py_sum_filter_zero [OF w, of "\<lambda>_. True"] by simp
qed

lemma bookkeeping_never_votes_base:
  assumes "double_weights cs"
  shows "vote (filter (\<lambda>c. \<not> bookkeeping c) cs) = vote cs"
proof -
  let ?f = "filter (\<lambda>c. \<not> bookkeeping c) cs"
  have ex: "list_ex q ?f \<longleftrightarrow> list_ex q cs" if "\<And>c. bookkeeping c \<Longrightarrow> \<not> q c" for q
    using that by (auto simp: list_ex_iff)
  have all: "list_all (\<lambda>c. \<not> blocks_label c) ?f \<longleftrightarrow> list_all (\<lambda>c. \<not> blocks_label c) cs"
    by (auto simp: list_all_iff bookkeeping_def)
  have dem: "has_authoritative_demotion ?f \<longleftrightarrow> has_authoritative_demotion cs"
    unfolding has_authoritative_demotion_def by (rule ex) (use bookkeeping_sign in blast)
  have pos: "has_authoritative_positive ?f \<longleftrightarrow> has_authoritative_positive cs"
    unfolding has_authoritative_positive_def by (rule ex) (use bookkeeping_sign in blast)
  have ref: "is_refuted ?f \<longleftrightarrow> is_refuted cs"
    unfolding is_refuted_def by (rule ex) (auto simp: bookkeeping_def vocab_simps)
  have fp: "filter positive ?f = filter positive cs" "filter negative ?f = filter negative cs"
    using bookkeeping_sign by (induction cs) auto
  have sum: "py_sum (map vc_weight ?f) = py_sum (map vc_weight cs)"
    by (rule py_sum_drop_zeros [OF assms]) (simp add: bookkeeping_def)
  show ?thesis
    by (simp only: vote_def vote_confidence_def vote_ceiling_def dem pos ref sum count_demoting_def fp
        may_confirm_iff all sole_promoter_is_inadmissible_judge_def)
qed

text \<open>Bookkeeping never votes: removing every check that weighs zero and is neither a label-blocking
  state nor a refutation (coverage stamps, window reasons, roll-up marks, advisory verdicts) leaves
  the status and the confidence exactly as they are, rounding included.\<close>

theorem bookkeeping_never_votes:
  assumes "double_weights cs"
  shows "vote (filter (\<lambda>c. \<not> bookkeeping c) cs) = vote cs"
  by (rule bookkeeping_never_votes_base [OF assms])

section \<open>Compliance and the JSON boundary\<close>

lemma compliance_never_fp: "fv_status (apply_compliance_mode v) \<noteq> PStr ''likely_fp''"
  by (simp add: apply_compliance_mode_def)

lemma compliance_check_bookkeeping: "bookkeeping compliance_check"
  by (simp add: bookkeeping_def compliance_check_def blocks_label_def)

lemma check_roundtrip [simp]: "check_from_json (check_to_json c) = Ret c"
  by (simp add: check_from_json_def check_to_json_def get_or_def)

text \<open>C40. A validation survives the JSON boundary: reading back what was written gives the same record,
  whatever the checks, weights (special values included) and extras.\<close>

theorem validation_json_roundtrip: "validation_from_json now (validation_to_json v) = Ret v"
proof -
  have "map_result check_of_value (map (\<lambda>c. PDict (check_to_json c)) cs) = Ret cs" for cs
    by (induction cs) (simp_all add: check_of_value_def)
  then show ?thesis
    by (simp add: validation_from_json_def validation_to_json_def get_or_def)
qed

section \<open>Witnesses\<close>

definition ex_nosec :: validation_check where
  "ex_nosec = new_check ''suppression'' ''nosec'' (-1) [] []"
definition ex_judge :: validation_check where
  "ex_judge = new_check ''llm_judge'' ''real_bug'' 1 ''line 4'' []"
definition ex_note :: validation_check where
  "ex_note = new_check ''l5_coverage'' ''judged'' 0 [] []"

lemmas ex_checks = ex_nosec_def ex_judge_def ex_note_def negative_def positive_def blocks_label_def

theorem vote_bounds_witness:
  "fst (vote [ex_judge, ex_nosec]) = ''likely_fp''"
  using vote_bounds [of "[ex_judge, ex_nosec]"]
  by (auto simp: ex_checks has_authoritative_demotion_def vocab_simps)

theorem confirmed_exactly_when_witness:
  "fst (vote [ex_judge, ex_nosec]) \<noteq> ''high_confidence''"
  unfolding confirmed_exactly_when by (auto simp: ex_checks)

definition ex_path :: validation_check where
  "ex_path = new_check ''path'' ''test_file'' (-1 / 2) [] []"
definition ex_sanitizer :: validation_check where
  "ex_sanitizer = new_check ''sanitizer'' ''matched'' (-1 / 4) [] []"

theorem dismissal_needs_two_demotions_witness:
  "2 \<le> count_demoting [ex_path, ex_sanitizer]"
proof -
  have no: "\<not> has_authoritative_demotion [ex_path, ex_sanitizer]" "\<not> is_refuted [ex_path, ex_sanitizer]"
    by (simp_all add: has_authoritative_demotion_def is_refuted_def ex_path_def ex_sanitizer_def vocab_simps)
  have sum: "py_fsum [- 1 / 2, - 1 / 4] = - 3 / 4" by code_simp
  have "fl64 (- 1 / 4) = - 1 / 4" by code_simp
  then have add: "fl_add (FFin (1 / 2)) (FFin (- 3 / 4)) = FFin (- 1 / 4)" by (simp add: to_double_def)
  have pos: "0 < fl64 (30 / 100)" by code_simp
  have "vote_confidence [ex_path, ex_sanitizer] = FFin 0"
    using sum add by (simp add: vote_confidence_def vote_clamp_def ex_path_def ex_sanitizer_def py_sum_def)
  then have "fst (vote [ex_path, ex_sanitizer]) = ''likely_fp''"
    using no pos by (simp add: vote_def vote_classify_def count_demoting_def negative_def ex_path_def
        ex_sanitizer_def Let_def)
  from dismissal_needs_two_demotions [OF this no] show ?thesis by simp
qed

theorem bookkeeping_never_votes_witness:
  "vote [ex_judge] = vote [ex_note, ex_judge, ex_note]"
proof -
  have "double_weights [ex_note, ex_judge, ex_note]"
    by (simp add: double_weights_def ex_checks)
  from bookkeeping_never_votes [OF this] show ?thesis
    by (simp add: bookkeeping_def ex_checks)
qed

end
