(* ===== verification/Calibration.thy ===== *)
theory Calibration
  imports Voter
begin

text \<open>
  The calibration gate (\<open>shared/validate/calibration.py\<close>): the cached set of demoted rules, the
  per-rule measurement against labelled findings, the recall guard over dropped rows, and the
  scope-divergence alert. The calibration file is a parameter \<open>load\<close> from a path to the parsed JSON
  (\<open>None\<close> when opening or parsing fails); the process-wide cache is explicit state. Rules are the
  values the code keys its dictionaries by.

  The lemmas: the counters are the counts they claim to be, rates lie in the unit interval, a failed
  read is never cached, and a rule is demoted only on enough confirmed evidence.
\<close>

section \<open>The demoted set and its cache\<close>

type_synonym loader = "string \<Rightarrow> pyval option"
type_synonym rule_cache = "string list option"

definition load_demoted_rules :: "env \<Rightarrow> loader \<Rightarrow> string list option" where
  "load_demoted_rules env load =
     (let p = strip (environ_get env ''VULTURE_CALIBRATION_FILE'') in
      if p = [] then Some []
      else case load p of
        Some (PDict data) \<Rightarrow>
          map_option (\<lambda>rules. map py_str (filter truthy rules))
            (as_list (get_or data ''demoted_rules'' (PList [])))
      | _ \<Rightarrow> None)"

definition demoted_rules :: "env \<Rightarrow> loader \<Rightarrow> rule_cache \<Rightarrow> string list \<times> rule_cache" where
  "demoted_rules env load cache =
     (case cache of
        Some rules \<Rightarrow> (rules, cache)
      | None \<Rightarrow> (case load_demoted_rules env load of
          None \<Rightarrow> ([], None)
        | Some loaded \<Rightarrow> (loaded, Some loaded)))"

definition rule_is_demoted :: "env \<Rightarrow> loader \<Rightarrow> string \<Rightarrow> rule_cache \<Rightarrow> bool \<times> rule_cache" where
  "rule_is_demoted env load rule cache =
     (if rule = [] then (False, cache)
      else case demoted_rules env load cache of (rules, cache') \<Rightarrow> (rule \<in> set rules, cache'))"

definition finding_rule_demoted ::
  "env \<Rightarrow> loader \<Rightarrow> string \<Rightarrow> string \<Rightarrow> rule_cache \<Rightarrow> bool \<times> rule_cache" where
  "finding_rule_demoted env load check_id category cache =
     (case rule_is_demoted env load check_id cache of
        (True, cache') \<Rightarrow> (True, cache')
      | (False, cache') \<Rightarrow> rule_is_demoted env load category cache')"

definition reset_demoted_rules_cache :: "rule_cache \<Rightarrow> rule_cache" where
  "reset_demoted_rules_cache cache = None"

text \<open>A history of the process: questions under whatever file is there at the time, and resets.\<close>

datatype cal_event = Ask loader string string | Reset

inductive cal_step :: "env \<Rightarrow> rule_cache \<Rightarrow> cal_event \<Rightarrow> rule_cache \<Rightarrow> bool" for env where
  ask: "finding_rule_demoted env load c k cache = (ans, cache') \<Longrightarrow> cal_step env cache (Ask load c k) cache'"
| reset: "cal_step env cache Reset (reset_demoted_rules_cache cache)"

inductive_cases cal_askE: "cal_step env cache (Ask load c k) cache'"
inductive_cases cal_resetE: "cal_step env cache Reset cache'"
inductive_simps cal_step_simps: "cal_step env cache (Ask load c k) cache'" "cal_step env cache Reset cache'"

inductive cal_run :: "env \<Rightarrow> cal_event list \<Rightarrow> rule_cache \<Rightarrow> bool" for env where
  start: "cal_run env [] None"
| event: "cal_run env es cache \<Longrightarrow> cal_step env cache e cache' \<Longrightarrow> cal_run env (es @ [e]) cache'"

lemma demoted_rules_cache:
  "demoted_rules env load cache = (rules, cache') \<Longrightarrow>
   (case cache of Some c \<Rightarrow> cache' = cache \<and> rules = c
    | None \<Rightarrow> cache' = load_demoted_rules env load \<and> rules = (case cache' of None \<Rightarrow> [] | Some r \<Rightarrow> r))"
  by (cases cache; cases "load_demoted_rules env load") (auto simp: demoted_rules_def)

lemma rule_is_demoted_cache:
  "rule_is_demoted env load r cache = (ans, cache') \<Longrightarrow>
   cache' = cache \<or> cache = None \<and> cache' = load_demoted_rules env load"
  using demoted_rules_cache [of env load cache]
  by (auto simp: rule_is_demoted_def split: if_splits prod.splits option.splits)

lemma finding_rule_demoted_cache:
  "finding_rule_demoted env load c k cache = (ans, cache') \<Longrightarrow>
   cache' = cache \<or> cache = None \<and> cache' = load_demoted_rules env load"
  using rule_is_demoted_cache [of env load c cache] rule_is_demoted_cache [of env load k]
  by (fastforce simp: finding_rule_demoted_def split: prod.splits bool.splits)

section \<open>Per-rule measurement\<close>

record rule_stats =
  rs_rule :: pyval
  rs_findings :: nat
  rs_confirmed :: nat
  rs_confirmed_true :: nat
  rs_confirmed_false :: nat
  rs_dismissed_true_positives :: nat
  rs_labelled_real :: nat

definition new_stats :: "pyval \<Rightarrow> rule_stats" where
  "new_stats r = \<lparr>rs_rule = r, rs_findings = 0, rs_confirmed = 0, rs_confirmed_true = 0,
     rs_confirmed_false = 0, rs_dismissed_true_positives = 0, rs_labelled_real = 0\<rparr>"

definition confirmed_precision :: "rule_stats \<Rightarrow> rat option" where
  "confirmed_precision s = (if rs_confirmed s = 0 then None
     else Some (fl64 (of_nat (rs_confirmed_true s) / of_nat (rs_confirmed s))))"

definition surviving_recall :: "rule_stats \<Rightarrow> rat option" where
  "surviving_recall s = (if rs_labelled_real s = 0 then None
     else Some (fl64 (1 - fl64 (of_nat (rs_dismissed_true_positives s) / of_nat (rs_labelled_real s)))))"

definition rule_of :: "pydict \<Rightarrow> pyval" where
  "rule_of finding = py_or (py_or (get finding ''check_id'') (get finding ''category'')) (PStr ''unknown-rule'')"

definition status_of :: "pydict \<Rightarrow> pyval" where
  "status_of finding = get_or finding ''validation_status'' (PStr ''suspicious'')"

definition count_finding :: "pydict \<Rightarrow> bool \<Rightarrow> rule_stats \<Rightarrow> rule_stats" where
  "count_finding finding is_real s0 =
     (let s = s0\<lparr>rs_findings := rs_findings s0 + 1,
                rs_labelled_real := rs_labelled_real s0 + of_bool is_real\<rparr>;
          status = status_of finding in
      if status = PStr ''high_confidence'' then
        (if is_real then s\<lparr>rs_confirmed := rs_confirmed s + 1, rs_confirmed_true := rs_confirmed_true s + 1\<rparr>
         else s\<lparr>rs_confirmed := rs_confirmed s + 1, rs_confirmed_false := rs_confirmed_false s + 1\<rparr>)
      else if status = PStr ''likely_fp'' \<and> is_real
        then s\<lparr>rs_dismissed_true_positives := rs_dismissed_true_positives s + 1\<rparr>
      else s)"

definition eval_step :: "(pyval \<times> rule_stats) list \<Rightarrow> pydict \<times> bool \<Rightarrow> (pyval \<times> rule_stats) list" where
  "eval_step stats fr = (case fr of (finding, is_real) \<Rightarrow>
     (let rule = rule_of finding;
          s = (case map_of stats rule of None \<Rightarrow> new_stats rule | Some s \<Rightarrow> s) in
      AList.update rule (count_finding finding is_real s) stats))"

definition evaluate_rules :: "(pydict \<times> bool) list \<Rightarrow> (pyval \<times> rule_stats) list" where
  "evaluate_rules labelled = foldl eval_step [] labelled"

section \<open>Recall over dropped rows\<close>

type_synonym site = "pyval \<times> pyval \<times> pyval"

definition site_key :: "pydict \<Rightarrow> site" where
  "site_key finding = (get finding ''file_path'', get finding ''line_start'', rule_of finding)"

definition real_sites :: "(pydict \<times> bool) list \<Rightarrow> site list" where
  "real_sites corpus = remdups (map (\<lambda>(s, _). site_key s) (filter snd corpus))"

definition kept_sites :: "pydict list \<Rightarrow> site list" where
  "kept_sites emitted = remdups (map site_key
     (filter (\<lambda>row. get row ''validation_status'' \<noteq> PStr ''likely_fp'') emitted))"

definition prestatus_recall :: "(pydict \<times> bool) list \<Rightarrow> pydict list \<Rightarrow> rat option" where
  "prestatus_recall corpus emitted =
     (let real = real_sites corpus in
      if real = [] then None
      else Some (fl64 (of_nat (length (filter (\<lambda>s. s \<in> set (kept_sites emitted)) real)) / of_nat (length real))))"

definition rules_below_precision :: "(pyval \<times> rule_stats) list \<Rightarrow> rat \<Rightarrow> int \<Rightarrow> pyval list" where
  "rules_below_precision stats threshold min_findings =
     map fst (filter (\<lambda>(_, s). case confirmed_precision s of None \<Rightarrow> False
       | Some p \<Rightarrow> \<not> int (rs_confirmed s) < min_findings \<and> p < threshold) stats)"

section \<open>Scope divergence\<close>

text \<open>\<open>(f.get("validation") or {}).get("checks", [])\<close>, then the first obligation check.\<close>

definition obligation_of :: "pydict \<Rightarrow> pydict option result" where
  "obligation_of f = (case py_or (get f ''validation'') (PDict []) of
     PDict blob \<Rightarrow> bind_result (py_iter (get_or blob ''checks'' (PList []))) (\<lambda>cs.
       Ret (case first_such (check_has_id ''obligation'') cs of Some (PDict c) \<Rightarrow> Some c | _ \<Rightarrow> None))
   | _ \<Rightarrow> Raise AttributeError)"

text \<open>The rule and whether the searched scope differs, for a finding that counts.\<close>

definition searched_scope :: "pydict \<Rightarrow> (pyval \<times> bool) option result" where
  "searched_scope f = bind_result (obligation_of f) (\<lambda>ob. case ob of
     None \<Rightarrow> Ret None
   | Some c \<Rightarrow> (case py_or (get c ''extras'') (PDict []) of
       PDict extras \<Rightarrow>
         (let declared = get extras ''scope_declared''; actual = get extras ''scope_actual'' in
          Ret (if declared = PNone \<or> actual = PNone then None else Some (rule_of f, actual \<noteq> declared)))
     | _ \<Rightarrow> Raise AttributeError))"

definition divergence_table :: "(pyval \<times> bool) list \<Rightarrow> rat \<Rightarrow> (pyval \<times> rat) list" where
  "divergence_table searched material_share =
     (let seen = tally (map fst searched); diverged = tally (map fst (filter snd searched)) in
      List.map_filter (\<lambda>(rule, total).
        let share = fl64 (of_nat (case map_of diverged rule of None \<Rightarrow> 0 | Some n \<Rightarrow> n) / of_nat total) in
        if 0 < total \<and> material_share \<le> share then Some (rule, share) else None) seen)"

definition scope_divergence :: "pydict list \<Rightarrow> rat \<Rightarrow> (pyval \<times> rat) list result" where
  "scope_divergence findings material_share =
     bind_result (map_result searched_scope findings) (\<lambda>opts.
       Ret (divergence_table (List.map_filter (\<lambda>x. x) opts) material_share))"

section \<open>What the cache promises\<close>

text \<open>The demoted set in force is one that a read really returned: in every history of questions, file
  changes and resets, a cached set is the result of a successful read made by an earlier question
  with no reset after it, and a failed read leaves the cache empty, so the next question reads again.\<close>

theorem cache_is_a_successful_read:
  assumes "cal_run env es cache"
  shows "cache = None \<or> (\<exists>us load c k vs rules. es = us @ Ask load c k # vs \<and> Reset \<notin> set vs
    \<and> load_demoted_rules env load = Some rules \<and> cache = Some rules)"
  using assms
proof (induction rule: cal_run.induct)
  case start
  then show ?case by simp
next
  case (event es cache e cache')
  show ?case
  proof (cases e)
    case Reset
    then show ?thesis using event.hyps(2) by (auto elim: cal_resetE simp: reset_demoted_rules_cache_def)
  next
    case (Ask load c k)
    then obtain ans where "finding_rule_demoted env load c k cache = (ans, cache')"
      using event.hyps(2) by (auto elim: cal_askE)
    then consider "cache' = cache" | "cache = None" "cache' = load_demoted_rules env load"
      using finding_rule_demoted_cache by blast
    then show ?thesis
    proof cases
      case 1
      show ?thesis
      proof (cases cache)
        case (Some rules)
        then obtain us load' c' k' vs where "es = us @ Ask load' c' k' # vs" "Reset \<notin> set vs"
          "load_demoted_rules env load' = Some rules" using event.IH by auto
        then have "es @ [e] = us @ Ask load' c' k' # (vs @ [e])" "Reset \<notin> set (vs @ [e])"
          using Ask by auto
        then show ?thesis using 1 Some \<open>load_demoted_rules env load' = Some rules\<close> by blast
      qed (use 1 in simp)
    next
      case 2
      show ?thesis
      proof (cases cache')
        case (Some rules)
        have "es @ [e] = es @ Ask load c k # []" "Reset \<notin> set ([] :: cal_event list)" using Ask by auto
        then show ?thesis using 2(2) Some by metis
      qed simp
    qed
  qed
qed

section \<open>What the measurement promises\<close>

lemma eval_step_lookup:
  "map_of (eval_step stats (f, label)) r = (if r = rule_of f
     then Some (count_finding f label (case map_of stats r of None \<Rightarrow> new_stats r | Some s \<Rightarrow> s))
     else map_of stats r)"
  by (auto simp: eval_step_def Let_def)

text \<open>The counters as the counts they stand for.\<close>

definition stats_spec :: "pyval \<Rightarrow> (pydict \<times> bool) list \<Rightarrow> rule_stats" where
  "stats_spec r labelled =
     (let mine = filter (\<lambda>(f, _). rule_of f = r) labelled;
          confirmed = filter (\<lambda>(f, _). status_of f = PStr ''high_confidence'') mine in
      \<lparr>rs_rule = r, rs_findings = length mine, rs_confirmed = length confirmed,
       rs_confirmed_true = length (filter snd confirmed),
       rs_confirmed_false = length (filter (\<lambda>x. \<not> snd x) confirmed),
       rs_dismissed_true_positives =
         length (filter (\<lambda>(f, label). label \<and> status_of f = PStr ''likely_fp'') mine),
       rs_labelled_real = length (filter snd mine)\<rparr>)"

lemma stats_spec_Nil: "\<forall>x \<in> set xs. rule_of (fst x) \<noteq> r \<Longrightarrow> stats_spec r xs = new_stats r"
proof -
  assume a: "\<forall>x \<in> set xs. rule_of (fst x) \<noteq> r"
  have "filter (\<lambda>(f, _). rule_of f = r) xs = []" using a by (auto simp: filter_empty_conv)
  then show ?thesis by (simp add: stats_spec_def new_stats_def)
qed

lemma stats_spec_snoc:
  "stats_spec r (xs @ [(f, label)]) =
   (if rule_of f = r then count_finding f label (stats_spec r xs) else stats_spec r xs)"
  by (simp add: stats_spec_def count_finding_def Let_def)

text \<open>The measurement counts what it says: for every rule of the labelled corpus the statistics are the
  number of its findings, of its confirmed ones split by label, of its real findings and of those
  dismissed; a rule with no finding has no entry.\<close>

theorem evaluate_rules_counts:
  "map_of (evaluate_rules labelled) r =
   (if \<exists>x \<in> set labelled. rule_of (fst x) = r then Some (stats_spec r labelled) else None)"
proof (induction labelled rule: rev_induct)
  case Nil
  then show ?case by (simp add: evaluate_rules_def)
next
  case (snoc x xs)
  obtain f label where x: "x = (f, label)" by (cases x)
  have e: "evaluate_rules (xs @ [x]) = eval_step (evaluate_rules xs) x" by (simp add: evaluate_rules_def)
  show ?case
  proof (cases "rule_of f = r")
    case True
    have "(case map_of (evaluate_rules xs) r of None \<Rightarrow> new_stats r | Some s \<Rightarrow> s) = stats_spec r xs"
      using snoc stats_spec_Nil [of xs r] by auto
    then show ?thesis using True by (simp add: e [unfolded x] x eval_step_lookup stats_spec_snoc)
  next
    case False
    then show ?thesis using snoc by (simp add: e [unfolded x] x eval_step_lookup stats_spec_snoc)
  qed
qed

lemma fl64_ratio: "a \<le> b \<Longrightarrow> 0 < b \<Longrightarrow> 0 \<le> fl64 (of_nat a / of_nat b) \<and> fl64 (of_nat a / of_nat b) \<le> 1"
  by (rule fl64_unit) (simp_all add: field_simps)

lemma stats_spec_bounds:
  "rs_confirmed_true (stats_spec r l) \<le> rs_confirmed (stats_spec r l)"
  "rs_dismissed_true_positives (stats_spec r l) \<le> rs_labelled_real (stats_spec r l)"
  "rs_confirmed (stats_spec r l) \<le> rs_findings (stats_spec r l)"
  "rs_confirmed_true (stats_spec r l) + rs_confirmed_false (stats_spec r l) = rs_confirmed (stats_spec r l)"
proof -
  show "rs_confirmed_true (stats_spec r l) \<le> rs_confirmed (stats_spec r l)"
    "rs_confirmed (stats_spec r l) \<le> rs_findings (stats_spec r l)"
    by (simp_all only: stats_spec_def Let_def rule_stats.simps length_filter_le)
  show "rs_confirmed_true (stats_spec r l) + rs_confirmed_false (stats_spec r l) = rs_confirmed (stats_spec r l)"
    by (simp only: stats_spec_def Let_def rule_stats.simps sum_length_filter_compl)
  have "length (filter (\<lambda>(f, label). label \<and> status_of f = PStr ''likely_fp'') xs) \<le> length (filter snd xs)" for xs
    by (induction xs) (auto simp: le_SucI)
  then show "rs_dismissed_true_positives (stats_spec r l) \<le> rs_labelled_real (stats_spec r l)"
    by (simp only: stats_spec_def Let_def rule_stats.simps)
qed

lemma distinct_evaluate_rules: "distinct (map fst (evaluate_rules labelled))"
proof -
  have "distinct (map fst stats) \<Longrightarrow> distinct (map fst (foldl eval_step stats xs))" for stats xs
    by (induction xs arbitrary: stats) (auto simp: eval_step_def Let_def distinct_update split: prod.splits)
  then show ?thesis by (simp add: evaluate_rules_def)
qed

text \<open>A rule is demoted for imprecision exactly when it confirmed at least one finding and no fewer than
  the minimum, and its measured precision, the rounded share of true positives among its confirmed
  findings, is below the threshold; a rule that confirmed nothing is never demoted.\<close>

theorem demoted_iff_measured_imprecise:
  "r \<in> set (rules_below_precision (evaluate_rules labelled) threshold min_findings) \<longleftrightarrow>
    (let confirmed = filter (\<lambda>(f, _). rule_of f = r \<and> status_of f = PStr ''high_confidence'') labelled in
     confirmed \<noteq> [] \<and> min_findings \<le> int (length confirmed)
     \<and> fl64 (of_nat (length (filter snd confirmed)) / of_nat (length confirmed)) < threshold)"
proof -
  let ?c = "filter (\<lambda>(f, _). rule_of f = r \<and> status_of f = PStr ''high_confidence'') labelled"
  have "filter (\<lambda>(f, _). status_of f = PStr ''high_confidence'') (filter (\<lambda>(f, _). rule_of f = r) labelled) = ?c"
    by (induction labelled) auto
  then have c: "rs_confirmed (stats_spec r labelled) = length ?c"
    "rs_confirmed_true (stats_spec r labelled) = length (filter snd ?c)"
    by (simp_all only: stats_spec_def Let_def rule_stats.simps)
  have mem: "(r, s) \<in> set (evaluate_rules labelled) \<longleftrightarrow> map_of (evaluate_rules labelled) r = Some s" for s
    using distinct_evaluate_rules [of labelled] by simp
  have found: "?c \<noteq> [] \<Longrightarrow> \<exists>x \<in> set labelled. rule_of (fst x) = r"
    by (auto simp: filter_empty_conv) (metis fst_conv)
  have "r \<in> set (rules_below_precision (evaluate_rules labelled) threshold min_findings) \<longleftrightarrow>
      (\<exists>s. map_of (evaluate_rules labelled) r = Some s \<and> (case confirmed_precision s of None \<Rightarrow> False
        | Some p \<Rightarrow> \<not> int (rs_confirmed s) < min_findings \<and> p < threshold))"
    unfolding rules_below_precision_def mem [symmetric] by force
  also have "\<dots> \<longleftrightarrow> ?c \<noteq> [] \<and> min_findings \<le> int (length ?c)
      \<and> fl64 (of_nat (length (filter snd ?c)) / of_nat (length ?c)) < threshold"
    using found by (auto simp: evaluate_rules_counts confirmed_precision_def c not_less)
  finally show ?thesis by (simp only: Let_def)
qed

text \<open>The recall guard sees rows that were never emitted: it is a share between 0 and 1 of the labelled-real
  sites of the corpus, whatever was emitted, and emitting more undismissed rows can only raise it.\<close>

theorem prestatus_recall_monotone:
  assumes "prestatus_recall corpus emitted = Some a" and "set emitted \<subseteq> set emitted'"
  shows "0 \<le> a \<and> a \<le> 1 \<and> (\<exists>b. prestatus_recall corpus emitted' = Some b \<and> a \<le> b)"
proof -
  let ?real = "real_sites corpus"
  let ?hit = "\<lambda>em. filter (\<lambda>s. s \<in> set (kept_sites em)) ?real"
  have ne: "?real \<noteq> []" and a: "a = fl64 (of_nat (length (?hit emitted)) / of_nat (length ?real))"
    using assms(1) by (auto simp: prestatus_recall_def Let_def split: if_splits)
  have "set (kept_sites emitted) \<subseteq> set (kept_sites emitted')"
    using assms(2) by (auto simp: kept_sites_def)
  then have sub: "filter (\<lambda>s. s \<in> set (kept_sites emitted)) (?hit emitted') = ?hit emitted"
    by (auto simp: filter_filter intro: filter_cong)
  have "length (?hit emitted) \<le> length (?hit emitted')"
    using length_filter_le [of "\<lambda>s. s \<in> set (kept_sites emitted)" "?hit emitted'"] unfolding sub .
  then have le: "(of_nat (length (?hit emitted)) :: rat) / of_nat (length ?real)
      \<le> of_nat (length (?hit emitted')) / of_nat (length ?real)"
    by (intro divide_right_mono) simp_all
  have "prestatus_recall corpus emitted' = Some (fl64 (of_nat (length (?hit emitted')) / of_nat (length ?real)))"
    using ne by (simp only: prestatus_recall_def Let_def if_False)
  moreover have "0 \<le> a \<and> a \<le> 1" unfolding a by (rule fl64_ratio) (use ne in simp_all)
  ultimately show ?thesis using fl64_mono [OF le] a by blast
qed

text \<open>The scope alert lists exactly the rules whose findings, among those whose obligation searched a
  scope, diverged from the declared scope for at least the material share, with that share.\<close>

theorem divergence_table_exact:
  "(rule, share) \<in> set (divergence_table searched material) \<longleftrightarrow>
   (let mine = filter (\<lambda>(r, _). r = rule) searched in
    mine \<noteq> [] \<and> share = fl64 (of_nat (length (filter snd mine)) / of_nat (length mine)) \<and> material \<le> share)"
proof -
  let ?mine = "filter (\<lambda>(r, _). r = rule) searched"
  have len: "length (filter ((\<lambda>k. k = rule) \<circ> fst) xs) = length (filter (\<lambda>(r, _). r = rule) xs)"
    and occ: "rule \<in> fst ` set xs \<longleftrightarrow> filter (\<lambda>(r, _). r = rule) xs \<noteq> []"
    and swap: "length (filter (\<lambda>(r, _). r = rule) (filter snd xs)) = length (filter snd (filter (\<lambda>(r, _). r = rule) xs))"
    and emp: "filter (\<lambda>(r, _). r = rule) (filter snd xs) = [] \<longleftrightarrow> filter snd (filter (\<lambda>(r, _). r = rule) xs) = []"
    for xs :: "(pyval \<times> bool) list"
    by (induction xs) auto
  have seen: "map_of (tally (map fst searched)) rule = (if ?mine = [] then None else Some (length ?mine))"
    by (simp add: map_of_tally filter_map len occ del: filter_filter)
  have dv: "(case map_of (tally (map fst (filter snd searched))) rule of None \<Rightarrow> 0 | Some n \<Rightarrow> n) =
      length (filter snd ?mine)"
    using swap [of searched] occ [of "filter snd searched"] emp [of searched]
    by (simp add: map_of_tally filter_map len del: filter_filter)
  have "distinct (map fst (foldl (\<lambda>d k. bump k d) d ks))" if "distinct (map fst d)" for d and ks :: "pyval list"
    using that by (induction ks arbitrary: d) (simp_all add: bump_def distinct_update)
  then have dist: "distinct (map fst (tally (map fst searched)))" by (simp add: tally_def)
  have mem: "(rule, n) \<in> set (tally (map fst searched)) \<longleftrightarrow> map_of (tally (map fst searched)) rule = Some n" for n
    using dist by simp
  have "(rule, share) \<in> set (divergence_table searched material) \<longleftrightarrow>
      (\<exists>n. (rule, n) \<in> set (tally (map fst searched)) \<and> 0 < n \<and> material \<le> share
        \<and> share = fl64 (of_nat (length (filter snd ?mine)) / of_nat n))"
    unfolding divergence_table_def Let_def dv [symmetric]
    by (force simp: in_set_map_filter split: if_splits)
  also have "\<dots> \<longleftrightarrow> ?mine \<noteq> [] \<and> share = fl64 (of_nat (length (filter snd ?mine)) / of_nat (length ?mine))
      \<and> material \<le> share"
    unfolding mem seen by auto
  finally show ?thesis by (simp only: Let_def)
qed

section \<open>Witnesses\<close>

definition ex_cal_env :: env where
  "ex_cal_env = (\<lambda>n. if n = ''VULTURE_CALIBRATION_FILE'' then Some ''/etc/cal.json'' else None)"

definition ex_cal_load :: loader where
  "ex_cal_load = (\<lambda>p. if p = ''/etc/cal.json''
     then Some (PDict [(''demoted_rules'', PList [PStr ''CWE-89''])]) else None)"

theorem cache_is_a_successful_read_witness:
  "\<exists>rules. load_demoted_rules ex_cal_env ex_cal_load = Some rules \<and> ''CWE-89'' \<in> set rules"
proof -
  have p: "strip ''/etc/cal.json'' = ''/etc/cal.json''" by code_simp
  have fail: "cal_step ex_cal_env None (Ask (\<lambda>_. None) [] ''CWE-89'') None"
    by (auto simp: cal_step_simps finding_rule_demoted_def rule_is_demoted_def demoted_rules_def
        load_demoted_rules_def ex_cal_env_def environ_get_def p)
  have read: "cal_step ex_cal_env None (Ask ex_cal_load [] ''CWE-89'') (Some [''CWE-89''])"
    by (auto simp: cal_step_simps finding_rule_demoted_def rule_is_demoted_def demoted_rules_def
        load_demoted_rules_def ex_cal_env_def ex_cal_load_def environ_get_def p get_or_def)
  have "cal_run ex_cal_env ([] @ [Ask (\<lambda>_. None) [] ''CWE-89''] @ [Ask ex_cal_load [] ''CWE-89'']) (Some [''CWE-89''])"
    using cal_run.event [OF cal_run.event [OF cal_run.start fail] read] by simp
  from cache_is_a_successful_read [OF this] obtain us vs load c k where
    es: "[Ask (\<lambda>_. None) [] ''CWE-89'', Ask ex_cal_load [] ''CWE-89''] = us @ Ask load c k # vs"
    and l: "load_demoted_rules ex_cal_env load = Some [''CWE-89'']" by auto
  have "load_demoted_rules ex_cal_env (\<lambda>_. None) = None"
    by (simp add: load_demoted_rules_def ex_cal_env_def environ_get_def p)
  then have "load \<noteq> (\<lambda>_. None)" using l by auto
  then have "load = ex_cal_load" using es by (auto simp: Cons_eq_append_conv)
  then show ?thesis using l by auto
qed

definition ex_site :: "string \<Rightarrow> pydict" where
  "ex_site rule = [(''file_path'', PStr ''a.py''), (''line_start'', PInt 3), (''category'', PStr rule)]"

theorem prestatus_recall_monotone_witness:
  "\<exists>b. prestatus_recall [(ex_site ''CWE-89'', True)] [ex_site ''CWE-89'', ex_site ''CWE-79''] = Some b \<and> 0 \<le> b"
proof -
  have "prestatus_recall [(ex_site ''CWE-89'', True)] [ex_site ''CWE-79''] = Some 0"
    by (simp add: prestatus_recall_def real_sites_def kept_sites_def site_key_def rule_of_def py_or_def
        ex_site_def get_or_def)
  from prestatus_recall_monotone [OF this, of "[ex_site ''CWE-89'', ex_site ''CWE-79'']"] show ?thesis by simp
qed

end
