(* ===== verification/Py_Regex.thy ===== *)
theory Py_Regex
  imports Py_Value "HOL-Library.Sublist"
begin

text \<open>
  The regular expressions of Python's \<open>re\<close> that the modelled code uses, as a datatype with the
  backtracking semantics of the library: \<open>rm r s\<close> lists the states a match can end in, in the order
  the matcher tries them, so the first is the match. A state is the consumed text (reversed), the
  rest, and the captured groups, latest first. \<open>Star\<close> is greedy, \<open>Lazy\<close> its non-greedy twin, \<open>Rep n\<close> is \<open>{0,n}\<close>, and each
  round must consume a character, so the length of the rest bounds the rounds. Word characters and white space are those
  of the first 256 code points.
\<close>

type_synonym rstate = "string \<times> string \<times> (nat \<times> string) list"

datatype re = Eps | Cls "char \<Rightarrow> bool" | Cat re re | Alt re re | Star re | Lazy re | Rep nat re | Grp nat re
  | Wb | Ahead re | NotAhead re | Behind "char \<Rightarrow> bool" | Bos | Eos

definition word_char :: "char \<Rightarrow> bool" where
  "word_char c = (if is_alpha_us c then True else if is_digit c then True
     else (let n = (of_char c :: nat) in
       if n < 170 then False
       else if n < 192 then n \<in> {170, 178, 179, 181, 185, 186, 188, 189, 190}
       else n \<noteq> 215 \<and> n \<noteq> 247))"

definition at_boundary :: "string \<Rightarrow> string \<Rightarrow> bool" where
  "at_boundary before rest =
     ((before \<noteq> [] \<and> word_char (hd before)) \<noteq> (rest \<noteq> [] \<and> word_char (hd rest)))"

fun star_from :: "(rstate \<Rightarrow> rstate list) \<Rightarrow> nat \<Rightarrow> rstate \<Rightarrow> rstate list" where
  "star_from f 0 s = [s]"
| "star_from f (Suc n) s =
     concat (map (\<lambda>t. if length (fst (snd t)) < length (fst (snd s)) then star_from f n t else []) (f s)) @ [s]"

fun lazy_from :: "(rstate \<Rightarrow> rstate list) \<Rightarrow> nat \<Rightarrow> rstate \<Rightarrow> rstate list" where
  "lazy_from f 0 s = [s]"
| "lazy_from f (Suc n) s = s #
     concat (map (\<lambda>t. if length (fst (snd t)) < length (fst (snd s)) then lazy_from f n t else []) (f s))"

primrec rm :: "re \<Rightarrow> rstate \<Rightarrow> rstate list" where
  "rm Eps = (\<lambda>s. [s])"
| "rm (Cls p) = (\<lambda>(b, s, g). case s of [] \<Rightarrow> [] | c # cs \<Rightarrow> if p c then [(c # b, cs, g)] else [])"
| "rm (Cat r q) = (\<lambda>s. concat (map (rm q) (rm r s)))"
| "rm (Alt r q) = (\<lambda>s. rm r s @ rm q s)"
| "rm (Star r) = (\<lambda>s. star_from (rm r) (length (fst (snd s))) s)"
| "rm (Lazy r) = (\<lambda>s. lazy_from (rm r) (length (fst (snd s))) s)"
| "rm (Rep n r) = (\<lambda>s. star_from (rm r) (min n (length (fst (snd s)))) s)"
| "rm (Grp n r) = (\<lambda>(b, s, g). map (\<lambda>(b', s', g').
     (b', s', (n, rev (take (length b' - length b) b')) # g')) (rm r (b, s, g)))"
| "rm Wb = (\<lambda>(b, s, g). if at_boundary b s then [(b, s, g)] else [])"
| "rm (Ahead r) = (\<lambda>(b, s, g). case rm r (b, s, g) of [] \<Rightarrow> [] | (_, _, g') # _ \<Rightarrow> [(b, s, g')])"
| "rm (NotAhead r) = (\<lambda>s. if rm r s = [] then [s] else [])"
| "rm (Behind p) = (\<lambda>(b, s, g). if b \<noteq> [] \<and> p (hd b) then [(b, s, g)] else [])"
| "rm Bos = (\<lambda>(b, s, g). if b = [] then [(b, s, g)] else [])"
| "rm Eos = (\<lambda>(b, s, g). if s = [] \<or> s = [NL] then [(b, s, g)] else [])"

section \<open>Building patterns\<close>

definition lit :: "string \<Rightarrow> re" where
  "lit s = foldr (\<lambda>c r. Cat (Cls (\<lambda>x. x = c)) r) s Eps"

text \<open>A literal under \<open>IGNORECASE\<close>, written in lower case.\<close>

definition ilit :: "string \<Rightarrow> re" where
  "ilit s = foldr (\<lambda>c r. Cat (Cls (\<lambda>x. lower_char x = c)) r) s Eps"

definition alts :: "re list \<Rightarrow> re" where
  "alts rs = (case rs of [] \<Rightarrow> Eps | r # qs \<Rightarrow> fold (\<lambda>q a. Alt a q) qs r)"

definition cats :: "re list \<Rightarrow> re" where
  "cats rs = foldr Cat rs Eps"

definition opt_re :: "re \<Rightarrow> re" where "opt_re r = Alt r Eps"
definition plus_re :: "re \<Rightarrow> re" where "plus_re r = Cat r (Star r)"
definition between_re :: "nat \<Rightarrow> nat \<Rightarrow> re \<Rightarrow> re" where
  "between_re lo hi r = cats (replicate lo r @ [Rep (hi - lo) r])"

text \<open>\<open>(?<!p)\<close> for a character class \<open>p\<close>.\<close>

definition not_after :: "(char \<Rightarrow> bool) \<Rightarrow> re" where
  "not_after p = Alt Bos (Behind (\<lambda>c. \<not> p c))"

definition ws_re :: re where "ws_re = Star (Cls is_space)"
definition ws1_re :: re where "ws1_re = plus_re (Cls is_space)"

section \<open>Searching\<close>

text \<open>A match: where it starts and ends, and its groups (group 0 is the whole match).\<close>

record re_match =
  m_start :: nat
  m_end :: nat
  m_groups :: "(nat \<times> string) list"

definition match_at :: "re \<Rightarrow> string \<Rightarrow> string \<Rightarrow> (re_match \<times> string \<times> string) option" where
  "match_at r b s = (case rm (Grp 0 r) (b, s, []) of [] \<Rightarrow> None
     | (b', s', g) # _ \<Rightarrow> Some (\<lparr>m_start = length b, m_end = length b', m_groups = g\<rparr>, b', s'))"

fun search_from :: "re \<Rightarrow> string \<Rightarrow> string \<Rightarrow> (re_match \<times> string \<times> string) option" where
  "search_from r b [] = match_at r b []"
| "search_from r b (c # cs) =
     (case match_at r b (c # cs) of Some m \<Rightarrow> Some m | None \<Rightarrow> search_from r (c # b) cs)"

definition re_search :: "re \<Rightarrow> string \<Rightarrow> re_match option" where
  "re_search r text = map_option fst (search_from r [] text)"

definition re_match :: "re \<Rightarrow> string \<Rightarrow> re_match option" where
  "re_match r text = map_option fst (match_at r [] text)"

text \<open>A group that took no part in the match is \<open>None\<close>.\<close>

definition group :: "re_match \<Rightarrow> nat \<Rightarrow> string option" where
  "group m n = map_of (m_groups m) n"

text \<open>\<open>finditer\<close> of a pattern that matches no empty text; the fuel is the length of the text.\<close>

fun finditer_from :: "re \<Rightarrow> nat \<Rightarrow> string \<Rightarrow> string \<Rightarrow> re_match list" where
  "finditer_from r 0 b s = []"
| "finditer_from r (Suc n) b s = (case search_from r b s of None \<Rightarrow> []
     | Some (m, b', s') \<Rightarrow> m # (if m_end m = m_start m then [] else finditer_from r n b' s'))"

definition finditer :: "re \<Rightarrow> string \<Rightarrow> re_match list" where
  "finditer r text = finditer_from r (Suc (length text)) [] text"

text \<open>\<open>findall\<close> of a pattern with the one group \<open>1\<close>.\<close>

definition findall1 :: "re \<Rightarrow> string \<Rightarrow> string list" where
  "findall1 r text = map (\<lambda>m. case group m 1 of None \<Rightarrow> [] | Some g \<Rightarrow> g) (finditer r text)"

text \<open>\<open>sub\<close> of a pattern that matches no empty text by a constant, with the same fuel.\<close>

fun sub_from :: "re \<Rightarrow> string \<Rightarrow> nat \<Rightarrow> string \<Rightarrow> string \<Rightarrow> string" where
  "sub_from r new 0 b s = s"
| "sub_from r new (Suc n) b s = (case search_from r b s of None \<Rightarrow> s
     | Some (m, b', s') \<Rightarrow>
         if m_end m = m_start m then s
         else take (m_start m - length b) s @ new @ sub_from r new n b' s')"

definition re_sub :: "re \<Rightarrow> string \<Rightarrow> string \<Rightarrow> string" where
  "re_sub r new text = sub_from r new (Suc (length text)) [] text"

text \<open>\<open>sub\<close> by a function of the match and of the text around it: what lies before (reversed) and after.\<close>

fun sub_with_from :: "re \<Rightarrow> (re_match \<Rightarrow> string \<Rightarrow> string \<Rightarrow> string) \<Rightarrow> nat \<Rightarrow> string \<Rightarrow> string \<Rightarrow> string" where
  "sub_with_from r f 0 b s = s"
| "sub_with_from r f (Suc n) b s = (case search_from r b s of None \<Rightarrow> s
     | Some (m, b', s') \<Rightarrow>
         if m_end m = m_start m then s
         else take (m_start m - length b) s @ f m b' s' @ sub_with_from r f n b' s')"

definition re_sub_with :: "re \<Rightarrow> (re_match \<Rightarrow> string \<Rightarrow> string \<Rightarrow> string) \<Rightarrow> string \<Rightarrow> string" where
  "re_sub_with r f text = sub_with_from r f (Suc (length text)) [] text"

text \<open>\<open>r{n,}\<close>.\<close>

definition at_least_re :: "nat \<Rightarrow> re \<Rightarrow> re" where
  "at_least_re n r = cats (replicate n r @ [Star r])"

text \<open>\<open>split\<close> on such a pattern.\<close>

fun split_from :: "re \<Rightarrow> nat \<Rightarrow> string \<Rightarrow> string \<Rightarrow> string list" where
  "split_from r 0 b s = [s]"
| "split_from r (Suc n) b s = (case search_from r b s of None \<Rightarrow> [s]
     | Some (m, b', s') \<Rightarrow>
         if m_end m = m_start m then [s]
         else take (m_start m - length b) s # split_from r n b' s')"

definition re_split :: "re \<Rightarrow> string \<Rightarrow> string list" where
  "re_split r text = split_from r (Suc (length text)) [] text"

section \<open>Matches are parts of the text\<close>

definition step_ok :: "rstate \<Rightarrow> rstate \<Rightarrow> bool" where
  "step_ok s t \<longleftrightarrow> (\<exists>w. fst t = rev w @ fst s \<and> fst (snd s) = w @ fst (snd t))"

lemma step_ok_refl: "step_ok s s"
  by (simp add: step_ok_def)

lemma step_ok_same: "step_ok (b, s, g) (b, s, g')"
  by (simp add: step_ok_def)

lemma step_ok_trans: "step_ok s t \<Longrightarrow> step_ok t u \<Longrightarrow> step_ok s u"
  by (fastforce simp: step_ok_def)

lemma star_from_ok:
  assumes "\<And>s t. t \<in> set (f s) \<Longrightarrow> step_ok s t" and "t \<in> set (star_from f n s)"
  shows "step_ok s t"
  using assms(2)
proof (induction n arbitrary: s)
  case 0
  then show ?case by (simp add: step_ok_refl)
next
  case (Suc n)
  then consider "t = s" | u where "u \<in> set (f s)" "t \<in> set (star_from f n u)"
    by (auto split: if_splits)
  then show ?case
  proof cases
    case 2
    then show ?thesis using Suc.IH assms(1) step_ok_trans by blast
  qed (simp add: step_ok_refl)
qed

lemma lazy_from_ok:
  assumes "\<And>s t. t \<in> set (f s) \<Longrightarrow> step_ok s t" and "t \<in> set (lazy_from f n s)"
  shows "step_ok s t"
  using assms(2)
proof (induction n arbitrary: s)
  case 0
  then show ?case by (simp add: step_ok_refl)
next
  case (Suc n)
  then consider "t = s" | u where "u \<in> set (f s)" "t \<in> set (lazy_from f n u)"
    by (auto split: if_splits)
  then show ?case
  proof cases
    case 2
    then show ?thesis using Suc.IH assms(1) step_ok_trans by blast
  qed (simp add: step_ok_refl)
qed

lemma rm_ok: "t \<in> set (rm r s) \<Longrightarrow> step_ok s t"
proof (induction r arbitrary: s t)
  case (Cls p)
  then show ?case by (cases s) (auto simp: step_ok_def split: list.splits if_splits)
next
  case (Cat r q)
  then obtain u where "u \<in> set (rm r s)" "t \<in> set (rm q u)" by auto
  then show ?case using Cat.IH step_ok_trans by blast
next
  case (Star r)
  then show ?case using star_from_ok [of "rm r"] by simp
next
  case (Lazy r)
  then show ?case using lazy_from_ok [of "rm r"] by simp
next
  case (Rep n r)
  then show ?case using star_from_ok [of "rm r"] by simp
next
  case (Grp n r)
  obtain b u g where s: "s = (b, u, g)" by (cases s)
  then obtain b' u' g' where m: "(b', u', g') \<in> set (rm r s)" and t: "fst t = b'" "fst (snd t) = u'"
    using Grp.prems by auto
  show ?case using Grp.IH [OF m] t by (simp add: step_ok_def)
next
  case (Ahead r)
  then show ?case by (cases s) (auto simp: step_ok_same split: list.splits)
qed (auto simp: step_ok_refl split: if_splits prod.splits)

lemma match_at_text:
  assumes "match_at r b s = Some (m, b', s')"
  shows "\<exists>w. s = w @ s' \<and> b' = rev w @ b \<and> m_start m = length b \<and> m_end m = length b + length w
    \<and> group m 0 = Some w"
proof -
  obtain g0 rest where e: "rm (Grp 0 r) (b, s, []) = (b', s', g0) # rest"
    and m: "m = \<lparr>m_start = length b, m_end = length b', m_groups = g0\<rparr>"
    using assms by (auto simp: match_at_def split: list.splits)
  have "(b', s', g0) \<in> set (rm (Grp 0 r) (b, s, []))" using e by simp
  note ok = rm_ok [OF this]
  then obtain w where w: "b' = rev w @ b" "s = w @ s'" by (auto simp: step_ok_def)
  have "\<exists>g. g0 = (0, rev (take (length b' - length b) b')) # g"
    using \<open>(b', s', g0) \<in> _\<close> by auto
  then show ?thesis using w m by (auto simp: group_def)
qed

lemma search_from_text:
  assumes "search_from r b s = Some (m, b', s')"
  shows "\<exists>u w. s = u @ w @ s' \<and> b' = rev w @ rev u @ b \<and> m_start m = length b + length u
    \<and> m_end m = length b + length u + length w \<and> group m 0 = Some w"
  using assms
proof (induction r b s rule: search_from.induct)
  case (1 r b)
  then have "match_at r b [] = Some (m, b', s')" by simp
  from match_at_text [OF this] show ?case by auto
next
  case (2 r b c cs)
  show ?case
  proof (cases "match_at r b (c # cs)")
    case None
    then have "search_from r (c # b) cs = Some (m, b', s')" using "2.prems" by simp
    from "2.IH" [OF None this] obtain u w where "cs = u @ w @ s'" "b' = rev w @ rev u @ c # b"
      "m_start m = length (c # b) + length u" "m_end m = length (c # b) + length u + length w"
      "group m 0 = Some w" by blast
    then show ?thesis by (intro exI [of _ "c # u"] exI [of _ w]) simp
  next
    case (Some m')
    then have "match_at r b (c # cs) = Some (m, b', s')" using "2.prems" by simp
    from match_at_text [OF this] obtain w where "c # cs = w @ s'" "b' = rev w @ b"
      "m_start m = length b" "m_end m = length b + length w" "group m 0 = Some w" by blast
    then show ?thesis by (intro exI [of _ "[]"] exI [of _ w]) simp
  qed
qed

lemma re_search_text:
  assumes "re_search r text = Some m"
  shows "\<exists>u w v. text = u @ w @ v \<and> group m 0 = Some w \<and> m_start m = length u \<and> m_end m = length u + length w"
  using assms search_from_text [of r "[]" "text"] by (fastforce simp: re_search_def)

section \<open>Patterns that do not look back\<close>

text \<open>A pattern without boundaries and look-behinds matches the same text whatever stands before it, so a
  substitution goes on in the rest as if the rest were the whole text.\<close>

fun forward :: "re \<Rightarrow> bool" where
  "forward (Cat r q) = (forward r \<and> forward q)"
| "forward (Alt r q) = (forward r \<and> forward q)"
| "forward (Star r) = forward r"
| "forward (Lazy r) = forward r"
| "forward (Rep n r) = forward r"
| "forward (Grp n r) = forward r"
| "forward (Ahead r) = forward r"
| "forward (NotAhead r) = forward r"
| "forward Wb = False"
| "forward (Behind p) = False"
| "forward Bos = False"
| "forward r = True"

definition under :: "string \<Rightarrow> rstate \<Rightarrow> rstate" where
  "under c t = (case t of (b, s, g) \<Rightarrow> (b @ c, s, g))"

lemma under_simps [simp]: "under c (b, s, g) = (b @ c, s, g)" "fst (snd (under c t)) = fst (snd t)"
  by (simp_all add: under_def split: prod.split)

lemma star_from_under:
  assumes "\<And>t. f (under c t) = map (under c) (f t)"
  shows "star_from f n (under c t) = map (under c) (star_from f n t)"
proof (induction n arbitrary: t)
  case (Suc n)
  have "concat (map (\<lambda>u. if length (fst (snd u)) < length (fst (snd t)) then star_from f n u else []) (map (under c) us))
      = map (under c) (concat (map (\<lambda>u. if length (fst (snd u)) < length (fst (snd t)) then star_from f n u else []) us))" for us
    by (induction us) (simp_all add: Suc.IH)
  then show ?case by (simp add: assms)
qed simp

lemma lazy_from_under:
  assumes "\<And>t. f (under c t) = map (under c) (f t)"
  shows "lazy_from f n (under c t) = map (under c) (lazy_from f n t)"
proof (induction n arbitrary: t)
  case (Suc n)
  have "concat (map (\<lambda>u. if length (fst (snd u)) < length (fst (snd t)) then lazy_from f n u else []) (map (under c) us))
      = map (under c) (concat (map (\<lambda>u. if length (fst (snd u)) < length (fst (snd t)) then lazy_from f n u else []) us))" for us
    by (induction us) (simp_all add: Suc.IH)
  then show ?case by (simp add: assms)
qed simp

lemma rm_under: "forward r \<Longrightarrow> rm r (under c t) = map (under c) (rm r t)"
proof (induction r arbitrary: t)
  case (Cls p)
  then show ?case by (cases t) (auto split: list.splits)
next
  case (Cat r q)
  have "concat (map (rm q) (map (under c) us)) = map (under c) (concat (map (rm q) us))" for us
    using Cat by (induction us) simp_all
  then show ?case using Cat by simp
next
  case (Star r)
  then show ?case using star_from_under [of "rm r"] by simp
next
  case (Lazy r)
  then show ?case using lazy_from_under [of "rm r"] by simp
next
  case (Rep n r)
  then show ?case using star_from_under [of "rm r"] by simp
next
  case (Grp n r)
  obtain b s g where t: "t = (b, s, g)" by (cases t)
  have "rm r (b @ c, s, g) = map (under c) (rm r (b, s, g))" using Grp by (metis forward.simps(6) under_simps(1))
  then show ?case by (auto simp: t o_def under_def split: prod.split)
next
  case (Ahead r)
  obtain b s g where t: "t = (b, s, g)" by (cases t)
  have "rm r (b @ c, s, g) = map (under c) (rm r (b, s, g))" using Ahead by (metis forward.simps(7) under_simps(1))
  then show ?case by (auto simp: t split: list.split)
next
  case (NotAhead r)
  then show ?case by simp
next
  case Eos
  then show ?case by (cases t) simp
qed simp_all

definition shifted :: "nat \<Rightarrow> re_match \<Rightarrow> re_match" where
  "shifted k m = m\<lparr>m_start := m_start m + k, m_end := m_end m + k\<rparr>"

definition shift_found :: "string \<Rightarrow> (re_match \<times> string \<times> string) option \<Rightarrow> (re_match \<times> string \<times> string) option" where
  "shift_found c = map_option (\<lambda>(m, b, s). (shifted (length c) m, b @ c, s))"

lemma match_at_context: "forward r \<Longrightarrow> match_at r (b @ c) s = shift_found c (match_at r b s)"
  using rm_under [of "Grp 0 r" c "(b, s, [])"]
  by (auto simp: match_at_def shift_found_def shifted_def simp del: rm.simps split: list.split)

lemma search_from_context: "forward r \<Longrightarrow> search_from r (b @ c) s = shift_found c (search_from r b s)"
proof (induction s arbitrary: b)
  case (Cons x xs)
  then show ?case using Cons.IH [of "x # b"]
    by (auto simp: match_at_context shift_found_def split: option.split)
qed (simp add: match_at_context)

text \<open>A replacement that reads only the groups and the text after the match.\<close>

definition blind :: "(re_match \<Rightarrow> string \<Rightarrow> string \<Rightarrow> string) \<Rightarrow> bool" where
  "blind f \<longleftrightarrow> (\<forall>m n b c s. m_groups m = m_groups n \<longrightarrow> f m b s = f n c s)"

lemma sub_context: "forward r \<Longrightarrow> blind f \<Longrightarrow> sub_with_from r f n c s = sub_with_from r f n [] s"
proof (induction n arbitrary: c s)
  case (Suc n)
  show ?case
  proof (cases "search_from r [] s")
    case None
    then show ?thesis using search_from_context [OF Suc.prems(1), of "[]" c s] by (simp add: shift_found_def)
  next
    case (Some found)
    obtain m b' s' where found: "found = (m, b', s')" by (cases found)
    have found_c: "search_from r c s = Some (shifted (length c) m, b' @ c, s')"
      using search_from_context [OF Suc.prems(1), of "[]" c s] Some found by (simp add: shift_found_def)
    have "f (shifted (length c) m) (b' @ c) s' = f m b' s'"
      using Suc.prems(2) by (simp add: blind_def shifted_def)
    moreover have "sub_with_from r f n (b' @ c) s' = sub_with_from r f n b' s'" using Suc by metis
    ultimately show ?thesis using found_c Some found by (simp add: shifted_def)
  qed
qed simp

lemma sub_fuel: "length s < n \<Longrightarrow> length s < k \<Longrightarrow> sub_with_from r f n b s = sub_with_from r f k b s"
proof (induction n arbitrary: k b s)
  case (Suc n)
  then obtain k' where k: "k = Suc k'" by (cases k) auto
  show ?case
  proof (cases "search_from r b s")
    case (Some found)
    obtain m b' s' where found: "found = (m, b', s')" by (cases found)
    show ?thesis
    proof (cases "m_end m = m_start m")
      case False
      then have "length s' < length s" using search_from_text [of r b s m b' s'] Some found by auto
      then have "length s' < n" "length s' < k'" using Suc.prems k by simp_all
      then have "sub_with_from r f n b' s' = sub_with_from r f k' b' s'" by (rule Suc.IH)
      then show ?thesis using Some found k by simp
    qed (simp add: Some found k)
  qed (simp add: k)
qed simp

lemma sub_step:
  assumes "forward r" "blind f" "search_from r [] s = Some (m, b', s')" "m_end m \<noteq> m_start m"
  shows "re_sub_with r f s = take (m_start m) s @ f m b' s' @ re_sub_with r f s'"
proof -
  have "length s' < length s" using search_from_text [OF assms(3)] assms(4) by auto
  then have "sub_with_from r f (length s) [] s' = sub_with_from r f (Suc (length s')) [] s'"
    by (rule sub_fuel) simp
  then have "sub_with_from r f (length s) b' s' = sub_with_from r f (Suc (length s')) [] s'"
    using sub_context [OF assms(1,2), of "length s" b' s'] by (simp only:)
  then show ?thesis using assms by (simp add: re_sub_with_def)
qed

end
