(* ===== verification/Snippet.thy ===== *)
theory Snippet
  imports Line_Format Py_Regex
begin

text \<open>
  Evidence windows (\<open>shared/tools/snippet.py\<close>) and the string-and-comment strip they use
  (\<open>strip_strings_and_comments\<close> of \<open>shared/tools/line_context.py\<close>): the numbered window around a
  cited line, the shortening that keeps the cited row inside the character budget, the bodies of
  exception handlers, and the walker that finds where a block closes. Arguments the code types as
  \<open>int\<close> are integers, so that a negative context or budget is what Python makes of it.
\<close>

section \<open>Constants\<close>

definition STANDARD_PORTS :: "int list" where
  "STANDARD_PORTS = [80, 443, 8080, 8443, 3000, 3001, 5000, 8000, 8888]"

definition is_standard_port :: "int \<Rightarrow> bool" where
  "is_standard_port port = (port \<in> set STANDARD_PORTS)"

definition LINE_BUDGET_LINE_CHARS :: nat where "LINE_BUDGET_LINE_CHARS = 400"
definition SPAN_MAX_LINES :: int where "SPAN_MAX_LINES = 40"
definition SPAN_MIN_CHARS :: int where "SPAN_MIN_CHARS = 2000"

section \<open>The window\<close>

definition window_first_line :: "int \<Rightarrow> int \<Rightarrow> int" where
  "window_first_line line_num context = max 0 (line_num - 1 - context) + 1"

text \<open>\<open>row.index(": ") + 2\<close>; every row here is numbered, so the text is there.\<close>

definition number_end :: "string \<Rightarrow> nat" where
  "number_end row = (case find_sub '': '' row of Some i \<Rightarrow> i + 2 | None \<Rightarrow> 0)"

definition row_prefix :: "string \<Rightarrow> int \<Rightarrow> string" where
  "row_prefix row share = (let number = int (number_end row) in
     py_take (number + max 0 (share - number)) row)"

definition cited_number_fits :: "string list \<Rightarrow> int \<Rightarrow> int \<Rightarrow> bool" where
  "cited_number_fits rows cited max_chars =
     (if \<not> (0 < cited \<and> cited < int (length rows)) then True
      else sum_list (map (\<lambda>r. int (length r) + 1) (take (nat cited) rows))
             + int (number_end (rows ! nat cited)) < max_chars)"

definition keep_cited_row :: "string list \<Rightarrow> int \<Rightarrow> int \<Rightarrow> string list" where
  "keep_cited_row rows cited max_chars =
     (if cited_number_fits rows cited max_chars then rows
      else let share = (max_chars div 2 - cited) div cited in
        map (\<lambda>r. row_prefix r share) (take (nat cited) rows) @ drop (nat cited) rows)"

text \<open>The half-open range of the rows, and the budget left after a span widened the window.\<close>

definition window_range :: "string list \<Rightarrow> int \<Rightarrow> int \<Rightarrow> int \<Rightarrow> int \<times> int" where
  "window_range lines line_num context span_end =
     (let start = window_first_line line_num context - 1; n = int (length lines) in
      (start, if line_num < span_end then min (min n (span_end + context)) (start + SPAN_MAX_LINES)
              else min n (line_num + context)))"

definition window_budget :: "int option \<Rightarrow> int \<Rightarrow> int \<Rightarrow> int option" where
  "window_budget max_chars line_num span_end =
     (if line_num < span_end then map_option (\<lambda>c. max c SPAN_MIN_CHARS) max_chars else max_chars)"

definition numbered_rows :: "string list \<Rightarrow> int \<Rightarrow> int \<Rightarrow> string list" where
  "numbered_rows lines start stop = map (\<lambda>i. number_row (nat i + 1) (lines ! nat i)) [start..stop - 1]"

definition extract_snippet ::
  "string list \<Rightarrow> int \<Rightarrow> int \<Rightarrow> int option \<Rightarrow> pyval \<Rightarrow> string" where
  "extract_snippet lines line_num context max_chars line_end =
     (if lines = [] \<or> line_num < 1 then []
      else let span_end = parse_line line_end 0 in
        case window_range lines line_num context span_end of (start, stop) \<Rightarrow>
        let snippet = (case window_budget max_chars line_num span_end of
            None \<Rightarrow> join_nl (map (\<lambda>i. number_row (nat i + 1) (take LINE_BUDGET_LINE_CHARS (lines ! nat i)))
                        [start..stop - 1])
          | Some budget \<Rightarrow> py_take budget
              (join_nl (keep_cited_row (numbered_rows lines start stop) (line_num - 1 - start) budget)))
        in filter (\<lambda>c. c \<noteq> CHR 0x00) snippet)"

section \<open>Strings and comments\<close>

definition any_char :: re where "any_char = Cls (\<lambda>c. c \<noteq> NL)"

definition STRING_LITERAL_RE :: re where
  "STRING_LITERAL_RE = alts
     [cats [Cls (\<lambda>c. c = CHR 0x27), Star (Alt (Cat (Cls (\<lambda>c. c = CHR 0x5C)) any_char)
        (Cls (\<lambda>c. c \<noteq> CHR 0x27 \<and> c \<noteq> CHR 0x5C))), Cls (\<lambda>c. c = CHR 0x27)],
      cats [Cls (\<lambda>c. c = CHR 0x22), Star (Alt (Cat (Cls (\<lambda>c. c = CHR 0x5C)) any_char)
        (Cls (\<lambda>c. c \<noteq> CHR 0x22 \<and> c \<noteq> CHR 0x5C))), Cls (\<lambda>c. c = CHR 0x22)],
      cats [Cls (\<lambda>c. c = CHR 0x60), Star (Cls (\<lambda>c. c \<noteq> CHR 0x60)), Cls (\<lambda>c. c = CHR 0x60)]]"

definition COMMENT_RE :: re where
  "COMMENT_RE = alts [cats [lit ''#'', Star any_char, Eos], cats [lit ''//'', Star any_char, Eos],
     cats [lit ''/*'', Lazy any_char, lit ''*/'']]"

definition strip_strings_and_comments :: "string \<Rightarrow> string" where
  "strip_strings_and_comments line =
     re_sub COMMENT_RE [] (re_sub STRING_LITERAL_RE [CHR 0x22, CHR 0x22] line)"

section \<open>Bodies and blocks\<close>

definition is_blank :: "string \<Rightarrow> bool" where
  "is_blank s = (strip s = [])"

text \<open>The rows \<open>range(start, min(start + window, len(lines)))\<close> walks.\<close>

definition rows_from :: "string list \<Rightarrow> nat \<Rightarrow> nat \<Rightarrow> string list" where
  "rows_from lines start window = take window (drop start lines)"

definition collect_handler_body :: "string list \<Rightarrow> nat \<Rightarrow> nat \<Rightarrow> nat \<Rightarrow> string list" where
  "collect_handler_body lines header max_body_lines search_window =
     (let body = filter (\<lambda>l. \<not> is_blank l) (rows_from lines header search_window) in
      take (max 1 max_body_lines) body)"

definition brace_count :: "string \<Rightarrow> int" where
  "brace_count code = int (length (filter (\<lambda>c. c = CHR ''{'') code)) - int (length (filter (\<lambda>c. c = CHR ''}'') code))"

text \<open>The loop of the brace family: depth, body so far (reversed).\<close>

fun brace_body :: "nat \<Rightarrow> int \<Rightarrow> string list \<Rightarrow> string list \<Rightarrow> string list" where
  "brace_body max_lines depth body [] = rev body"
| "brace_body max_lines depth body (cur # rest) =
     (let body' = (if is_blank cur then body else cur # body);
          depth' = depth + brace_count (strip_strings_and_comments cur) in
      if depth' \<le> 0 then rev body'
      else if max_lines \<le> length body' then rev body'
      else brace_body max_lines depth' body' rest)"

definition indent_of :: "string \<Rightarrow> nat" where
  "indent_of s = length s - length (lstrip s)"

fun indent_body :: "nat \<Rightarrow> nat \<Rightarrow> string list \<Rightarrow> string list \<Rightarrow> string list" where
  "indent_body max_lines base body [] = rev body"
| "indent_body max_lines base body (cur # rest) =
     (if is_blank cur then indent_body max_lines base body rest
      else if indent_of cur \<le> base then rev body
      else if max_lines \<le> length (cur # body) then rev (cur # body)
      else indent_body max_lines base (cur # body) rest)"

text \<open>The depth a header opens: from its last brace on; 1 in Allman style, where it has none.\<close>

definition header_depth :: "string \<Rightarrow> int" where
  "header_depth header = (let code = strip_strings_and_comments header in
     if CHR ''{'' \<notin> set code then 1
     else 1 + brace_count (rev (takeWhile (\<lambda>c. c \<noteq> CHR ''{'') (rev code))))"

definition collect_scoped_body ::
  "string list \<Rightarrow> nat \<Rightarrow> bool \<Rightarrow> nat \<Rightarrow> nat \<Rightarrow> string list" where
  "collect_scoped_body lines header brace_family max_body_lines search_window =
     (if length lines \<le> header then []
      else let h = (if 1 \<le> header then lines ! (header - 1) else []);
               rows = rows_from lines header search_window in
        if brace_family then
          (if CHR ''{'' \<in> set (strip_strings_and_comments h) \<and> header_depth h \<le> 0 then []
           else brace_body max_body_lines (header_depth h) [] rows)
        else indent_body max_body_lines (indent_of h) [] rows)"

definition count_char :: "char \<Rightarrow> string \<Rightarrow> int" where
  "count_char c s = int (length (filter (\<lambda>x. x = c) s))"

fun close_from :: "char \<Rightarrow> char \<Rightarrow> nat \<Rightarrow> nat \<Rightarrow> nat \<Rightarrow> int \<Rightarrow> string list \<Rightarrow> nat" where
  "close_from opener closer start stop i depth [] = stop"
| "close_from opener closer start stop i depth (l # ls) =
     (let depth' = depth + count_char opener l - count_char closer l in
      if depth' \<le> 0 \<and> start < i then i + 1 else close_from opener closer start stop (i + 1) depth' ls)"

definition find_block_close :: "string list \<Rightarrow> nat \<Rightarrow> char \<Rightarrow> char \<Rightarrow> nat \<Rightarrow> nat" where
  "find_block_close lines start_idx opener closer max_lines =
     close_from opener closer start_idx (min (start_idx + max_lines) (length lines)) start_idx 0
       (rows_from lines start_idx max_lines)"

text \<open>A context pattern corroborates when it occurs anywhere in the file.\<close>

definition check_context :: "string \<Rightarrow> re list \<Rightarrow> bool" where
  "check_context content context_patterns = list_ex (\<lambda>p. re_search p content \<noteq> None) context_patterns"

section \<open>Numbers of rows\<close>

lemma find_sub_first: "a \<notin> set u \<Longrightarrow> find_sub (a # p) (u @ a # p @ v) = Some (length u)"
  by (induction u) (auto simp: starts_with_prefix prefix_def)

lemma number_end_row [simp]: "number_end (number_row n l) = length (str_nat n) + 2"
proof -
  have "CHR '':'' \<notin> set (str_nat n)" using str_nat_digits [of "CHR '':''" n] by auto
  from find_sub_first [OF this, of "'' ''" l] show ?thesis
    by (simp add: number_end_def number_row_def)
qed

lemma str_nat_length_mono: "i \<le> n \<Longrightarrow> length (str_nat i) \<le> length (str_nat n)"
proof (induction n arbitrary: i rule: str_nat.induct)
  case (1 n)
  show ?case
  proof (cases "n < 10")
    case True
    then show ?thesis using "1.prems" by (simp add: str_nat.simps [of i] str_nat.simps [of n])
  next
    case False
    have "i div 10 \<le> n div 10" using "1.prems" by (rule div_le_mono)
    then show ?thesis using "1.IH" [OF False] False
      by (cases "i < 10") (auto simp: str_nat.simps [of i] str_nat.simps [of n])
  qed
qed

lemma row_prefix_length: "int (length (row_prefix r share)) \<le> max (int (number_end r)) share"
  by (simp add: row_prefix_def Let_def)

lemma row_prefix_prefix: "prefix (row_prefix r share) r"
  by (simp add: row_prefix_def Let_def take_is_prefix)

definition laid :: "string list \<Rightarrow> string" where
  "laid rows = concat (map (\<lambda>r. r @ [NL]) rows)"

lemma length_laid: "int (length (laid rows)) = sum_list (map (\<lambda>r. int (length r) + 1) rows)"
  by (induction rows) (simp_all add: laid_def)

lemma join_nl_laid: "join_nl (rows @ r # rest) = laid rows @ join_nl (r # rest)"
proof (induction rows)
  case (Cons x xs)
  have "join_nl ((x # xs) @ r # rest) = x @ [NL] @ join_nl (xs @ r # rest)"
    using join_Cons [of "xs @ r # rest" "[NL]" x] by simp
  then show ?case using Cons by (simp add: laid_def)
qed (simp add: laid_def)

lemma last_laid: "rows \<noteq> [] \<Longrightarrow> last (laid rows) = NL \<and> laid rows \<noteq> []"
proof (induction rows)
  case (Cons x xs)
  then show ?case by (cases xs) (simp_all add: laid_def)
qed simp

lemma take_past_two:
  "length u + length v \<le> n \<Longrightarrow> take n (u @ v @ w) = u @ v @ take (n - length u - length v) w"
  by simp

section \<open>The cited row\<close>

lemma window_range_start: "0 \<le> fst (window_range lines n ctx e)"
  by (simp add: window_range_def window_first_line_def Let_def)

lemma window_range_in:
  assumes "1 \<le> n" and "n \<le> int (length lines)" and "0 \<le> ctx" and "window_range lines n ctx e = (start, stop)"
    and "ctx < SPAN_MAX_LINES"
  shows "0 \<le> start \<and> start \<le> n - 1 \<and> n \<le> stop \<and> stop \<le> int (length lines)"
  using assms
  by (auto simp: window_range_def window_first_line_def SPAN_MAX_LINES_def Let_def split: if_splits)

lemma nth_numbered_rows:
  "0 \<le> start \<Longrightarrow> k < length (numbered_rows lines start stop) \<Longrightarrow>
   numbered_rows lines start stop ! k = number_row (nat start + k + 1) (lines ! (nat start + k))"
  by (simp add: numbered_rows_def nat_add_distrib)

lemma length_numbered_rows [simp]: "length (numbered_rows lines start stop) = nat (stop - start)"
  by (simp add: numbered_rows_def)

lemma keep_cited_row_prefix: "list_all2 prefix (keep_cited_row rows cited budget) rows"
proof -
  have "list_all2 prefix (map (\<lambda>r. row_prefix r s) xs @ ys) (xs @ ys)" for s xs ys
    by (induction xs) (simp_all add: row_prefix_prefix list.rel_refl)
  from this [of _ "take (nat cited) rows" "drop (nat cited) rows"] show ?thesis
    by (simp add: keep_cited_row_def Let_def list.rel_refl)
qed

text \<open>What the shortened rows before the cited one take up.\<close>

lemma kept_before_cited:
  assumes c: "0 < c" "c < length rows" and mc: "0 \<le> mc"
    and num: "\<And>k. k \<le> c \<Longrightarrow> int (number_end (rows ! k)) \<le> (mc div 2 - int c) div int c"
  shows "\<exists>pre. keep_cited_row rows (int c) mc = pre @ drop c rows
    \<and> int (length (laid pre)) + int (number_end (rows ! c)) \<le> mc \<and> length pre = c"
proof (cases "cited_number_fits rows (int c) mc")
  case True
  then have "int (length (laid (take c rows))) + int (number_end (rows ! c)) < mc"
    using c by (simp add: cited_number_fits_def length_laid)
  then show ?thesis using True c by (intro exI [of _ "take c rows"]) (simp add: keep_cited_row_def)
next
  case False
  let ?share = "(mc div 2 - int c) div int c"
  let ?pre = "map (\<lambda>r. row_prefix r ?share) (take c rows)"
  have "int (length (row_prefix r ?share)) + 1 \<le> ?share + 1" if r: "r \<in> set (take c rows)" for r
  proof -
    obtain k where "k < c" "r = rows ! k" using r c by (auto simp: in_set_conv_nth)
    then show ?thesis using row_prefix_length [of r ?share] num [of k] by simp
  qed
  then have "sum_list (map (\<lambda>r. int (length (row_prefix r ?share)) + 1) (take c rows))
      \<le> sum_list (map (\<lambda>r. ?share + 1) (take c rows))" by (intro sum_list_mono) simp
  also have "\<dots> = int c * ?share + int c" using c by (simp add: sum_list_triv algebra_simps)
  also have "int c * ?share \<le> mc div 2 - int c"
    using c(1) by (metis minus_mod_eq_mult_div pos_mod_sign of_nat_0_less_iff diff_ge_0_iff_ge
        le_add_same_cancel1 diff_add_cancel)
  finally have half: "int (length (laid ?pre)) \<le> mc div 2" by (simp add: length_laid comp_def)
  have "?share \<le> mc div 2"
  proof -
    have "int (number_end (rows ! c)) \<le> ?share" using num [of c] by simp
    then have "0 \<le> ?share" by linarith
    then have "?share \<le> int c * ?share" using c(1) by (simp add: mult_le_cancel_right1)
    also have "\<dots> \<le> mc div 2 - int c"
      using c(1) by (metis minus_mod_eq_mult_div pos_mod_sign of_nat_0_less_iff diff_ge_0_iff_ge
        le_add_same_cancel1 diff_add_cancel)
    finally show ?thesis by simp
  qed
  then have "int (length (laid ?pre)) + int (number_end (rows ! c)) \<le> mc"
    using half num [of c] by linarith
  then show ?thesis using False c
    by (intro exI [of _ ?pre]) (simp add: keep_cited_row_def Let_def)
qed

text \<open>A window never loses the line it cites: whatever the lengths of the rows around it, the numbered row
  of the cited line begins inside the character budget, so its \<open>NN: \<close> prefix stands at the start of a row
  of the snippet. The budget has to have room for that number after an equal share of its first half
  went to each earlier row (it has for the default of 200 characters and 2 context lines).\<close>

theorem cited_number_survives_the_cut:
  assumes n: "1 \<le> n" "n \<le> int (length lines)" and ctx: "0 \<le> ctx" "ctx < SPAN_MAX_LINES"
    and c: "c = n - window_first_line n ctx"
    and budget: "window_budget (Some mc) n (parse_line line_end 0) = Some b"
    and room: "if 0 < c then int (length (str_nat (nat n))) + 2 \<le> (b div 2 - c) div c
      else int (length (str_nat (nat n))) + 2 \<le> b"
  shows "\<exists>u v. extract_snippet lines n ctx (Some mc) line_end = u @ str_nat (nat n) @ '': '' @ v
    \<and> (u = [] \<or> last u = NL)"
proof -
  let ?e = "parse_line line_end 0"
  obtain start stop where r: "window_range lines n ctx ?e = (start, stop)" by (metis prod.collapse)
  note rg = window_range_in [OF n ctx(1) r ctx(2)]
  have start: "start = window_first_line n ctx - 1"
    using arg_cong [OF r, of fst] by (simp add: window_range_def Let_def)
  then have cs: "c = n - 1 - start" "0 \<le> c" using c rg by simp_all
  let ?rows = "numbered_rows lines start stop"
  let ?c = "nat c"
  have cl: "?c < length ?rows" using rg cs by simp
  have row: "?rows ! k = number_row (nat start + k + 1) (lines ! (nat start + k))" if "k \<le> ?c" for k
  proof -
    have "k < length ?rows" using that cl by linarith
    then show ?thesis using nth_numbered_rows [of start k lines stop] rg by simp
  qed
  have at: "nat start + ?c + 1 = nat n" using rg cs by linarith
  have num: "int (number_end (?rows ! k)) \<le> int (length (str_nat (nat n))) + 2" if "k \<le> ?c" for k
    using row [OF that] that at str_nat_length_mono [of "nat start + k + 1" "nat n"] by simp
  have b0: "0 \<le> b"
  proof (cases "0 < c")
    case True
    then have "0 \<le> (b div 2 - c) div c" using room by simp
    then have "0 \<le> b div 2 - c" using True by (simp add: pos_imp_zdiv_nonneg_iff)
    then show ?thesis using True by simp
  qed (use room in simp)
  obtain pre rest where keep: "keep_cited_row ?rows c b = pre @ (?rows ! ?c) # rest"
    and fit: "int (length (laid pre)) + int (number_end (?rows ! ?c)) \<le> b"
  proof (cases "0 < c")
    case True
    have "0 < ?c" "int ?c = c" using True by simp_all
    with kept_before_cited [of ?c ?rows b] cl b0 num room True obtain pre where
      "keep_cited_row ?rows c b = pre @ drop ?c ?rows"
      "int (length (laid pre)) + int (number_end (?rows ! ?c)) \<le> b" by force
    then show ?thesis using that Cons_nth_drop_Suc [OF cl] by metis
  next
    case False
    then have "c = 0" using cs by simp
    then have "keep_cited_row ?rows c b = [] @ (?rows ! ?c) # drop 1 ?rows"
      using Cons_nth_drop_Suc [OF cl] by (simp add: keep_cited_row_def cited_number_fits_def)
    moreover have "int (length (laid [])) + int (number_end (?rows ! ?c)) \<le> b"
      using num [of ?c] room False by (simp add: laid_def)
    ultimately show ?thesis using that by blast
  qed
  let ?num = "str_nat (nat n) @ '': ''"
  have nr: "?rows ! ?c = number_row (nat n) (lines ! (nat n - 1))"
  proof -
    have i: "nat start + ?c = nat n - 1" using at by linarith
    have "Suc (nat n - Suc 0) = nat n" using at by linarith
    then show ?thesis using row [OF order_refl] unfolding i by simp
  qed
  then have rc: "?rows ! ?c = ?num @ lines ! (nat n - 1)" by (simp add: number_row_def)
  obtain w where j: "join_nl (keep_cited_row ?rows c b) = laid pre @ ?num @ w"
  proof -
    have "\<exists>w. join_nl ((?rows ! ?c) # rest) = ?num @ w" by (cases rest) (simp_all add: rc)
    then show ?thesis using that by (auto simp: keep join_nl_laid)
  qed
  have len: "length (laid pre) + length ?num \<le> nat b"
    using fit b0 unfolding nr number_end_row by simp
  have cut: "py_take b (laid pre @ ?num @ w) = laid pre @ ?num @ take (nat b - length (laid pre) - length ?num) w"
    using take_past_two [OF len] b0 by simp
  have ne: "\<not> (lines = [] \<or> n < 1)" using n by auto
  let ?f = "filter (\<lambda>x. x \<noteq> CHR 0x00)"
  have "extract_snippet lines n ctx (Some mc) line_end = ?f (py_take b (join_nl (keep_cited_row ?rows c b)))"
    using ne budget cs(1) by (simp add: extract_snippet_def r Let_def)
  also have "\<dots> = ?f (laid pre) @ ?f ?num @ ?f (take (nat b - length (laid pre) - length ?num) w)"
    by (simp only: j cut filter_append)
  also have "?f ?num = ?num"
    using str_nat_digits [of "CHR 0x00" "nat n"] by (auto simp: filter_id_conv is_digit_def)
  finally have ex: "extract_snippet lines n ctx (Some mc) line_end =
      ?f (laid pre) @ str_nat (nat n) @ '': '' @ ?f (take (nat b - length (laid pre) - length ?num) w)"
    by simp
  have "?f (laid pre) = [] \<or> last (?f (laid pre)) = NL"
  proof (cases "pre = []")
    case False
    then obtain xs where "laid pre = xs @ [NL]"
      using last_laid [OF False] by (metis append_butlast_last_id)
    then show ?thesis by simp
  qed (simp add: laid_def)
  then show ?thesis using ex by blast
qed

theorem cited_number_survives_the_cut_witness:
  "\<exists>u v. extract_snippet [''a'', ''b = 1'', ''eval(x)'', ''d''] 3 2 (Some 200) PNone = u @ str_nat 3 @ '': '' @ v
    \<and> (u = [] \<or> last u = NL)"
proof -
  have "\<exists>u v. extract_snippet [''a'', ''b = 1'', ''eval(x)'', ''d''] 3 2 (Some 200) PNone = u @ str_nat (nat 3) @ '': '' @ v
      \<and> (u = [] \<or> last u = NL)"
    by (rule cited_number_survives_the_cut [where b = 200 and c = 2])
      (simp_all add: SPAN_MAX_LINES_def window_first_line_def window_budget_def str_nat.simps [of 3]
        del: parse_line.simps)
  then show ?thesis by simp
qed

text \<open>Rows are never rewritten, only shortened: the rows kept for the budget are, one for one, prefixes of
  the numbered rows of the window.\<close>

theorem kept_rows_are_prefixes: "list_all2 prefix (keep_cited_row rows cited budget) rows"
  by (rule keep_cited_row_prefix)

section \<open>Handler bodies\<close>

lemma brace_body_parts:
  "\<exists>k. brace_body m d body rows = rev body @ filter (\<lambda>l. \<not> is_blank l) (take k rows)
     \<and> (\<forall>j. 0 < j \<and> j < k \<longrightarrow> 0 < d + sum_list (map (\<lambda>l. brace_count (strip_strings_and_comments l)) (take j rows)))"
proof (induction m d body rows rule: brace_body.induct)
  case (1 m d body)
  then show ?case by (intro exI [of _ 0]) simp
next
  case (2 m d body cur rest)
  let ?b = "if is_blank cur then body else cur # body"
  let ?d = "d + brace_count (strip_strings_and_comments cur)"
  show ?case
  proof (cases "?d \<le> 0 \<or> m \<le> length ?b")
    case True
    then have "brace_body m d body (cur # rest) = rev ?b" by (auto simp: Let_def)
    then show ?thesis by (intro exI [of _ 1]) simp
  next
    case False
    then have e: "brace_body m d body (cur # rest) = brace_body m ?d ?b rest" by (simp add: Let_def)
    obtain k where k: "brace_body m ?d ?b rest = rev ?b @ filter (\<lambda>l. \<not> is_blank l) (take k rest)"
      "\<And>j. 0 < j \<Longrightarrow> j < k \<Longrightarrow> 0 < ?d + sum_list (map (\<lambda>l. brace_count (strip_strings_and_comments l)) (take j rest))"
      using "2.IH" [OF refl refl] False by (auto simp: not_le)
    have "0 < d + sum_list (map (\<lambda>l. brace_count (strip_strings_and_comments l)) (take j (cur # rest)))"
      if "0 < j" "j < Suc k" for j
    proof (cases "j - 1")
      case 0
      then show ?thesis using that False by (cases j) auto
    next
      case (Suc i)
      then show ?thesis using that k(2) [of "j - 1"] by (cases j) (auto simp: algebra_simps)
    qed
    then show ?thesis using e k(1) by (intro exI [of _ "Suc k"]) simp
  qed
qed

text \<open>A handler's body stays in the handler's scope: in a brace language it is the non-blank rows of a run
  directly after the header along which, strings and comments aside, the braces opened by the header
  stay open; the run ends at the latest with the row that closes them, so no row of the next function
  excuses this handler.\<close>

theorem scoped_body_stays_in_scope:
  assumes "collect_scoped_body lines header True max_body window \<noteq> []"
  shows "\<exists>k \<le> window. collect_scoped_body lines header True max_body window =
      filter (\<lambda>l. \<not> is_blank l) (take k (drop header lines))
    \<and> (\<forall>j. 0 < j \<and> j < k \<longrightarrow> 0 < header_depth (if 1 \<le> header then lines ! (header - 1) else [])
         + sum_list (map (\<lambda>l. brace_count (strip_strings_and_comments l)) (take j (drop header lines))))"
proof -
  let ?h = "if 1 \<le> header then lines ! (header - 1) else []"
  let ?rows = "rows_from lines header window"
  have "collect_scoped_body lines header True max_body window = brace_body max_body (header_depth ?h) [] ?rows"
    using assms by (simp add: collect_scoped_body_def Let_def split: if_splits)
  moreover obtain k where k: "brace_body max_body (header_depth ?h) [] ?rows = filter (\<lambda>l. \<not> is_blank l) (take k ?rows)"
    "\<And>j. 0 < j \<Longrightarrow> j < k \<Longrightarrow> 0 < header_depth ?h + sum_list (map (\<lambda>l. brace_count (strip_strings_and_comments l)) (take j ?rows))"
    using brace_body_parts [of max_body "header_depth ?h" "[]" ?rows] by auto
  moreover have "take k ?rows = take (min k window) (drop header lines)" by (simp add: rows_from_def)
  ultimately have body: "collect_scoped_body lines header True max_body window =
      filter (\<lambda>l. \<not> is_blank l) (take (min k window) (drop header lines))" by simp
  have "0 < header_depth ?h
      + sum_list (map (\<lambda>l. brace_count (strip_strings_and_comments l)) (take j (drop header lines)))"
    if j: "0 < j \<and> j < min k window" for j
  proof -
    have "take j ?rows = take j (drop header lines)"
      using j by (simp add: rows_from_def min_absorb1)
    then show ?thesis using k(2) [of j] j by simp
  qed
  then show ?thesis using body by (intro exI [of _ "min k window"]) (simp del: min_less_iff_conj)
qed

theorem scoped_body_stays_in_scope_witness:
  "collect_scoped_body [''} catch (e) {'', ''  log(e);'', ''}'', ''other();''] 1 True 12 40 \<noteq> []
   \<and> (\<exists>k \<le> (40::nat). collect_scoped_body [''} catch (e) {'', ''  log(e);'', ''}'', ''other();''] 1 True 12 40 =
      filter (\<lambda>l. \<not> is_blank l) (take k (drop 1 [''} catch (e) {'', ''  log(e);'', ''}'', ''other();''])))"
proof -
  have e: "collect_scoped_body [''} catch (e) {'', ''  log(e);'', ''}'', ''other();''] 1 True 12 40 = [''  log(e);'', ''}'']"
    by code_simp
  then have "collect_scoped_body [''} catch (e) {'', ''  log(e);'', ''}'', ''other();''] 1 True 12 40 \<noteq> []"
    by (simp only:) simp
  from scoped_body_stays_in_scope [OF this] this show ?thesis by blast
qed

end
