(* ===== verification/Window.thy ===== *)
theory Window
  imports Snippet Voter
begin

text \<open>
  Code windows on findings (\<open>shared/tools/window.py\<close>): why a finding has no window
  (\<open>record_window_reason\<close>), whether a carried window's coordinates are the file's
  (\<open>confirmed_window_start\<close>), and the stage that windows, re-windows and redacts a batch
  (\<open>ensure_code_window\<close>). The callables the code passes around as \<open>_Deps\<close> are the record
  \<open>window_deps\<close>. A finding is returned updated where the code mutates it. \<open>read_line_number\<close> can raise
  on a number of more than 4300 digits, and nothing on the way catches it, so the stage returns how it
  ended with the rows as it left them.

  The lemmas: recording a reason touches nothing else and cannot move a vote, a confirmed start is the
  file's, a citation past the end of a readable file gets no window, and the reason says \<open>present\<close>
  exactly when a window is there.
\<close>

section \<open>Reasons\<close>

definition REDACTED :: string where "REDACTED = ''***REDACTED***''"
definition CODE_SNIPPET_START :: string where "CODE_SNIPPET_START = ''_code_snippet_start''"
definition WINDOW_CHECK :: string where "WINDOW_CHECK = ''window''"
definition REPO_ROOT_PATH :: string where "REPO_ROOT_PATH = ''.''"

definition REASON_TEXT :: "(string \<times> string) list" where
  "REASON_TEXT = [(''inherited'', ''carried from another agent's finding; source not re-read''),
     (''rollup_parent'', ''groups several sites; no single line represents them''),
     (''no_code_location'', ''this finding class has no file or line''),
     (''unreadable'', ''the referenced file could not be read''),
     (''no_line'', ''a file, but no usable line number''),
     (''present'', ''''),
     (''out_of_range'', ''the cited line is past the end of the file'')]"

definition WINDOW_REASONS :: "string list" where
  "WINDOW_REASONS = [''inherited'', ''rollup_parent'', ''no_code_location'', ''unreadable'', ''no_line'',
     ''present'', ''out_of_range'']"

definition new_window_check :: "string \<Rightarrow> pyval" where
  "new_window_check reason = PDict [(''id'', PStr WINDOW_CHECK), (''result'', PStr reason),
     (''weight'', PFloat (FFin 0)),
     (''reason'', PStr (case map_of REASON_TEXT reason of None \<Rightarrow> [] | Some t \<Rightarrow> t)),
     (''extras'', PDict [])]"

definition is_window_check :: "pyval \<Rightarrow> bool" where
  "is_window_check check = check_has_id WINDOW_CHECK check"

definition record_window_reason :: "pydict \<Rightarrow> string \<Rightarrow> pydict" where
  "record_window_reason finding reason =
     (if reason \<notin> set WINDOW_REASONS then finding
      else
        let blob = (case as_dict (get finding ''validation'') of Some b \<Rightarrow> b | None \<Rightarrow> []);
            checks = (case as_list (get blob ''checks'') of Some cs \<Rightarrow> cs | None \<Rightarrow> []);
            checks' = (if list_ex is_window_check checks then checks else checks @ [new_window_check reason])
        in put ''validation'' (PDict (put ''checks'' (PList checks') blob)) finding)"

definition window_reason_of :: "pydict \<Rightarrow> string" where
  "window_reason_of finding =
     foldl (\<lambda>_ check. py_str (check_field check ''result'' (PStr []))) []
       (filter is_window_check (validation_checks finding))"

definition window_check :: "string \<Rightarrow> pyval result" where
  "window_check reason = (case get (record_window_reason [] reason) ''validation'' of
     PDict blob \<Rightarrow> (case as_list (get blob ''checks'') of Some (c # _) \<Rightarrow> Ret c | _ \<Rightarrow> Raise IndexError)
   | _ \<Rightarrow> Raise KeyError)"

section \<open>Coordinates\<close>

definition row_matches :: "string \<Rightarrow> string \<Rightarrow> bool" where
  "row_matches row expected = (if contains REDACTED row then True else starts_with expected row)"

definition window_matches :: "string list \<Rightarrow> string list \<Rightarrow> nat \<Rightarrow> bool" where
  "window_matches rows lines claim =
     (list_all (\<lambda>(i, row). row_matches row (number_row (claim + i) (lines ! (claim - 1 + i)))) (enum_from 0 rows)
      \<and> list_ex (\<lambda>row. strip (strip_line_number row) \<noteq> []) rows)"

definition confirmed_window_start :: "string \<Rightarrow> string list \<Rightarrow> nat result" where
  "confirmed_window_start snippet lines =
     (let rows = splitlines snippet in
      case rows of [] \<Rightarrow> Ret 0
      | r # _ \<Rightarrow> bind_result (read_line_number r) (\<lambda>claim. Ret (case claim of
          None \<Rightarrow> 0
        | Some c \<Rightarrow> if c = 0 \<or> length lines < c + length rows - 1 then 0
            else if window_matches rows lines c then c else 0)))"

text \<open>The secret lines of each path, as ranges of lines.\<close>

type_synonym secret_index = "(string \<times> (int \<times> int) list) list"

record window_deps =
  wd_resolve :: "pyval \<Rightarrow> string \<Rightarrow> path option result"
  wd_read_lines :: reader
  wd_snippet_params :: "pyval \<Rightarrow> (int \<times> int option) result"
  wd_redact :: "pydict \<Rightarrow> unit result \<times> pydict"
  wd_secret_line_index :: "pydict list \<Rightarrow> secret_index result"
  wd_redact_secret_lines :: "pydict \<Rightarrow> secret_index \<Rightarrow> pydict result"

definition source_lines :: "pydict \<Rightarrow> string \<Rightarrow> window_deps \<Rightarrow> string list option result" where
  "source_lines finding source_path deps =
     bind_result (wd_resolve deps (get_or finding ''file_path'' (PStr [])) source_path) (\<lambda>r.
       Ret (case r of None \<Rightarrow> None | Some p \<Rightarrow> wd_read_lines deps p))"

definition or_empty :: "string list option \<Rightarrow> string list" where
  "or_empty lines = (case lines of None \<Rightarrow> [] | Some ls \<Rightarrow> ls)"

definition record_window_start :: "pydict \<Rightarrow> string list option \<Rightarrow> pydict result" where
  "record_window_start finding lines =
     (let snippet = get finding ''code_snippet'' in
      if \<not> truthy snippet then Ret finding
      else case snippet of
        PStr s \<Rightarrow> bind_result (confirmed_window_start s (or_empty lines)) (\<lambda>start.
          Ret (if 1 \<le> start then put CODE_SNIPPET_START (PInt (int start)) finding else finding))
      | _ \<Rightarrow> Raise AttributeError)"

definition lineless_reason :: "pydict \<Rightarrow> string" where
  "lineless_reason finding =
     (if truthy (get finding ''code_snippet'') then ''present''
      else if get finding ''file_path'' \<in> {PStr [], PNone, PStr REPO_ROOT_PATH} then ''no_code_location''
      else ''no_line'')"

definition past_eof :: "string list option \<Rightarrow> int \<Rightarrow> bool" where
  "past_eof lines line_start = (case lines of None \<Rightarrow> False
     | Some ls \<Rightarrow> line_range line_start (length ls) = RANGE_PAST_EOF)"

definition attach_window :: "pydict \<Rightarrow> string list option \<Rightarrow> int \<Rightarrow> int \<Rightarrow> int option \<Rightarrow> pydict" where
  "attach_window finding lines line_start context max_chars =
     (if or_empty lines = [] then finding
      else let e = int_field finding ''line_end'';
               snippet = extract_snippet (or_empty lines) line_start context max_chars
                 (if e = 0 then PNone else PInt e) in
        if snippet = [] then finding else put ''code_snippet'' (PStr snippet) finding)"

definition keeps_carried_window :: "pydict \<Rightarrow> int \<times> int option \<Rightarrow> bool" where
  "keeps_carried_window finding params = (snd params \<noteq> None \<and> truthy (get finding ''code_snippet''))"

definition carried_start :: "pydict \<Rightarrow> string list option \<Rightarrow> int result" where
  "carried_start finding lines =
     (let stamped = int_field finding CODE_SNIPPET_START in
      if 1 \<le> stamped then Ret stamped
      else bind_result (confirmed_window_start (py_str (get finding ''code_snippet'')) (or_empty lines))
        (\<lambda>s. Ret (int s)))"

definition MIN_SHOWN_CHARS :: nat where "MIN_SHOWN_CHARS = 8"
definition MAX_COMPARED_CHARS :: nat where "MAX_COMPARED_CHARS = 4000"

definition PLACEHOLDER_SPLIT :: re where
  "PLACEHOLDER_SPLIT = Alt (lit ''***REDACTED***'') (lit ''[redacted]'')"

fun shown_in_order :: "string list \<Rightarrow> string \<Rightarrow> bool" where
  "shown_in_order [] cited = True"
| "shown_in_order (piece # ps) cited = (case find_sub piece cited of None \<Rightarrow> False
     | Some i \<Rightarrow> shown_in_order ps (drop (i + length piece) cited))"

definition shows_cited :: "string \<Rightarrow> string \<Rightarrow> bool" where
  "shows_cited row cited = (let pieces = filter (\<lambda>p. p \<noteq> []) (re_split PLACEHOLDER_SPLIT row) in
     if sum_list (map length pieces) < MIN_SHOWN_CHARS then False else shown_in_order pieces cited)"

definition unproven_model_window :: "pydict \<Rightarrow> string list option \<Rightarrow> int \<Rightarrow> bool result" where
  "unproven_model_window finding lines line_start =
     (if or_empty lines = [] \<or> \<not> is_llm_provenance (get finding ''provenance'') then Ret False
      else if line_start < 1 \<or> int (length (or_empty lines)) < line_start then Raise IndexError
      else let cited = strip (or_empty lines ! nat (line_start - 1)) in
        if cited = [] \<or> MAX_COMPARED_CHARS < length cited then Ret False
        else Ret (\<not> list_ex (\<lambda>row. shows_cited (strip (strip_line_number row)) cited)
               (splitlines (py_str (get finding ''code_snippet'')))))"

definition carried_window_stands :: "pydict \<Rightarrow> string list option \<Rightarrow> int \<Rightarrow> bool result" where
  "carried_window_stands finding lines line_start =
     (let claimed = int_field finding ''_claimed_line'' in
      if 1 \<le> claimed \<and> claimed \<noteq> line_start then Ret False
      else bind_result (carried_start finding lines) (\<lambda>start.
        if start < 1 then bind_result (unproven_model_window finding lines line_start) (\<lambda>u. Ret (\<not> u))
        else let rows = length (splitlines (py_str (get finding ''code_snippet''))) in
          Ret (start \<le> line_start \<and> line_start < start + int rows)))"

definition discard_stale_window :: "pydict \<Rightarrow> string list option \<Rightarrow> int \<Rightarrow> pydict result" where
  "discard_stale_window finding lines line_start =
     (if \<not> truthy (get finding ''code_snippet'') then Ret finding
      else bind_result (carried_window_stands finding lines line_start) (\<lambda>stands.
        Ret (if stands then finding else pop CODE_SNIPPET_START (pop ''code_snippet'' finding))))"

definition windowed_reason ::
  "pydict \<Rightarrow> string list option \<Rightarrow> int \<Rightarrow> window_deps \<Rightarrow> (string \<times> pydict) result" where
  "windowed_reason finding lines line_start deps =
     bind_result (wd_snippet_params deps (py_or (get_or finding ''category'' (PStr [])) (PStr []))) (\<lambda>params.
      bind_result (discard_stale_window finding lines line_start) (\<lambda>f1.
        let f2 = (if keeps_carried_window f1 params then f1
                  else attach_window f1 lines line_start (fst params) (snd params)) in
        Ret (if truthy (get f2 ''code_snippet'') then ''present'' else ''unreadable'', f2)))"

type_synonym windowed = "string \<times> string list option \<times> pydict"

definition window_reason_for :: "pydict \<Rightarrow> string \<Rightarrow> window_deps \<Rightarrow> windowed result" where
  "window_reason_for finding source_path deps =
     (let line_start = int_field finding ''line_start'' in
      if line_start < 1 then
        bind_result (if truthy (get finding ''code_snippet'') then source_lines finding source_path deps else Ret None)
          (\<lambda>lines. Ret (lineless_reason finding, lines, finding))
      else bind_result (source_lines finding source_path deps) (\<lambda>lines.
        if past_eof lines line_start then
          Ret (''out_of_range'', lines, pop CODE_SNIPPET_START (pop ''code_snippet'' finding))
        else bind_result (windowed_reason finding lines line_start deps) (\<lambda>(reason, f).
          Ret (reason, lines, f))))"

text \<open>
  The stage works in place: a row that raises keeps what was done to it, the rows before it are done and
  those behind it are not reached. No step of the window decision changes a row and then raises.
\<close>

definition ensure_one ::
  "string \<Rightarrow> window_deps \<Rightarrow> secret_index \<Rightarrow> bool \<Rightarrow> pydict \<Rightarrow> unit result \<times> pydict" where
  "ensure_one source_path deps secret_lines record_reasons f =
     (case window_reason_for f source_path deps of
        Inl e \<Rightarrow> (Raise e, f)
      | Inr (reason, lines, f1) \<Rightarrow> (case record_window_start f1 lines of
          Inl e \<Rightarrow> (Raise e, f1)
        | Inr f2 \<Rightarrow> (case wd_redact deps f2 of
            (Inl e, f3) \<Rightarrow> (Raise e, f3)
          | (Inr _, f3) \<Rightarrow> (case wd_redact_secret_lines deps f3 secret_lines of
              Inl e \<Rightarrow> (Raise e, f3)
            | Inr f4 \<Rightarrow> (Ret (), if record_reasons then record_window_reason f4 reason else f4)))))"

fun ensure_rows ::
  "string \<Rightarrow> window_deps \<Rightarrow> secret_index \<Rightarrow> bool \<Rightarrow> pydict list \<Rightarrow> unit result \<times> pydict list" where
  "ensure_rows source_path deps secret_lines record_reasons [] = (Ret (), [])"
| "ensure_rows source_path deps secret_lines record_reasons (f # fs) =
     (case ensure_one source_path deps secret_lines record_reasons f of
        (Inl e, f') \<Rightarrow> (Raise e, f' # fs)
      | (Inr _, f') \<Rightarrow> (case ensure_rows source_path deps secret_lines record_reasons fs of (r, fs') \<Rightarrow> (r, f' # fs')))"

definition ensure_code_window ::
  "pydict list \<Rightarrow> string \<Rightarrow> window_deps \<Rightarrow> bool \<Rightarrow> unit result \<times> pydict list" where
  "ensure_code_window findings source_path deps record_reasons =
     (case wd_secret_line_index deps findings of
        Inl e \<Rightarrow> (Raise e, findings)
      | Inr secret_lines \<Rightarrow> ensure_rows source_path deps secret_lines record_reasons findings)"

section \<open>Recording a reason\<close>

lemma check_has_id_new: "is_window_check (new_window_check r)"
  by (simp add: is_window_check_def check_has_id_def new_window_check_def get_or_def)

lemma validation_checks_record:
  assumes "r \<in> set WINDOW_REASONS"
  shows "validation_checks (record_window_reason f r) =
    (if list_ex is_window_check (validation_checks f) then validation_checks f
     else validation_checks f @ [new_window_check r])"
proof -
  have vc: "validation_checks f =
      (case as_list (get (case as_dict (get f ''validation'') of Some b \<Rightarrow> b | None \<Rightarrow> []) ''checks'') of
         Some cs \<Rightarrow> cs | None \<Rightarrow> [])"
    by (auto simp: validation_checks_def split: option.splits)
  show ?thesis
    unfolding vc using assms by (simp add: record_window_reason_def Let_def validation_checks_def)
qed

lemma record_other_keys: "k \<noteq> ''validation'' \<Longrightarrow> get_or (record_window_reason f r) k d = get_or f k d"
  by (simp add: record_window_reason_def Let_def)

lemma update_twice: "AList.update k v (AList.update k v d) = AList.update k v d"
  by (induction d) auto

lemma window_reason_fold: "filter is_window_check cs = xs @ [c] \<Longrightarrow>
   foldl (\<lambda>_ check. py_str (check_field check ''result'' (PStr []))) [] (filter is_window_check cs) =
   py_str (check_field c ''result'' (PStr []))"
  by simp

text \<open>The first reason wins: recording a reason leaves every other key of the finding alone, is read back
  when no reason was there, changes nothing when one was, and recording again (any reason) changes
  nothing more.\<close>

theorem first_window_reason_wins:
  assumes "r \<in> set WINDOW_REASONS"
  shows "window_reason_of (record_window_reason f r) =
      (if list_ex is_window_check (validation_checks f) then window_reason_of f else r)
    \<and> (\<forall>k d. k \<noteq> ''validation'' \<longrightarrow> get_or (record_window_reason f r) k d = get_or f k d)
    \<and> record_window_reason (record_window_reason f r) r' = record_window_reason f r"
proof (intro conjI allI impI)
  show "window_reason_of (record_window_reason f r) =
      (if list_ex is_window_check (validation_checks f) then window_reason_of f else r)"
    using check_has_id_new [of r]
    by (simp add: window_reason_of_def validation_checks_record [OF assms])
      (simp add: check_field_def new_window_check_def get_or_def)
  show "get_or (record_window_reason f r) k d = get_or f k d" if "k \<noteq> ''validation''" for k d
    using that by (rule record_other_keys)
  show "record_window_reason (record_window_reason f r) r' = record_window_reason f r"
    using assms check_has_id_new [of r]
    by (auto simp: record_window_reason_def Let_def update_twice)
qed

text \<open>Recording why a window is missing cannot move a verdict: re-reading the finding's checks after the
  stamp and voting again gives the status and confidence of the checks before it.\<close>

theorem recording_a_reason_never_votes:
  assumes "map_result check_of_value (validation_checks f) = Ret cs" and "double_weights cs"
  shows "\<exists>cs'. map_result check_of_value (validation_checks (record_window_reason f r)) = Ret cs'
    \<and> vote cs' = vote cs"
proof (cases "r \<in> set WINDOW_REASONS \<and> \<not> list_ex is_window_check (validation_checks f)")
  case True
  obtain w where w: "check_of_value (new_window_check r) = Ret w" "vc_id w = PStr WINDOW_CHECK" "vc_weight w = FFin 0"
    by (simp add: new_window_check_def check_of_value_def check_from_json_def)
  have app: "map_result check_of_value xs = Ret ys \<Longrightarrow> map_result check_of_value (xs @ [new_window_check r]) = Ret (ys @ [w])"
    for xs ys by (induction xs arbitrary: ys) (auto simp: w bind_result_Ret)
  have bk: "bookkeeping w" using w by (simp add: bookkeeping_def blocks_label_def WINDOW_CHECK_def)
  have "double_weights (cs @ [w])" using assms(2) w by (simp add: double_weights_def)
  from bookkeeping_never_votes_base [OF this] bookkeeping_never_votes_base [OF assms(2)] bk
  have "vote (cs @ [w]) = vote cs" by simp
  then show ?thesis using True app [OF assms(1)] by (auto simp: validation_checks_record)
next
  case False
  then have "validation_checks (record_window_reason f r) = validation_checks f"
  proof (cases "r \<in> set WINDOW_REASONS")
    case True
    then show ?thesis using False validation_checks_record [OF True, of f] by simp
  qed (simp add: record_window_reason_def)
  then show ?thesis using assms(1) by auto
qed

section \<open>Coordinates\<close>

text \<open>A confirmed start is the file's own: every row of the window, unless redacted, is a prefix of the
  numbered file line it claims to be, all claimed lines exist, and some row has content, so a window
  that only looks numbered is never believed.\<close>

theorem confirmed_start_is_the_files:
  assumes "confirmed_window_start snippet ls = Ret c" and "0 < c"
  shows "let rows = splitlines snippet in rows \<noteq> [] \<and> c + length rows \<le> length ls + 1
    \<and> (\<forall>i < length rows. contains REDACTED (rows ! i) \<or> prefix (rows ! i) (number_row (c + i) (ls ! (c - 1 + i))))
    \<and> (\<exists>row \<in> set rows. strip (strip_line_number row) \<noteq> [])"
proof -
  let ?rows = "splitlines snippet"
  obtain r rs where rows: "?rows = r # rs" using assms by (cases ?rows) (auto simp: confirmed_window_start_def)
  then obtain claim where "read_line_number r = Ret claim"
    using assms(1) by (cases "read_line_number r") (simp_all add: confirmed_window_start_def)
  then have c: "c = (case claim of None \<Rightarrow> 0 | Some c \<Rightarrow> if c = 0 \<or> length ls < c + length ?rows - 1 then 0
      else if window_matches ?rows ls c then c else 0)"
    using assms(1) unfolding rows by (simp add: confirmed_window_start_def Let_def rows)
  then obtain n where n: "claim = Some n" using assms(2) by (cases claim) auto
  have ne: "?rows \<noteq> []" using rows by simp
  have "\<not> length ls < c + length ?rows - 1" and m: "window_matches ?rows ls c"
    using c n assms(2) by (simp_all split: if_splits)
  then have len: "c + length ?rows \<le> length ls + 1" by linarith
  have "row_matches (?rows ! i) (number_row (c + i) (ls ! (c - 1 + i)))" if "i < length ?rows" for i
  proof -
    have "(i, ?rows ! i) \<in> set (enum_from 0 ?rows)" using that by (auto simp: in_set_enum_from)
    then show ?thesis using m by (auto simp: window_matches_def list_all_iff)
  qed
  then have "\<forall>i < length ?rows. contains REDACTED (?rows ! i) \<or> prefix (?rows ! i) (number_row (c + i) (ls ! (c - 1 + i)))"
    unfolding row_matches_def starts_with_prefix by meson
  then show ?thesis using ne len m by (simp add: window_matches_def list_ex_iff Let_def)
qed

lemma confirmed_window_startI:
  assumes "splitlines snippet = rows" and "rows \<noteq> []" and "read_line_number (hd rows) = Ret (Some c)"
    and "c \<noteq> 0" and "\<not> length ls < c + length rows - 1" and "window_matches rows ls c"
  shows "confirmed_window_start snippet ls = Ret c"
  using assms by (cases rows) (simp_all add: confirmed_window_start_def)

lemma list_ex_nth: "k < length xs \<Longrightarrow> P (xs ! k) \<Longrightarrow> list_ex P xs"
  by (meson list_ex_iff nth_mem)

lemma digit_not_nul: "is_digit c \<Longrightarrow> c \<noteq> CHR 0x00"
  by (auto simp: is_digit_def)

lemma join_nl_no_nul:
  "\<forall>row \<in> set rows. CHR 0x00 \<notin> set row \<Longrightarrow> filter (\<lambda>c. c \<noteq> CHR 0x00) (join_nl rows) = join_nl rows"
  by (induction rows rule: induct_list012) (auto simp: filter_id_conv)

text \<open>The reader's own windows are always confirmed: a line-budget window that \<open>extract_snippet\<close> cuts from
  a file is placed by \<open>confirmed_window_start\<close> at exactly \<open>window_first_line\<close>, span or no span.\<close>

theorem own_window_is_confirmed:
  assumes n: "1 \<le> n" "n \<le> int (length ls)" and ctx: "0 \<le> ctx" "ctx < SPAN_MAX_LINES"
    and plain: "\<forall>l \<in> set ls. \<forall>c \<in> set l. \<not> is_break c \<and> c \<noteq> CHR 0x00"
    and content: "strip (take LINE_BUDGET_LINE_CHARS (ls ! nat (n - 1))) \<noteq> []"
    and digits: "length (str_nat (length ls)) \<le> max_str_digits"
  shows "confirmed_window_start (extract_snippet ls n ctx None e) ls = Ret (nat (window_first_line n ctx))"
proof -
  obtain start stop where r: "window_range ls n ctx (parse_line e 0) = (start, stop)" by (metis prod.collapse)
  note rg = window_range_in [OF n ctx(1) r ctx(2)]
  have start: "start = window_first_line n ctx - 1"
    using arg_cong [OF r, of fst] by (simp add: window_range_def Let_def)
  let ?row = "\<lambda>i. number_row (nat i + 1) (take LINE_BUDGET_LINE_CHARS (ls ! nat i))"
  let ?rows = "map ?row [start..stop - 1]"
  have ne: "?rows \<noteq> []" using rg by simp
  have plain_row: "\<forall>c \<in> set row. \<not> is_break c \<and> c \<noteq> CHR 0x00" if row: "row \<in> set ?rows" for row
  proof -
    obtain i where i: "row = ?row i" "start \<le> i" "i < stop" using row by auto
    have "nat i < length ls" using i rg by linarith
    then have "ls ! nat i \<in> set ls" by simp
    then have "\<forall>c \<in> set (take LINE_BUDGET_LINE_CHARS (ls ! nat i)). \<not> is_break c \<and> c \<noteq> CHR 0x00"
      using plain by (meson in_set_takeD)
    moreover have "\<forall>c \<in> set (str_nat (nat i + 1)). \<not> is_break c \<and> c \<noteq> CHR 0x00"
      using str_nat_digits digit_not_break digit_not_nul by blast
    ultimately show ?thesis
      by (auto simp: i(1) number_row_def is_break_def line_breaks_def)
  qed
  have nonempty: "row \<noteq> []" if "row \<in> set ?rows" for row using that by (auto simp: number_row_def)
  have nl: "NL \<notin> set row" if "row \<in> set ?rows" for row using plain_row [OF that] by (auto simp: is_break_def line_breaks_def)
  have keep: "filter (\<lambda>c. c \<noteq> CHR 0x00) (join_nl ?rows) = join_nl ?rows"
    by (rule join_nl_no_nul) (use plain_row in blast)
  have guard: "\<not> (ls = [] \<or> n < 1)" using n by auto
  have ex: "extract_snippet ls n ctx None e = join_nl ?rows"
    using guard keep by (simp add: extract_snippet_def r Let_def window_budget_def)
  have rows: "splitlines (join_nl ?rows) = ?rows"
    by (rule splitlines_join_nl) (use plain_row nonempty [OF last_in_set [OF ne]] ne in blast)+
  obtain tl where hd: "?rows = ?row start # tl" using rg by (cases "[start..stop - 1]") (auto simp: upto.simps)
  let ?c = "nat start + 1"
  have "length (str_nat ?c) \<le> max_str_digits"
  proof -
    have "?c \<le> length ls" using rg by linarith
    then show ?thesis using digits str_nat_length_mono [of ?c "length ls"] by linarith
  qed
  then have claim: "read_line_number (?row start) = Ret (Some ?c)" using read_number_row by simp
  have "length ?rows = nat (stop - start)" by simp
  then have len: "\<not> length ls < ?c + length ?rows - 1" using rg by linarith
  have at: "?rows ! i = number_row (?c + i) (take LINE_BUDGET_LINE_CHARS (ls ! (?c - 1 + i)))" if "i < length ?rows" for i
  proof -
    have "[start..stop - 1] ! i = start + int i" using that by (simp add: nth_upto)
    then show ?thesis using that rg by (simp add: nat_add_distrib)
  qed
  have "row_matches (?rows ! i) (number_row (?c + i) (ls ! (?c - 1 + i)))" if "i < length ?rows" for i
    unfolding at [OF that] by (simp add: row_matches_def starts_with_prefix number_row_def take_is_prefix)
  then have all: "list_all (\<lambda>(i, row). row_matches row (number_row (?c + i) (ls ! (?c - 1 + i)))) (enum_from 0 ?rows)"
    by (auto simp: list_all_iff in_set_enum_from simp del: length_map)
  let ?k = "nat (n - 1 - start)"
  have k: "?k < length ?rows" "?c - 1 + ?k = nat (n - 1)"
    using rg \<open>length ?rows = nat (stop - start)\<close> by linarith+
  then have "?rows ! ?k = number_row (?c + ?k) (take LINE_BUDGET_LINE_CHARS (ls ! nat (n - 1)))"
    using at [of ?k] by (simp only:)
  then have "strip (strip_line_number (?rows ! ?k)) \<noteq> []" using content by simp
  then have "list_ex (\<lambda>row. strip (strip_line_number row) \<noteq> []) ?rows"
    by (rule list_ex_nth [OF k(1)])
  then have wm: "window_matches ?rows ls ?c" using all by (simp only: window_matches_def)
  have "hd ?rows = ?row start" using arg_cong [OF hd, of hd] by (simp only: list.sel)
  then have cl: "read_line_number (hd ?rows) = Ret (Some ?c)" by (simp only: claim)
  have "?c \<noteq> 0" by simp
  from confirmed_window_startI [OF rows ne cl this len wm]
  have "confirmed_window_start (join_nl ?rows) ls = Ret ?c" .
  moreover have "?c = nat (window_first_line n ctx)" using start rg by linarith
  ultimately show ?thesis by (simp only: ex)
qed

section \<open>The stage\<close>

lemma windowed_reason_present:
  "windowed_reason f lines n deps = Ret (reason, f') \<Longrightarrow>
   reason = (if truthy (get f' ''code_snippet'') then ''present'' else ''unreadable'')"
  by (auto simp: windowed_reason_def Let_def bind_result_Ret)

text \<open>The recorded reason never misstates the evidence: after the stage decided a row, the reason is
  \<open>present\<close> exactly when the row carries a window, on every branch (no line, past the end of the file,
  carried, re-windowed, unreadable), and it is a member of the closed vocabulary.\<close>

theorem present_iff_window:
  assumes "window_reason_for f source_path deps = Ret (reason, lines, f')"
  shows "reason \<in> set WINDOW_REASONS \<and> (reason = ''present'' \<longleftrightarrow> truthy (get f' ''code_snippet''))"
proof -
  consider (lineless) "int_field f ''line_start'' < 1" "reason = lineless_reason f" "f' = f"
    | (past) "reason = ''out_of_range''" "f' = pop CODE_SNIPPET_START (pop ''code_snippet'' f)"
    | (windowed) "windowed_reason f lines (int_field f ''line_start'') deps = Ret (reason, f')"
  proof (cases "int_field f ''line_start'' < 1")
    case True
    then have "lineless_reason f = reason \<and> f = f'" using assms by (auto simp: window_reason_for_def bind_result_Ret)
    then show ?thesis using True that(1) by blast
  next
    case False
    let ?n = "int_field f ''line_start''"
    obtain ls where ls: "(if past_eof ls ?n then Ret (''out_of_range'', ls, pop CODE_SNIPPET_START (pop ''code_snippet'' f))
        else bind_result (windowed_reason f ls ?n deps) (\<lambda>(reason, f). Ret (reason, ls, f))) = Ret (reason, lines, f')"
      using assms False by (auto simp: window_reason_for_def Let_def bind_result_Ret)
    show ?thesis
    proof (cases "past_eof ls ?n")
      case True
      then have "''out_of_range'' = reason" "pop CODE_SNIPPET_START (pop ''code_snippet'' f) = f'" using ls by simp_all
      then show ?thesis using that(2) by blast
    next
      case False
      then have "windowed_reason f lines ?n deps = Ret (reason, f')" using ls by (auto simp: bind_result_Ret)
      then show ?thesis by (rule that(3))
    qed
  qed
  then show ?thesis
  proof cases
    case lineless
    then show ?thesis by (auto simp: lineless_reason_def WINDOW_REASONS_def)
  next
    case past
    then show ?thesis by (simp add: WINDOW_REASONS_def)
  next
    case windowed
    then show ?thesis using windowed_reason_present [OF windowed] by (auto simp: WINDOW_REASONS_def)
  qed
qed

text \<open>A judge is never shown other code for a line that does not exist: a row citing a line past the end
  of a file that was read loses its window and its coordinate, carried or not, and its reason says so.\<close>

theorem past_eof_has_no_window:
  assumes "source_lines f source_path deps = Ret (Some ls)" and "int (length ls) < int_field f ''line_start''"
  shows "\<exists>f'. window_reason_for f source_path deps = Ret (''out_of_range'', Some ls, f')
    \<and> get f' ''code_snippet'' = PNone \<and> get f' CODE_SNIPPET_START = PNone
    \<and> (\<forall>k d. k \<notin> {''code_snippet'', CODE_SNIPPET_START} \<longrightarrow> get_or f' k d = get_or f k d)"
proof -
  have "past_eof (Some ls) (int_field f ''line_start'')"
    using assms(2) by (simp add: past_eof_def line_range_def RANGE_PAST_EOF_def RANGE_NO_LINE_def RANGE_IN_FILE_def)
  then show ?thesis using assms by (simp add: window_reason_for_def Let_def)
qed

text \<open>A re-anchored row is windowed at its verified line: when the line the model claimed differs from the
  row's final line, a carried window never survives; the row gets the window cut at the final line of
  the file it cites.\<close>

theorem reanchored_row_is_rewindowed:
  assumes "source_lines f source_path deps = Ret (Some ls)"
    and "1 \<le> int_field f ''line_start''" and "int_field f ''line_start'' \<le> int (length ls)"
    and "1 \<le> int_field f ''_claimed_line''" and "int_field f ''_claimed_line'' \<noteq> int_field f ''line_start''"
    and "wd_snippet_params deps (py_or (get_or f ''category'' (PStr [])) (PStr [])) = Ret (ctx, budget)"
    and "extract_snippet ls (int_field f ''line_start'') ctx budget
      (if int_field f ''line_end'' = 0 then PNone else PInt (int_field f ''line_end'')) = w" and "w \<noteq> []"
    and "truthy (get f ''code_snippet'')"
  shows "\<exists>f'. window_reason_for f source_path deps = Ret (''present'', Some ls, f')
    \<and> get f' ''code_snippet'' = PStr w \<and> get f' CODE_SNIPPET_START = PNone"
proof -
  let ?n = "int_field f ''line_start''"
  let ?f1 = "pop CODE_SNIPPET_START (pop ''code_snippet'' f)"
  have eof: "\<not> past_eof (Some ls) ?n"
    using assms(2,3) by (simp add: past_eof_def line_range_def RANGE_PAST_EOF_def RANGE_NO_LINE_def RANGE_IN_FILE_def)
  have "discard_stale_window f (Some ls) ?n = Ret ?f1"
    using assms(4,5,9) by (simp add: discard_stale_window_def carried_window_stands_def Let_def)
  moreover have "int_field ?f1 ''line_end'' = int_field f ''line_end''"
    by (simp add: int_field_def CODE_SNIPPET_START_def)
  moreover have "or_empty (Some ls) = ls" "ls \<noteq> []" using assms(2,3) by (auto simp: or_empty_def)
  ultimately have "windowed_reason f (Some ls) ?n deps = Ret (''present'', put ''code_snippet'' (PStr w) ?f1)"
    using assms(6,7,8)
    by (simp add: windowed_reason_def keeps_carried_window_def attach_window_def Let_def)
  then show ?thesis
    using assms(1,2) eof by (simp add: window_reason_for_def Let_def CODE_SNIPPET_START_def)
qed

section \<open>A number too long to read\<close>

lemma read_line_number_too_long:
  assumes "\<forall>c \<in> set ds. is_digit c" and "max_str_digits < length ds"
  shows "read_line_number (ds @ CHR '':'' # x) = Raise ValueError"
proof -
  obtain c cs where ds: "ds = c # cs" using assms(2) by (cases ds) auto
  then have sp: "\<not> is_space c" using assms(1) digit_not_space by simp
  have ws: "takeWhile is_space (ds @ CHR '':'' # x) = []" "dropWhile is_space (ds @ CHR '':'' # x) = ds @ CHR '':'' # x"
    using sp by (simp_all add: ds)
  have tk: "takeWhile is_digit (ds @ CHR '':'' # x) = ds" "dropWhile is_digit (ds @ CHR '':'' # x) = CHR '':'' # x"
    using assms(1) by (simp_all add: takeWhile_append2 dropWhile_append2)
  have "ds \<noteq> []" using ds by simp
  then show ?thesis using assms(2) by (simp add: read_line_number_def number_match_def Let_def ws tk)
qed

text \<open>One row can cost the rest of the batch its windows: a carried snippet whose first row starts with more
  than 4300 digits and a colon makes \<open>int()\<close> raise inside \<open>ensure_code_window\<close>, and neither it nor any finding
  behind it is windowed, redacted or given a reason.\<close>

lemma ensure_rows_stop:
  "\<forall>g \<in> set before. fst (ensure_one src deps idx reasons g) = Ret () \<Longrightarrow> ensure_one src deps idx reasons f = (Raise e, f') \<Longrightarrow>
   ensure_rows src deps idx reasons (before @ f # after) =
     (Raise e, map (\<lambda>g. snd (ensure_one src deps idx reasons g)) before @ f' # after)"
  by (induction before) (auto split: prod.splits sum.splits)

theorem overlong_row_number_stops_the_stage:
  assumes "\<forall>c \<in> set ds. is_digit c" and "max_str_digits < length ds"
    and "get f ''code_snippet'' = PStr (ds @ '': '')" and "int_field f ''line_start'' < 1"
    and "source_lines f source_path deps = Ret lines" and "wd_secret_line_index deps (before @ f # after) = Ret idx"
    and "\<forall>g \<in> set before. fst (ensure_one source_path deps idx reasons g) = Ret ()"
  shows "ensure_code_window (before @ f # after) source_path deps reasons =
    (Raise ValueError, map (\<lambda>g. snd (ensure_one source_path deps idx reasons g)) before @ f # after)"
proof -
  obtain c cs where ds: "ds = c # cs" using assms(2) by (cases ds) auto
  have nb: "\<forall>c \<in> set (ds @ '': ''). \<not> is_break c"
    using assms(1) digit_not_break by (auto simp: is_break_def line_breaks_def)
  have "splitlines (ds @ '': '') = [ds @ '': '']" by (rule splitlines_no_break) (use nb ds in auto)
  then have "confirmed_window_start (ds @ '': '') ls = Raise ValueError" for ls
    using read_line_number_too_long [OF assms(1,2), of "'' ''"] by (simp add: confirmed_window_start_def)
  then have "ensure_one source_path deps idx reasons f = (Raise ValueError, f)"
    using assms(3-5) by (simp add: ensure_one_def window_reason_for_def record_window_start_def ds Let_def)
  from ensure_rows_stop [OF assms(7) this] show ?thesis by (simp add: ensure_code_window_def assms(6))
qed

end
