(* ===== verification/Window_Examples.thy ===== *)
theory Window_Examples
  imports Window
begin

text \<open>
  The window properties applied to concrete rows, files and windows.
\<close>

definition ex_deps :: "string list option \<Rightarrow> window_deps" where
  "ex_deps content = \<lparr>wd_resolve = (\<lambda>_ _. Ret (Some [])), wd_read_lines = (\<lambda>_. content),
     wd_snippet_params = (\<lambda>_. Ret (1, None)), wd_redact = (\<lambda>f. (Ret (), f)), wd_secret_line_index = (\<lambda>_. Ret []),
     wd_redact_secret_lines = (\<lambda>f _. Ret f)\<rparr>"

definition ex_file :: "string list" where
  "ex_file = [''a = 1'', ''eval(a)'', ''print(a)'']"

lemma ex_deps_simps [simp]:
  "source_lines f p (ex_deps content) = Ret content"
  "wd_snippet_params (ex_deps content) c = Ret (1, None)"
  "wd_redact (ex_deps content) f = (Ret (), f)" "wd_secret_line_index (ex_deps content) fs = Ret []"
  "wd_redact_secret_lines (ex_deps content) f idx = Ret f"
  by (simp_all add: ex_deps_def source_lines_def)

theorem first_window_reason_wins_witness:
  "window_reason_of (record_window_reason [] ''unreadable'') = ''unreadable''
   \<and> record_window_reason (record_window_reason [] ''unreadable'') ''no_line'' = record_window_reason [] ''unreadable''"
  using first_window_reason_wins [of "''unreadable''" "[]" "''no_line''"]
  by (simp add: WINDOW_REASONS_def validation_checks_def)

theorem recording_a_reason_never_votes_witness:
  "\<exists>cs'. map_result check_of_value (validation_checks (record_window_reason [] ''no_line'')) = Ret cs'
    \<and> vote cs' = vote []"
  by (rule recording_a_reason_never_votes [of "[]" "[]"])
    (simp_all add: validation_checks_def double_weights_def)

lemma ex_confirmed: "confirmed_window_start (''2: eval(a)'' @ [NL] @ ''3: print'') ex_file = Ret 2"
  by code_simp

theorem confirmed_start_is_the_files_witness:
  "2 + length (splitlines (''2: eval(a)'' @ [NL] @ ''3: print'')) \<le> length ex_file + 1"
  using confirmed_start_is_the_files [OF ex_confirmed] by (simp add: Let_def)

theorem own_window_is_confirmed_witness:
  "confirmed_window_start (extract_snippet ex_file 2 1 None PNone) ex_file = Ret (nat (window_first_line 2 1))"
proof (rule own_window_is_confirmed)
  show "\<forall>l \<in> set ex_file. \<forall>c \<in> set l. \<not> is_break c \<and> c \<noteq> CHR 0x00" by code_simp
  show "strip (take LINE_BUDGET_LINE_CHARS (ex_file ! nat (2 - 1))) \<noteq> []" by code_simp
  show "length (str_nat (length ex_file)) \<le> max_str_digits" by code_simp
qed (simp_all add: ex_file_def SPAN_MAX_LINES_def)

lemma ex_lineless: "window_reason_for [(''file_path'', PStr ''a.py'')] [] (ex_deps None)
    = Ret (''no_line'', None, [(''file_path'', PStr ''a.py'')])"
  by (simp add: window_reason_for_def lineless_reason_def int_field_def get_or_def  Let_def REPO_ROOT_PATH_def)

theorem present_iff_window_witness:
  "''no_line'' \<in> set WINDOW_REASONS
   \<and> (''no_line'' = ''present'' \<longleftrightarrow> truthy (get [(''file_path'', PStr ''a.py'')] ''code_snippet''))"
  by (rule present_iff_window [OF ex_lineless])

theorem past_eof_has_no_window_witness:
  "\<exists>f'. window_reason_for [(''line_start'', PInt 9), (''code_snippet'', PStr ''9: x'')] [] (ex_deps (Some ex_file))
      = Ret (''out_of_range'', Some ex_file, f')
    \<and> get f' ''code_snippet'' = PNone \<and> get f' CODE_SNIPPET_START = PNone
    \<and> (\<forall>k d. k \<notin> {''code_snippet'', CODE_SNIPPET_START} \<longrightarrow>
        get_or f' k d = get_or [(''line_start'', PInt 9), (''code_snippet'', PStr ''9: x'')] k d)"
  by (rule past_eof_has_no_window)
    (simp_all add: ex_file_def int_field_def get_or_def Let_def)

theorem reanchored_row_is_rewindowed_witness:
  "\<exists>f'. window_reason_for [(''line_start'', PInt 2), (''_claimed_line'', PInt 1), (''code_snippet'', PStr ''1: x'')]
      [] (ex_deps (Some ex_file)) = Ret (''present'', Some ex_file, f')
    \<and> get f' ''code_snippet'' = PStr (extract_snippet ex_file 2 1 None PNone) \<and> get f' CODE_SNIPPET_START = PNone"
proof (rule reanchored_row_is_rewindowed)
  show "extract_snippet ex_file 2 1 None PNone \<noteq> []" by code_simp
qed (simp_all add: ex_file_def int_field_def get_or_def Let_def)

theorem overlong_row_number_stops_the_stage_witness:
  "ensure_code_window [[(''code_snippet'', PStr (replicate 4301 (CHR ''1'') @ '': ''))], []] [] (ex_deps None) True
    = (Raise ValueError, [[(''code_snippet'', PStr (replicate 4301 (CHR ''1'') @ '': ''))], []])"
  using overlong_row_number_stops_the_stage [of "replicate 4301 (CHR ''1'')"
      "[(''code_snippet'', PStr (replicate 4301 (CHR ''1'') @ '': ''))]" "[]" "ex_deps None" None "[]" "[[]]" "[]" True]
  by (simp add: is_digit_def max_str_digits_def int_field_def get_or_def Let_def)

end
