(* ===== verification/Wiring.thy ===== *)
theory Wiring
  imports Py_Regex
begin

text \<open>
  The route model of an Express-style tree (\<open>shared/validate/wiring.py\<close>): mounts, prefix middleware,
  which request fields each definition writes from a server-side source, and the two questions the
  obligation gate asks of it (\<open>resolve\<close>, \<open>field_is_server_derived\<close>). The walked files come as a list
  of paths in walk order and a reader giving each file's text (\<open>None\<close> for an \<open>OSError\<close>).

  The lemmas: the contract of \<open>RouteModel\<close> (a locale, interpreted on the Express model), that an
  argument text is balanced, that prefix inheritance only adds middleware, and what the model misses.
\<close>

section \<open>Patterns\<close>

definition MOUNT_RE :: re where
  "MOUNT_RE = cats [Wb, alts (map ilit [''app'', ''router'', ''api'', ''server'']), ws_re, lit ''.'', ws_re,
     Grp 1 (alts (map ilit [''get'', ''post'', ''put'', ''patch'', ''delete'', ''options'', ''head'', ''all'', ''use''])),
     ws_re, lit ''('']"

definition ident_start :: "char \<Rightarrow> bool" where
  "ident_start c = (is_alpha_us c \<or> c = CHR ''$'')"

definition ident_char :: "char \<Rightarrow> bool" where
  "ident_char c = (word_char c \<or> c = CHR ''$'')"

definition IDENT_RE :: re where
  "IDENT_RE = cats [Wb, Grp 1 (Cat (Cls ident_start) (Star (Cls ident_char))), ws_re, Ahead (lit ''('')]"

definition WRITE_RE :: re where
  "WRITE_RE = cats [Wb, lit ''req'', ws_re, lit ''.'', ws_re,
     Grp 1 (Cat (alts (map lit [''body'', ''params'', ''query'', ''user'', ''session'']))
       (opt_re (cats [ws_re, lit ''.'', ws_re, plus_re (Cls ident_char)]))),
     ws_re, lit ''='', ws_re, Grp 2 (plus_re (Cls (\<lambda>c. c \<noteq> NL \<and> c \<noteq> CHR '';'')))]"

definition is_upper :: "char \<Rightarrow> bool" where
  "is_upper c = (65 \<le> (of_char c :: nat) \<and> (of_char c :: nat) \<le> 90)"

definition SERVER_SOURCE_RE :: re where
  "SERVER_SOURCE_RE = cats [Wb,
     alts (map ilit [''token'', ''jwt'', ''claim'', ''subject'', ''session'', ''principal'', ''authenticated'',
       ''decoded'', ''currentuser'']), opt_re (ilit ''s''),
     opt_re (Cat (Cls (\<lambda>c. c = CHR ''_'' \<or> is_upper c)) (Star (Cls word_char))), Wb]"

definition DEF_RE :: re where
  "DEF_RE = cats [Wb, opt_re (Cat (lit ''export'') ws1_re), opt_re (Cat (lit ''async'') ws1_re),
     Alt (cats [lit ''function'', ws1_re, Grp 1 (Cat (Cls ident_start) (Star (Cls ident_char)))])
         (cats [alts (map lit [''const'', ''let'', ''var'']), ws1_re,
            Grp 2 (Cat (Cls ident_start) (Star (Cls ident_char))), ws_re, lit ''=''])]"

section \<open>Calls and their arguments\<close>

text \<open>The loop of \<open>_balanced_call_args\<close>: the depth and the text read so far, reversed; empty when the
  call never closes.\<close>

fun call_args_from :: "int \<Rightarrow> string \<Rightarrow> string \<Rightarrow> string" where
  "call_args_from depth acc [] = []"
| "call_args_from depth acc (c # cs) =
     (if c = CHR ''('' then call_args_from (depth + 1) (c # acc) cs
      else if c = CHR '')'' then
        (if depth - 1 = 0 then rev acc else call_args_from (depth - 1) (c # acc) cs)
      else call_args_from depth (c # acc) cs)"

definition balanced_call_args :: "string \<Rightarrow> nat \<Rightarrow> string" where
  "balanced_call_args t open_paren = tl (call_args_from 0 [] (drop open_paren t))"

text \<open>The loop of \<open>_split_top_level\<close>: pieces so far, depth, current piece (reversed), open quote.\<close>

fun split_args_from :: "int \<Rightarrow> string \<Rightarrow> char option \<Rightarrow> string \<Rightarrow> string list" where
  "split_args_from depth cur q [] = (if cur = [] then [] else [rev cur])"
| "split_args_from depth cur (Some q) (c # cs) =
     split_args_from depth (c # cur) (if c = q then None else Some q) cs"
| "split_args_from depth cur None (c # cs) =
     (if c \<in> {CHR 0x22, CHR 0x27, CHR 0x60} then split_args_from depth (c # cur) (Some c) cs
      else let depth' = (if c \<in> {CHR ''('', CHR ''['', CHR ''{''} then depth + 1
             else if c \<in> {CHR '')'', CHR '']'', CHR ''}''} then depth - 1 else depth) in
        if c = CHR '','' \<and> depth' = 0 then rev cur # split_args_from depth' [] None cs
        else split_args_from depth' (c # cur) None cs)"

definition split_top_level :: "string \<Rightarrow> string list" where
  "split_top_level args = filter (\<lambda>a. a \<noteq> []) (map strip (split_args_from 0 [] None args))"

definition is_quote :: "char \<Rightarrow> bool" where
  "is_quote c = (c \<in> {CHR 0x22, CHR 0x27, CHR 0x60})"

definition literal_path :: "string \<Rightarrow> string option" where
  "literal_path arg = (case re_match (cats [Cls is_quote, Grp 1 (Star (Cls (\<lambda>c. \<not> is_quote c))),
       Cls is_quote, Eos]) (strip arg) of None \<Rightarrow> None | Some m \<Rightarrow> group m 1)"

section \<open>The model\<close>

record route =
  rt_method :: string
  rt_pattern :: string
  rt_middleware :: "string list"
  rt_handler :: "string list"
  rt_file :: string
  rt_line :: nat

type_synonym span_map = "(string \<times> string \<times> nat \<times> nat) list"
type_synonym effect_map = "(string \<times> (string \<times> string) list) list"

record express_model =
  em_routes :: "route list"
  em_effects :: effect_map
  em_defs :: span_map

definition em_writes :: "express_model \<Rightarrow> string \<Rightarrow> (string \<times> string) list" where
  "em_writes m mw = (case map_of (em_effects m) mw of None \<Rightarrow> [] | Some e \<Rightarrow> e)"

text \<open>The innermost definition around a place; on a tie the first in dictionary order.\<close>

fun innermost :: "string \<Rightarrow> int \<Rightarrow> (string \<times> nat) option \<Rightarrow> span_map \<Rightarrow> (string \<times> nat) option" where
  "innermost f line best [] = best"
| "innermost f line best ((name, p, start, stop) # ds) =
     (if p \<noteq> f \<or> \<not> (int start \<le> line \<and> line \<le> int stop) then innermost f line best ds
      else case best of
        None \<Rightarrow> innermost f line (Some (name, start)) ds
      | Some (_, s) \<Rightarrow> innermost f line (if s < start then Some (name, start) else best) ds)"

definition enclosing_symbol :: "express_model \<Rightarrow> string \<Rightarrow> int \<Rightarrow> string option" where
  "enclosing_symbol m f line = map_option fst (innermost f line None (em_defs m))"

definition em_resolve :: "express_model \<Rightarrow> string \<Rightarrow> int \<Rightarrow> route list" where
  "em_resolve m f line = (case enclosing_symbol m f line of None \<Rightarrow> []
     | Some symbol \<Rightarrow> filter (\<lambda>r. symbol \<in> set (rt_handler r)) (em_routes m))"

definition field_is_server_derived :: "express_model \<Rightarrow> string \<Rightarrow> int \<Rightarrow> string \<Rightarrow> bool" where
  "field_is_server_derived m f line field_path =
     (let mounts = em_resolve m f line in
      if mounts = [] then False
      else list_all (\<lambda>r. list_ex (\<lambda>mw. field_path \<in> set (map fst (em_writes m mw))) (rt_middleware r)) mounts)"

section \<open>Building it from source text\<close>

fun spans_of :: "string \<Rightarrow> nat \<Rightarrow> (string \<times> nat) list \<Rightarrow> span_map" where
  "spans_of path eof [] = []"
| "spans_of path eof ((name, start) # ss) =
     (name, path, start, (case ss of [] \<Rightarrow> eof | (_, nxt) # _ \<Rightarrow> nxt - 1)) # spans_of path eof ss"

definition def_name :: "string \<Rightarrow> string option" where
  "def_name row = (case re_search DEF_RE row of None \<Rightarrow> None
     | Some m \<Rightarrow> (case group m 1 of Some n \<Rightarrow> Some n | None \<Rightarrow> group m 2))"

definition definition_starts :: "string list \<Rightarrow> (string \<times> nat) list" where
  "definition_starts lines = List.map_filter (\<lambda>(i, row).
     if take 1 row = '' '' \<or> take 1 row = [CHR 0x09] then None
     else map_option (\<lambda>n. (n, i)) (def_name row)) (enum_from 1 lines)"

definition scan_definitions :: "string \<Rightarrow> string \<Rightarrow> span_map" where
  "scan_definitions path t =
     (let lines = splitlines t in
      foldl (\<lambda>out (name, v). AList.update name v out) []
        (spans_of path (length lines) (definition_starts lines)))"

definition effect_of_write :: "re_match \<Rightarrow> (string \<times> string) option" where
  "effect_of_write m = (case (group m 1, group m 2) of
     (Some f, Some rhs) \<Rightarrow>
       if re_search SERVER_SOURCE_RE rhs \<noteq> None
       then Some (filter (\<lambda>c. \<not> is_space c) f, ''server: '' @ take 60 (strip rhs)) else None
   | _ \<Rightarrow> None)"

definition body_effects :: "string \<Rightarrow> (string \<times> string) list" where
  "body_effects body = foldl (\<lambda>d (f, v). AList.update f v d) []
     (List.map_filter effect_of_write (finditer WRITE_RE body))"

definition scan_middleware_effects :: "string \<Rightarrow> span_map \<Rightarrow> effect_map" where
  "scan_middleware_effects t defs =
     (let lines = splitlines t in
      foldl (\<lambda>effects (name, _, start, stop).
          let e = body_effects (join_nl (take (stop + 1 - start) (drop (start - 1) lines))) in
          if e = [] then effects else AList.update name e effects) [] defs)"

datatype mount = MRoute route | MPrefix string "string list"

definition idents :: "string \<Rightarrow> string list" where
  "idents a = findall1 IDENT_RE a"

definition parse_mount :: "string \<Rightarrow> string \<Rightarrow> re_match \<Rightarrow> mount option" where
  "parse_mount path t m =
     (let args = split_top_level (balanced_call_args t (m_end m - 1)) in
      case args of
        [] \<Rightarrow> None
      | a # others \<Rightarrow>
          let verb = lower (case group m 1 of None \<Rightarrow> [] | Some v \<Rightarrow> v);
              first_path = literal_path a;
              ids = map idents (if first_path = None then args else others) in
          if verb = ''use'' then
            (case first_path of None \<Rightarrow> None
             | Some p \<Rightarrow> if concat ids = [] then None else Some (MPrefix p (concat ids)))
          else if ids = [] then None
          else Some (MRoute \<lparr>rt_method = verb,
            rt_pattern = (case first_path of None \<Rightarrow> [] | Some p \<Rightarrow> p),
            rt_middleware = concat (butlast ids), rt_handler = last ids, rt_file = path,
            rt_line = length (filter (\<lambda>c. c = NL) (take (m_start m) t)) + 1\<rparr>))"

definition inherit_prefixes :: "route list \<Rightarrow> (string \<times> string list) list \<Rightarrow> route list" where
  "inherit_prefixes direct prefix_mw = map (\<lambda>r. r\<lparr>rt_middleware :=
     concat (map snd (filter (\<lambda>(prefix, _). starts_with (rt_pattern r) prefix) prefix_mw))
     @ rt_middleware r\<rparr>) direct"

definition scan_routes :: "string \<Rightarrow> string \<Rightarrow> route list" where
  "scan_routes path t =
     (let mounts = List.map_filter (parse_mount path t) (finditer MOUNT_RE t) in
      inherit_prefixes
        (List.map_filter (\<lambda>m. case m of MRoute r \<Rightarrow> Some r | MPrefix _ _ \<Rightarrow> None) mounts)
        (List.map_filter (\<lambda>m. case m of MPrefix p ms \<Rightarrow> Some (p, ms) | MRoute _ \<Rightarrow> None) mounts))"

text \<open>\<open>d.update(e)\<close> on dictionaries.\<close>

definition dict_update :: "('k \<times> 'v) list \<Rightarrow> ('k \<times> 'v) list \<Rightarrow> ('k \<times> 'v) list" where
  "dict_update d e = foldl (\<lambda>d (k, v). AList.update k v d) d e"

definition add_source :: "express_model \<Rightarrow> string \<times> string \<Rightarrow> express_model" where
  "add_source m pt = (case pt of (path, t) \<Rightarrow>
     (let file_defs = scan_definitions path t in
      \<lparr>em_routes = em_routes m @ scan_routes path t,
       em_effects = dict_update (em_effects m) (scan_middleware_effects t file_defs),
       em_defs = dict_update (em_defs m) file_defs\<rparr>))"

definition build_route_model :: "(string \<Rightarrow> string option) \<Rightarrow> string list \<Rightarrow> express_model" where
  "build_route_model rd_text paths =
     foldl add_source \<lparr>em_routes = [], em_effects = [], em_defs = []\<rparr>
       (List.map_filter (\<lambda>p. map_option (Pair p) (rd_text p)) paths)"

section \<open>The contract of a route model\<close>

locale route_model =
  fixes routes :: "'m \<Rightarrow> 'r list" and resolve :: "'m \<Rightarrow> string \<Rightarrow> int \<Rightarrow> 'r list"
    and writes :: "'m \<Rightarrow> string \<Rightarrow> (string \<times> string) list" and guards :: "'r \<Rightarrow> string list"
    and derived :: "'m \<Rightarrow> string \<Rightarrow> int \<Rightarrow> string \<Rightarrow> bool"
  assumes resolve_mounted: "set (resolve m f l) \<subseteq> set (routes m)"
    and derived_resolved: "derived m f l fld \<Longrightarrow> resolve m f l \<noteq> []"
    and derived_guarded: "derived m f l fld \<Longrightarrow> r \<in> set (resolve m f l) \<Longrightarrow>
      \<exists>mw \<in> set (guards r). fld \<in> fst ` set (writes m mw)"
begin

lemma unguarded_mount_keeps:
  "r \<in> set (resolve m f l) \<Longrightarrow> \<forall>mw \<in> set (guards r). fld \<notin> fst ` set (writes m mw) \<Longrightarrow>
   \<not> derived m f l fld"
  using derived_guarded by blast

lemma unresolved_keeps: "resolve m f l = [] \<Longrightarrow> \<not> derived m f l fld"
  using derived_resolved by blast

lemma derived_mount:
  assumes "derived m f l fld"
  shows "\<exists>r \<in> set (routes m). \<exists>mw \<in> set (guards r). fld \<in> fst ` set (writes m mw)"
proof -
  obtain r where "r \<in> set (resolve m f l)"
    using derived_resolved [OF assms] by (meson list.set_sel(1))
  then show ?thesis using derived_guarded [OF assms] resolve_mounted by blast
qed

end

lemma em_resolve_filter:
  "em_resolve m f line = filter (\<lambda>r. \<exists>s. enclosing_symbol m f line = Some s \<and> s \<in> set (rt_handler r)) (em_routes m)"
  by (simp add: em_resolve_def split: option.split)

interpretation express: route_model em_routes em_resolve em_writes rt_middleware field_is_server_derived
proof unfold_locales
  fix m f l
  show "set (em_resolve m f l) \<subseteq> set (em_routes m)" by (auto simp: em_resolve_filter)
next
  fix m f l fld
  assume "field_is_server_derived m f l fld"
  then show "em_resolve m f l \<noteq> []" by (auto simp: field_is_server_derived_def Let_def split: if_splits)
next
  fix m f l fld r
  assume "field_is_server_derived m f l fld" "r \<in> set (em_resolve m f l)"
  then show "\<exists>mw \<in> set (rt_middleware r). fld \<in> fst ` set (em_writes m mw)"
    by (auto simp: field_is_server_derived_def Let_def list_all_iff list_ex_iff split: if_splits)
qed

section \<open>Enclosing definitions\<close>

definition spans_line :: "string \<Rightarrow> int \<Rightarrow> string \<times> string \<times> nat \<times> nat \<Rightarrow> bool" where
  "spans_line f line d = (case d of (_, p, start, stop) \<Rightarrow> p = f \<and> int start \<le> line \<and> line \<le> int stop)"

lemma innermost_None:
  "innermost f line best ds = None \<longleftrightarrow> best = None \<and> list_all (\<lambda>d. \<not> spans_line f line d) ds"
  by (induction f line best ds rule: innermost.induct)
    (auto simp: spans_line_def split: option.splits)

lemma innermost_Some:
  "innermost f line best ds = Some (n, s) \<Longrightarrow>
   (best = Some (n, s) \<or> (\<exists>stop. (n, f, s, stop) \<in> set ds \<and> spans_line f line (n, f, s, stop)))
   \<and> (\<forall>b. best = Some b \<longrightarrow> snd b \<le> s)
   \<and> (\<forall>d \<in> set ds. spans_line f line d \<longrightarrow> fst (snd (snd d)) \<le> s)"
proof (induction f line best ds arbitrary: n s rule: innermost.induct)
  case (2 f line best name p start stop ds)
  show ?case
  proof (cases "spans_line f line (name, p, start, stop)")
    case False
    then have e: "innermost f line best ds = Some (n, s)"
      using "2.prems" by (auto simp: spans_line_def)
    have "p \<noteq> f \<or> \<not> (int start \<le> line \<and> line \<le> int stop)" using False by (simp add: spans_line_def)
    from "2.IH"(1) [OF this e] False show ?thesis by auto
  next
    case True
    then have c: "\<not> (p \<noteq> f \<or> \<not> (int start \<le> line \<and> line \<le> int stop))" by (simp add: spans_line_def)
    show ?thesis
    proof (cases best)
      case None
      then have "innermost f line (Some (name, start)) ds = Some (n, s)" using "2.prems" c by simp
      from "2.IH"(2) [OF c None this] True None show ?thesis by (auto simp: spans_line_def)
    next
      case (Some b)
      obtain bn bs where b: "b = (bn, bs)" by (cases b)
      have e: "innermost f line (if bs < start then Some (name, start) else best) ds = Some (n, s)"
        using "2.prems" c Some b by (cases "bs < start") simp_all
      have "(if bs < start then Some (name, start) else best) \<noteq> None" using Some by simp
      from "2.IH"(3) [OF c Some b [symmetric] e] True Some b show ?thesis
        by (auto simp: spans_line_def split: if_splits)
    qed
  qed
qed simp

section \<open>Arguments of a call\<close>

definition paren_balance :: "string \<Rightarrow> int" where
  "paren_balance s = int (length (filter (\<lambda>c. c = CHR ''('') s)) - int (length (filter (\<lambda>c. c = CHR '')'') s))"

lemma call_args_from_text:
  assumes "call_args_from d acc s \<noteq> []" and "d = paren_balance (rev acc)" and "s \<noteq> []"
  shows "\<exists>a rest. s = a @ CHR '')'' # rest \<and> call_args_from d acc s = rev acc @ a
    \<and> paren_balance (rev acc @ a) = 1"
  using assms
proof (induction d acc s rule: call_args_from.induct)
  case (2 d acc c cs)
  show ?case
  proof (cases "c = CHR '')'' \<and> d - 1 = 0")
    case True
    then show ?thesis using "2.prems" by (intro exI [of _ "[]"] exI [of _ cs]) simp
  next
    case False
    let ?d = "if c = CHR ''('' then d + 1 else if c = CHR '')'' then d - 1 else d"
    have e: "call_args_from d acc (c # cs) = call_args_from ?d (c # acc) cs" using False by simp
    have bal: "?d = paren_balance (rev (c # acc))" using "2.prems"(2) by (simp add: paren_balance_def)
    have ne: "call_args_from ?d (c # acc) cs \<noteq> []" using "2.prems"(1) e by simp
    then have "cs \<noteq> []" by (cases cs) auto
    have "\<exists>a rest. cs = a @ CHR '')'' # rest \<and> call_args_from ?d (c # acc) cs = rev (c # acc) @ a
        \<and> paren_balance (rev (c # acc) @ a) = 1"
    proof (cases "c = CHR ''(''")
      case True
      then show ?thesis using "2.IH"(1) ne bal \<open>cs \<noteq> []\<close> by simp
    next
      case n1: False
      show ?thesis
      proof (cases "c = CHR '')''")
        case True
        then show ?thesis using "2.IH"(2) False n1 ne bal \<open>cs \<noteq> []\<close> by simp
      next
        case n2: False
        then show ?thesis using "2.IH"(3) n1 ne bal \<open>cs \<noteq> []\<close> by simp
      qed
    qed
    then obtain a rest where "cs = a @ CHR '')'' # rest"
      "call_args_from ?d (c # acc) cs = rev (c # acc) @ a" "paren_balance (rev (c # acc) @ a) = 1" by blast
    then show ?thesis using e by (intro exI [of _ "c # a"] exI [of _ rest]) simp
  qed
qed simp

section \<open>Properties\<close>

text \<open>C28. A request field is reported server-derived only on unanimous evidence: the place lies in a known
  definition, some route mounts it, and EVERY recorded route that mounts it carries a middleware that
  writes the field. Unresolvable is never clean.\<close>

theorem server_derived_needs_every_mount:
  "field_is_server_derived m f line fld \<longleftrightarrow>
   (\<exists>s. enclosing_symbol m f line = Some s \<and> (\<exists>r \<in> set (em_routes m). s \<in> set (rt_handler r))
      \<and> (\<forall>r \<in> set (em_routes m). s \<in> set (rt_handler r) \<longrightarrow>
           (\<exists>mw \<in> set (rt_middleware r). \<exists>v. (fld, v) \<in> set (em_writes m mw))))"
proof -
  have ex: "\<exists>r \<in> set (em_routes m). s \<in> set (rt_handler r)"
    if "enclosing_symbol m f line = Some s" "em_resolve m f line \<noteq> []" for s
    using that by (simp add: em_resolve_def filter_empty_conv)
  have im: "fld \<in> fst ` S \<longleftrightarrow> (\<exists>v. (fld, v) \<in> S)" for S :: "(string \<times> string) set" by force
  show ?thesis
  proof (cases "enclosing_symbol m f line")
    case None
    then have "em_resolve m f line = []" by (simp add: em_resolve_def)
    then show ?thesis using express.unresolved_keeps None by simp
  next
    case (Some s)
    then have "set (em_resolve m f line) = {r \<in> set (em_routes m). s \<in> set (rt_handler r)}"
      by (simp add: em_resolve_def)
    then show ?thesis using ex [OF Some] Some
      by (auto simp: field_is_server_derived_def Let_def list_all_iff list_ex_iff im)
  qed
qed

text \<open>The symbol a place is attributed to is the innermost definition around it: one of the file's
  definitions spans the line, and no spanning definition starts later; no symbol means no span.\<close>

theorem enclosing_symbol_innermost:
  "case enclosing_symbol m f line of
     None \<Rightarrow> \<not> (\<exists>d \<in> set (em_defs m). spans_line f line d)
   | Some n \<Rightarrow> \<exists>start stop. (n, f, start, stop) \<in> set (em_defs m) \<and> int start \<le> line \<and> line \<le> int stop
       \<and> (\<forall>n' start' stop'. (n', f, start', stop') \<in> set (em_defs m) \<and> int start' \<le> line \<and> line \<le> int stop'
            \<longrightarrow> start' \<le> start)"
proof (cases "innermost f line None (em_defs m)")
  case None
  then have "enclosing_symbol m f line = None" by (simp add: enclosing_symbol_def)
  then show ?thesis using None by (auto simp: innermost_None list_all_iff)
next
  case (Some ns)
  obtain n s where ns: "ns = (n, s)" by (cases ns)
  have e: "enclosing_symbol m f line = Some n" using Some ns by (simp add: enclosing_symbol_def)
  note sp = innermost_Some [OF Some [unfolded ns]]
  then obtain stop where d: "(n, f, s, stop) \<in> set (em_defs m)" "int s \<le> line" "line \<le> int stop"
    by (auto simp: spans_line_def)
  have "start' \<le> s" if "(n', f, start', stop') \<in> set (em_defs m)" "int start' \<le> line" "line \<le> int stop'"
    for n' start' stop' using sp that by (force simp: spans_line_def)
  then show ?thesis unfolding e option.case using d by blast
qed

text \<open>The argument text of a mount is exactly the text between its parenthesis and the matching one,
  with its own parentheses balanced.\<close>

theorem call_args_balanced:
  assumes "drop i t = CHR ''('' # cs" and "balanced_call_args t i \<noteq> []"
  shows "\<exists>rest. cs = balanced_call_args t i @ CHR '')'' # rest \<and> paren_balance (balanced_call_args t i) = 0"
proof -
  have step: "call_args_from 0 [] (CHR ''('' # cs) = call_args_from 1 ''('' cs" by simp
  then have b: "balanced_call_args t i = tl (call_args_from 1 ''('' cs)"
    by (simp only: balanced_call_args_def assms(1))
  have ne: "call_args_from 1 ''('' cs \<noteq> []" using assms(2) b by auto
  then have "cs \<noteq> []" by (cases cs) auto
  with call_args_from_text [OF ne] obtain a rest where
    "cs = a @ CHR '')'' # rest" "call_args_from 1 ''('' cs = ''('' @ a" "paren_balance (''('' @ a) = 1"
    by (auto simp: paren_balance_def)
  then show ?thesis using b by (auto simp: paren_balance_def)
qed

theorem call_args_balanced_witness:
  "balanced_call_args ''app.get(a(b), c) + d()'' 7 = ''a(b), c''
   \<and> paren_balance ''a(b), c'' = 0"
proof -
  have b: "balanced_call_args ''app.get(a(b), c) + d()'' 7 = ''a(b), c''" by code_simp
  have d: "drop 7 ''app.get(a(b), c) + d()'' = CHR ''('' # ''a(b), c) + d()''" by simp
  have "balanced_call_args ''app.get(a(b), c) + d()'' 7 \<noteq> []" by (simp only: b) simp
  from call_args_balanced [OF d this] show ?thesis by (simp only: b) auto
qed

text \<open>One mounting route with no writing middleware keeps the finding, whatever the other routes carry.\<close>

theorem one_unguarded_mount_keeps_the_finding:
  assumes "r \<in> set (em_routes m)" and "enclosing_symbol m f line = Some s" and "s \<in> set (rt_handler r)"
    and "\<forall>mw \<in> set (rt_middleware r). fld \<notin> fst ` set (em_writes m mw)"
  shows "\<not> field_is_server_derived m f line fld"
  using assms by (intro express.unguarded_mount_keeps [of r]) (simp_all add: em_resolve_def)

definition ex_unguarded :: express_model where
  "ex_unguarded = \<lparr>em_routes =
     [\<lparr>rt_method = ''post'', rt_pattern = ''/pay'', rt_middleware = [''auth''], rt_handler = [''pay''],
        rt_file = ''r.js'', rt_line = 1\<rparr>,
      \<lparr>rt_method = ''post'', rt_pattern = ''/pay2'', rt_middleware = [''log''], rt_handler = [''pay''],
        rt_file = ''r.js'', rt_line = 2\<rparr>],
     em_effects = [(''auth'', [(''body.id'', ''server: token.id'')])], em_defs = [(''pay'', ''a.js'', 3, 9)]\<rparr>"

theorem one_unguarded_mount_keeps_the_finding_witness:
  "\<not> field_is_server_derived ex_unguarded ''a.js'' 5 ''body.id''"
  by (rule one_unguarded_mount_keeps_the_finding [of "em_routes ex_unguarded ! 1" _ _ _ "''pay''"])
    (simp_all add: ex_unguarded_def enclosing_symbol_def em_writes_def)

section \<open>What the model misses\<close>

definition ex_express :: "route list \<Rightarrow> express_model" where
  "ex_express rs = \<lparr>em_routes = rs,
     em_effects = scan_middleware_effects ''function auth(req) { req.body.id = token.id }'' [(''auth'', ''a.js'', 1, 1)],
     em_defs = [(''pay'', ''a.js'', 3, 9)]\<rparr>"

definition ex_mounts :: string where
  "ex_mounts = ''app.post(auth(), pay());'' @ [NL] @ ''app.post(pay);''"

lemma ex_routes: "map (\<lambda>r. (rt_middleware r, rt_handler r)) (scan_routes ''r.js'' ex_mounts) =
    [([''auth''], [''pay'']), ([], [])]"
  by code_simp

lemma ex_effects:
  "scan_middleware_effects ''function auth(req) { req.body.id = token.id }'' [(''auth'', ''a.js'', 1, 1)] =
   [(''auth'', [(''body.id'', ''server: token.id }'')])]"
  by code_simp

text \<open>The every-mount rule does not hold of the source text: an identifier is only seen before a
  parenthesis, so a route that mounts the handler by its bare name is recorded with no handler, and
  an unguarded mount of that shape does not keep the finding. Here \<open>pay\<close> is mounted behind \<open>auth()\<close>
  and once more without it, and \<open>body.id\<close> still counts as server-derived on every route.\<close>

theorem bare_handler_mount_is_invisible:
  "field_is_server_derived (ex_express (scan_routes ''r.js'' ex_mounts)) ''a.js'' 5 ''body.id''"
proof -
  obtain r1 r2 where r: "scan_routes ''r.js'' ex_mounts = [r1, r2]"
    "rt_middleware r1 = [''auth'']" "rt_handler r1 = [''pay'']" "rt_handler r2 = []"
    using ex_routes by (auto simp: map_eq_Cons_conv)
  then show ?thesis
    by (simp add: field_is_server_derived_def em_resolve_def enclosing_symbol_def ex_express_def
        em_writes_def ex_effects [unfolded One_nat_def] Let_def)
qed

text \<open>A comparison counts as a server-side write: the pattern takes the first \<open>=\<close> of \<open>==\<close> for an
  assignment, so a middleware that only compares a request field to the token is recorded as writing
  the field.\<close>

theorem comparison_is_read_as_a_write:
  "body_effects ''if (req.body.id === token.id) log()'' = [(''body.id'', ''server: == token.id) log()'')]"
  by code_simp

text \<open>Prefix middleware is inherited by string prefix: a mount on a prefix guards every route whose
  pattern starts with its characters, also past a path-segment boundary (\<open>/api\<close> guards \<open>/apikeys\<close>),
  in mount order and before the route's own middleware; routes keep everything else.\<close>

theorem inherited_middleware:
  "inherit_prefixes direct pres = map (\<lambda>r. r\<lparr>rt_middleware :=
     [mw. (p, mws) \<leftarrow> pres, prefix p (rt_pattern r), mw \<leftarrow> mws] @ rt_middleware r\<rparr>) direct"
proof -
  have "concat (map snd (filter (\<lambda>(p, _). starts_with pat p) ps)) = [mw. (p, mws) \<leftarrow> ps, prefix p pat, mw \<leftarrow> mws]"
    for pat and ps :: "(string \<times> string list) list"
    by (induction ps) (auto simp: starts_with_prefix)
  then show ?thesis by (simp add: inherit_prefixes_def)
qed

definition ex_guarded :: express_model where
  "ex_guarded = \<lparr>em_routes = [\<lparr>rt_method = ''POST'', rt_pattern = ''/pay'', rt_middleware = [''auth''],
     rt_handler = [''pay''], rt_file = ''r.js'', rt_line = 3\<rparr>], em_effects = [(''auth'', [(''body.id'', ''server: token.id'')])],
     em_defs = [(''pay'', ''a.js'', 1, 9)]\<rparr>"

theorem server_derived_needs_every_mount_witness:
  "field_is_server_derived ex_guarded ''a.js'' 5 ''body.id''"
  unfolding server_derived_needs_every_mount [of ex_guarded "''a.js''" 5 "''body.id''"]
  by (simp add: ex_guarded_def enclosing_symbol_def em_writes_def)

theorem enclosing_symbol_innermost_witness:
  "\<exists>start stop. (''pay'', ''a.js'', start, stop) \<in> set (em_defs ex_guarded) \<and> int start \<le> 5 \<and> 5 \<le> int stop"
proof -
  have "enclosing_symbol ex_guarded ''a.js'' 5 = Some ''pay''"
    by (simp add: ex_guarded_def enclosing_symbol_def)
  then show ?thesis using enclosing_symbol_innermost [of ex_guarded "''a.js''" 5] by auto
qed

end
