(* ===== verification/Refutation.thy ===== *)
theory Refutation
  imports Wiring Calibration
begin

text \<open>
  Obligations (\<open>shared/validate/refutation.py\<close>): what would refute a finding of each weakness class,
  the wiring refutation against the route model, the policy chain that decides an obligation's true
  state, and the check it is emitted as. The process-wide caches (demoted rules, route models by
  source root) are the explicit state \<open>gate_state\<close>; the environment, the calibration file, the route
  model builder and the file reader are the record \<open>gate_world\<close>.

  The lemmas: the gate is inert outside enforcement, a refutation rests on a resolved route model, and
  an undeclared class is withheld under enforcement.
\<close>

section \<open>Declarations\<close>

datatype scope = EXPRESSION | FUNCTION | FILE | WIRING | NONE
datatype evidence = TEXTUAL | STRUCTURAL

fun scope_name :: "scope \<Rightarrow> string" where
  "scope_name EXPRESSION = ''expression''"
| "scope_name FUNCTION = ''function''"
| "scope_name FILE = ''file''"
| "scope_name WIRING = ''wiring''"
| "scope_name NONE = ''none''"

fun evidence_name :: "evidence \<Rightarrow> string" where
  "evidence_name TEXTUAL = ''textual''"
| "evidence_name STRUCTURAL = ''structural''"

fun MAX_VERDICT :: "evidence \<Rightarrow> string" where
  "MAX_VERDICT TEXTUAL = OBLIGATION_DISCHARGED"
| "MAX_VERDICT STRUCTURAL = OBLIGATION_REFUTED"

record refutation =
  rf_scope :: scope
  rf_evidence :: evidence
  rf_scope_reviewed :: bool
  rf_degradable :: bool
  rf_note :: string

definition POLICY_CLASSES :: "string list" where
  "POLICY_CLASSES = [''CWE-798'', ''CWE-321'', ''CWE-326'', ''CWE-327'', ''CWE-328'', ''CWE-330'',
     ''CWE-338'', ''CWE-319'', ''CWE-1395'']"

definition policy :: "string \<Rightarrow> refutation" where
  "policy note = \<lparr>rf_scope = NONE, rf_evidence = STRUCTURAL, rf_scope_reviewed = True,
     rf_degradable = False, rf_note = note\<rparr>"

definition LEGACY_SANITIZER_CLASSES :: "string list" where
  "LEGACY_SANITIZER_CLASSES = [''CWE-89'', ''CWE-79'', ''CWE-78'', ''CWE-22'', ''CWE-94'', ''CWE-918'',
     ''CWE-770'', ''CWE-755'', ''CWE-778'', ''CWE-476'', ''CWE-532'', ''CWE-754'', ''CWE-248'', ''CWE-20'',
     ''CWE-434'', ''CWE-287'', ''CWE-306'']"

definition legacy :: "string \<Rightarrow> refutation" where
  "legacy cwe = \<lparr>rf_scope = FILE, rf_evidence = TEXTUAL, rf_scope_reviewed = False, rf_degradable = True,
     rf_note = ''migrated from SANITIZER_MAP; the legacy 20-line backward window was never reviewed for ''
       @ cwe @ '' (T2.1a)''\<rparr>"

definition authorization :: "string \<Rightarrow> refutation" where
  "authorization note = \<lparr>rf_scope = WIRING, rf_evidence = STRUCTURAL, rf_scope_reviewed = True,
     rf_degradable = False, rf_note = note\<rparr>"

text \<open>The dictionary display: a later entry of the same class replaces an earlier one.\<close>

definition REFUTATION_MAP :: "(string \<times> refutation) list" where
  "REFUTATION_MAP = dict_update (dict_update (map (\<lambda>cwe. (cwe, legacy cwe)) LEGACY_SANITIZER_CLASSES)
     [(''CWE-639'', authorization ''ownership predicate, or auth middleware writing the keyed field''),
      (''CWE-566'', authorization ''ownership predicate on the primary key''),
      (''CWE-862'', authorization ''an authorization middleware on every route that mounts the handler''),
      (''CWE-863'', authorization ''a correct role/ownership check on every mounting route'')])
     (map (\<lambda>cwe. (cwe, policy ''policy violation: the construct's presence is the finding'')) POLICY_CLASSES)"

section \<open>Switches\<close>

definition getenv :: "env \<Rightarrow> string \<Rightarrow> string \<Rightarrow> string" where
  "getenv env name dflt = (case env name of None \<Rightarrow> dflt | Some v \<Rightarrow> v)"

definition obligation_mode :: "env \<Rightarrow> string" where
  "obligation_mode env = (let mode = lower (strip (getenv env ''VULTURE_OBLIGATION_MODE'' ''observe'')) in
     if mode \<in> {''observe'', ''enforce''} then mode else ''observe'')"

definition strict_scope :: "env \<Rightarrow> bool" where
  "strict_scope env = (lower (strip (getenv env ''VULTURE_OBLIGATION_STRICT_SCOPE'' []))
     \<in> {''1'', ''true'', ''yes'', ''on''})"

definition obligations_enabled :: "env \<Rightarrow> bool" where
  "obligations_enabled env = (lower (strip (getenv env ''VULTURE_L5_OBLIGATIONS'' ''true'')) \<noteq> ''false'')"

record gate_world =
  gw_env :: env
  gw_load :: loader
  gw_build :: "string \<Rightarrow> express_model"
  gw_lines :: reader

record gate_state =
  gs_rules :: rule_cache
  gs_models :: "(string \<times> express_model) list"

definition gate_demoted :: "gate_world \<Rightarrow> string \<Rightarrow> string \<Rightarrow> gate_state \<Rightarrow> bool \<times> gate_state" where
  "gate_demoted w check_id category st =
     (case finding_rule_demoted (gw_env w) (gw_load w) check_id category (gs_rules st) of
        (d, cache) \<Rightarrow> (d, st\<lparr>gs_rules := cache\<rparr>))"

definition enforced :: "gate_world \<Rightarrow> string \<Rightarrow> string \<Rightarrow> gate_state \<Rightarrow> bool \<times> gate_state" where
  "enforced w category check_id st =
     (if \<not> obligations_enabled (gw_env w) then (False, st)
      else if obligation_mode (gw_env w) \<noteq> ''enforce'' then (False, st)
      else case gate_demoted w check_id category st of (d, st') \<Rightarrow>
        (if d then True
         else case map_of REFUTATION_MAP category of None \<Rightarrow> True | Some ref \<Rightarrow> rf_scope_reviewed ref, st'))"

definition route_model_for ::
  "gate_world \<Rightarrow> string option \<Rightarrow> gate_state \<Rightarrow> express_model option \<times> gate_state" where
  "route_model_for w source_root st = (case source_root of
     None \<Rightarrow> (None, st)
   | Some src \<Rightarrow>
       if src = [] then (None, st)
       else (case map_of (gs_models st) src of
         Some m \<Rightarrow> (Some m, st)
       | None \<Rightarrow> (let m = gw_build w src in
           (Some m, st\<lparr>gs_models := AList.update src m (gs_models st)\<rparr>))))"

definition clear_route_model_cache :: "gate_state \<Rightarrow> gate_state" where
  "clear_route_model_cache st = st\<lparr>gs_models := []\<rparr>"

section \<open>The flagged line\<close>

definition REQ_FIELD_RE :: re where
  "REQ_FIELD_RE = cats [Wb, lit ''req'', ws_re, lit ''.'', ws_re,
     Grp 1 (cats [alts (map lit [''body'', ''params'', ''query'']), ws_re, lit ''.'', ws_re,
       plus_re (Cls ident_char)])]"

definition PREDICATE_RE :: re where
  "PREDICATE_RE = cats [Wb, alts (map ilit [''where'', ''findone'', ''findall'', ''findbypk'', ''filter'']), Wb]"

definition DISJUNCTION_RE :: re where
  "DISJUNCTION_RE = alts [cats [Wb, ilit ''op'', ws_re, lit ''.'', ws_re, ilit ''or'', Wb],
     cats [lit ''$'', ilit ''or'', Wb], lit ''||'']"

definition predicate_fields :: "string \<Rightarrow> string list \<times> bool" where
  "predicate_fields line =
     (let scan = (case re_search PREDICATE_RE line of
          None \<Rightarrow> line
        | Some m \<Rightarrow> let tail = drop (m_end m) line in
            if re_search REQ_FIELD_RE tail = None then line else tail) in
      (map (filter (\<lambda>c. \<not> is_space c)) (findall1 REQ_FIELD_RE scan),
       re_search DISJUNCTION_RE scan \<noteq> None))"

definition flagged_request_fields :: "reader \<Rightarrow> string \<Rightarrow> int \<Rightarrow> string list \<times> bool" where
  "flagged_request_fields lines file_path line_start =
     (if file_path = [] \<or> line_start < 1 then ([], False)
      else case lines file_path of
        None \<Rightarrow> ([], False)
      | Some rows \<Rightarrow> if nat line_start \<le> length rows then predicate_fields (rows ! (nat line_start - 1))
          else ([], False))"

section \<open>Deciding the state\<close>

definition try_wiring_refutation ::
  "gate_world \<Rightarrow> string \<Rightarrow> int \<Rightarrow> string option \<Rightarrow> gate_state \<Rightarrow> (string \<times> string) option \<times> gate_state" where
  "try_wiring_refutation w file_path line_start source_root st =
     (case route_model_for w source_root st of
        (None, st') \<Rightarrow> (None, st')
      | (Some model, st') \<Rightarrow>
          (case flagged_request_fields (gw_lines w) file_path line_start of (flds, disjunctive) \<Rightarrow>
            (if flds = [] then None
             else if em_resolve model file_path line_start = [] then None
             else if disjunctive then None
             else case first_such (field_is_server_derived model file_path line_start) flds of
               Some f \<Rightarrow> Some (OBLIGATION_REFUTED, ''every route mounting this handler writes req.'' @ f
                 @ '' from a server-side source: the query is correctly scoped'')
             | None \<Rightarrow> Some (OBLIGATION_DISCHARGED, ''route model resolved; no middleware writes any of ''
                 @ join '', '' (map (\<lambda>f. ''req.'' @ f) flds) @ '', so the finding stands''), st')))"

text \<open>The arguments of \<open>obligation_check\<close>.\<close>

record obligation_query =
  oq_category :: string
  oq_sanitizer_result :: "string option"
  oq_scope_available :: bool
  oq_file_path :: string
  oq_line_start :: int
  oq_source_root :: "string option"
  oq_check_id :: string
  oq_scope_searched :: string

type_synonym verdict = "string \<times> string \<times> string option"

text \<open>The tail of \<open>_decide_state\<close>: the search the sanitizer check made, when its scope may be used.\<close>

definition searched_state :: "env \<Rightarrow> obligation_query \<Rightarrow> refutation \<Rightarrow> verdict" where
  "searched_state env q ref =
     (if \<not> oq_scope_available q \<and> \<not> (rf_degradable ref \<and> \<not> strict_scope env) then
        (OBLIGATION_UNKNOWN, scope_name (rf_scope ref) @ '' scope unavailable and this class may not degrade'', None)
      else case oq_sanitizer_result q of
        Some r \<Rightarrow>
          if r = ''matched'' then (OBLIGATION_DISCHARGED,
            ''a mitigation pattern matched (textual evidence: supports, never refutes)'',
            Some (if oq_scope_searched q = [] then ''window20_backward'' else oq_scope_searched q))
          else if r = ''absent'' then (OBLIGATION_DISCHARGED,
            ''searched at '' @ scope_name (rf_scope ref) @ '' scope, no mitigation found'',
            Some (if oq_scope_searched q = [] then ''window20_backward'' else oq_scope_searched q))
          else (OBLIGATION_UNKNOWN, ''not searched ('' @ (if r = [] then ''no sanitizer check'' else r) @ '')'', None)
      | None \<Rightarrow> (OBLIGATION_UNKNOWN, ''not searched (no sanitizer check)'', None))"

definition decide_state :: "gate_world \<Rightarrow> obligation_query \<Rightarrow> gate_state \<Rightarrow> verdict \<times> gate_state" where
  "decide_state w q st =
     (case gate_demoted w (oq_check_id q) (oq_category q) st of (demoted, st1) \<Rightarrow>
      if demoted then
        ((OBLIGATION_UNKNOWN, ''rule '' @ (if oq_check_id q = [] then oq_category q else oq_check_id q)
           @ '' demoted to candidate-only by the calibration gate (confirmed-tier precision below threshold)'',
          None), st1)
      else case map_of REFUTATION_MAP (oq_category q) of
        None \<Rightarrow> ((OBLIGATION_UNKNOWN, ''no refutation set declared for '' @ oq_category q, None), st1)
      | Some ref \<Rightarrow>
          if rf_scope ref = NONE then
            ((OBLIGATION_DISCHARGED,
              if rf_note ref = [] then ''policy class: nothing to refute'' else rf_note ref, Some ''none''), st1)
          else if rf_scope ref = WIRING then
            (case try_wiring_refutation w (oq_file_path q) (oq_line_start q) (oq_source_root q) st1 of
               (Some (state, why), st2) \<Rightarrow> ((state, why, Some ''wiring''), st2)
             | (None, st2) \<Rightarrow> (searched_state (gw_env w) q ref, st2))
          else (searched_state (gw_env w) q ref, st1))"

definition opt_str :: "string option \<Rightarrow> pyval" where
  "opt_str s = (case s of None \<Rightarrow> PNone | Some t \<Rightarrow> PStr t)"

definition obligation_check ::
  "gate_world \<Rightarrow> obligation_query \<Rightarrow> gate_state \<Rightarrow> validation_check \<times> gate_state" where
  "obligation_check w q st =
     (let ref = map_of REFUTATION_MAP (oq_category q) in
      case decide_state w q st of ((state, why, scope_actual), st1) \<Rightarrow>
      case enforced w (oq_category q) (oq_check_id q) st1 of (enf, st2) \<Rightarrow>
        let neutral = state \<in> {OBLIGATION_UNKNOWN, OBLIGATION_REFUTED} \<and> \<not> enf;
            why' = (if \<not> neutral then why
              else if \<not> obligations_enabled (gw_env w)
                then why @ '' [VULTURE_L5_OBLIGATIONS=false: obligation gate disabled]''
              else why @ '' [observe mode: recorded, not enforced]'') in
        (new_check OBLIGATION_ID (if neutral then OBLIGATION_DISCHARGED else state) 0 why'
           [(''obligation_state'', PStr state), (''enforced'', PBool enf),
            (''mode'', PStr (obligation_mode (gw_env w))),
            (''scope_declared'', opt_str (map_option (\<lambda>r. scope_name (rf_scope r)) ref)),
            (''scope_actual'', opt_str scope_actual),
            (''evidence'', opt_str (map_option (\<lambda>r. evidence_name (rf_evidence r)) ref)),
            (''category'', PStr (oq_category q))], st2))"

text \<open>\<open>obligation_check(category, None)\<close>.\<close>

definition plain_query :: "string \<Rightarrow> obligation_query" where
  "plain_query category = \<lparr>oq_category = category, oq_sanitizer_result = None, oq_scope_available = True,
     oq_file_path = [], oq_line_start = 0, oq_source_root = None, oq_check_id = [], oq_scope_searched = []\<rparr>"

section \<open>The state's cases\<close>

lemma gate_state_distinct [simp]:
  "OBLIGATION_UNKNOWN \<noteq> OBLIGATION_DISCHARGED" "OBLIGATION_DISCHARGED \<noteq> OBLIGATION_UNKNOWN"
  "OBLIGATION_UNKNOWN \<noteq> OBLIGATION_REFUTED" "OBLIGATION_REFUTED \<noteq> OBLIGATION_UNKNOWN"
  "OBLIGATION_DISCHARGED \<noteq> OBLIGATION_REFUTED" "OBLIGATION_REFUTED \<noteq> OBLIGATION_DISCHARGED"
  by (simp_all add: vocab_simps)

lemma searched_state_range: "fst (searched_state env q ref) \<in> {OBLIGATION_UNKNOWN, OBLIGATION_DISCHARGED}"
  by (simp add: searched_state_def split: option.split)

lemma try_wiring_range:
  "fst (try_wiring_refutation w p l r st) = Some (s, why) \<Longrightarrow> s \<in> {OBLIGATION_REFUTED, OBLIGATION_DISCHARGED}"
  by (auto simp: try_wiring_refutation_def split: option.splits prod.splits if_splits)

lemma decide_state_cases:
  assumes "decide_state w q st = ((s, why, sa), st1)"
  obtains (demoted) "fst (gate_demoted w (oq_check_id q) (oq_category q) st)" "s = OBLIGATION_UNKNOWN"
  | (undeclared) "map_of REFUTATION_MAP (oq_category q) = None" "s = OBLIGATION_UNKNOWN"
  | (policy) ref where "map_of REFUTATION_MAP (oq_category q) = Some ref" "rf_scope ref = NONE"
      "s = OBLIGATION_DISCHARGED"
  | (wiring) ref st0 st' where "map_of REFUTATION_MAP (oq_category q) = Some ref" "rf_scope ref = WIRING"
      "try_wiring_refutation w (oq_file_path q) (oq_line_start q) (oq_source_root q) st0 = (Some (s, why), st')"
  | (searched) ref where "map_of REFUTATION_MAP (oq_category q) = Some ref" "rf_scope ref \<noteq> NONE"
      "searched_state (gw_env w) q ref = (s, why, sa)"
proof -
  obtain d st0 where g: "gate_demoted w (oq_check_id q) (oq_category q) st = (d, st0)" by (metis prod.collapse)
  show ?thesis
  proof (cases d)
    case True
    then show ?thesis using demoted assms g by (simp add: decide_state_def)
  next
    case False
    note ds = assms [unfolded decide_state_def g, simplified False, simplified]
    show ?thesis
    proof (cases "map_of REFUTATION_MAP (oq_category q)")
      case None
      then show ?thesis using undeclared ds by simp
    next
      case (Some ref)
      obtain tw st' where t: "try_wiring_refutation w (oq_file_path q) (oq_line_start q) (oq_source_root q) st0 = (tw, st')"
        by (metis prod.collapse)
      consider "rf_scope ref = NONE" | "rf_scope ref = WIRING" "tw \<noteq> None"
        | "rf_scope ref \<noteq> NONE" "rf_scope ref = WIRING \<longrightarrow> tw = None" by metis
      then show ?thesis
      proof cases
        case 1
        then show ?thesis using policy [OF Some] ds Some by simp
      next
        case 2
        then show ?thesis using wiring [OF Some, of st0 st'] ds Some t by auto
      next
        case 3
        then have "searched_state (gw_env w) q ref = (s, why, sa)" using ds Some t by (auto split: if_splits)
        then show ?thesis using searched [OF Some] 3(1) by blast
      qed
    qed
  qed
qed

lemma decide_state_range:
  assumes "decide_state w q st = ((s, why, sa), st1)"
  shows "s \<in> {OBLIGATION_UNKNOWN, OBLIGATION_DISCHARGED, OBLIGATION_REFUTED}"
  using assms
proof (cases rule: decide_state_cases)
  case (wiring ref st0 st')
  then show ?thesis
    using try_wiring_range [of w "oq_file_path q" "oq_line_start q" "oq_source_root q" st0 s why] by auto
next
  case (searched ref)
  then show ?thesis using searched_state_range [of "gw_env w" q ref] by auto
qed simp_all

lemma obligation_check_fields:
  "vc_id (fst (obligation_check w q st)) = PStr OBLIGATION_ID"
  "vc_weight (fst (obligation_check w q st)) = FFin 0"
  by (simp_all add: obligation_check_def Let_def split: prod.splits)

lemma obligation_check_result:
  assumes "decide_state w q st = ((s, why, sa), st1)" and "enforced w (oq_category q) (oq_check_id q) st1 = (e, st2)"
  shows "vc_result (fst (obligation_check w q st)) =
    PStr (if s \<in> {OBLIGATION_UNKNOWN, OBLIGATION_REFUTED} \<and> \<not> e then OBLIGATION_DISCHARGED else s)"
  using assms by (simp add: obligation_check_def Let_def)

lemma enforced_needs_mode:
  "fst (enforced w c k st) \<Longrightarrow> obligations_enabled (gw_env w) \<and> obligation_mode (gw_env w) = ''enforce''"
  by (auto simp: enforced_def split: if_splits)

definition gate_off :: "env \<Rightarrow> bool" where
  "gate_off env \<longleftrightarrow> obligation_mode env \<noteq> ''enforce'' \<or> \<not> obligations_enabled env"

lemma gate_off_discharges:
  "gate_off (gw_env w) \<Longrightarrow> vc_result (fst (obligation_check w q st)) = PStr OBLIGATION_DISCHARGED"
proof -
  assume off: "gate_off (gw_env w)"
  obtain s why sa st1 where d: "decide_state w q st = ((s, why, sa), st1)"
    by (metis prod.collapse)
  obtain e st2 where e: "enforced w (oq_category q) (oq_check_id q) st1 = (e, st2)" by (metis prod.collapse)
  have "\<not> e" using off enforced_needs_mode [of w "oq_category q" "oq_check_id q" st1] e
    by (auto simp: gate_off_def)
  then show ?thesis
    using decide_state_range [OF d] by (auto simp: obligation_check_result [OF d e])
qed

lemma gate_off_bookkeeping: "gate_off (gw_env w) \<Longrightarrow> bookkeeping (fst (obligation_check w q st))"
  using gate_off_discharges [of w q st]
  by (simp add: bookkeeping_def blocks_label_def obligation_check_fields vocab_simps)

section \<open>Properties\<close>

text \<open>Outside enforcement the gate is inert: in observe mode, or with the kill switch thrown, adding a
  finding's obligation check to its other checks never moves its status or its confidence.\<close>

theorem gate_off_never_votes:
  assumes "gate_off (gw_env w)" and "double_weights cs"
  shows "vote (cs @ [fst (obligation_check w q st)]) = vote cs"
proof -
  let ?ob = "fst (obligation_check w q st)"
  have b: "bookkeeping ?ob" using assms(1) by (rule gate_off_bookkeeping)
  have dw: "double_weights (cs @ [?ob])"
    using assms(2) by (simp add: double_weights_def obligation_check_fields)
  have "vote (cs @ [?ob]) = vote (filter (\<lambda>c. \<not> bookkeeping c) (cs @ [?ob]))"
    by (rule bookkeeping_never_votes_base [OF dw, symmetric])
  also have "\<dots> = vote (filter (\<lambda>c. \<not> bookkeeping c) cs)" using b by simp
  also have "\<dots> = vote cs" by (rule bookkeeping_never_votes_base [OF assms(2)])
  finally show ?thesis .
qed




text \<open>A class with no declared refutation set is never confirmed under enforcement: whatever its other
  checks say, short of an operator's own positive label, the finding does not get the
  \<open>high_confidence\<close> label.\<close>

theorem undeclared_class_is_never_confirmed:
  assumes "obligation_mode (gw_env w) = ''enforce''" and "obligations_enabled (gw_env w)"
    and "map_of REFUTATION_MAP (oq_category q) = None"
    and "\<not> has_authoritative_positive cs"
  shows "fst (vote (cs @ [fst (obligation_check w q st)])) \<noteq> ''high_confidence''"
proof -
  let ?ob = "fst (obligation_check w q st)"
  obtain s why sa st1 where d: "decide_state w q st = ((s, why, sa), st1)" by (metis prod.collapse)
  obtain e st2 where e: "enforced w (oq_category q) (oq_check_id q) st1 = (e, st2)" by (metis prod.collapse)
  have "s = OBLIGATION_UNKNOWN" using d assms(3) by (auto simp: decide_state_def split: prod.splits if_splits)
  moreover have "e" using e assms by (auto simp: enforced_def split: prod.splits if_splits)
  ultimately have "vc_result ?ob = PStr OBLIGATION_UNKNOWN" by (simp add: obligation_check_result [OF d e])
  then have "blocks_label ?ob" by (simp add: blocks_label_def obligation_check_fields vocab_simps)
  moreover have "\<not> has_authoritative_positive (cs @ [?ob])"
    using assms(4) by (simp add: has_authoritative_positive_def obligation_check_fields vocab_simps)
  ultimately have "\<not> may_confirm (cs @ [?ob])" by (simp add: may_confirm_iff)
  then show ?thesis by (auto simp: vote_def Let_def)
qed

text \<open>The label is withheld for an obligation only with cause: an \<open>unknown\<close> result means enforcement is on
  and the rule is demoted by calibration, or the class is undeclared, or its declared scope has been
  reviewed and was not searched.\<close>

theorem withheld_only_with_cause:
  assumes "vc_result (fst (obligation_check w q st)) = PStr OBLIGATION_UNKNOWN"
  shows "obligation_mode (gw_env w) = ''enforce'' \<and> obligations_enabled (gw_env w)
    \<and> ((\<exists>st'. fst (gate_demoted w (oq_check_id q) (oq_category q) st'))
       \<or> map_of REFUTATION_MAP (oq_category q) = None
       \<or> (\<exists>ref. map_of REFUTATION_MAP (oq_category q) = Some ref \<and> rf_scope_reviewed ref \<and> rf_scope ref \<noteq> NONE))"
proof -
  obtain s why sa st1 where d: "decide_state w q st = ((s, why, sa), st1)" by (metis prod.collapse)
  obtain e st2 where e: "enforced w (oq_category q) (oq_check_id q) st1 = (e, st2)" by (metis prod.collapse)
  have s: "s = OBLIGATION_UNKNOWN" and "e"
    using assms by (auto simp: obligation_check_result [OF d e] split: if_splits)
  have mode: "obligations_enabled (gw_env w) \<and> obligation_mode (gw_env w) = ''enforce''"
    using enforced_needs_mode [of w "oq_category q" "oq_check_id q" st1] e \<open>e\<close> by simp
  show ?thesis
  proof (cases "\<exists>st'. fst (gate_demoted w (oq_check_id q) (oq_category q) st')")
    case False
    then have nd: "\<not> fst (gate_demoted w (oq_check_id q) (oq_category q) st')" for st' by blast
    show ?thesis
    proof (cases "map_of REFUTATION_MAP (oq_category q)")
      case (Some ref)
      have "rf_scope_reviewed ref" using e \<open>e\<close> nd [of st1] mode Some
        by (auto simp: enforced_def split: prod.splits)
      moreover have "rf_scope ref \<noteq> NONE"
        using d by (cases rule: decide_state_cases) (use s nd Some in auto)
      ultimately show ?thesis using Some mode by blast
    qed (use mode in blast)
  qed (use mode in blast)
qed

section \<open>Witnesses\<close>

definition ex_env :: "string \<Rightarrow> env" where
  "ex_env mode = (\<lambda>n. if n = ''VULTURE_OBLIGATION_MODE'' then Some mode else None)"

text \<open>One guarded route mounts \<open>pay\<close>, whose query filters on the field the middleware writes.\<close>

definition ex_world :: "string \<Rightarrow> gate_world" where
  "ex_world mode = \<lparr>gw_env = ex_env mode, gw_load = \<lambda>_. None,
     gw_build = \<lambda>_. \<lparr>em_routes = [\<lparr>rt_method = ''post'', rt_pattern = ''/pay'', rt_middleware = [''auth''],
          rt_handler = [''pay''], rt_file = ''r.js'', rt_line = 1\<rparr>],
       em_effects = [(''auth'', [(''body.id'', ''server: token.id'')])], em_defs = [(''pay'', ''a.js'', 1, 9)]\<rparr>,
     gw_lines = \<lambda>p. if p = ''a.js'' then Some [''q({ where: { id: req.body.id } })''] else None\<rparr>"

definition ex_query :: "string \<Rightarrow> obligation_query" where
  "ex_query cwe = \<lparr>oq_category = cwe, oq_sanitizer_result = Some ''absent'', oq_scope_available = True,
     oq_file_path = ''a.js'', oq_line_start = 1, oq_source_root = Some ''/src'', oq_check_id = [],
     oq_scope_searched = []\<rparr>"

definition ex_state :: gate_state where "ex_state = \<lparr>gs_rules = None, gs_models = []\<rparr>"

lemma ex_modes:
  "obligation_mode (ex_env ''enforce'') = ''enforce''" "obligation_mode (ex_env ''observe'') = ''observe''"
  "obligations_enabled (ex_env m)"
proof -
  have "lower (strip ''enforce'') = ''enforce''" "lower (strip ''observe'') = ''observe''"
    "lower (strip ''true'') = ''true''" by code_simp+
  then show "obligation_mode (ex_env ''enforce'') = ''enforce''" "obligation_mode (ex_env ''observe'') = ''observe''"
    "obligations_enabled (ex_env m)"
    by (simp_all add: obligation_mode_def obligations_enabled_def ex_env_def getenv_def)
qed

lemma ex_lookups:
  "map_of REFUTATION_MAP ''CWE-639'' =
     Some (authorization ''ownership predicate, or auth middleware writing the keyed field'')"
  "map_of REFUTATION_MAP ''CWE-1'' = None"
  by code_simp+

lemma ex_not_demoted: "gate_demoted (ex_world m) [] c ex_state = (False, ex_state\<lparr>gs_rules := Some []\<rparr>)" if "c \<noteq> []"
  using that by (simp add: gate_demoted_def finding_rule_demoted_def rule_is_demoted_def demoted_rules_def
      load_demoted_rules_def ex_world_def ex_env_def environ_get_def ex_state_def)




theorem gate_off_never_votes_witness:
  "vote ([ex_judge] @ [fst (obligation_check (ex_world ''observe'') (ex_query ''CWE-639'') ex_state)]) = vote [ex_judge]"
proof (rule gate_off_never_votes)
  show "gate_off (gw_env (ex_world ''observe''))" by (simp add: gate_off_def ex_world_def ex_modes)
  show "double_weights [ex_judge]" by (simp add: double_weights_def ex_judge_def)
qed

theorem undeclared_class_is_never_confirmed_witness:
  "fst (vote ([ex_judge] @ [fst (obligation_check (ex_world ''enforce'') (ex_query ''CWE-1'') ex_state)])) \<noteq> ''high_confidence''"
proof (rule undeclared_class_is_never_confirmed)
  show "obligation_mode (gw_env (ex_world ''enforce'')) = ''enforce''" "obligations_enabled (gw_env (ex_world ''enforce''))"
    by (simp_all add: ex_world_def ex_modes)
  show "map_of REFUTATION_MAP (oq_category (ex_query ''CWE-1'')) = None" by (simp add: ex_query_def ex_lookups)
  show "\<not> has_authoritative_positive [ex_judge]"
    by (simp add: has_authoritative_positive_def ex_judge_def vocab_simps)
qed

theorem withheld_only_with_cause_witness:
  "(\<exists>st'. fst (gate_demoted (ex_world ''enforce'') [] ''CWE-1'' st')) \<or> map_of REFUTATION_MAP ''CWE-1'' = None
   \<or> (\<exists>ref. map_of REFUTATION_MAP ''CWE-1'' = Some ref \<and> rf_scope_reviewed ref \<and> rf_scope ref \<noteq> NONE)"
proof -
  let ?st = "ex_state\<lparr>gs_rules := Some []\<rparr>"
  obtain why where d: "decide_state (ex_world ''enforce'') (ex_query ''CWE-1'') ex_state = ((OBLIGATION_UNKNOWN, why, None), ?st)"
    by (simp add: decide_state_def ex_query_def ex_not_demoted ex_lookups)
  have "enforced (ex_world ''enforce'') (oq_category (ex_query ''CWE-1'')) (oq_check_id (ex_query ''CWE-1'')) ?st = (True, ?st)"
    by (simp add: enforced_def gate_demoted_def finding_rule_demoted_def rule_is_demoted_def ex_query_def
        demoted_rules_def ex_world_def ex_modes ex_lookups ex_state_def)
  from obligation_check_result [OF d this]
  have "vc_result (fst (obligation_check (ex_world ''enforce'') (ex_query ''CWE-1'') ex_state)) = PStr OBLIGATION_UNKNOWN"
    by simp
  from withheld_only_with_cause [OF this] show ?thesis by (simp add: ex_query_def)
qed

end
