(* ===== verification/Py_Order.thy ===== *)
theory Py_Order
  imports Py_Value
begin

text \<open>
  Comparisons, conversions and hashing of the untyped values, as far as the components compare or key
  by them: \<open><\<close> on numbers and strings, \<open>int(x)\<close>, the key a value is in a dictionary (equal numbers are
  the same key), \<open>min\<close> and \<open>max\<close> of a list, and the UTF-8 bytes of a text.

  Two lists are not compared here (\<open>py_less\<close> raises \<open>TypeError\<close> where Python compares them element by
  element): no modelled code keeps the result of such a comparison.
\<close>

definition error_name :: "py_error \<Rightarrow> string" where
  "error_name e = (case e of ValueError \<Rightarrow> ''ValueError'' | TypeError \<Rightarrow> ''TypeError'' | KeyError \<Rightarrow> ''KeyError''
     | IndexError \<Rightarrow> ''IndexError'' | AttributeError \<Rightarrow> ''AttributeError'' | OverflowError \<Rightarrow> ''OverflowError''
     | OSError \<Rightarrow> ''OSError'')"

text \<open>Upper case, as far as ASCII letters are concerned.\<close>

definition upper_char :: "char \<Rightarrow> char" where
  "upper_char c = (let n = (of_char c :: nat) in if 97 \<le> n \<and> n \<le> 122 then char_of (n - 32) else c)"

section \<open>Numbers\<close>

text \<open>The number a value is, exactly (an integer is not rounded to be compared).\<close>

definition py_number :: "pyval \<Rightarrow> pyfloat option" where
  "py_number v = (case v of PBool b \<Rightarrow> Some (FFin (of_bool b)) | PInt i \<Rightarrow> Some (FFin (of_int i))
     | PFloat f \<Rightarrow> Some f | _ \<Rightarrow> None)"

fun str_less :: "string \<Rightarrow> string \<Rightarrow> bool" where
  "str_less s [] = False"
| "str_less [] (d # ds) = True"
| "str_less (c # cs) (d # ds) = ((of_char c :: nat) < of_char d \<or> c = d \<and> str_less cs ds)"

definition py_less :: "pyval \<Rightarrow> pyval \<Rightarrow> bool result" where
  "py_less a b = (case (py_number a, py_number b) of
     (Some x, Some y) \<Rightarrow> Ret (fl_less x y)
   | _ \<Rightarrow> (case (a, b) of (PStr s, PStr t) \<Rightarrow> Ret (str_less s t) | _ \<Rightarrow> Raise TypeError))"

definition py_int :: "pyval \<Rightarrow> int result" where
  "py_int v = (case v of
     PInt i \<Rightarrow> Ret i | PBool b \<Rightarrow> Ret (of_bool b)
   | PFloat f \<Rightarrow> (case f of FFin r \<Rightarrow> Ret (trunc r) | FNan \<Rightarrow> Raise ValueError | FInf _ \<Rightarrow> Raise OverflowError)
   | PStr s \<Rightarrow> (case parse_int s of Some i \<Rightarrow> Ret i | None \<Rightarrow> Raise ValueError)
   | _ \<Rightarrow> Raise TypeError)"

lemma py_int_simps [simp]: "py_int (PInt i) = Ret i"
  by (simp add: py_int_def)

text \<open>\<open>min(xs)\<close> and \<open>max(xs)\<close> of a non-empty list: the first extreme one.\<close>

fun py_min_from :: "pyval \<Rightarrow> pyval list \<Rightarrow> pyval result" where
  "py_min_from cur [] = Ret cur"
| "py_min_from cur (x # xs) = bind_result (py_less x cur) (\<lambda>b. py_min_from (if b then x else cur) xs)"

fun py_max_from :: "pyval \<Rightarrow> pyval list \<Rightarrow> pyval result" where
  "py_max_from cur [] = Ret cur"
| "py_max_from cur (x # xs) = bind_result (py_less cur x) (\<lambda>b. py_max_from (if b then x else cur) xs)"

lemma py_less_ints [simp]: "py_less (PInt i) (PInt j) = Ret (i < j)"
  by (simp add: py_less_def py_number_def)

lemma py_min_from_ints: "py_min_from (PInt i) (map PInt is) = Ret (PInt (Min (insert i (set is))))"
proof (induction "is" arbitrary: i)
  case (Cons j js)
  have "(if j < i then PInt j else PInt i) = PInt (min i j)" by (simp add: min_def)
  then have "py_min_from (PInt i) (map PInt (j # js)) = py_min_from (PInt (min i j)) (map PInt js)" by simp
  also have "\<dots> = Ret (PInt (Min (insert (min i j) (set js))))" by (rule Cons.IH)
  also have "Min (insert (min i j) (set js)) = Min (insert i (set (j # js)))"
    by (cases "set js = {}") (simp_all add: min.assoc Min_insert insert_commute min.commute min.left_commute)
  finally show ?case .
qed simp

lemma py_max_from_ints: "py_max_from (PInt i) (map PInt is) = Ret (PInt (Max (insert i (set is))))"
proof (induction "is" arbitrary: i)
  case (Cons j js)
  have "(if i < j then PInt j else PInt i) = PInt (max i j)" by (simp add: max_def)
  then have "py_max_from (PInt i) (map PInt (j # js)) = py_max_from (PInt (max i j)) (map PInt js)" by simp
  also have "\<dots> = Ret (PInt (Max (insert (max i j) (set js))))" by (rule Cons.IH)
  also have "Max (insert (max i j) (set js)) = Max (insert i (set (j # js)))"
    by (cases "set js = {}") (simp_all add: max.assoc insert_commute max.commute max.left_commute)
  finally show ?case .
qed simp

section \<open>Keys\<close>

text \<open>
  The key a value is in a dictionary: \<open>True\<close>, \<open>1\<close> and \<open>1.0\<close> are one key; a list or a dictionary is
  not hashable. A NaN is taken equal to itself; two NaN objects are two keys in Python.
\<close>

definition py_key :: "pyval \<Rightarrow> pyval result" where
  "py_key v = (case v of
     PBool b \<Rightarrow> Ret (PInt (of_bool b))
   | PFloat (FFin r) \<Rightarrow> Ret (if r = of_int \<lfloor>r\<rfloor> then PInt \<lfloor>r\<rfloor> else v)
   | PList _ \<Rightarrow> Raise TypeError | PDict _ \<Rightarrow> Raise TypeError
   | _ \<Rightarrow> Ret v)"

lemma py_key_simps [simp]: "py_key (PStr s) = Ret (PStr s)" "py_key (PInt i) = Ret (PInt i)"
  "py_key PNone = Ret PNone"
  by (simp_all add: py_key_def)

text \<open>\<open>str.isdigit\<close> also holds of the superscripts one, two and three, which \<open>int\<close> rejects.\<close>

definition py_isdigit :: "string \<Rightarrow> bool" where
  "py_isdigit s = (s \<noteq> [] \<and> list_all (\<lambda>c. is_digit c \<or> c \<in> {CHR 0xB2, CHR 0xB3, CHR 0xB9}) s)"

section \<open>Bytes\<close>

text \<open>\<open>s.encode("utf-8")\<close>; the texts of the model have code points below 256.\<close>

definition utf8_char :: "char \<Rightarrow> string" where
  "utf8_char c = (let n = (of_char c :: nat) in
     if n < 128 then [c] else [char_of (192 + n div 64), char_of (128 + n mod 64)])"

lemma utf8_char_code [code]: "utf8_char (Char b0 b1 b2 b3 b4 b5 b6 b7) =
    (if b7 then [Char b6 True False False False False True True, Char b0 b1 b2 b3 b4 b5 False True]
     else [Char b0 b1 b2 b3 b4 b5 b6 b7])"
  by (cases b0; cases b1; cases b2; cases b3; cases b4; cases b5; cases b6; cases b7;
      simp add: utf8_char_def char_of_def bit_0)

definition utf8 :: "string \<Rightarrow> string" where
  "utf8 s = concat (map utf8_char s)"

lemma char_code_less: "(of_char c :: nat) < 256"
  by (metis of_char_mod_256 mod_less_divisor zero_less_numeral)

lemma char_code_of: "c = char_of n \<Longrightarrow> n < 256 \<Longrightarrow> (of_char c :: nat) = n"
  by simp

lemma char_of_zero: "(n :: nat) < 256 \<Longrightarrow> CHR 0x00 = char_of n \<longleftrightarrow> n = 0"
  using char_code_of [of "CHR 0x00" n] by (auto simp: char_of_def)

lemma utf8_char_zero: "CHR 0x00 \<in> set (utf8_char c) \<longleftrightarrow> c = CHR 0x00"
proof (cases "(of_char c :: nat) < 128")
  case True
  then show ?thesis by (auto simp: utf8_char_def)
next
  case False
  let ?n = "of_char c :: nat"
  have "192 + ?n div 64 < 256" "128 + ?n mod 64 < 256" using char_code_less [of c] by linarith+
  then show ?thesis using False by (auto simp: utf8_char_def Let_def char_of_zero)
qed

lemma utf8_char_cancel: "utf8_char c @ x = utf8_char d @ y \<Longrightarrow> c = d \<and> x = y"
proof -
  assume eq: "utf8_char c @ x = utf8_char d @ y"
  let ?m = "of_char c :: nat" let ?n = "of_char d :: nat"
  have lt: "?m < 256" "?n < 256" by (rule char_code_less)+
  have inj: "a = b" if "(char_of a :: char) = char_of b" and "a < 256" and "b < 256" for a b :: nat
    using char_code_of [OF that(1) that(3)] that(2) by simp
  have own: "char_of (of_char e :: nat) = e" for e :: char by simp
  consider "?m < 128" "?n < 128" | "?m < 128" "128 \<le> ?n" | "128 \<le> ?m" "?n < 128" | "128 \<le> ?m" "128 \<le> ?n"
    by linarith
  then show "c = d \<and> x = y"
  proof cases
    case 1
    then show ?thesis using eq by (simp add: utf8_char_def)
  next
    case 2
    then have "c = char_of (192 + ?n div 64)" using eq by (simp add: utf8_char_def Let_def)
    then have "?m = 192 + ?n div 64" by (rule char_code_of) (use lt in linarith)
    then show ?thesis using 2 by linarith
  next
    case 3
    then have "d = char_of (192 + ?m div 64)" using eq by (simp add: utf8_char_def Let_def)
    then have "?n = 192 + ?m div 64" by (rule char_code_of) (use lt in linarith)
    then show ?thesis using 3 by linarith
  next
    case 4
    then have h: "(char_of (192 + ?m div 64) :: char) = char_of (192 + ?n div 64)"
      "(char_of (128 + ?m mod 64) :: char) = char_of (128 + ?n mod 64)" "x = y"
      using eq by (simp_all add: utf8_char_def Let_def)
    have "192 + ?m div 64 = 192 + ?n div 64" by (rule inj [OF h(1)]) (use lt in linarith)+
    moreover have "128 + ?m mod 64 = 128 + ?n mod 64"
      by (rule inj [OF h(2)]) (use mod_less_divisor [of 64 ?m] mod_less_divisor [of 64 ?n] in linarith)+
    ultimately have "?m = ?n" using div_mult_mod_eq [of ?m 64] div_mult_mod_eq [of ?n 64] by linarith
    then show ?thesis using own h(3) by metis
  qed
qed

text \<open>A text closed by a NUL byte is read back from the bytes: the encoding is a prefix code, and only
  the character NUL encodes to a zero byte.\<close>

lemma utf8_nul_cancel:
  assumes "utf8 s @ CHR 0x00 # x = utf8 t @ CHR 0x00 # y" and "CHR 0x00 \<notin> set s" and "CHR 0x00 \<notin> set t"
  shows "s = t \<and> x = y"
  using assms
proof (induction s t rule: list_induct2')
  case (2 c cs)
  have "CHR 0x00 \<notin> set (utf8_char c)" using 2 utf8_char_zero [of c] by auto
  moreover have "utf8_char c \<noteq> []" by (simp add: utf8_char_def Let_def)
  ultimately show ?case using 2(1) by (cases "utf8_char c") (auto simp: utf8_def)
next
  case (3 d ds)
  have "CHR 0x00 \<notin> set (utf8_char d)" using 3 utf8_char_zero [of d] by auto
  moreover have "utf8_char d \<noteq> []" by (simp add: utf8_char_def Let_def)
  ultimately show ?case using 3(1) by (cases "utf8_char d") (auto simp: utf8_def)
next
  case (4 c cs d ds)
  have "utf8_char c @ utf8 cs @ CHR 0x00 # x = utf8_char d @ utf8 ds @ CHR 0x00 # y"
    using 4(2) by (simp add: utf8_def)
  from utf8_char_cancel [OF this] 4 show ?case by simp
qed (simp add: utf8_def)

end
