(* ===== verification/Rollup.thy ===== *)
theory Rollup
  imports Window Refutation Py_Order
begin

text \<open>
  Rollup of near-duplicate findings (\<open>shared/validate/rollup.py\<close>): findings with one category, title
  and file are grouped, each group of two or more gets a parent record, and after the vote a parent
  takes the verdict of its strongest member. The SHA-256 of \<open>hashlib\<close> is the parameter \<open>digest\<close> (the hex
  digest of a byte string), the clock the parameter \<open>now\<close>. The obligation check of a parent reads the
  gate of \<open>Refutation\<close>, so its world and state are threaded. U+2026 is not a Latin-1 character and
  stands here as its UTF-8 bytes.

  The lemmas: no finding is lost on any path, the parents cover the groups exactly, the identifier of a
  parent is hashed from a text that determines its key, and a derived verdict is a strongest member's.
\<close>

section \<open>Keys\<close>

definition PLACEHOLDER_CONFIDENCE :: pyfloat where "PLACEHOLDER_CONFIDENCE = FFin (fl64 (40 / 100))"
definition PLACEHOLDER_STATUS :: string where "PLACEHOLDER_STATUS = ''suspicious''"

definition normalize_title :: "string \<Rightarrow> string" where
  "normalize_title title = lower (strip (fold_ws title))"

definition rollup_text :: "string list \<Rightarrow> string" where
  "rollup_text parts = concat (map (\<lambda>p. utf8 p @ [CHR 0x00]) parts)"

definition rollup_id :: "(string \<Rightarrow> string) \<Rightarrow> string \<Rightarrow> string \<Rightarrow> string \<Rightarrow> string \<Rightarrow> string" where
  "rollup_id digest audit_id category title file_path =
     ''rollup-'' @ take 24 (digest (rollup_text [audit_id, category, normalize_title title, file_path]))"

type_synonym group_key = "pyval \<times> string \<times> pyval"

text \<open>A title that is not a text makes \<open>re.sub\<close> raise; an unhashable category or path, the dictionary.\<close>

definition title_of :: "pydict \<Rightarrow> string result" where
  "title_of f = (case py_or (get_or f ''title'' (PStr [])) (PStr []) of PStr s \<Rightarrow> Ret s | _ \<Rightarrow> Raise TypeError)"

definition group_key :: "pydict \<Rightarrow> group_key result" where
  "group_key f =
     bind_result (title_of f) (\<lambda>title.
     bind_result (py_key (py_or (get_or f ''category'' (PStr [])) (PStr []))) (\<lambda>category.
     bind_result (py_key (py_or (get_or f ''file_path'' (PStr [])) (PStr []))) (\<lambda>file_path.
       Ret (category, normalize_title title, file_path))))"

definition group_findings :: "pydict list \<Rightarrow> (group_key \<times> nat list) list result" where
  "group_findings findings = bind_result (map_result group_key findings) (\<lambda>ks. Ret (index_groups ks))"

section \<open>The description of a group\<close>

definition MAX_LISTED_LINES :: nat where "MAX_LISTED_LINES = 12"
definition MAX_EXTRA_CHARS :: nat where "MAX_EXTRA_CHARS = 200"

definition ELLIPSIS :: string where "ELLIPSIS = [CHR 0xE2, CHR 0x80, CHR 0xA6]"

definition sorted_member_lines :: "pydict list \<Rightarrow> int list" where
  "sorted_member_lines members =
     sort (remdups (filter (\<lambda>n. n \<noteq> 0) (map (\<lambda>m. parse_line (get m ''line_start'') 0) members)))"

definition member_lines :: "pydict list \<Rightarrow> string" where
  "member_lines members =
     (let lines = sorted_member_lines members;
          shown = join '', '' (map str_int (take MAX_LISTED_LINES lines)) in
      if MAX_LISTED_LINES < length lines then shown @ '', '' @ ELLIPSIS else shown)"

definition member_descriptions :: "pydict list \<Rightarrow> string list" where
  "member_descriptions members =
     filter (\<lambda>d. d \<noteq> []) (map (\<lambda>m. strip (text_field m ''description'')) members)"

text \<open>\<open>max(xs, key=len, default="")\<close>.\<close>

definition longest :: "string list \<Rightarrow> string" where
  "longest xs = (case xs of [] \<Rightarrow> [] | x # ys \<Rightarrow> max_key length x ys)"

definition distinct_extra :: "pydict list \<Rightarrow> string \<Rightarrow> string" where
  "distinct_extra members title =
     (let norm = normalize_title title in
      take MAX_EXTRA_CHARS (longest (filter (\<lambda>d. normalize_title d \<noteq> norm) (member_descriptions members))))"

definition best_recommendation :: "pydict list \<Rightarrow> string" where
  "best_recommendation members = longest (map (\<lambda>m. text_field m ''recommendation'') members)"

definition rollup_description :: "pydict list \<Rightarrow> nat \<Rightarrow> string \<Rightarrow> string" where
  "rollup_description members instance_count title =
     (let lines = member_lines members;
          spot = (if lines = [] then []
            else '' at line'' @ (if instance_count \<noteq> 1 then ''s'' else []) @ '' '' @ lines);
          head = str_nat instance_count @ '' instances rolled up'' @ spot @ ''.'';
          extra = distinct_extra members title in
      if extra = [] then head else rstrip (head @ '' '' @ extra))"

section \<open>The parent\<close>

definition SEVERITY_RANK :: "(string \<times> int) list" where
  "SEVERITY_RANK = [(''critical'', 4), (''high'', 3), (''medium'', 2), (''low'', 1), (''info'', 0)]"

definition severity_rank :: "pyval \<Rightarrow> int result" where
  "severity_rank s = (case py_or s (PStr []) of
     PStr t \<Rightarrow> Ret (case map_of SEVERITY_RANK (lower t) of None \<Rightarrow> 0 | Some n \<Rightarrow> n)
   | _ \<Rightarrow> Raise AttributeError)"

definition max_severity :: "pyval list \<Rightarrow> pyval result" where
  "max_severity sevs = (case sevs of [] \<Rightarrow> Raise ValueError
     | s # ss \<Rightarrow> bind_result (map_result severity_rank sevs) (\<lambda>ranks.
         Ret (snd (max_key fst (hd ranks, s) (zip (tl ranks) ss)))))"

definition extreme_line ::
  "(pyval \<Rightarrow> pyval list \<Rightarrow> pyval result) \<Rightarrow> string \<Rightarrow> pyval \<Rightarrow> pydict list \<Rightarrow> pyval result" where
  "extreme_line pick k dflt members =
     (case map (\<lambda>m. py_or (get m k) (PInt 0)) members of [] \<Rightarrow> Raise ValueError
      | v # vs \<Rightarrow> bind_result (pick v vs) (\<lambda>x. Ret (py_or x dflt)))"

definition window_checks :: "env \<Rightarrow> pyval list result" where
  "window_checks env =
     (if \<not> env_flag env ''VULTURE_FINDING_WINDOW_PARITY'' True then Ret []
      else bind_result (window_check ''rollup_parent'') (\<lambda>c. Ret [c]))"

definition rollup_status_for :: "string \<Rightarrow> nat \<Rightarrow> string" where
  "rollup_status_for category instance_count = ''suspicious''"

definition as_text :: "pyval \<Rightarrow> string result" where
  "as_text v = (case v of PStr s \<Rightarrow> Ret s | _ \<Rightarrow> Raise AttributeError)"

text \<open>The fields of a parent that can raise, in the order the code reads them.\<close>

record parent_fields =
  pf_line_start :: pyval
  pf_line_end :: pyval
  pf_severity :: pyval
  pf_title :: string
  pf_category :: string
  pf_file_path :: string

definition parent_fields :: "pydict list \<Rightarrow> pyval \<Rightarrow> pyval \<Rightarrow> parent_fields result" where
  "parent_fields members category file_path =
     bind_result (extreme_line py_min_from ''line_start'' (PInt 1) members) (\<lambda>ls.
     bind_result (extreme_line py_max_from ''line_end'' ls members) (\<lambda>le.
     bind_result (max_severity (map (\<lambda>m. get_or m ''severity'' (PStr ''low'')) members)) (\<lambda>sev.
     bind_result (title_of (hd members)) (\<lambda>title.
     bind_result (as_text category) (\<lambda>cat.
     bind_result (as_text file_path) (\<lambda>path.
     bind_result (py_int ls) (\<lambda>lsi.
     bind_result (py_int le) (\<lambda>lei.
       Ret \<lparr>pf_line_start = PInt lsi, pf_line_end = PInt lei, pf_severity = sev, pf_title = title,
         pf_category = cat, pf_file_path = path\<rparr>))))))))"

definition parent_record ::
  "(string \<Rightarrow> string) \<Rightarrow> string \<Rightarrow> parent_fields \<Rightarrow> pydict list \<Rightarrow> nat \<Rightarrow> pyval list \<Rightarrow> pydict" where
  "parent_record digest audit_id pf members instance_count checks =
     [(''id'', PStr (rollup_id digest audit_id (pf_category pf) (pf_title pf) (pf_file_path pf))),
      (''audit_id'', PStr audit_id), (''is_rollup'', PBool True), (''provenance'', PStr ''catalog_rollup''),
      (''category'', PStr (pf_category pf)), (''title'', PStr (pf_title pf)),
      (''description'', PStr (rollup_description members instance_count (pf_title pf))),
      (''file_path'', PStr (pf_file_path pf)), (''line_start'', pf_line_start pf), (''line_end'', pf_line_end pf),
      (''severity'', pf_severity pf), (''instance_count'', PInt (int instance_count)),
      (''rolled_up_member_ids'', PList (map (\<lambda>m. get_or m ''id'' (PStr [])) members)),
      (''recommendation'', PStr (best_recommendation members)),
      (''validation'', PDict [(''status'', PStr (rollup_status_for (pf_category pf) instance_count)),
         (''confidence'', PFloat PLACEHOLDER_CONFIDENCE), (''checks'', PList checks),
         (''validated_at'', PStr [])])]"

definition build_rollup_parent ::
  "(string \<Rightarrow> string) \<Rightarrow> gate_world \<Rightarrow> string \<Rightarrow> pyval \<Rightarrow> pyval \<Rightarrow> pydict list \<Rightarrow> nat \<Rightarrow> gate_state \<Rightarrow>
   pydict result \<times> gate_state" where
  "build_rollup_parent digest w audit_id category file_path members instance_count st =
     (case parent_fields members category file_path of
        Inl e \<Rightarrow> (Raise e, st)
      | Inr pf \<Rightarrow> (case obligation_check w (plain_query (pf_category pf)) st of (ob, st') \<Rightarrow>
          (bind_result (window_checks (gw_env w)) (\<lambda>wc.
             Ret (parent_record digest audit_id pf members instance_count (PDict (check_to_json ob) # wc))), st')))"

section \<open>The layer\<close>

definition singleton_check :: validation_check where
  "singleton_check = new_check ''rollup'' ''singleton'' 0 [] []"

definition rolled_up_check :: "pyval \<Rightarrow> nat \<Rightarrow> validation_check" where
  "rolled_up_check parent_id count = new_check ''rollup'' ''rolled_up'' 0
     (''member of rollup ('' @ str_nat count @ '' instances)'') [(''rolled_up_into'', parent_id)]"

definition mark_rollup_members ::
  "validation_check list list \<Rightarrow> nat list \<Rightarrow> pyval \<Rightarrow> nat \<Rightarrow> validation_check list list" where
  "mark_rollup_members per_finding indices parent_id count =
     foldl (\<lambda>per i. per[i := [rolled_up_check parent_id count]]) per_finding indices"

definition l2_error_checks :: "string \<Rightarrow> pydict list \<Rightarrow> py_error \<Rightarrow> validation_check list list" where
  "l2_error_checks head findings e =
     map (\<lambda>_. [new_check ''rollup'' ''error'' 0 (head @ error_name e) []]) findings"

fun emit_groups ::
  "(string \<Rightarrow> string) \<Rightarrow> gate_world \<Rightarrow> string \<Rightarrow> pydict list \<Rightarrow> (group_key \<times> nat list) list \<Rightarrow>
   validation_check list list \<Rightarrow> pydict list \<Rightarrow> gate_state \<Rightarrow>
   (validation_check list list \<times> pydict list) result \<times> gate_state" where
  "emit_groups digest w audit_id findings [] per parents st = (Ret (per, parents), st)"
| "emit_groups digest w audit_id findings (((category, title, file_path), idx) # gs) per parents st =
     (if length idx < 2 then emit_groups digest w audit_id findings gs per parents st
      else case build_rollup_parent digest w audit_id category file_path (map ((!) findings) idx) (length idx) st of
        (Inl e, st') \<Rightarrow> (Raise e, st')
      | (Inr p, st') \<Rightarrow> emit_groups digest w audit_id findings gs
          (mark_rollup_members per idx (get p ''id'') (length idx)) (parents @ [p]) st')"

definition group_and_emit ::
  "(string \<Rightarrow> string) \<Rightarrow> gate_world \<Rightarrow> pydict list \<Rightarrow> string \<Rightarrow> gate_state \<Rightarrow>
   (validation_check list list \<times> pydict list) result \<times> gate_state" where
  "group_and_emit digest w findings audit_id st =
     (case group_findings findings of
        Inl e \<Rightarrow> (Raise e, st)
      | Inr groups \<Rightarrow> emit_groups digest w audit_id findings groups (map (\<lambda>_. [singleton_check]) findings) [] st)"

definition run_l2 ::
  "(string \<Rightarrow> string) \<Rightarrow> gate_world \<Rightarrow> pydict list \<Rightarrow> string \<Rightarrow> gate_state \<Rightarrow>
   (validation_check list list \<times> pydict list) \<times> gate_state" where
  "run_l2 digest w findings audit_id st =
     (case group_and_emit digest w findings audit_id st of
        (Inl e, st') \<Rightarrow> ((l2_error_checks ''L2 error: '' findings e, []), st')
      | (Inr r, st') \<Rightarrow> (r, st'))"

section \<open>The parent's verdict\<close>

definition member_confidence :: "pydict \<Rightarrow> pyfloat option result" where
  "member_confidence m = (let raw = get m ''validation_confidence'' in
     if raw = PNone then Ret None
     else case py_float raw of
       Inr f \<Rightarrow> Ret (Some f)
     | Inl e \<Rightarrow> if e \<in> {TypeError, ValueError} then Ret None else Raise e)"

text \<open>\<open>{f["id"]: f for f in findings if f.get("id")}\<close>: of equal identifiers the last finding stays.\<close>

type_synonym id_table = "(pyval \<times> pydict) list"

fun by_id_from :: "pydict list \<Rightarrow> id_table \<Rightarrow> id_table result" where
  "by_id_from [] d = Ret d"
| "by_id_from (f # fs) d = (let i = get f ''id'' in
     if \<not> truthy i then by_id_from fs d
     else bind_result (py_key i) (\<lambda>k. by_id_from fs (AList.update k f d)))"

definition score_of :: "id_table \<Rightarrow> pyval \<Rightarrow> (pyfloat \<times> pyval) option result" where
  "score_of by_id mid = bind_result (py_key mid) (\<lambda>k. case map_of by_id k of
     None \<Rightarrow> Ret None
   | Some m \<Rightarrow> bind_result (member_confidence m) (\<lambda>c. Ret (map_option (\<lambda>f. (f, k)) c)))"

text \<open>\<open><\<close> on the pairs \<open>(confidence, id)\<close>; equal confidences compare the identifiers.\<close>

definition score_less :: "pyfloat \<times> pyval \<Rightarrow> pyfloat \<times> pyval \<Rightarrow> bool result" where
  "score_less a b = (if fst a = fst b \<and> fst a \<noteq> FNan
     then (if snd a = snd b then Ret False else py_less (snd a) (snd b))
     else Ret (fl_less (fst a) (fst b)))"

fun max_score :: "pyfloat \<times> pyval \<Rightarrow> (pyfloat \<times> pyval) list \<Rightarrow> (pyfloat \<times> pyval) result" where
  "max_score cur [] = Ret cur"
| "max_score cur (s # ss) = bind_result (score_less cur s) (\<lambda>b. max_score (if b then s else cur) ss)"

definition is_rollup_check :: "pyval \<Rightarrow> bool result" where
  "is_rollup_check c = (case c of PDict d \<Rightarrow> Ret (get d ''id'' = PStr ''rollup'') | _ \<Rightarrow> Raise AttributeError)"

definition drop_rollup_checks :: "pyval list \<Rightarrow> pyval list result" where
  "drop_rollup_checks cs = bind_result (map_result is_rollup_check cs)
     (\<lambda>bs. Ret (map fst (filter (\<lambda>(c, b). \<not> b) (zip cs bs))))"

definition orphan_check :: "nat \<Rightarrow> validation_check" where
  "orphan_check n_all = new_check ''rollup'' ''orphan'' 0
     ''no voted member resolved; verdict is the placeholder'' [(''members_total'', PInt (int n_all))]"

definition derived_check :: "pyval \<Rightarrow> nat \<Rightarrow> nat \<Rightarrow> validation_check" where
  "derived_check best_id voted n_all = new_check ''rollup'' ''derived'' 0
     (''inherited from the strongest of '' @ str_nat voted @ '' voted member(s)'')
     [(''inherited_from'', best_id), (''members_voted'', PInt (int voted)), (''members_total'', PInt (int n_all))]"

definition with_checks :: "pyval list \<Rightarrow> validation_check \<Rightarrow> pydict \<Rightarrow> pydict" where
  "with_checks checks c blob = put ''checks'' (PList (checks @ [PDict (check_to_json c)])) blob"

definition derive_blob :: "string \<Rightarrow> id_table \<Rightarrow> pyval list \<Rightarrow> pydict \<Rightarrow> pydict result" where
  "derive_blob now by_id mids blob =
     bind_result (py_iter (get_or blob ''checks'' (PList []))) (\<lambda>raw.
     bind_result (drop_rollup_checks raw) (\<lambda>checks.
     bind_result (map_result (score_of by_id) mids) (\<lambda>scores.
       case List.map_filter (\<lambda>s. s) scores of
         [] \<Rightarrow> Ret (with_checks checks (orphan_check (length mids)) blob)
       | s # ss \<Rightarrow> bind_result (max_score s ss) (\<lambda>(best_conf, best_id).
           let best = (case map_of by_id best_id of Some f \<Rightarrow> f | None \<Rightarrow> []) in
           Ret (with_checks checks (derived_check best_id (length (s # ss)) (length mids))
             (put ''validated_at'' (PStr now)
               (put ''status'' (py_or (get best ''validation_status'') (PStr PLACEHOLDER_STATUS))
                 (put ''confidence'' (PFloat best_conf) blob))))))))"

definition derive_parent :: "string \<Rightarrow> id_table \<Rightarrow> pydict \<Rightarrow> pydict result" where
  "derive_parent now by_id parent =
     (case get_or parent ''validation'' (PDict []) of
        PDict blob \<Rightarrow>
          bind_result (py_iter (get_or parent ''rolled_up_member_ids'' (PList []))) (\<lambda>mids.
          bind_result (derive_blob now by_id mids blob) (\<lambda>blob'.
            Ret (put ''validation'' (PDict blob') parent)))
      | _ \<Rightarrow> Raise AttributeError)"

definition derive_parent_verdicts :: "string \<Rightarrow> pydict list \<Rightarrow> pydict list \<Rightarrow> pydict list result" where
  "derive_parent_verdicts now findings rollups =
     (if rollups = [] then Ret []
      else bind_result (by_id_from findings []) (\<lambda>by_id. map_result (derive_parent now by_id) rollups))"

section \<open>No finding is lost\<close>

lemma length_mark [simp]: "length (mark_rollup_members per idx pid n) = length per"
  by (induction idx arbitrary: per) (auto simp: mark_rollup_members_def)

lemma nth_mark:
  "i < length per \<Longrightarrow> mark_rollup_members per idx pid n ! i = (if i \<in> set idx then [rolled_up_check pid n] else per ! i)"
proof (induction idx arbitrary: per)
  case (Cons j idx)
  have "mark_rollup_members per (j # idx) pid n = mark_rollup_members (per[j := [rolled_up_check pid n]]) idx pid n"
    by (simp add: mark_rollup_members_def)
  then show ?case using Cons by (auto simp: nth_list_update)
qed (simp add: mark_rollup_members_def)

text \<open>One check per finding, with the identifier \<open>rollup\<close> and weight zero.\<close>

definition l2_checks :: "validation_check list \<Rightarrow> bool" where
  "l2_checks cs = (\<exists>c. cs = [c] \<and> vc_id c = PStr ''rollup'' \<and> vc_weight c = FFin 0)"

lemma l2_checks_new: "l2_checks [new_check ''rollup'' r 0 why x]"
  by (simp add: l2_checks_def)

lemma l2_checks_mark: "list_all l2_checks per \<Longrightarrow> list_all l2_checks (mark_rollup_members per idx pid n)"
  unfolding list_all_length by (auto simp: nth_mark rolled_up_check_def l2_checks_new)

lemma emit_groups_keeps:
  assumes "emit_groups digest w audit findings gs per parents st = (Ret (per', parents'), st')" and "list_all l2_checks per"
  shows "length per' = length per \<and> list_all l2_checks per'"
  using assms
proof (induction digest w audit findings gs per parents st rule: emit_groups.induct)
  case (2 digest w audit findings category title file_path idx gs per parents st)
  show ?case
  proof (cases "length idx < 2")
    case True
    then show ?thesis using 2 by simp
  next
    case False
    obtain r st1 where b: "build_rollup_parent digest w audit category file_path (map ((!) findings) idx) (length idx) st = (r, st1)"
      by fastforce
    then obtain p where "r = Ret p" using "2.prems" False by (cases r) auto
    then show ?thesis using "2.IH"(2) [OF False b [symmetric]] "2.prems" False b l2_checks_mark by simp
  qed
qed simp

lemma run_l2_shape:
  assumes "run_l2 digest w findings audit st = ((per, parents), st')"
  shows "length per = length findings \<and> list_all l2_checks per"
proof -
  have "\<exists>per' ps s. run_l2 digest w findings audit st = ((per', ps), s)
      \<and> length per' = length findings \<and> list_all l2_checks per'"
  proof (cases "group_and_emit digest w findings audit st")
    case (Pair r s)
    show ?thesis
    proof (cases r)
      case (Inl e)
      then show ?thesis using Pair
        by (simp add: run_l2_def l2_error_checks_def list_all_iff l2_checks_new)
    next
      case (Inr pp)
      obtain per' ps where pp: "pp = (per', ps)" by fastforce
      have base: "list_all l2_checks (map (\<lambda>_. [singleton_check]) findings)"
        by (simp add: list_all_iff singleton_check_def l2_checks_new)
      obtain gs where "emit_groups digest w audit findings gs (map (\<lambda>_. [singleton_check]) findings) [] st
          = (Ret (per', ps), s)"
        using Pair Inr pp by (auto simp: group_and_emit_def split: sum.splits)
      from emit_groups_keeps [OF this base] show ?thesis using Pair Inr pp by (simp add: run_l2_def)
    qed
  qed
  then show ?thesis using assms by auto
qed

text \<open>Demote, never drop: whatever the findings hold, malformed ones included, the rollup layer returns
  exactly one check per finding, in order, with the identifier \<open>rollup\<close> and weight zero; an exception
  anywhere in it costs the parents, not a finding.\<close>

theorem run_l2_keeps_every_finding:
  "case run_l2 digest w findings audit st of ((per, parents), st') \<Rightarrow>
     length per = length findings
     \<and> list_all (\<lambda>cs. \<exists>c. cs = [c] \<and> vc_id c = PStr ''rollup'' \<and> vc_weight c = FFin 0) per"
  using run_l2_shape [unfolded l2_checks_def [abs_def]]
  by (cases "run_l2 digest w findings audit st") (fastforce split: prod.splits)

section \<open>The groups\<close>

lemma parent_lists_members:
  assumes "build_rollup_parent digest w audit category file_path members n st = (Ret p, st')"
  shows "get p ''rolled_up_member_ids'' = PList (map (\<lambda>m. get_or m ''id'' (PStr [])) members)
    \<and> get p ''instance_count'' = PInt (int n)"
proof -
  obtain pf cs where "p = parent_record digest audit pf members n cs"
    using assms by (auto simp: build_rollup_parent_def bind_result_Ret split: sum.splits prod.splits)
  then show ?thesis by (simp add: parent_record_def get_or_def)
qed

text \<open>What the loop has established about one index of a group of two or more.\<close>

definition rolled_into ::
  "pydict list \<Rightarrow> nat list \<Rightarrow> pydict list \<Rightarrow> validation_check list \<Rightarrow> bool" where
  "rolled_into findings idx parents cs \<longleftrightarrow> (\<exists>p \<in> set parents. cs = [rolled_up_check (get p ''id'') (length idx)]
     \<and> get p ''rolled_up_member_ids'' = PList (map (\<lambda>j. get_or (findings ! j) ''id'' (PStr [])) idx)
     \<and> get p ''instance_count'' = PInt (int (length idx)))"

lemma emit_groups_spec:
  assumes "emit_groups digest w audit findings gs per parents st = (Ret (per', parents'), st')"
    and "\<forall>(k, idx) \<in> set gs. \<forall>i \<in> set idx. key i = k" and "distinct (map fst gs)" and "i < length per"
  shows "set parents \<subseteq> set parents'
    \<and> (if \<exists>idx. (key i, idx) \<in> set gs \<and> i \<in> set idx \<and> 2 \<le> length idx
       then \<exists>idx. (key i, idx) \<in> set gs \<and> rolled_into findings idx parents' (per' ! i)
       else per' ! i = per ! i)"
  using assms
proof (induction digest w audit findings gs per parents st rule: emit_groups.induct)
  case (2 digest w audit findings category title file_path idx gs per parents st)
  let ?k = "(category, title, file_path)"
  have other: "(?k, idx') \<notin> set gs" for idx' using "2.prems"(3) by force
  show ?case
  proof (cases "length idx < 2")
    case True
    have rest: "emit_groups digest w audit findings gs per parents st = (Ret (per', parents'), st')"
      using "2.prems"(1) True by simp
    have hyps: "\<forall>(k, idx) \<in> set gs. \<forall>i \<in> set idx. key i = k" "distinct (map fst gs)"
      using "2.prems"(2,3) by simp_all
    have "((key i, idx') \<in> set (((category, title, file_path), idx) # gs) \<and> i \<in> set idx' \<and> 2 \<le> length idx')
        = ((key i, idx') \<in> set gs \<and> i \<in> set idx' \<and> 2 \<le> length idx')" for idx' using True by auto
    then show ?thesis using "2.IH"(1) [OF True rest hyps "2.prems"(4)] by (simp del: list.set) (metis list.set_intros(2))
  next
    case False
    obtain r st1 where b: "build_rollup_parent digest w audit category file_path (map ((!) findings) idx) (length idx) st = (r, st1)"
      by fastforce
    then obtain p where r: "r = Ret p" using "2.prems" False by (cases r) auto
    let ?per = "mark_rollup_members per idx (get p ''id'') (length idx)"
    have rest: "emit_groups digest w audit findings gs ?per (parents @ [p]) st1 = (Ret (per', parents'), st')"
      using "2.prems"(1) False b r by simp
    have hyps: "\<forall>(k, idx) \<in> set gs. \<forall>i \<in> set idx. key i = k" "distinct (map fst gs)" "i < length ?per"
      using "2.prems"(2-4) by simp_all
    note IH = "2.IH"(2) [OF False b [symmetric] r rest hyps]
    show ?thesis
    proof (cases "i \<in> set idx")
      case True
      then have k: "key i = ?k" using "2.prems"(2) by auto
      then have "per' ! i = ?per ! i" using IH other by (auto split: if_splits)
      then have "per' ! i = [rolled_up_check (get p ''id'') (length idx)]"
        using True "2.prems"(4) by (simp add: nth_mark)
      moreover have "p \<in> set parents'" using IH by simp
      ultimately have "rolled_into findings idx parents' (per' ! i)"
        using parent_lists_members [of digest w audit category file_path _ _ st p st1] b r
        by (fastforce simp: rolled_into_def)
      then show ?thesis using IH True False k by auto
    next
      case out: False
      then have "?per ! i = per ! i" using "2.prems"(4) by (simp add: nth_mark)
      then show ?thesis using IH out by (auto split: if_splits)
    qed
  qed
qed simp

text \<open>The rollup partition is exact: after a run that raised nothing, a finding alone with its category,
  normalised title and file keeps a \<open>singleton\<close> check, and a finding with mates points to a parent that
  lists exactly the identifiers of the findings with that key, itself included, in order, and counts
  them.\<close>

theorem rollup_groups_exactly:
  assumes "group_and_emit digest w findings audit st = (Ret (per, parents), st')"
    and "map_result group_key findings = Ret ks" and "i < length findings"
  shows "let mates = filter (\<lambda>j. ks ! j = ks ! i) [0..<length findings] in
    if length mates < 2 then per ! i = [singleton_check]
    else \<exists>p \<in> set parents. per ! i = [rolled_up_check (get p ''id'') (length mates)]
      \<and> get p ''rolled_up_member_ids'' = PList (map (\<lambda>j. get_or (findings ! j) ''id'' (PStr [])) mates)
      \<and> get p ''instance_count'' = PInt (int (length mates))"
proof -
  let ?gs = "index_groups ks"
  have len: "length ks = length findings" using assms(2) by (rule map_result_length)
  have run: "emit_groups digest w audit findings ?gs (map (\<lambda>_. [singleton_check]) findings) [] st = (Ret (per, parents), st')"
    using assms(1,2) by (simp add: group_and_emit_def group_findings_def)
  have keys: "\<forall>(k, idx) \<in> set ?gs. \<forall>j \<in> set idx. ks ! j = k" by (auto simp: in_index_groups)
  let ?m = "filter (\<lambda>j. ks ! j = ks ! i) [0..<length findings]"
  have only: "(ks ! i, idx) \<in> set ?gs \<longleftrightarrow> idx = ?m" for idx
    using assms(3) len by (auto simp: in_index_groups)
  have mem: "i \<in> set ?m" using assms(3) by simp
  have "i < length (map (\<lambda>_. [singleton_check]) findings)" using assms(3) by simp
  note spec = conjunct2 [OF emit_groups_spec [OF run keys distinct_index_groups this]]
  have "if length ?m < 2 then per ! i = [singleton_check] else rolled_into findings ?m parents (per ! i)"
  proof (cases "length ?m < 2")
    case True
    then have "\<not> (\<exists>idx. (ks ! i, idx) \<in> set ?gs \<and> i \<in> set idx \<and> 2 \<le> length idx)" using only by auto
    then show ?thesis using spec True assms(3) by simp
  next
    case False
    then have "\<exists>idx. (ks ! i, idx) \<in> set ?gs \<and> i \<in> set idx \<and> 2 \<le> length idx" using only mem by auto
    with spec have "\<exists>idx. (ks ! i, idx) \<in> set ?gs \<and> rolled_into findings idx parents (per ! i)" by (simp only: if_True)
    then show ?thesis using only False by auto
  qed
  then show ?thesis unfolding Let_def rolled_into_def .
qed

lemma rollup_text_Cons:
  assumes "rollup_text (a # as) = rollup_text (b # bs)" and "CHR 0x00 \<notin> set a" and "CHR 0x00 \<notin> set b"
  shows "a = b \<and> rollup_text as = rollup_text bs"
  using utf8_nul_cancel [of a "rollup_text as" b "rollup_text bs"] assms by (simp add: rollup_text_def)

text \<open>A parent's identifier is hashed from a text that determines its key: where no part holds a NUL,
  equal texts come from the same audit, category, file and normalised title, so two different groups
  can share an identifier only through a collision of the digest.\<close>

theorem rollup_text_injective:
  assumes "rollup_text [audit, category, normalize_title title, file_path] =
      rollup_text [audit', category', normalize_title title', file_path']"
    and "\<forall>p \<in> {audit, category, title, file_path, audit', category', title', file_path'}. CHR 0x00 \<notin> set p"
  shows "audit = audit' \<and> category = category' \<and> normalize_title title = normalize_title title' \<and> file_path = file_path'"
proof -
  have low: "lower_char c = CHR 0x00 \<longleftrightarrow> c = CHR 0x00" for c
    by (cases c) (auto simp: lower_char_code)
  have nt: "CHR 0x00 \<notin> set (normalize_title t)" if "CHR 0x00 \<notin> set t" for t
  proof -
    have "CHR 0x00 \<notin> set (fold_ws t)" using that by (induction t rule: fold_ws.induct) (auto dest: set_dropWhileD)
    moreover have "set (strip x) \<subseteq> set x" for x
      by (auto simp: strip_def strip_by_def dest!: set_dropWhileD)
    ultimately have "CHR 0x00 \<notin> set (strip (fold_ws t))" by blast
    then show ?thesis unfolding normalize_title_def lower_def set_map by (metis imageE low)
  qed
  have plain: "CHR 0x00 \<notin> set audit" "CHR 0x00 \<notin> set audit'" "CHR 0x00 \<notin> set category" "CHR 0x00 \<notin> set category'"
    "CHR 0x00 \<notin> set (normalize_title title)" "CHR 0x00 \<notin> set (normalize_title title')"
    "CHR 0x00 \<notin> set file_path" "CHR 0x00 \<notin> set file_path'" using assms(2) nt by blast+
  note a = rollup_text_Cons [OF assms(1) plain(1,2)]
  note b = rollup_text_Cons [OF conjunct2 [OF a] plain(3,4)]
  note c = rollup_text_Cons [OF conjunct2 [OF b] plain(5,6)]
  note d = rollup_text_Cons [OF conjunct2 [OF c] plain(7,8)]
  show ?thesis using a b c d by blast
qed

section \<open>The derived verdict\<close>

lemma put_same: "map_of d k = Some v \<Longrightarrow> AList.update k v d = d"
  by (induction d) (auto split: if_splits)

lemma max_score_spec:
  assumes "max_score cur ss = Ret best" and "\<forall>s \<in> set (cur # ss). \<exists>r. fst s = FFin r"
  shows "best \<in> set (cur # ss) \<and> (\<forall>s \<in> set (cur # ss). fl_val (fst s) \<le> fl_val (fst best))"
  using assms
proof (induction cur ss rule: max_score.induct)
  case (2 cur s ss)
  obtain b where b: "score_less cur s = Ret b" "max_score (if b then s else cur) ss = Ret best"
    using "2.prems"(1) by (auto simp: bind_result_Ret)
  obtain x y where f: "fst cur = FFin x" "fst s = FFin y" using "2.prems"(2) by auto
  have cmp: "if b then x \<le> y else y \<le> x"
    using b(1) f by (auto simp: score_less_def split: if_splits)
  have "\<forall>t \<in> set ((if b then s else cur) # ss). \<exists>r. fst t = FFin r" using "2.prems"(2) by auto
  from "2.IH" [OF b(2) this]
  have IH: "best \<in> set ((if b then s else cur) # ss)"
    "\<forall>t \<in> set ((if b then s else cur) # ss). fl_val (fst t) \<le> fl_val (fst best)" by blast+
  have "fl_val (fst cur) \<le> fl_val (fst best) \<and> fl_val (fst s) \<le> fl_val (fst best)"
    using IH(2) cmp f by (cases b) (auto simp: fl_val_def)
  then show ?case using IH by (cases b) auto
qed simp

lemma score_of_Some:
  "score_of by_id mid = Ret (Some (c, k)) \<longleftrightarrow>
   (\<exists>m. py_key mid = Ret k \<and> map_of by_id k = Some m \<and> member_confidence m = Ret (Some c))"
  by (auto simp: score_of_def bind_result_Ret split: option.splits)

text \<open>A parent carries the verdict of its strongest member: when some listed member was voted (with a
  number, not a NaN or an infinity), the parent's confidence and status are those of one of them and
  no voted member's confidence is higher; with no voted member the placeholder verdict stays and an
  \<open>orphan\<close> check says so.\<close>

theorem parent_takes_strongest_verdict:
  assumes "derive_parent now by_id parent = Ret parent'"
    and "get parent ''validation'' = PDict blob" and "get_or parent ''rolled_up_member_ids'' (PList []) = PList mids"
    and "\<forall>mid \<in> set mids. \<forall>c k. score_of by_id mid = Ret (Some (c, k)) \<longrightarrow> (\<exists>r. c = FFin r)"
  shows "\<exists>blob'. get parent' ''validation'' = PDict blob' \<and>
    (if \<exists>mid \<in> set mids. \<exists>c k. score_of by_id mid = Ret (Some (c, k))
     then \<exists>mid \<in> set mids. \<exists>k m c. py_key mid = Ret k \<and> map_of by_id k = Some m \<and> member_confidence m = Ret (Some (FFin c))
       \<and> get blob' ''confidence'' = PFloat (FFin c)
       \<and> get blob' ''status'' = py_or (get m ''validation_status'') (PStr PLACEHOLDER_STATUS)
       \<and> (\<forall>mid' \<in> set mids. \<forall>c' k'. score_of by_id mid' = Ret (Some (c', k')) \<longrightarrow> fl_val c' \<le> c)
     else get blob' ''confidence'' = get blob ''confidence'' \<and> get blob' ''status'' = get blob ''status''
       \<and> (\<exists>cs. get blob' ''checks'' = PList (cs @ [PDict (check_to_json (orphan_check (length mids)))])))"
proof -
  have v: "get_or parent ''validation'' (PDict []) = PDict blob"
    using assms(2) by (simp add: get_or_def split: option.splits)
  then obtain blob' where b: "derive_blob now by_id mids blob = Ret blob'" "parent' = put ''validation'' (PDict blob') parent"
    using assms(1,3) by (auto simp: derive_parent_def bind_result_Ret)
  then obtain checks scores where sc: "map_result (score_of by_id) mids = Ret scores"
    and r: "(case List.map_filter (\<lambda>s. s) scores of
         [] \<Rightarrow> Ret (with_checks checks (orphan_check (length mids)) blob)
       | s # ss \<Rightarrow> bind_result (max_score s ss) (\<lambda>(best_conf, best_id).
           let best = (case map_of by_id best_id of Some f \<Rightarrow> f | None \<Rightarrow> []) in
           Ret (with_checks checks (derived_check best_id (length (s # ss)) (length mids))
             (put ''validated_at'' (PStr now)
               (put ''status'' (py_or (get best ''validation_status'') (PStr PLACEHOLDER_STATUS))
                 (put ''confidence'' (PFloat best_conf) blob)))))) = Ret blob'"
    unfolding derive_blob_def by (auto simp: bind_result_Ret)
  let ?voted = "List.map_filter (\<lambda>s. s) scores"
  have mem: "(c, k) \<in> set ?voted \<longleftrightarrow> (\<exists>mid \<in> set mids. score_of by_id mid = Ret (Some (c, k)))" for c k
    using in_map_result [OF sc, of "Some (c, k)"] by (simp add: in_set_map_filter)
  show ?thesis
  proof (cases ?voted)
    case Nil
    then have "\<not> (\<exists>mid \<in> set mids. \<exists>c k. score_of by_id mid = Ret (Some (c, k)))" using mem by auto
    then show ?thesis using r b(2) Nil by (auto simp: with_checks_def)
  next
    case (Cons s ss)
    then obtain conf bid where m: "max_score s ss = Ret (conf, bid)" using r by (auto simp: bind_result_Ret)
    have "\<forall>t \<in> set (s # ss). \<exists>r. fst t = FFin r" using mem assms(4) Cons by (metis prod.collapse)
    note best = max_score_spec [OF m this]
    then obtain mid where mid: "mid \<in> set mids" "score_of by_id mid = Ret (Some (conf, bid))" using mem Cons by metis
    then obtain c where c: "conf = FFin c" using assms(4) by blast
    obtain f where f: "py_key mid = Ret bid" "map_of by_id bid = Some f" "member_confidence f = Ret (Some (FFin c))"
      using mid(2) c by (auto simp: score_of_Some)
    have fields: "get blob' ''confidence'' = PFloat (FFin c)"
      "get blob' ''status'' = py_or (get f ''validation_status'') (PStr PLACEHOLDER_STATUS)"
      using r Cons m f(2) c by (auto simp: with_checks_def Let_def)
    have top: "fl_val c' \<le> c" if "mid' \<in> set mids" "score_of by_id mid' = Ret (Some (c', k'))" for mid' c' k'
    proof -
      have "(c', k') \<in> set (s # ss)" using that mem Cons by metis
      then show ?thesis using best c by (fastforce simp: fl_val_def)
    qed
    have voted: "\<exists>mid \<in> set mids. \<exists>c k. score_of by_id mid = Ret (Some (c, k))" using mid by blast
    show ?thesis
    proof (intro exI [of _ blob'] conjI)
      show "get parent' ''validation'' = PDict blob'" using b(2) by simp
    qed (unfold if_P [OF voted], use mid(1) f fields top in blast)
  qed
qed

lemma drop_rollup_checks_again:
  assumes "drop_rollup_checks raw = Ret checks"
  shows "drop_rollup_checks (checks @ [PDict (check_to_json (new_check ''rollup'' r 0 why x))]) = Ret checks"
proof -
  have keep: "drop_rollup_checks raw = Ret checks \<Longrightarrow>
      \<forall>c \<in> set checks. is_rollup_check c = Ret False" for raw checks
  proof (induction raw arbitrary: checks)
    case (Cons c raw)
    then obtain b cs where "is_rollup_check c = Ret b" "drop_rollup_checks raw = Ret cs"
      "checks = (if b then cs else c # cs)"
      by (auto simp: drop_rollup_checks_def bind_result_Ret)
    then show ?case using Cons.IH [of cs] by (auto split: if_splits)
  qed (simp add: drop_rollup_checks_def)
  have "\<forall>c \<in> set cs. is_rollup_check c = Ret False \<Longrightarrow>
      map_result is_rollup_check (cs @ [d]) = bind_result (is_rollup_check d) (\<lambda>b. Ret (map (\<lambda>_. False) cs @ [b]))" for cs d
    by (induction cs) (auto simp: bind_result_def split: sum.splits)
  note step = this [OF keep [OF assms]]
  have new: "is_rollup_check (PDict (check_to_json (new_check ''rollup'' r 0 why x))) = Ret True"
    by (simp add: is_rollup_check_def check_to_json_def get_or_def)
  have "map fst (filter (\<lambda>(c, b). \<not> b) (zip cs (map (\<lambda>_. False) cs))) = cs" for cs :: "pyval list"
    by (induction cs) auto
  then show ?thesis by (simp add: drop_rollup_checks_def step new)
qed

lemma derive_blob_again:
  assumes "derive_blob now by_id mids blob = Ret blob'"
  shows "derive_blob now by_id mids blob' = Ret blob'"
proof -
  obtain raw checks scores where o: "py_iter (get_or blob ''checks'' (PList [])) = Ret raw"
      "drop_rollup_checks raw = Ret checks" "map_result (score_of by_id) mids = Ret scores"
    using assms by (auto simp: derive_blob_def bind_result_Ret)
  show ?thesis
  proof (cases "List.map_filter (\<lambda>s. s) scores")
    case Nil
    then have "blob' = with_checks checks (orphan_check (length mids)) blob"
      using assms o by (simp add: derive_blob_def)
    then show ?thesis using Nil o(3) drop_rollup_checks_again [OF o(2)]
      by (simp add: derive_blob_def with_checks_def put_same orphan_check_def)
  next
    case (Cons s ss)
    obtain conf bid where m: "max_score s ss = Ret (conf, bid)"
      using assms o Cons by (auto simp: derive_blob_def bind_result_Ret)
    then show ?thesis using assms o Cons drop_rollup_checks_again [OF o(2)]
      by (auto simp add: derive_blob_def with_checks_def put_same derived_check_def Let_def)
  qed
qed

text \<open>Deriving the verdicts again changes nothing: the derived \<open>rollup\<close> check replaces the earlier one,
  so a second pass over a parent with the same members is the identity.\<close>

theorem derive_parent_idempotent:
  assumes "derive_parent now by_id parent = Ret parent'"
  shows "derive_parent now by_id parent' = Ret parent'"
proof -
  obtain blob mids blob' where p: "get_or parent ''validation'' (PDict []) = PDict blob"
    "py_iter (get_or parent ''rolled_up_member_ids'' (PList [])) = Ret mids"
    "derive_blob now by_id mids blob = Ret blob'" "parent' = put ''validation'' (PDict blob') parent"
    using assms by (auto simp: derive_parent_def bind_result_Ret split: pyval.splits)
  then show ?thesis using derive_blob_again [OF p(3)]
    by (simp add: derive_parent_def put_same)
qed

section \<open>The line of a parent\<close>

text \<open>A member without a line decides the parent's line: zero stands for an unknown line when the lines of
  the group are listed, but it takes part in the minimum, so one such member puts the parent on line 1
  whatever lines the others name.\<close>

theorem unknown_line_moves_parent_to_line_1:
  assumes "\<forall>m \<in> set members. \<exists>n \<ge> 0. get m ''line_start'' = PInt n"
    and "\<exists>m \<in> set members. get m ''line_start'' = PInt 0"
  shows "extreme_line py_min_from ''line_start'' (PInt 1) members = Ret (PInt 1)"
proof -
  have "\<forall>m \<in> set members. \<exists>n \<ge> 0. py_or (get m ''line_start'') (PInt 0) = PInt n"
    using assms(1) by (fastforce simp: py_or_def)
  then obtain l where l: "\<forall>m \<in> set members. 0 \<le> l m \<and> py_or (get m ''line_start'') (PInt 0) = PInt (l m)" by metis
  obtain m ms where ms: "members = m # ms" using assms(2) by (cases members) auto
  have vals: "map (\<lambda>m. py_or (get m ''line_start'') (PInt 0)) members = map (\<lambda>m. PInt (l m)) members" using l by simp
  have "0 \<in> l ` set members" using assms(2) l by (force simp: py_or_def)
  then have "Min (l ` set members) = 0" by (intro Min_eqI) (use l in auto)
  then have "Min (insert (l m) (set (map l ms))) = 0" by (simp add: ms)
  then have "py_min_from (PInt (l m)) (map PInt (map l ms)) = Ret (PInt 0)" by (simp only: py_min_from_ints)
  then have "py_min_from (PInt (l m)) (map (\<lambda>m. PInt (l m)) ms) = Ret (PInt 0)" by (simp add: comp_def)
  then show ?thesis unfolding extreme_line_def vals by (simp add: ms py_or_def)
qed

end
