(* ===== verification/Rollup_Examples.thy ===== *)
theory Rollup_Examples
  imports Rollup
begin

text \<open>
  The rollup properties applied to a concrete pair of findings and its parent.
\<close>

definition ex_digest :: "string \<Rightarrow> string" where "ex_digest s = s"

definition ex_row :: "string \<Rightarrow> int \<Rightarrow> pydict" where
  "ex_row i line = [(''id'', PStr i), (''title'', PStr ''T''), (''category'', PStr ''x''),
     (''file_path'', PStr ''a.py''), (''line_start'', PInt line)]"

definition ex_pair :: "pydict list" where "ex_pair = [ex_row ''p'' 3, ex_row ''q'' 7]"

definition ex_key :: group_key where "ex_key = (PStr ''x'', ''t'', PStr ''a.py'')"

lemma ex_title: "normalize_title ''T'' = ''t''"
  by code_simp

lemma ex_keys: "map_result group_key ex_pair = Ret [ex_key, ex_key]"
  by (simp add: ex_pair_def ex_row_def group_key_def title_of_def get_or_def py_or_def ex_title ex_key_def)

lemma ex_groups: "index_groups [ex_key, ex_key] = [(ex_key, [0, 1])]"
  by (simp add: index_groups_def add_index_def)

lemma ex_low: "severity_rank (PStr ''low'') = Ret 1"
  by code_simp

lemma ex_parent_fields: "\<exists>pf. parent_fields ex_pair (PStr ''x'') (PStr ''a.py'') = Ret pf"
  by (simp add: parent_fields_def ex_pair_def ex_row_def extreme_line_def max_severity_def ex_low title_of_def
      get_or_def py_or_def as_text_def)

lemma ex_parent_windows: "\<exists>wc. window_checks (ex_env m) = Ret wc"
proof -
  have "env_flag (ex_env m) ''VULTURE_FINDING_WINDOW_PARITY'' True"
  proof -
    have "lower (trim_go_space []) = []" "[] \<notin> set FALSEY" by code_simp+
    then show ?thesis by (simp add: env_flag_def env_token_def environ_get_def ex_env_def Let_def)
  qed
  then show ?thesis
    by (simp add: window_checks_def window_check_def record_window_reason_def WINDOW_REASONS_def Let_def get_or_def)
qed

lemma ex_run: "\<exists>per parents st'. group_and_emit ex_digest (ex_world ''enforce'') ex_pair ''a'' ex_state
    = (Ret (per, parents), st')"
proof -
  obtain pf where pf: "parent_fields ex_pair (PStr ''x'') (PStr ''a.py'') = Ret pf" using ex_parent_fields by blast
  obtain wc where wc: "window_checks (gw_env (ex_world ''enforce'')) = Ret wc"
    using ex_parent_windows by (auto simp: ex_world_def)
  obtain ob st1 where ob: "obligation_check (ex_world ''enforce'') (plain_query (pf_category pf)) ex_state = (ob, st1)"
    by fastforce
  have m: "map ((!) ex_pair) [0, 1] = ex_pair" by (simp add: ex_pair_def)
  have "\<exists>p. build_rollup_parent ex_digest (ex_world ''enforce'') ''a'' (PStr ''x'') (PStr ''a.py'') ex_pair 2 ex_state = (Ret p, st1)"
    using pf wc ob by (simp add: build_rollup_parent_def)
  then show ?thesis
    using m by (auto simp: numeral_2_eq_2 group_and_emit_def group_findings_def ex_keys [unfolded ex_key_def] ex_groups [unfolded ex_key_def])
qed

theorem run_l2_keeps_every_finding_witness:
  "case run_l2 ex_digest (ex_world ''enforce'') [[(''title'', PInt 3)]] ''a'' ex_state of ((per, parents), st') \<Rightarrow>
     length per = 1"
  using run_l2_keeps_every_finding [where digest = ex_digest and w = "ex_world ''enforce''"
      and findings = "[[(''title'', PInt 3)]]" and audit = "''a''" and st = ex_state]
  by (simp split: prod.splits)

theorem rollup_groups_exactly_witness:
  "\<exists>per parents st'. group_and_emit ex_digest (ex_world ''enforce'') ex_pair ''a'' ex_state = (Ret (per, parents), st')
    \<and> (\<exists>p \<in> set parents. per ! 0 = [rolled_up_check (get p ''id'') 2]
        \<and> get p ''rolled_up_member_ids'' = PList [PStr ''p'', PStr ''q''] \<and> get p ''instance_count'' = PInt 2)"
proof -
  obtain per parents st' where run: "group_and_emit ex_digest (ex_world ''enforce'') ex_pair ''a'' ex_state
    = (Ret (per, parents), st')" using ex_run by blast
  have "0 < length ex_pair" by (simp add: ex_pair_def)
  from rollup_groups_exactly [OF run ex_keys this] run show ?thesis
    by (auto simp: ex_pair_def ex_row_def get_or_def Let_def upt_rec numeral_2_eq_2)
qed

theorem rollup_text_injective_witness:
  "(''a'' :: string) = ''a'' \<and> (''x'' :: string) = ''x'' \<and> normalize_title ''T'' = normalize_title '' t '' \<and> (''f'' :: string) = ''f''"
proof (rule rollup_text_injective)
  show "rollup_text [''a'', ''x'', normalize_title ''T'', ''f''] = rollup_text [''a'', ''x'', normalize_title '' t '', ''f'']"
    by code_simp
qed simp

definition ex_parent :: pydict where
  "ex_parent = [(''rolled_up_member_ids'', PList [PStr ''p'']), (''validation'', PDict [(''checks'', PList [])])]"

definition ex_table :: id_table where
  "ex_table = [(PStr ''p'', [(''validation_confidence'', PFloat (FFin 1)), (''validation_status'', PStr ''suspicious'')])]"

lemma ex_score: "score_of ex_table (PStr ''p'') = Ret (Some (FFin 1, PStr ''p''))"
  by (simp add: score_of_def ex_table_def member_confidence_def get_or_def)

lemma ex_derive: "\<exists>p. derive_parent ''now'' ex_table ex_parent = Ret p"
  by (simp add: derive_parent_def derive_blob_def ex_parent_def get_or_def drop_rollup_checks_def ex_score
      List.map_filter_simps Let_def)

theorem parent_takes_strongest_verdict_witness:
  "\<exists>p blob. derive_parent ''now'' ex_table ex_parent = Ret p \<and> get p ''validation'' = PDict blob
    \<and> get blob ''confidence'' = PFloat (FFin 1) \<and> get blob ''status'' = PStr ''suspicious''"
proof -
  obtain p where p: "derive_parent ''now'' ex_table ex_parent = Ret p" using ex_derive by blast
  have "\<exists>blob'. get p ''validation'' = PDict blob' \<and>
    (if \<exists>mid \<in> set [PStr ''p'']. \<exists>c k. score_of ex_table mid = Ret (Some (c, k))
     then \<exists>mid \<in> set [PStr ''p'']. \<exists>k m c. py_key mid = Ret k \<and> map_of ex_table k = Some m \<and> member_confidence m = Ret (Some (FFin c))
       \<and> get blob' ''confidence'' = PFloat (FFin c)
       \<and> get blob' ''status'' = py_or (get m ''validation_status'') (PStr PLACEHOLDER_STATUS)
       \<and> (\<forall>mid' \<in> set [PStr ''p'']. \<forall>c' k'. score_of ex_table mid' = Ret (Some (c', k')) \<longrightarrow> fl_val c' \<le> c)
     else get blob' ''confidence'' = get [(''checks'', PList [])] ''confidence'' \<and> get blob' ''status'' = get [(''checks'', PList [])] ''status''
       \<and> (\<exists>cs. get blob' ''checks'' = PList (cs @ [PDict (check_to_json (orphan_check (length [PStr ''p''])))])))"
    by (rule parent_takes_strongest_verdict [OF p]) (simp_all add: ex_parent_def get_or_def ex_score)
  then show ?thesis using p by (auto simp: ex_score) (auto simp: ex_table_def member_confidence_def get_or_def py_or_def)
qed

theorem derive_parent_idempotent_witness:
  "\<exists>p. derive_parent ''now'' ex_table ex_parent = Ret p \<and> derive_parent ''now'' ex_table p = Ret p"
  using ex_derive derive_parent_idempotent [of "''now''" ex_table ex_parent] by blast

theorem unknown_line_moves_parent_to_line_1_witness:
  "extreme_line py_min_from ''line_start'' (PInt 1) [ex_row ''p'' 400, ex_row ''q'' 0] = Ret (PInt 1)"
  by (rule unknown_line_moves_parent_to_line_1) (auto simp: ex_row_def get_or_def)

end
