(* ===== verification/Json_Scan.thy ===== *)
theory Json_Scan
  imports Py_Value "HOL-Library.Sublist"
begin

text \<open>
  Balanced objects in a text that is not purely JSON (\<open>shared/llm/jsonscan.py\<close>). The generator is the
  list of the spans it yields; the loop keeps the depth, the text since the opening brace (reversed) and
  the string state. \<open>json.loads\<close> is the parameter \<open>loads\<close>, with nothing for a text it rejects.

  The lemmas: a span is a piece of the text that the scan of the span alone yields again, prose without
  quotes or braces never hides the object after it, and a stray quote does.
\<close>

definition quote_char :: char where "quote_char = CHR 0x22"
definition backslash :: char where "backslash = CHR 0x5C"

fun objects_from :: "nat \<Rightarrow> string \<Rightarrow> bool \<Rightarrow> bool \<Rightarrow> string \<Rightarrow> string list" where
  "objects_from depth acc in_str esc [] = []"
| "objects_from depth acc in_str esc (ch # cs) =
     (let acc' = (if depth = 0 then [] else ch # acc) in
      if in_str then
        (if esc then objects_from depth acc' True False cs
         else if ch = backslash then objects_from depth acc' True True cs
         else if ch = quote_char then objects_from depth acc' False esc cs
         else objects_from depth acc' True esc cs)
      else if ch = quote_char then objects_from depth acc' True esc cs
      else if ch = CHR ''{'' then objects_from (depth + 1) (if depth = 0 then [ch] else ch # acc) False esc cs
      else if ch = CHR ''}'' \<and> 0 < depth then
        (if depth = 1 then rev acc' # objects_from 0 [] False esc cs
         else objects_from (depth - 1) acc' False esc cs)
      else objects_from depth acc' False esc cs)"

definition iter_balanced_objects :: "string \<Rightarrow> string list" where
  "iter_balanced_objects s = objects_from 0 [] False False s"

definition first_json_object :: "(string \<Rightarrow> pyval option) \<Rightarrow> string \<Rightarrow> pydict option" where
  "first_json_object loads s =
     (case List.map_filter (\<lambda>w. case loads w of Some v \<Rightarrow> as_dict v | None \<Rightarrow> None) (iter_balanced_objects s) of
        [] \<Rightarrow> None | d # _ \<Rightarrow> Some d)"

section \<open>What a span is\<close>

lemma open_span:
  assumes "0 < depth" and "\<not> in_str \<longrightarrow> \<not> esc"
  shows "objects_from depth acc in_str esc cs = [] \<or>
    (\<exists>u post. cs = u @ post \<and> objects_from depth acc in_str esc cs = (rev acc @ u) # iter_balanced_objects post
      \<and> (\<forall>acc' rest. objects_from depth acc' in_str esc (u @ rest) = (rev acc' @ u) # iter_balanced_objects rest))"
  using assms
proof (induction cs arbitrary: depth acc in_str esc)
  case (Cons ch cs)
  have step: ?case if rest: "\<And>acc' tl. objects_from depth acc' in_str esc (ch # tl) = objects_from d (ch # acc') i e tl"
    and "0 < d" "\<not> i \<longrightarrow> \<not> e" for d i e
  proof -
    from Cons.IH [OF that(2,3), of "ch # acc"] show ?thesis
    proof (elim disjE exE conjE)
      fix u post
      assume u: "cs = u @ post" "objects_from d (ch # acc) i e cs = (rev (ch # acc) @ u) # iter_balanced_objects post"
        "\<forall>acc' rest. objects_from d acc' i e (u @ rest) = (rev acc' @ u) # iter_balanced_objects rest"
      have now: "objects_from depth acc in_str esc (ch # cs) = (rev acc @ ch # u) # iter_balanced_objects post"
        using trans [OF rest u(2)] by (simp only: rev.simps append_assoc append_Cons append_Nil)
      have alone: "objects_from depth acc' in_str esc ((ch # u) @ tl) = (rev acc' @ ch # u) # iter_balanced_objects tl"
        for acc' tl
        using trans [OF rest u(3) [rule_format, of "ch # acc'" tl]]
        by (simp only: rev.simps append_assoc append_Cons append_Nil)
      have "ch # cs = (ch # u) @ post" using u(1) by (simp only: append_Cons)
      with now alone show ?thesis by blast
    qed (simp only: rest simp_thms)
  qed
  show ?case
  proof (cases in_str)
    case True
    consider esc | "\<not> esc" "ch = backslash" | "\<not> esc" "ch \<noteq> backslash" "ch = quote_char"
      | "\<not> esc" "ch \<noteq> backslash" "ch \<noteq> quote_char" by blast
    then show ?thesis
    proof cases
      case 1 show ?thesis by (rule step [of depth True False]) (use True 1 Cons.prems in auto)
    next
      case 2 show ?thesis by (rule step [of depth True True]) (use True 2 Cons.prems in auto)
    next
      case 3 show ?thesis by (rule step [of depth False False]) (use True 3 Cons.prems in auto)
    next
      case 4 show ?thesis by (rule step [of depth True False]) (use True 4 Cons.prems in auto)
    qed
  next
    case False
    then have e: "\<not> esc" using Cons.prems by simp
    consider "ch = quote_char" | "ch \<noteq> quote_char" "ch = CHR ''{''"
      | "ch \<noteq> quote_char" "ch = CHR ''}''" "depth = 1" | "ch \<noteq> quote_char" "ch = CHR ''}''" "1 < depth"
      | "ch \<noteq> quote_char" "ch \<noteq> CHR ''{''" "ch \<noteq> CHR ''}''" using Cons.prems by linarith
    then show ?thesis
    proof cases
      case 1 show ?thesis by (rule step [of depth True False]) (use False e 1 Cons.prems in auto)
    next
      case 2 show ?thesis by (rule step [of "depth + 1" False False]) (use False e 2 Cons.prems in auto)
    next
      case 3
      show ?thesis
        by (intro disjI2 exI [of _ "[ch]"] exI [of _ cs]) (use False e 3 in \<open>simp add: iter_balanced_objects_def\<close>)
    next
      case 4 show ?thesis by (rule step [of "depth - 1" False False]) (use False e 4 Cons.prems in auto)
    next
      case 5 show ?thesis by (rule step [of depth False False]) (use False e 5 Cons.prems in auto)
    qed
  qed
qed simp

text \<open>The scan of a brace that opens a span.\<close>

lemma iter_open: "iter_balanced_objects (CHR ''{'' # cs) = [] \<or>
    (\<exists>u post. cs = u @ post \<and> iter_balanced_objects (CHR ''{'' # cs) = (CHR ''{'' # u) # iter_balanced_objects post
      \<and> (\<forall>rest. iter_balanced_objects ((CHR ''{'' # u) @ rest) = (CHR ''{'' # u) # iter_balanced_objects rest))"
proof -
  have i: "iter_balanced_objects (CHR ''{'' # x) = objects_from 1 [CHR ''{''] False False x" for x
    by (simp add: iter_balanced_objects_def quote_char_def)
  show ?thesis using open_span [of 1 False False "[CHR ''{'']" cs] by (auto simp: i)
qed

lemma outer_step:
  assumes "in_str \<or> ch \<noteq> CHR ''{''" and "\<not> in_str \<longrightarrow> \<not> esc"
  shows "\<exists>i e. objects_from 0 [] in_str esc (ch # cs) = objects_from 0 [] i e cs \<and> (\<not> i \<longrightarrow> \<not> e)"
proof (cases in_str)
  case True
  let ?i = "esc \<or> ch \<noteq> quote_char \<or> ch = backslash" and ?e = "\<not> esc \<and> ch = backslash"
  have "objects_from 0 [] in_str esc (ch # cs) = objects_from 0 [] ?i ?e cs"
    using True by (cases esc; cases "ch = backslash"; cases "ch = quote_char") simp_all
  then show ?thesis by blast
next
  case False
  have "objects_from 0 [] in_str esc (ch # cs) = objects_from 0 [] (ch = quote_char) esc cs"
    using False assms by (cases "ch = quote_char") simp_all
  then show ?thesis using False assms(2) by blast
qed

lemma span_found:
  "w \<in> set (objects_from 0 [] in_str esc cs) \<Longrightarrow> \<not> in_str \<longrightarrow> \<not> esc \<Longrightarrow>
   sublist w cs \<and> (\<forall>rest. iter_balanced_objects (w @ rest) = w # iter_balanced_objects rest)"
proof (induction cs arbitrary: in_str esc rule: length_induct)
  case (1 cs)
  show ?case
  proof (cases cs)
    case Nil
    then show ?thesis using "1.prems" by simp
  next
    case (Cons ch tl)
    have later: ?thesis if "w \<in> set (objects_from 0 [] i e post)" "\<not> i \<longrightarrow> \<not> e" "cs = pre @ post" "pre \<noteq> []" for i e pre post
    proof -
      have "length post < length cs" using that by simp
      then have "sublist w post \<and> (\<forall>rest. iter_balanced_objects (w @ rest) = w # iter_balanced_objects rest)"
        using "1.IH" that(1,2) by blast
      then show ?thesis using that(3) by (metis append_assoc sublist_def)
    qed
    show ?thesis
    proof (cases "\<not> in_str \<and> ch = CHR ''{''")
      case True
      then have e: "esc = False" "in_str = False" using "1.prems" by auto
      then have w: "w \<in> set (iter_balanced_objects (CHR ''{'' # tl))"
        using "1.prems" Cons True by (simp add: iter_balanced_objects_def)
      then obtain u post where u: "tl = u @ post" "iter_balanced_objects (CHR ''{'' # tl) = (CHR ''{'' # u) # iter_balanced_objects post"
        "\<forall>rest. iter_balanced_objects ((CHR ''{'' # u) @ rest) = (CHR ''{'' # u) # iter_balanced_objects rest"
        using iter_open [of tl] by auto
      show ?thesis
      proof (cases "w = CHR ''{'' # u")
        case True
        then show ?thesis using u \<open>\<not> in_str \<and> ch = CHR ''{''\<close> Cons by (auto simp: sublist_def)
      next
        case False
        then have "w \<in> set (iter_balanced_objects post)" using w u(2) by simp
        then show ?thesis using later [of False False post "ch # u"] u(1) Cons by (simp add: iter_balanced_objects_def)
      qed
    next
      case False
      obtain i e where ie: "objects_from 0 [] in_str esc (ch # tl) = objects_from 0 [] i e tl" "\<not> i \<longrightarrow> \<not> e"
        using outer_step [of in_str ch esc tl] False "1.prems"(2) by blast
      show ?thesis using later [of i e tl "[ch]"] "1.prems"(1) ie Cons by simp
    qed
  qed
qed

text \<open>A span stands on its own: every span the scan yields is a contiguous piece of the text, and scanning
  a text that starts with it yields it first and goes on after it, so a span scanned alone is the whole
  text again.\<close>

theorem span_scans_to_itself:
  assumes "w \<in> set (iter_balanced_objects s)"
  shows "sublist w s \<and> iter_balanced_objects (w @ rest) = w # iter_balanced_objects rest"
  using span_found [of w False False s] assms by (simp add: iter_balanced_objects_def)

text \<open>Prose does not hide an object: text without a quote or an opening brace before a balanced object
  leaves the object the first span, whatever follows.\<close>

theorem object_survives_prose:
  assumes "\<forall>c \<in> set prose. c \<noteq> quote_char \<and> c \<noteq> CHR ''{''" and "iter_balanced_objects w = [w]"
  shows "iter_balanced_objects (prose @ w @ rest) = w # iter_balanced_objects rest"
proof -
  have skip: "objects_from 0 [] False False (prose @ x) = objects_from 0 [] False False x" for x
    using assms(1) by (induction prose) (auto simp: Let_def)
  have "w \<in> set (iter_balanced_objects w)" using assms(2) by simp
  from span_found [of w False False w] this
  have "iter_balanced_objects (w @ rest) = w # iter_balanced_objects rest" by (simp add: iter_balanced_objects_def)
  then show ?thesis using skip by (simp add: iter_balanced_objects_def)
qed

text \<open>A stray quote does hide it: the string state is tracked outside objects too, so one unpaired quote in
  the prose before an object turns its braces into string content and nothing is yielded.\<close>

theorem stray_quote_hides_the_object:
  "iter_balanced_objects ''{\"verdicts\": []}'' = [''{\"verdicts\": []}'']
   \<and> iter_balanced_objects (''5'' @ [quote_char] @ '' pipe: {\"verdicts\": []}'') = []"
  by code_simp

lemma ex_span: "iter_balanced_objects ''see {a} ok'' = [''{a}'']" "iter_balanced_objects ''{a}'' = [''{a}'']"
  by code_simp+

theorem span_scans_to_itself_witness: "sublist ''{a}'' ''see {a} ok'' \<and> iter_balanced_objects (''{a}'' @ ''!'') = [''{a}'']"
  using span_scans_to_itself [of "''{a}''" "''see {a} ok''" "''!''"] ex_span
  by (simp add: iter_balanced_objects_def quote_char_def)

theorem object_survives_prose_witness: "iter_balanced_objects (''see } '' @ ''{a}'' @ ''}'') = [''{a}'']"
  using object_survives_prose [of "''see } ''" "''{a}''" "''}''"] ex_span
  by (simp add: quote_char_def iter_balanced_objects_def)

end
