(* ===== verification/Judge_Verdict.thy ===== *)
theory Judge_Verdict
  imports Refutation Json_Scan Py_Order
begin

text \<open>
  What the judge's answer becomes (\<open>shared/validate/llm_judge.py\<close>): the response parser, the normaliser
  of one verdict, the citation classes and the check a verdict is turned into. \<open>json.loads\<close> is the
  parameter \<open>loads\<close>; an answer is a text.

  The lemmas: an accepted probability is a number in the unit interval, a verdict without asserted
  closure cannot confirm alone when closure is required, and one ill-typed reasoning raises.
\<close>

section \<open>One verdict\<close>

definition REASONING_MAX_CHARS :: nat where "REASONING_MAX_CHARS = 200"

definition JUDGE_UNCITED :: string where "JUDGE_UNCITED = ''real_bug_uncited''"
definition JUDGE_UNDECIDED :: string where "JUDGE_UNDECIDED = ''undecided''"

definition safe_int :: "pyval \<Rightarrow> int" where "safe_int value = parse_line value 0"

definition coerce_line :: "pyval \<Rightarrow> int option" where
  "coerce_line value = (case value of PInt i \<Rightarrow> if 1 \<le> i then Some i else None | _ \<Rightarrow> None)"

definition coerce_path :: "pyval \<Rightarrow> string option" where
  "coerce_path value = (case value of PStr s \<Rightarrow> if strip s \<noteq> [] then Some (strip s) else None | _ \<Rightarrow> None)"

text \<open>\<open>[+-]?(?:\d+(?:\.\d*)?|\.\d+)\Z\<close> with ASCII digits.\<close>

definition is_plain_decimal :: "string \<Rightarrow> bool" where
  "is_plain_decimal s =
     (let body = (case s of c # cs \<Rightarrow> if c \<in> {CHR ''+'', CHR ''-''} then cs else s | [] \<Rightarrow> s);
          whole = takeWhile is_digit body; tail = dropWhile is_digit body in
      case tail of [] \<Rightarrow> whole \<noteq> []
      | c # fs \<Rightarrow> c = CHR ''.'' \<and> list_all is_digit fs \<and> (whole \<noteq> [] \<or> fs \<noteq> []))"

definition plain_decimal :: "string \<Rightarrow> pyfloat option" where
  "plain_decimal s = (let t = strip s in if is_plain_decimal t then parse_float t else None)"

definition coerce_exploitable :: "pyval \<Rightarrow> pyfloat option result" where
  "coerce_exploitable value =
     (let finite_only = (\<lambda>f. if fl_finite f then Some f else None) in
      case value of
        PStr s \<Rightarrow> Ret (Option.bind (plain_decimal s) finite_only)
      | PInt _ \<Rightarrow> bind_result (py_float value) (\<lambda>f. Ret (finite_only f))
      | PBool _ \<Rightarrow> bind_result (py_float value) (\<lambda>f. Ret (finite_only f))
      | PFloat _ \<Rightarrow> bind_result (py_float value) (\<lambda>f. Ret (finite_only f))
      | _ \<Rightarrow> Ret None)"

text \<open>\<open>(v.get("reasoning") or "")[:200]\<close>: a list is sliced too, a number raises \<open>TypeError\<close>, and a
  dictionary looks up the slice as a key.\<close>

definition slice_reasoning :: "pyval \<Rightarrow> pyval result" where
  "slice_reasoning value = (case py_or value (PStr []) of
     PStr s \<Rightarrow> Ret (PStr (take REASONING_MAX_CHARS s))
   | PList xs \<Rightarrow> Ret (PList (take REASONING_MAX_CHARS xs))
   | PDict _ \<Rightarrow> Raise KeyError
   | _ \<Rightarrow> Raise TypeError)"

record verdict =
  vd_id :: string
  vd_exploitable :: pyfloat
  vd_reasoning :: pyval
  vd_window_sufficient :: "bool option"
  vd_evidence_line :: "int option"
  vd_evidence_file :: "string option"

definition coerce_verdict :: "pyval \<Rightarrow> verdict option result" where
  "coerce_verdict v = (case v of
     PDict d \<Rightarrow>
       bind_result (coerce_exploitable (get d ''exploitable'')) (\<lambda>prob.
         case (get d ''id'', prob) of
           (PStr fid, Some p) \<Rightarrow>
             bind_result (slice_reasoning (get d ''reasoning'')) (\<lambda>reasoning.
               Ret (Some \<lparr>vd_id = fid, vd_exploitable = py_max (FFin 0) (py_min (FFin 1) p), vd_reasoning = reasoning,
                 vd_window_sufficient = (if get d ''window_sufficient'' = PBool True then Some True else None),
                 vd_evidence_line = coerce_line (get d ''evidence_line''),
                 vd_evidence_file = coerce_path (get d ''evidence_file'')\<rparr>))
         | _ \<Rightarrow> Ret None)
   | _ \<Rightarrow> Ret None)"

section \<open>The response\<close>

definition FENCE :: string where "FENCE = replicate 3 (CHR 0x60)"

text \<open>\<open>re.sub(r"^```(?:json)?\s*", "", text)\<close> and \<open>re.sub(r"\s*```$", "", text)\<close>.\<close>

definition FENCE_OPEN_RE :: re where
  "FENCE_OPEN_RE = cats [Bos, lit FENCE, opt_re (lit ''json''), ws_re]"

definition FENCE_CLOSE_RE :: re where
  "FENCE_CLOSE_RE = cats [ws_re, lit FENCE, Eos]"

definition strip_code_fences :: "string \<Rightarrow> string" where
  "strip_code_fences s =
     (if starts_with s FENCE then re_sub FENCE_CLOSE_RE [] (re_sub FENCE_OPEN_RE [] s) else s)"

definition loads_object :: "(string \<Rightarrow> pyval option) \<Rightarrow> string \<Rightarrow> pydict option" where
  "loads_object loads s =
     (case Option.bind (loads s) as_dict of
        Some d \<Rightarrow> Some d
      | None \<Rightarrow>
          let objs = List.map_filter (\<lambda>w. Option.bind (loads w) as_dict) (iter_balanced_objects s) in
          case first_such (\<lambda>d. has_key d ''verdicts'') objs of
            Some d \<Rightarrow> Some d
          | None \<Rightarrow> (case objs of [] \<Rightarrow> None | d # _ \<Rightarrow> Some d))"

definition clean_verdicts :: "pyval list \<Rightarrow> nat \<Rightarrow> verdict list option result" where
  "clean_verdicts verdicts batch_size =
     (let considered = take batch_size verdicts in
      bind_result (map_result coerce_verdict considered) (\<lambda>cs.
        let cleaned = List.map_filter (\<lambda>c. c) cs in
        Ret (if considered \<noteq> [] \<and> cleaned = [] then None else Some cleaned)))"

definition parse_response :: "(string \<Rightarrow> pyval option) \<Rightarrow> string \<Rightarrow> nat \<Rightarrow> verdict list option result" where
  "parse_response loads raw batch_size =
     (if raw = [] then Ret None
      else case loads_object loads (strip_code_fences (strip raw)) of
        None \<Rightarrow> Ret None
      | Some data \<Rightarrow> (case get data ''verdicts'' of
          PList verdicts \<Rightarrow> clean_verdicts verdicts batch_size
        | _ \<Rightarrow> Ret None))"

definition drop_uncited_closure :: "verdict list \<Rightarrow> verdict list" where
  "drop_uncited_closure parsed = map (\<lambda>v.
     if fl_less (vd_exploitable v) (FFin (1 / 2)) \<and> vd_evidence_line v = None
     then v\<lparr>vd_window_sufficient := None\<rparr> else v) parsed"

section \<open>Citations\<close>

definition promotion_closure_required :: "env \<Rightarrow> bool" where
  "promotion_closure_required env =
     (let v = lower (strip (getenv env ''VULTURE_L5_PROMOTION_CLOSURE'' [])) in
      if v \<in> {''1'', ''true'', ''yes'', ''on''} then True
      else if v \<in> {''0'', ''false'', ''no'', ''off''} then False
      else obligation_mode env = ''enforce'')"

definition norm_path :: "string \<Rightarrow> string" where
  "norm_path path =
     (let p = map (\<lambda>c. if c = CHR 0x5C then CHR ''/'' else c) path;
          l = dropWhile (\<lambda>c. c \<in> {CHR ''.'', CHR ''/''}) p in
      rev (dropWhile (\<lambda>c. c = CHR ''/'') (rev l)))"

definition same_file :: "string option \<Rightarrow> pydict \<Rightarrow> bool" where
  "same_file evidence_file finding =
     (let own = norm_path (text_field finding ''file_path'');
          cited = norm_path (case evidence_file of None \<Rightarrow> [] | Some f \<Rightarrow> f) in
      if own = [] \<or> cited = [] then True
      else own = cited \<or> ends_with own (CHR ''/'' # cited) \<or> ends_with cited (CHR ''/'' # own))"

definition cited_elsewhere :: "string option \<Rightarrow> pydict \<Rightarrow> bool" where
  "cited_elsewhere evidence_file finding =
     (evidence_file \<noteq> None \<and> evidence_file \<noteq> Some [] \<and> \<not> same_file evidence_file finding)"

definition line_class :: "int \<Rightarrow> int \<Rightarrow> string" where
  "line_class evidence_line own = (if own \<noteq> 0 \<and> evidence_line = own then ''self_line'' else ''other_line'')"

definition classify_citation :: "int option \<Rightarrow> int \<Rightarrow> string option \<Rightarrow> pydict \<Rightarrow> string" where
  "classify_citation evidence_line own evidence_file finding = (case evidence_line of
     None \<Rightarrow> ''missing''
   | Some l \<Rightarrow> if cited_elsewhere evidence_file finding then ''other_file'' else line_class l own)"

definition citation_class :: "int option \<Rightarrow> pydict \<Rightarrow> string option \<Rightarrow> string" where
  "citation_class evidence_line finding evidence_file =
     classify_citation evidence_line (safe_int (get finding ''line_start'')) evidence_file finding"

definition anchor_claimed_line :: "pydict \<Rightarrow> int" where
  "anchor_claimed_line finding = safe_int (get (anchor_extras finding) ''claimed_line'')"

definition citation_extras :: "int option \<Rightarrow> pydict \<Rightarrow> string option \<Rightarrow> pydict" where
  "citation_extras evidence_line finding evidence_file =
     (let claimed = anchor_claimed_line finding in
      (''citation_class'', PStr (citation_class evidence_line finding evidence_file)) #
      (if claimed = 0 then []
       else [(''citation_class_claimed'', PStr (classify_citation evidence_line claimed evidence_file finding))]))"

section \<open>The check\<close>

definition verdict_weight :: "pyfloat \<Rightarrow> pyfloat" where
  "verdict_weight prob = (case prob of
     FFin p \<Rightarrow> py_max (FFin (- (3 / 4))) (py_min (FFin (3 / 4)) (FFin (fl64 (fl64 (p - 1 / 2) * (3 / 2)))))
   | _ \<Rightarrow> FFin 0)"

definition verdict_result :: "env \<Rightarrow> verdict \<Rightarrow> string" where
  "verdict_result env v =
     (let prob = vd_exploitable v in
      if fl_less (FFin (1 / 2)) prob then
        (if vd_window_sufficient v = Some True \<or> \<not> promotion_closure_required env then JUDGE_CITED else JUDGE_UNCITED)
      else if prob = FFin (1 / 2) then JUDGE_UNDECIDED else ''demoted'')"

definition opt_bool :: "bool option \<Rightarrow> pyval" where
  "opt_bool b = (case b of None \<Rightarrow> PNone | Some x \<Rightarrow> PBool x)"

definition verdict_to_check ::
  "env \<Rightarrow> verdict \<Rightarrow> string \<Rightarrow> nat \<Rightarrow> string \<Rightarrow> pydict \<Rightarrow> validation_check" where
  "verdict_to_check env v model batch_id language finding =
     \<lparr>vc_id = PStr ''llm_judge'', vc_result = PStr (verdict_result env v), vc_weight = verdict_weight (vd_exploitable v),
      vc_reason = vd_reasoning v,
      vc_extras = PDict ([(''model'', PStr model), (''exploitable'', PFloat (vd_exploitable v)),
        (''batch_id'', PInt (int batch_id)), (''language'', PStr language),
        (''window_sufficient'', opt_bool (vd_window_sufficient v)),
        (''evidence_line'', (case vd_evidence_line v of None \<Rightarrow> PNone | Some l \<Rightarrow> PInt l)),
        (''evidence_file'', opt_str (vd_evidence_file v))]
        @ citation_extras (vd_evidence_line v) finding (vd_evidence_file v))\<rparr>"

text \<open>The identifier a finding without one is judged under: ASCII letters, digits and a few separators of
  its title, runs of anything else one underscore.\<close>

fun squash_unsafe :: "bool \<Rightarrow> string \<Rightarrow> string" where
  "squash_unsafe open_run [] = []"
| "squash_unsafe open_run (c # cs) =
     (if is_alpha_us c \<or> is_digit c \<or> c \<in> {CHR ''.'', CHR ''-''} then c # squash_unsafe False cs
      else if open_run then squash_unsafe True cs else CHR ''_'' # squash_unsafe True cs)"

definition synthetic_id :: "nat \<Rightarrow> pydict \<Rightarrow> string result" where
  "synthetic_id idx finding =
     (case py_or (get finding ''title'') (py_or (get finding ''category'') (PStr ''f'')) of
        PStr base \<Rightarrow> (let safe = squash_unsafe False (take 20 base) in
          Ret ((if safe = [] then ''f'' else safe) @ ''_'' @ str_nat idx))
      | PDict _ \<Rightarrow> Raise KeyError
      | _ \<Rightarrow> Raise TypeError)"

section \<open>What a verdict may claim\<close>

lemma py_clamp_unit: "\<exists>p. py_max (FFin 0) (py_min (FFin 1) (FFin r)) = FFin p \<and> 0 \<le> p \<and> p \<le> 1"
  by (auto simp: py_max_def py_min_def)

lemma coerce_exploitable_finite: "coerce_exploitable v = Ret (Some f) \<Longrightarrow> fl_finite f"
  by (cases v) (auto simp: coerce_exploitable_def Let_def bind_result_Ret bind_eq_Some_conv split: if_splits)

text \<open>Junk never becomes a verdict: an accepted verdict comes from a dictionary with a text identifier, its
  probability is a number in the unit interval (never a NaN or an infinity), its closure is asserted
  only by a literal \<open>true\<close>, and the line it cites is positive.\<close>

theorem accepted_verdict_is_sane:
  assumes "coerce_verdict v = Ret (Some d)"
  shows "\<exists>raw p. v = PDict raw \<and> get raw ''id'' = PStr (vd_id d) \<and> vd_exploitable d = FFin p \<and> 0 \<le> p \<and> p \<le> 1
    \<and> (vd_window_sufficient d = Some True \<longleftrightarrow> get raw ''window_sufficient'' = PBool True)
    \<and> vd_window_sufficient d \<noteq> Some False
    \<and> (case vd_evidence_line d of None \<Rightarrow> True | Some l \<Rightarrow> 1 \<le> l)"
proof -
  obtain raw where v: "v = PDict raw" using assms by (cases v) (auto simp: coerce_verdict_def)
  then obtain prob where p: "coerce_exploitable (get raw ''exploitable'') = Ret prob"
    using assms by (auto simp: coerce_verdict_def bind_result_Ret)
  then obtain fid q where f: "get raw ''id'' = PStr fid" "prob = Some q"
    using assms v by (cases "get raw ''id''"; cases prob) (auto simp: coerce_verdict_def)
  have "fl_finite q" by (rule coerce_exploitable_finite) (use p f in simp)
  then obtain r where "q = FFin r" by (cases q) auto
  then show ?thesis using assms v p f py_clamp_unit [of r]
    by (auto simp: coerce_verdict_def bind_result_Ret coerce_line_def split: if_splits pyval.splits)
qed

text \<open>A lone judge needs closure: where the promotion rule is on, a promoting verdict that did not assert
  that the window decides it cannot confirm a finding it is the only promoter of.\<close>

theorem lone_judge_needs_closure:
  assumes "promotion_closure_required env" and "vd_window_sufficient v \<noteq> Some True"
    and "filter positive checks = [verdict_to_check env v model batch language finding]"
    and "\<not> has_authoritative_positive checks"
  shows "fst (vote checks) \<noteq> ''high_confidence''"
proof -
  let ?c = "verdict_to_check env v model batch language finding"
  have "verdict_result env v \<noteq> JUDGE_CITED"
    using assms(1,2) by (simp add: verdict_result_def Let_def JUDGE_CITED_def JUDGE_UNCITED_def JUDGE_UNDECIDED_def)
  then have "sole_promoter_is_inadmissible_judge checks"
    using assms(3) by (simp add: sole_promoter_is_inadmissible_judge_def judge_verdict_admissible_def verdict_to_check_def)
  then have "\<not> may_confirm checks" using assms(4) by (simp add: may_confirm_def)
  then show ?thesis by (simp add: vote_def Let_def)
qed

text \<open>One ill-typed reasoning loses the whole answer: a verdict whose \<open>reasoning\<close> is a number makes the
  normaliser raise instead of dropping that verdict, so the good verdicts of the same answer are lost
  with it.\<close>

theorem numeric_reasoning_loses_the_answer:
  assumes "get d ''id'' = PStr fid" and "coerce_exploitable (get d ''exploitable'') = Ret (Some p)"
    and "get d ''reasoning'' = PInt k" and "k \<noteq> 0"
    and "\<forall>g \<in> set before. \<exists>c. coerce_verdict g = Ret c" and "length before < batch_size"
  shows "clean_verdicts (before @ PDict d # after) batch_size = Raise TypeError"
proof -
  obtain rest where "take batch_size (before @ PDict d # after) = before @ PDict d # rest"
    using assms(6) by (cases "batch_size - length before") auto
  moreover have "coerce_verdict (PDict d) = Raise TypeError"
    using assms(1-4) by (simp add: coerce_verdict_def slice_reasoning_def py_or_def)
  ultimately show ?thesis using map_result_Raise [of coerce_verdict "PDict d", OF _ assms(5)]
    by (simp add: clean_verdicts_def Let_def)
qed

text \<open>Leading dots are not part of a path here: a dot file and its name without the dot are one file.\<close>

lemma dot_file_is_its_plain_name:
  "same_file (Some ''.env'') [(''file_path'', PStr ''config/env'')]
   \<and> citation_class (Some 3) [(''file_path'', PStr ''config/env''), (''line_start'', PInt 3)] (Some ''.env'') = ''self_line''"
  by code_simp

section \<open>Examples\<close>

definition ex_verdict :: pydict where
  "ex_verdict = [(''id'', PStr ''f1''), (''exploitable'', PFloat (FFin 1)), (''evidence_line'', PInt 4)]"

definition ex_accepted :: verdict where
  "ex_accepted = \<lparr>vd_id = ''f1'', vd_exploitable = FFin 1, vd_reasoning = PStr [], vd_window_sufficient = None,
     vd_evidence_line = Some 4, vd_evidence_file = None\<rparr>"

lemma ex_coerced: "coerce_verdict (PDict ex_verdict) = Ret (Some ex_accepted)"
  by (simp add: ex_verdict_def ex_accepted_def coerce_verdict_def coerce_exploitable_def get_or_def slice_reasoning_def
      py_or_def coerce_line_def coerce_path_def py_max_def py_min_def)

theorem accepted_verdict_is_sane_witness:
  "get ex_verdict ''id'' = PStr (vd_id ex_accepted) \<and> vd_window_sufficient ex_accepted \<noteq> Some False"
  using accepted_verdict_is_sane [OF ex_coerced] by auto

theorem lone_judge_needs_closure_witness:
  "fst (vote [verdict_to_check (\<lambda>n. if n = ''VULTURE_L5_PROMOTION_CLOSURE'' then Some ''true'' else None)
     ex_accepted ''m'' 0 ''go'' []]) \<noteq> ''high_confidence''"
proof (rule lone_judge_needs_closure)
  let ?env = "\<lambda>n. if n = ''VULTURE_L5_PROMOTION_CLOSURE'' then Some ''true'' else None"
  let ?c = "verdict_to_check ?env ex_accepted ''m'' 0 ''go'' []"
  show "promotion_closure_required ?env" by code_simp
  have "vc_weight ?c = FFin (3 / 4)"
  proof -
    have "verdict_weight (FFin 1) = FFin (3 / 4)" by code_simp
    then show ?thesis by (simp add: verdict_to_check_def ex_accepted_def)
  qed
  then show "filter positive [?c] = [?c]" by (simp add: positive_def)
  show "\<not> has_authoritative_positive [?c]"
    by (simp add: has_authoritative_positive_def AUTHORITATIVE_POSITIVE_def verdict_to_check_def)
qed (simp add: ex_accepted_def)

theorem numeric_reasoning_loses_the_answer_witness:
  "clean_verdicts [PDict ex_verdict, PDict (put ''reasoning'' (PInt 7) ex_verdict)] 2 = Raise TypeError"
proof -
  have "coerce_exploitable (get (put ''reasoning'' (PInt 7) ex_verdict) ''exploitable'') = Ret (Some (FFin 1))"
    by (simp add: ex_verdict_def get_or_def coerce_exploitable_def)
  from numeric_reasoning_loses_the_answer [OF _ this, of "''f1''" 7 "[PDict ex_verdict]" 2 "[]"]
  show ?thesis using ex_coerced by (auto simp: ex_verdict_def get_or_def)
qed

end
