(* ===== verification/Judge_Config.thy ===== *)
theory Judge_Config
  imports Refutation Py_Order
begin

text \<open>
  The configuration of the validation stage (\<open>ValidateConfig\<close> of \<open>shared/validate/types.py\<close>) and the
  resolvers of the judge's knobs and model (\<open>shared/validate/llm_judge.py\<close>): a per-request override, then
  the environment, then the configuration. Whether the run goes through the broker and what the
  provider's model list answers are parameters.

  The lemmas: precedence of each knob, an environment value that is not a number never counts, and the
  judge never asks the broker for a model it does not front unless that was chosen explicitly.
\<close>

record validate_config =
  cf_compliance_mode :: bool
  cf_top_n_for_llm :: int
  cf_enable_l1 :: bool
  cf_enable_l2 :: bool
  cf_enable_l5 :: bool
  cf_l5_batch_size :: int
  cf_l5_max_concurrency :: int
  cf_l5_total_timeout_s :: pyfloat
  cf_l5_per_batch_timeout_s :: pyfloat
  cf_l5_model_override :: string
  cf_enable_l5_override :: "bool option"
  cf_l5_top_n_override :: "int option"
  cf_l5_batch_size_override :: "int option"

definition default_config :: validate_config where
  "default_config = \<lparr>cf_compliance_mode = False, cf_top_n_for_llm = 1000, cf_enable_l1 = True, cf_enable_l2 = True,
     cf_enable_l5 = False, cf_l5_batch_size = 10, cf_l5_max_concurrency = 5, cf_l5_total_timeout_s = FFin 300,
     cf_l5_per_batch_timeout_s = FFin 30, cf_l5_model_override = [], cf_enable_l5_override = None,
     cf_l5_top_n_override = None, cf_l5_batch_size_override = None\<rparr>"

section \<open>Numbers from the environment\<close>

text \<open>\<open>env = os.getenv(name, "").strip(); if env.isdigit(): ... int(env)\<close>.\<close>

definition env_digits :: "env \<Rightarrow> string \<Rightarrow> int option result" where
  "env_digits env name = (let e = strip (getenv env name []) in
     if \<not> py_isdigit e then Ret None
     else case parse_int e of Some i \<Rightarrow> Ret (Some i) | None \<Rightarrow> Raise ValueError)"

definition or_config :: "'a \<Rightarrow> ('b \<Rightarrow> 'a result) \<Rightarrow> 'b option \<Rightarrow> 'a result" where
  "or_config dflt f m = (case m of None \<Rightarrow> Ret dflt | Some x \<Rightarrow> f x)"

definition resolve_top_n :: "env \<Rightarrow> validate_config \<Rightarrow> int result" where
  "resolve_top_n env config = (case cf_l5_top_n_override config of
     Some n \<Rightarrow> Ret n
   | None \<Rightarrow> bind_result (env_digits env ''VULTURE_VALIDATE_LLM_TOP_N'')
       (or_config (cf_top_n_for_llm config) Ret))"

definition resolve_batch_size :: "env \<Rightarrow> validate_config \<Rightarrow> int result" where
  "resolve_batch_size env config = (case cf_l5_batch_size_override config of
     Some n \<Rightarrow> Ret (max 1 n)
   | None \<Rightarrow> bind_result (env_digits env ''VULTURE_VALIDATE_LLM_BATCH_SIZE'')
       (or_config (cf_l5_batch_size config) (\<lambda>n. Ret (max 1 n))))"

definition resolve_concurrency :: "env \<Rightarrow> validate_config \<Rightarrow> int result" where
  "resolve_concurrency env config = bind_result (env_digits env ''VULTURE_VALIDATE_LLM_MAX_CONCURRENCY'')
     (or_config (cf_l5_max_concurrency config) (\<lambda>n. Ret (max 1 n)))"

definition millis :: "int \<Rightarrow> pyfloat result" where
  "millis n = bind_result (py_float (PInt n)) (\<lambda>f. Ret (FFin (fl64 (fl_val f / 1000))))"

definition resolve_total_timeout :: "env \<Rightarrow> validate_config \<Rightarrow> pyfloat result" where
  "resolve_total_timeout env config = bind_result (env_digits env ''VULTURE_VALIDATE_LLM_TIMEOUT_MS'')
     (or_config (cf_l5_total_timeout_s config) millis)"

definition resolve_per_batch_timeout :: "env \<Rightarrow> validate_config \<Rightarrow> pyfloat result" where
  "resolve_per_batch_timeout env config = bind_result (env_digits env ''VULTURE_VALIDATE_LLM_PER_BATCH_TIMEOUT_MS'')
     (or_config (cf_l5_per_batch_timeout_s config) millis)"

definition DEFAULT_MAX_OUTPUT_TOKENS :: int where "DEFAULT_MAX_OUTPUT_TOKENS = 16000"

definition max_output_tokens :: "env \<Rightarrow> int result" where
  "max_output_tokens env = bind_result (env_digits env ''VULTURE_VALIDATE_LLM_MAX_TOKENS'')
     (or_config DEFAULT_MAX_OUTPUT_TOKENS (\<lambda>n. Ret (if 0 < n then n else DEFAULT_MAX_OUTPUT_TOKENS)))"

section \<open>The model\<close>

definition PREFERRED_FAMILIES :: "string list" where
  "PREFERRED_FAMILIES = [''qwen3-coder'', ''qwen3'', ''qwen2.5'', ''qwen'', ''gpt-oss'', ''gpt-4'', ''claude'',
     ''gemma3'', ''gemma'', ''mixtral'', ''mistral'', ''llama-3'', ''llama3'', ''llama'']"

definition is_embedding_model :: "string \<Rightarrow> bool" where
  "is_embedding_model model_id = (let m = lower model_id in
     contains ''embed'' m \<or> contains ''embedding'' m \<or> starts_with m ''bge-'' \<or> starts_with m ''text-embedding'')"

definition pick_preferred_model :: "string list \<Rightarrow> string" where
  "pick_preferred_model chat_models =
     (case first_such (\<lambda>_. True) [m. family \<leftarrow> PREFERRED_FAMILIES, m \<leftarrow> chat_models, contains family (lower m)] of
        Some m \<Rightarrow> m | None \<Rightarrow> hd chat_models)"

text \<open>The identifiers \<open>/models\<close> of a base address answers, or nothing.\<close>

type_synonym model_lister = "string \<Rightarrow> string list option"

definition auto_detect_model :: "env \<Rightarrow> model_lister \<Rightarrow> string" where
  "auto_detect_model env fetch =
     (let base = rev (dropWhile (\<lambda>c. c = CHR ''/'') (rev (getenv env ''OPENAI_BASE_URL'' []))) in
      if base = [] then []
      else case fetch base of None \<Rightarrow> []
        | Some candidates \<Rightarrow>
            (let chat = filter (\<lambda>m. m \<noteq> [] \<and> \<not> is_embedding_model m) candidates in
             if chat = [] then [] else pick_preferred_model chat))"

definition str_or :: "string \<Rightarrow> string \<Rightarrow> string" where
  "str_or a b = (if a \<noteq> [] then a else b)"

definition resolve_model :: "env \<Rightarrow> bool \<Rightarrow> model_lister \<Rightarrow> validate_config \<Rightarrow> string" where
  "resolve_model env via_broker fetch config =
     (let l5_override = strip (getenv env ''VULTURE_VALIDATE_LLM_MODEL'' []);
          run_model = strip (getenv env ''VULTURE_LLM_MODEL'' []);
          explicit = strip (getenv env ''VULTURE_VALIDATE_LLM_MODEL_EXPLICIT'' []) \<noteq> [] in
      if l5_override \<noteq> [] \<and> run_model \<noteq> [] \<and> l5_override \<noteq> run_model \<and> \<not> explicit \<and> via_broker then run_model
      else str_or l5_override (str_or (strip (cf_l5_model_override config))
        (str_or run_model (auto_detect_model env fetch))))"

section \<open>Precedence\<close>

text \<open>On the broker the run's model wins: when the run is routed through the broker and names a model, the
  judge asks for another one only if that one was chosen explicitly (or, with no inherited override,
  configured for the request); an inherited override never reaches the broker.\<close>

theorem broker_serves_the_run_model:
  assumes "strip (getenv env ''VULTURE_LLM_MODEL'' []) = run" and "run \<noteq> []"
    and "strip (getenv env ''VULTURE_VALIDATE_LLM_MODEL_EXPLICIT'' []) = []"
    and "strip (getenv env ''VULTURE_VALIDATE_LLM_MODEL'' []) \<noteq> [] \<or> strip (cf_l5_model_override config) = []"
  shows "resolve_model env True fetch config = run"
  using assms by (auto simp: resolve_model_def str_or_def Let_def)

lemma pick_preferred_is_offered:
  assumes "chat \<noteq> []"
  shows "pick_preferred_model chat \<in> set chat"
proof (cases "first_such (\<lambda>_. True) [m. family \<leftarrow> PREFERRED_FAMILIES, m \<leftarrow> chat, contains family (lower m)]")
  case None
  then show ?thesis using assms by (simp add: pick_preferred_model_def)
next
  case (Some m)
  then show ?thesis using first_such_Some [OF Some] by (auto simp: pick_preferred_model_def)
qed

text \<open>An automatically detected model is one the provider offers and never an embedding model; without a
  base address, an answer or a chat model there is none.\<close>

theorem auto_detected_model_is_a_chat_model:
  "auto_detect_model env fetch = [] \<or> (\<exists>base offered. fetch base = Some offered
     \<and> auto_detect_model env fetch \<in> set offered \<and> \<not> is_embedding_model (auto_detect_model env fetch))"
proof (cases "auto_detect_model env fetch = []")
  case False
  define base where "base = rev (dropWhile (\<lambda>c. c = CHR ''/'') (rev (getenv env ''OPENAI_BASE_URL'' [])))"
  obtain offered where o: "fetch base = Some offered"
    using False by (auto simp: auto_detect_model_def base_def Let_def split: if_splits option.splits)
  let ?chat = "filter (\<lambda>m. m \<noteq> [] \<and> \<not> is_embedding_model m) offered"
  have ne: "?chat \<noteq> []" and pick: "auto_detect_model env fetch = pick_preferred_model ?chat"
    using False o by (simp_all add: auto_detect_model_def base_def [symmetric] Let_def split: if_splits)
  have "auto_detect_model env fetch \<in> set ?chat" unfolding pick by (rule pick_preferred_is_offered [OF ne])
  then show ?thesis using o by auto
qed simp

text \<open>A superscript digit disables the judge: \<open>isdigit\<close> accepts it and \<open>int\<close> does not, so such a value of a
  numeric switch raises instead of falling back to the configuration.\<close>

theorem superscript_switch_raises:
  "resolve_top_n (\<lambda>n. if n = ''VULTURE_VALIDATE_LLM_TOP_N'' then Some [CHR ''5'', CHR 0xB2] else None) default_config
    = Raise ValueError
   \<and> resolve_top_n (\<lambda>n. if n = ''VULTURE_VALIDATE_LLM_TOP_N'' then Some ''five'' else None) default_config = Ret 1000"
  by code_simp

theorem broker_serves_the_run_model_witness:
  "resolve_model (\<lambda>n. if n = ''VULTURE_LLM_MODEL'' then Some ''gemini'' else if n = ''VULTURE_VALIDATE_LLM_MODEL'' then Some ''qwen'' else None)
     True (\<lambda>_. None) default_config = ''gemini''"
  by (rule broker_serves_the_run_model) (code_simp, simp, code_simp, code_simp)

end
