(* ===== verification/Language.thy ===== *)
theory Language
  imports Py_Order
begin

text \<open>
  Language detection from a file path (\<open>shared/language.py\<close>) and the two functions of \<open>posixpath\<close> it
  uses. A path that is not a text makes \<open>os.path.basename\<close> raise.

  The lemma: a detected language is one of the two tables' or \<open>unknown\<close>.
\<close>

definition LANGUAGE_BY_EXT :: "(string \<times> string) list" where
  "LANGUAGE_BY_EXT =
    [(''.py'', ''python''), (''.pyi'', ''python''), (''.pyw'', ''python''), (''.go'', ''go''),
     (''.ts'', ''typescript''), (''.tsx'', ''typescript''), (''.mts'', ''typescript''), (''.cts'', ''typescript''),
     (''.js'', ''javascript''), (''.jsx'', ''javascript''), (''.mjs'', ''javascript''), (''.cjs'', ''javascript''),
     (''.java'', ''java''), (''.m'', ''objc''), (''.mm'', ''objc''), (''.kt'', ''kotlin''), (''.kts'', ''kotlin''),
     (''.rs'', ''rust''), (''.rb'', ''ruby''), (''.erb'', ''ruby''), (''.cs'', ''csharp''),
     (''.php'', ''php''), (''.phtml'', ''php''), (''.c'', ''c''), (''.h'', ''c''), (''.cpp'', ''cpp''),
     (''.hpp'', ''cpp''), (''.cc'', ''cpp''), (''.cxx'', ''cpp''), (''.swift'', ''swift''), (''.scala'', ''scala''),
     (''.sh'', ''shell''), (''.bash'', ''shell''), (''.zsh'', ''shell''), (''.sql'', ''sql''),
     (''.yaml'', ''yaml''), (''.yml'', ''yaml''), (''.json'', ''json''), (''.toml'', ''toml''),
     (''.html'', ''html''), (''.htm'', ''html''), (''.css'', ''css''), (''.md'', ''markdown''), (''.lua'', ''lua''),
     (''.r'', ''r''), (''.dart'', ''dart''), (''.pl'', ''perl''), (''.pm'', ''perl'')]"

definition LANGUAGE_BY_BASENAME :: "(string \<times> string) list" where
  "LANGUAGE_BY_BASENAME =
    [(''Dockerfile'', ''dockerfile''), (''Makefile'', ''makefile''), (''Rakefile'', ''ruby''), (''Gemfile'', ''ruby''),
     (''Vagrantfile'', ''ruby''), (''build.gradle'', ''groovy''), (''build.gradle.kts'', ''kotlin'')]"

text \<open>\<open>posixpath.basename\<close>: what follows the last slash.\<close>

definition path_basename :: "string \<Rightarrow> string" where
  "path_basename p = rev (takeWhile (\<lambda>c. c \<noteq> CHR ''/'') (rev p))"

text \<open>The extension \<open>posixpath.splitext\<close> gives a name without a slash: from its last dot, unless only dots
  precede it.\<close>

definition name_ext :: "string \<Rightarrow> string" where
  "name_ext base = (let tail = rev (takeWhile (\<lambda>c. c \<noteq> CHR ''.'') (rev base));
       stem = take (length base - length tail - 1) base in
     if CHR ''.'' \<notin> set base \<or> list_all (\<lambda>c. c = CHR ''.'') stem then [] else CHR ''.'' # tail)"

definition table_get :: "(string \<times> string) list \<Rightarrow> string \<Rightarrow> string" where
  "table_get d k = (case map_of d k of None \<Rightarrow> [] | Some v \<Rightarrow> v)"

definition language_by_name :: "string \<Rightarrow> string" where
  "language_by_name base = (let stem = takeWhile (\<lambda>c. c \<noteq> CHR ''.'') base;
       hit = table_get LANGUAGE_BY_BASENAME base in
     if hit \<noteq> [] then hit else table_get LANGUAGE_BY_BASENAME stem)"

definition language_by_ext :: "string \<Rightarrow> string" where
  "language_by_ext base = (case map_of LANGUAGE_BY_EXT (lower (name_ext base)) of
     None \<Rightarrow> ''unknown'' | Some l \<Rightarrow> l)"

definition detect_language :: "pyval \<Rightarrow> string result" where
  "detect_language file_path =
     (if \<not> truthy file_path then Ret ''unknown''
      else case file_path of
        PStr p \<Rightarrow> (let base = path_basename p; by_name = language_by_name base in
          Ret (if by_name \<noteq> [] then by_name else language_by_ext base))
      | _ \<Rightarrow> Raise TypeError)"

lemma detect_language_known:
  assumes "detect_language v = Ret l"
  shows "l \<in> set (map snd LANGUAGE_BY_EXT) \<union> set (map snd LANGUAGE_BY_BASENAME) \<union> {''unknown''}"
proof -
  have get: "map_of d k = Some l \<Longrightarrow> l \<in> set (map snd d)" for d :: "(string \<times> string) list" and k l
    by (force dest: map_of_SomeD)
  have tg: "table_get d k = l \<Longrightarrow> l \<noteq> [] \<Longrightarrow> l \<in> set (map snd d)" for d k l
    using get by (auto simp: table_get_def split: option.splits)
  show ?thesis using assms get tg
    by (cases v) (auto simp: detect_language_def language_by_name_def language_by_ext_def Let_def
        simp del: set_map split: if_splits option.splits)
qed

end
