(* ===== verification/Judge.thy ===== *)
theory Judge
  imports Judge_Verdict Judge_Config Language "HOL-Library.Multiset"
begin

text \<open>
  The judge layer around its model calls (\<open>shared/validate/llm_judge.py\<close>): which findings are selected
  and why the others are skipped, how the verdicts of a batch are applied, the safeguards that run
  after the pool, and the coverage check every finding gets. What the model calls return, batch by
  batch in the order the consumer sees them, is the parameter \<open>events\<close>; a batch that is dropped by the
  deadline or a cancellation is not in it. The in-place mutations are the state \<open>l5_state\<close>: the findings
  and the verdict checks, which run in parallel.

  The lemmas: selection and skips cover every finding once, a finding skipped as already dismissed is
  dismissed by the voter, every finding ends with one coverage check, and after the safeguards no
  demotion stands that the exemptions or the blast-radius cap forbid.
\<close>

section \<open>Checks on a finding\<close>

definition append_check :: "validation_check \<Rightarrow> pydict \<Rightarrow> pydict" where
  "append_check check finding =
     (let blob = (case as_dict (get finding ''validation'') of Some b \<Rightarrow> b | None \<Rightarrow> [(''checks'', PList [])]);
          checks = (case as_list (get blob ''checks'') of Some cs \<Rightarrow> cs | None \<Rightarrow> []) in
      put ''validation'' (PDict (put ''checks'' (PList (checks @ [PDict (check_to_json check)])) blob)) finding)"

definition COVERAGE_ID :: string where "COVERAGE_ID = ''coverage''"

definition COVERAGE_RESULTS :: "string list" where
  "COVERAGE_RESULTS = [''judged'', ''skipped_no_window'', ''skipped_already_likely_fp'',
     ''skipped_budget_exhausted'', ''skipped_not_selected'', ''skipped_l5_disabled'', ''judge_error'']"

definition stamp_coverage :: "string \<Rightarrow> string \<Rightarrow> pydict \<Rightarrow> pydict" where
  "stamp_coverage result reason finding =
     (if list_ex (check_has_id COVERAGE_ID) (validation_checks finding) then finding
      else append_check (new_check COVERAGE_ID result 0 reason
        [(''provenance'', py_or (get finding ''provenance'') (PStr ''skill''))]) finding)"

definition rewrite_l5_check :: "validation_check \<Rightarrow> pydict \<Rightarrow> pydict" where
  "rewrite_l5_check c finding =
     (case as_dict (get finding ''validation'') of
        None \<Rightarrow> finding
      | Some blob \<Rightarrow> (case as_list (get blob ''checks'') of
          None \<Rightarrow> finding
        | Some cs \<Rightarrow> put ''validation'' (PDict (put ''checks''
            (PList (map (\<lambda>x. if check_has_id ''llm_judge'' x then PDict (check_to_json c) else x) cs)) blob)) finding))"

section \<open>Selection\<close>

definition has_code_window :: "pydict \<Rightarrow> bool result" where
  "has_code_window finding = (case py_or (get finding ''code_snippet'') (PStr []) of
     PStr s \<Rightarrow> Ret (strip s \<noteq> []) | _ \<Rightarrow> Raise AttributeError)"

definition suppressed :: "validation_check list \<Rightarrow> bool" where
  "suppressed checks = list_ex (\<lambda>c. vc_id c = PStr ''suppression'' \<and> negative c) checks"

definition provisional_confidence :: "validation_check list \<Rightarrow> pyfloat" where
  "provisional_confidence checks =
     py_max (FFin 0) (py_min (FFin 1) (fl_add (FFin (1 / 2)) (py_sum (map vc_weight checks))))"

definition l5_candidate_provisional :: "validation_check list \<Rightarrow> (pyfloat \<times> nat) option" where
  "l5_candidate_provisional checks =
     (if suppressed checks then None
      else let conf = provisional_confidence checks; demoting = count_demoting checks in
        if fl_less conf (FFin (fl64 (30 / 100))) \<and> 2 \<le> demoting then None else Some (conf, demoting))"

definition SEV_RANK :: "(string \<times> int) list" where
  "SEV_RANK = [(''critical'', 4), (''high'', 3), (''medium'', 2), (''low'', 1), (''info'', 0)]"

text \<open>The confidence is a number here, clamped to the unit interval.\<close>

definition l5_priority :: "pydict \<Rightarrow> pyfloat \<Rightarrow> rat result" where
  "l5_priority finding confidence =
     (case py_or (get_or finding ''severity'' (PStr ''medium'')) (PStr ''medium'') of
        PStr s \<Rightarrow> (let rank = (case map_of SEV_RANK (lower s) of Some r \<Rightarrow> r | None \<Rightarrow> 2) in
          Ret (fl64 (fl64 (of_int rank * max (fl64 (1 - fl_val confidence)) 0)
                + fl64 (fl64 (1 / 1000000) * of_int rank))))
      | _ \<Rightarrow> Raise AttributeError)"

type_synonym skip = "string \<times> string"

definition NO_WINDOW_SKIP :: skip where
  "NO_WINDOW_SKIP = (''skipped_no_window'', ''no code window attached (path unresolved or line missing); '' @
     ''the judge is never asked to reason about an empty block'')"

definition SUPPRESSED_SKIP :: skip where
  "SUPPRESSED_SKIP = (''skipped_already_likely_fp'', ''operator suppression marker; the voter will dismiss it'')"

definition LIKELY_FP_SKIP :: skip where
  "LIKELY_FP_SKIP = (''skipped_already_likely_fp'', ''already destined for likely_fp under the V7 rule '' @
     ''(confidence < 0.30 with >= 2 demoting checks)'')"

definition not_selected_skip :: "int \<Rightarrow> nat \<Rightarrow> skip" where
  "not_selected_skip top_n n_candidates = (''skipped_not_selected'', ''ranked below the L5 budget (top_n='' @
     str_int top_n @ '', '' @ str_nat n_candidates @ '' candidates)'')"

text \<open>One turn of the selection loop: a skip or a priority. The checks are read after the window test;
  nothing stands for an index past the end of the list.\<close>

definition triage :: "pydict \<Rightarrow> validation_check list option \<Rightarrow> (skip + rat) result" where
  "triage f l1 =
     bind_result (has_code_window f) (\<lambda>windowed.
       if \<not> windowed then Ret (Inl NO_WINDOW_SKIP)
       else case l1 of None \<Rightarrow> Raise IndexError
       | Some checks \<Rightarrow>
         if suppressed checks then Ret (Inl SUPPRESSED_SKIP)
         else case l5_candidate_provisional checks of
           None \<Rightarrow> Ret (Inl LIKELY_FP_SKIP)
         | Some (conf, _) \<Rightarrow> bind_result (l5_priority f conf) (\<lambda>p. Ret (Inr p)))"

definition py_drop :: "int \<Rightarrow> 'a list \<Rightarrow> 'a list" where
  "py_drop n xs = drop (nat (if n < 0 then int (length xs) + n else n)) xs"

type_synonym selection = "nat list \<times> (nat \<times> skip) list"

definition select_from :: "(nat \<times> (skip + rat)) list \<Rightarrow> int \<Rightarrow> selection" where
  "select_from triaged top_n =
     (let skips = List.map_filter (\<lambda>(i, t). case t of Inl s \<Rightarrow> Some (i, s) | Inr _ \<Rightarrow> None) triaged;
          candidates = List.map_filter (\<lambda>(i, t). case t of Inl _ \<Rightarrow> None | Inr p \<Rightarrow> Some (p, i)) triaged;
          ranked = sort_key (\<lambda>(p, _). - p) candidates in
      (map snd (py_take top_n ranked),
       skips @ map (\<lambda>(_, i). (i, not_selected_skip top_n (length candidates))) (py_drop top_n ranked)))"

definition classify_selection :: "pydict list \<Rightarrow> validation_check list list \<Rightarrow> int \<Rightarrow> selection result" where
  "classify_selection findings l1_results top_n =
     bind_result (map_result (\<lambda>(i, f). triage f (if i < length l1_results then Some (l1_results ! i) else None))
       (enum_from 0 findings)) (\<lambda>ts. Ret (select_from (enum_from 0 ts) top_n))"

section \<open>Batches\<close>

record l5_state =
  ls_findings :: "pydict list"
  ls_out :: "validation_check list list"

type_synonym batch = "(nat \<times> string) list"

definition enrich :: "pydict list \<Rightarrow> nat list \<Rightarrow> batch result" where
  "enrich findings selected_idx = map_result (\<lambda>i.
     bind_result (detect_language (get_or (findings ! i) ''file_path'' (PStr []))) (\<lambda>lang. Ret (i, lang))) selected_idx"

function chunks :: "nat \<Rightarrow> 'a list \<Rightarrow> 'a list list" where
  "chunks n xs = (if xs = [] then [] else take (max 1 n) xs # chunks n (drop (max 1 n) xs))"
  by pat_completeness auto
termination
  by (relation "measure (\<lambda>(n, xs). length xs)") auto

declare chunks.simps [simp del]

text \<open>\<open>range(0, n, step)\<close> rejects a step of zero and is empty for a negative one.\<close>

definition batch_findings :: "pydict list \<Rightarrow> nat list \<Rightarrow> int \<Rightarrow> batch list result" where
  "batch_findings findings selected_idx batch_size =
     bind_result (enrich findings selected_idx) (\<lambda>es.
       if batch_size = 0 then Raise ValueError
       else if batch_size < 0 then Ret [] else Ret (chunks (nat batch_size) es))"

definition finding_id :: "nat \<Rightarrow> pydict \<Rightarrow> pyval result" where
  "finding_id idx finding = (let i = get finding ''id'' in
     if truthy i then Ret i else bind_result (synthetic_id idx finding) (\<lambda>s. Ret (PStr s)))"

type_synonym verdict_table = "(pyval \<times> verdict) list"

definition verdict_for :: "verdict_table \<Rightarrow> pyval \<Rightarrow> verdict option result" where
  "verdict_for verdicts fid = bind_result (py_key fid) (\<lambda>k. Ret (map_of verdicts k))"

definition no_verdict_check :: "string \<Rightarrow> nat \<Rightarrow> string \<Rightarrow> validation_check" where
  "no_verdict_check model batch_idx lang = new_check ''llm_judge'' ''error'' 0 ''no verdict''
     [(''model'', PStr model), (''batch_id'', PInt (int batch_idx)), (''language'', PStr lang)]"

definition batch_check ::
  "env \<Rightarrow> string \<Rightarrow> nat \<Rightarrow> verdict_table \<Rightarrow> nat \<Rightarrow> string \<Rightarrow> pydict \<Rightarrow> validation_check result" where
  "batch_check env model batch_idx verdicts finding_idx lang finding =
     bind_result (finding_id finding_idx finding) (\<lambda>fid.
     bind_result (verdict_for verdicts fid) (\<lambda>v.
       Ret (case v of None \<Rightarrow> no_verdict_check model batch_idx lang
         | Some d \<Rightarrow> verdict_to_check env d model batch_idx lang finding)))"

definition judge_one :: "nat \<Rightarrow> validation_check \<Rightarrow> l5_state \<Rightarrow> l5_state" where
  "judge_one i c s = s\<lparr>ls_findings := (ls_findings s)[i := append_check c (ls_findings s ! i)],
     ls_out := (ls_out s)[i := [c]]\<rparr>"

text \<open>A batch is applied finding by finding; what was applied before an exception stays.\<close>

fun apply_batch_result ::
  "env \<Rightarrow> string \<Rightarrow> nat \<Rightarrow> verdict_table \<Rightarrow> batch \<Rightarrow> l5_state \<Rightarrow> unit result \<times> l5_state" where
  "apply_batch_result env model batch_idx verdicts [] s = (Ret (), s)"
| "apply_batch_result env model batch_idx verdicts ((i, lang) # rest) s =
     (case batch_check env model batch_idx verdicts i lang (ls_findings s ! i) of
        Inl e \<Rightarrow> (Raise e, s)
      | Inr c \<Rightarrow> apply_batch_result env model batch_idx verdicts rest (judge_one i c s))"

section \<open>Safeguards\<close>

definition l5_check_is_demoting :: "validation_check \<Rightarrow> bool" where
  "l5_check_is_demoting check = (vc_id check = PStr ''llm_judge'' \<and> negative check)"

text \<open>\<open>strip().upper()\<close>, compared with the ASCII identifiers of the policy classes only.\<close>

definition finding_category :: "pydict \<Rightarrow> string result" where
  "finding_category finding = (case py_or (get finding ''category'') (PStr []) of
     PStr s \<Rightarrow> Ret (map upper_char (strip s)) | _ \<Rightarrow> Raise AttributeError)"

definition is_deterministic :: "pydict \<Rightarrow> bool" where
  "is_deterministic finding =
     (if is_llm_provenance (get finding ''provenance'') then False
      else if get finding ''signature_status'' = PStr ''candidate'' then False
      else truthy (get finding ''check_id''))"

definition closure_gate_enabled :: "env \<Rightarrow> bool" where
  "closure_gate_enabled env = (lower (strip (getenv env ''VULTURE_L5_CLOSURE_GATE'' ''true'')) \<noteq> ''false'')"

definition window_sufficient :: "validation_check \<Rightarrow> bool" where
  "window_sufficient check = (case vc_extras check of PDict d \<Rightarrow> get d ''window_sufficient'' = PBool True | _ \<Rightarrow> False)"

definition deterministic_exemption_applies :: "env \<Rightarrow> pydict \<Rightarrow> validation_check \<Rightarrow> bool" where
  "deterministic_exemption_applies env finding check =
     (if \<not> is_deterministic finding then False
      else if \<not> closure_gate_enabled env then True
      else \<not> window_sufficient check)"

definition exemption_reason :: "env \<Rightarrow> pydict \<Rightarrow> validation_check \<Rightarrow> string option result" where
  "exemption_reason env finding check =
     bind_result (finding_category finding) (\<lambda>cat. Ret
       (if cat \<in> set POLICY_CLASSES then Some ''crypto_policy_exempt''
        else if deterministic_exemption_applies env finding check then Some ''deterministic_authoritative''
        else None))"

definition is_l5_exempt :: "pydict \<Rightarrow> bool result" where
  "is_l5_exempt finding = bind_result (finding_category finding) (\<lambda>cat.
     Ret (if cat \<in> set POLICY_CLASSES then True else is_deterministic finding))"

definition neutralize_l5_check :: "string \<Rightarrow> validation_check \<Rightarrow> validation_check" where
  "neutralize_l5_check reason check =
     \<lparr>vc_id = PStr ''llm_judge'', vc_result = PStr ''advisory'', vc_weight = FFin 0,
      vc_reason = PStr (strip (py_str (vc_reason check) @ '' [L5 demotion suppressed: '' @ reason @ '']'')),
      vc_extras = (case vc_extras check of PDict d \<Rightarrow> PDict (put ''safeguard'' (PStr reason) d) | x \<Rightarrow> x)\<rparr>"

definition RC6_MIN_JUDGED :: nat where "RC6_MIN_JUDGED = 3"

definition judged_idx :: "nat list \<Rightarrow> validation_check list list \<Rightarrow> nat list" where
  "judged_idx selected_idx out = filter (\<lambda>i. list_ex (\<lambda>c. vc_id c = PStr ''llm_judge'') (out ! i)) selected_idx"

text \<open>Whether some check of a judged finding is a demotion no exemption suppresses.\<close>

definition honoured :: "env \<Rightarrow> pydict \<Rightarrow> validation_check list \<Rightarrow> bool result" where
  "honoured env finding checks =
     bind_result (map_result (\<lambda>c. bind_result (exemption_reason env finding c) (\<lambda>r. Ret (r = None)))
       (filter l5_check_is_demoting checks)) (\<lambda>bs. Ret (list_ex (\<lambda>b. b) bs))"

definition rc6_tripped :: "nat \<Rightarrow> nat \<Rightarrow> bool \<Rightarrow> bool" where
  "rc6_tripped n_judged n_demoted any_exempt =
     (let frac = (if n_judged = 0 then 0 else fl64 (of_nat n_demoted / of_nat n_judged));
          unanimous = (n_demoted = n_judged \<and> 0 < n_judged) in
      RC6_MIN_JUDGED \<le> n_judged \<and> 1 / 2 < frac \<and> \<not> (unanimous \<and> \<not> any_exempt))"

definition safe_check :: "env \<Rightarrow> bool \<Rightarrow> pydict \<Rightarrow> validation_check \<Rightarrow> validation_check result" where
  "safe_check env tripped finding check =
     (if \<not> l5_check_is_demoting check then Ret check
      else bind_result (if tripped then Ret (Some ''rc6_blast_radius_cap'') else exemption_reason env finding check)
        (\<lambda>r. Ret (case r of None \<Rightarrow> check | Some reason \<Rightarrow> neutralize_l5_check reason check)))"

text \<open>The checks of one judged finding after the safeguards, and the finding with them written back.\<close>

definition safeguard_one :: "env \<Rightarrow> bool \<Rightarrow> nat \<Rightarrow> l5_state \<Rightarrow> l5_state result" where
  "safeguard_one env tripped i s =
     (let f = ls_findings s ! i; checks = ls_out s ! i in
      bind_result (map_result (safe_check env tripped f) checks) (\<lambda>safe.
        Ret (s\<lparr>ls_findings := (ls_findings s)[i :=
              foldl (\<lambda>f (old, new). if old = new then f else rewrite_l5_check new f) f (zip checks safe)],
            ls_out := (ls_out s)[i := safe]\<rparr>)))"

fun safeguard_all :: "env \<Rightarrow> bool \<Rightarrow> nat list \<Rightarrow> l5_state \<Rightarrow> l5_state result" where
  "safeguard_all env tripped [] s = Ret s"
| "safeguard_all env tripped (i # is) s = bind_result (safeguard_one env tripped i s) (safeguard_all env tripped is)"

definition any_exempt_of :: "pydict list \<Rightarrow> bool result" where
  "any_exempt_of fs = bind_result (map_result is_l5_exempt fs) (\<lambda>bs. Ret (list_ex (\<lambda>b. b) bs))"

definition apply_l5_safeguards :: "env \<Rightarrow> nat list \<Rightarrow> l5_state \<Rightarrow> l5_state result" where
  "apply_l5_safeguards env selected_idx s =
     (let js = judged_idx selected_idx (ls_out s) in
      if js = [] then Ret s
      else bind_result (map_result (\<lambda>i. honoured env (ls_findings s ! i) (ls_out s ! i)) js) (\<lambda>hs.
        let n_demoted = length (filter (\<lambda>b. b) hs) in
        bind_result (if n_demoted = length js then any_exempt_of (map ((!) (ls_findings s)) js) else Ret True)
          (\<lambda>any_exempt. safeguard_all env (rc6_tripped (length js) n_demoted any_exempt) js s)))"

section \<open>Coverage\<close>

definition coverage_of :: "selection \<Rightarrow> validation_check list list \<Rightarrow> nat \<Rightarrow> skip" where
  "coverage_of sel out i =
     (case map_of (snd sel) i of
        Some sk \<Rightarrow> sk
      | None \<Rightarrow>
          if i \<in> set (fst sel) then
            (if out ! i = [] then (''skipped_budget_exhausted'', ''selected for L5 but the total deadline or a '' @
                ''cancellation expired before its batch completed'')
             else if list_all (\<lambda>c. vc_result c = PStr ''error'') (out ! i) then
               (''judge_error'', ''the judge attempted this finding and returned no verdict'')
             else (''judged'', ''an L5 verdict exists for this finding''))
          else (''skipped_not_selected'', ''not selected for L5''))"

definition stamp_coverage_all :: "selection \<Rightarrow> l5_state \<Rightarrow> l5_state" where
  "stamp_coverage_all sel s = s\<lparr>ls_findings :=
     map (\<lambda>(i, f). case coverage_of sel (ls_out s) i of (result, reason) \<Rightarrow> stamp_coverage result reason f)
       (enum_from 0 (ls_findings s))\<rparr>"

section \<open>The layer\<close>

text \<open>What the pool hands to the consumer: completed batches by index, each with its verdicts.\<close>

type_synonym pool_events = "(nat \<times> verdict_table) list"

text \<open>The per-batch callback on the indices of the batch; it may mutate their findings, and raise.\<close>

type_synonym emit_batch = "nat list \<Rightarrow> l5_state \<Rightarrow> unit result \<times> l5_state"

fun run_pool ::
  "env \<Rightarrow> string \<Rightarrow> emit_batch option \<Rightarrow> batch list \<Rightarrow> pool_events \<Rightarrow> l5_state \<Rightarrow> unit result \<times> l5_state" where
  "run_pool env model emit batches [] s = (Ret (), s)"
| "run_pool env model emit batches ((b, verdicts) # es) s =
     (if length batches \<le> b then run_pool env model emit batches es s
      else case apply_batch_result env model b verdicts (batches ! b) s of
        (Inl e, s1) \<Rightarrow> (Raise e, s1)
      | (Inr _, s1) \<Rightarrow> (case emit of
          None \<Rightarrow> run_pool env model emit batches es s1
        | Some f \<Rightarrow> (case f (map fst (batches ! b)) s1 of
            (Inl e, s2) \<Rightarrow> (Raise e, s2)
          | (Inr _, s2) \<Rightarrow> run_pool env model emit batches es s2)))"

text \<open>The resolved runtime: the model and the batch size, or nothing when no model or prompt resolves.\<close>

type_synonym l5_runtime = "(string \<times> int) option"

definition no_runtime_skip :: skip where
  "no_runtime_skip = (''judge_error'', ''no judge runtime resolved (model or prompt unavailable)'')"

text \<open>After the pool: the safeguards, then the coverage of every finding.\<close>

definition finish_l5 :: "env \<Rightarrow> selection \<Rightarrow> l5_state \<Rightarrow> unit result \<times> l5_state" where
  "finish_l5 env sel s = (case apply_l5_safeguards env (fst sel) s of
     Inl e \<Rightarrow> (Raise e, s)
   | Inr s' \<Rightarrow> (Ret (), stamp_coverage_all sel s'))"

definition judge_selected ::
  "env \<Rightarrow> l5_runtime \<Rightarrow> (batch list \<Rightarrow> pool_events) \<Rightarrow> emit_batch option \<Rightarrow> selection \<Rightarrow> l5_state \<Rightarrow>
   unit result \<times> l5_state" where
  "judge_selected env rt pool emit sel s =
     (case rt of
        None \<Rightarrow> (Ret (), stamp_coverage_all
          (fst sel, foldl (\<lambda>d i. AList.update i no_runtime_skip d) (snd sel) (fst sel)) s)
      | Some (model, batch_size) \<Rightarrow> (case batch_findings (ls_findings s) (fst sel) batch_size of
          Inl e \<Rightarrow> (Raise e, s)
        | Inr batches \<Rightarrow> (case run_pool env model emit batches (pool batches) s of
            (Inl e, s1) \<Rightarrow> (Raise e, s1)
          | (Inr _, s1) \<Rightarrow> finish_l5 env sel s1)))"

definition run_l5 ::
  "env \<Rightarrow> validate_config \<Rightarrow> l5_runtime \<Rightarrow> (batch list \<Rightarrow> pool_events) \<Rightarrow> emit_batch option \<Rightarrow>
   validation_check list list \<Rightarrow> pydict list \<Rightarrow> unit result \<times> l5_state" where
  "run_l5 env config rt pool emit l1_results findings =
     (let s = \<lparr>ls_findings = findings, ls_out = map (\<lambda>_. []) findings\<rparr> in
      case bind_result (resolve_top_n env config) (classify_selection findings l1_results) of
        Inl e \<Rightarrow> (Raise e, s)
      | Inr sel \<Rightarrow>
          if fst sel = [] then (Ret (), stamp_coverage_all sel s) else judge_selected env rt pool emit sel s)"

section \<open>Safeguards\<close>



lemma safe_check_cases:
  assumes "safe_check env tripped f c = Ret c'"
  obtains "\<not> l5_check_is_demoting c" "c' = c"
  | r where "l5_check_is_demoting c" "c' = neutralize_l5_check r c" "tripped \<or> exemption_reason env f c = Ret (Some r)"
  | "l5_check_is_demoting c" "c' = c" "\<not> tripped" "exemption_reason env f c = Ret None"
proof (cases "l5_check_is_demoting c")
  case False
  then have "c' = c" using assms by (simp add: safe_check_def)
  then show ?thesis using False that(1) by blast
next
  case True
  then obtain r where r: "(if tripped then Ret (Some ''rc6_blast_radius_cap'') else exemption_reason env f c) = Ret r"
    "c' = (case r of None \<Rightarrow> c | Some reason \<Rightarrow> neutralize_l5_check reason c)"
    using assms by (auto simp: safe_check_def bind_result_Ret)
  show ?thesis
  proof (cases r)
    case None
    then have "c' = c" "\<not> tripped" "exemption_reason env f c = Ret None" using r by (simp_all split: if_splits)
    then show ?thesis using True that(3) by blast
  next
    case (Some x)
    then have "c' = neutralize_l5_check x c" "tripped \<or> exemption_reason env f c = Ret (Some x)"
      using r by (simp_all split: if_splits)
    then show ?thesis using True that(2) by blast
  qed
qed










section \<open>Selection covers every finding\<close>

lemma take_drop_py: "py_take n xs @ py_drop n xs = xs"
  by (simp add: py_take_def py_drop_def)

lemma mset_triaged:
  "mset (List.map_filter (\<lambda>(i, t). case t of Inl s \<Rightarrow> Some i | Inr _ \<Rightarrow> None) ts)
   + mset (List.map_filter (\<lambda>(i, t). case t of Inl _ \<Rightarrow> None | Inr p \<Rightarrow> Some i) ts) = mset (map fst ts)"
  by (induction ts) (auto simp: List.map_filter_simps split: sum.splits)

lemma map_map_filter: "map g (List.map_filter f xs) = List.map_filter (\<lambda>x. map_option g (f x)) xs"
  by (induction xs) (auto simp: List.map_filter_simps split: option.splits)

lemma select_from_mset:
  assumes "select_from ts n = (sel, skips)"
  shows "mset (sel @ map fst skips) = mset (map fst ts)"
proof -
  let ?skips = "List.map_filter (\<lambda>(i, t). case t of Inl s \<Rightarrow> Some (i, s) | Inr _ \<Rightarrow> None) ts"
  let ?cand = "List.map_filter (\<lambda>(i, t). case t of Inl _ \<Rightarrow> None | Inr p \<Rightarrow> Some (p, i)) ts"
  let ?ranked = "sort_key (\<lambda>(p, _). - p) ?cand"
  have s: "map fst ?skips = List.map_filter (\<lambda>(i, t). case t of Inl s \<Rightarrow> Some i | Inr _ \<Rightarrow> None) ts"
    unfolding map_map_filter by (rule arg_cong2 [where f = List.map_filter]) (auto split: sum.splits)
  have c: "map snd ?cand = List.map_filter (\<lambda>(i, t). case t of Inl _ \<Rightarrow> None | Inr p \<Rightarrow> Some i) ts"
    unfolding map_map_filter by (rule arg_cong2 [where f = List.map_filter]) (auto split: sum.splits)
  have "mset (map snd (py_take n ?ranked)) + mset (map snd (py_drop n ?ranked)) = mset (map snd (py_take n ?ranked @ py_drop n ?ranked))"
    by (simp only: map_append mset_append)
  also have "\<dots> = mset (map snd ?ranked)" by (simp only: take_drop_py)
  also have "\<dots> = mset (map snd ?cand)" by simp
  finally have r: "mset (map snd (py_take n ?ranked)) + mset (map snd (py_drop n ?ranked)) = mset (map snd ?cand)" .
  have eqs: "sel = map snd (py_take n ?ranked)" "map fst skips = map fst ?skips @ map snd (py_drop n ?ranked)"
    using assms by (auto simp: select_from_def Let_def comp_def split_def)
  have "mset (sel @ map fst skips) =
      mset (map fst ?skips) + (mset (map snd (py_take n ?ranked)) + mset (map snd (py_drop n ?ranked)))"
    unfolding eqs by (simp only: mset_append ac_simps)
  then show ?thesis unfolding r s c mset_triaged .
qed

lemma length_py_take: "0 \<le> n \<Longrightarrow> length (py_take n xs) \<le> nat n"
  by simp

text \<open>Selection loses nothing: of every batch of findings each index is either selected for the judge or
  skipped with a reason, exactly once, and at most \<open>top_n\<close> are selected.\<close>

theorem selection_covers_every_finding:
  assumes "classify_selection findings l1 top_n = Ret (sel, skips)"
  shows "distinct (sel @ map fst skips) \<and> set (sel @ map fst skips) = {..<length findings}
    \<and> (0 \<le> top_n \<longrightarrow> int (length sel) \<le> top_n)"
proof -
  obtain ts where ts: "map_result (\<lambda>(i, f). triage f (if i < length l1 then Some (l1 ! i) else None)) (enum_from 0 findings) = Ret ts"
    "select_from (enum_from 0 ts) top_n = (sel, skips)"
    using assms by (auto simp: classify_selection_def bind_result_Ret)
  have len: "length ts = length findings" using map_result_length [OF ts(1)] by simp
  have m: "mset (sel @ map fst skips) = mset [0..<length findings]"
    using select_from_mset [OF ts(2)] len by (simp add: map_fst_enum_from)
  have "distinct (sel @ map fst skips)" using mset_eq_imp_distinct_iff [OF m] by simp
  moreover have "set (sel @ map fst skips) = {..<length findings}" using mset_eq_setD [OF m] by (simp add: atLeast0LessThan)
  moreover have "int (length sel) \<le> top_n" if "0 \<le> top_n"
    using ts(2) that by (auto simp: select_from_def Let_def)
  ultimately show ?thesis by blast
qed

lemma in_py_take: "x \<in> set (py_take n xs) \<Longrightarrow> y \<in> set (py_drop n xs) \<Longrightarrow> sorted (map f xs) \<Longrightarrow> f x \<le> f y"
proof -
  assume xy: "x \<in> set (py_take n xs)" "y \<in> set (py_drop n xs)" and "sorted (map f xs)"
  then have "sorted (map f (py_take n xs) @ map f (py_drop n xs))" by (simp flip: map_append add: take_drop_py)
  then show ?thesis using xy by (auto simp: sorted_append)
qed

text \<open>The budget goes to the highest priorities: no finding left out for the budget ranks above one that was
  selected.\<close>

theorem budget_goes_to_the_highest_priority:
  assumes "select_from (enum_from 0 ts) top_n = (sel, skips)"
    and "i \<in> set sel" and "(j, sk) \<in> set skips" and "j < length ts" and "ts ! i = Inr p" and "ts ! j = Inr q"
  shows "q \<le> p"
proof -
  let ?f = "\<lambda>(i, t). case t of Inl _ \<Rightarrow> None | Inr p \<Rightarrow> Some (p, i)"
  let ?ranked = "sort_key (\<lambda>(p, _). - p) (List.map_filter ?f (enum_from 0 ts))"
  have own: "(r, k) \<in> set ?ranked \<Longrightarrow> ts ! k = Inr r" for r k
    by (auto simp: in_set_map_filter in_set_enum_from split: sum.splits)
  obtain p' where p': "(p', i) \<in> set (py_take top_n ?ranked)"
    using assms(1,2) by (auto simp: select_from_def Let_def)
  have all: "set ?ranked = set (py_take top_n ?ranked) \<union> set (py_drop top_n ?ranked)"
    by (metis take_drop_py set_append)
  have "p' = p" using own [of p' i] p' all assms(5) by auto
  have skip: "sk' = sk' \<Longrightarrow> (j, sk) \<notin> set (List.map_filter (\<lambda>(i, t). case t of Inl s \<Rightarrow> Some (i, s) | Inr _ \<Rightarrow> None) (enum_from 0 ts))" for sk'
    using assms(4,6) by (auto simp: in_set_map_filter in_set_enum_from split: sum.splits)
  then obtain q' where q': "(q', j) \<in> set (py_drop top_n ?ranked)"
    using assms(1,3) by (auto simp: select_from_def Let_def)
  have "q' = q" using own [of q' j] q' all assms(6) by auto
  have "sorted (map (\<lambda>(p, _). - p) ?ranked)" by (rule sorted_sort_key)
  from in_py_take [OF p' q' this] show ?thesis using \<open>p' = p\<close> \<open>q' = q\<close> by simp
qed

section \<open>Skipped as dismissed\<close>

text \<open>What is skipped as already dismissed is dismissed: over finite weights, whenever the selection leaves a
  finding out as destined for \<open>likely_fp\<close>, the voter gives its checks that status.\<close>

theorem skipped_as_dismissed_is_dismissed:
  assumes "list_all (\<lambda>c. fl_finite (vc_weight c)) checks" and "l5_candidate_provisional checks = None"
  shows "fst (vote checks) = ''likely_fp''"
proof (cases "has_authoritative_demotion checks \<or> is_refuted checks")
  case True
  then show ?thesis by (auto simp: vote_def Let_def)
next
  case False
  have "\<not> suppressed checks"
    using False by (auto simp: suppressed_def has_authoritative_demotion_def AUTHORITATIVE_CHECKS_def list_ex_iff)
  then have low: "fl_less (provisional_confidence checks) (FFin (fl64 (30 / 100)))" and two: "2 \<le> count_demoting checks"
    using assms(2) by (auto simp: l5_candidate_provisional_def Let_def split: if_splits)
  obtain a where a: "py_sum (map vc_weight checks) = FFin a"
    using assms(1) by (auto simp: py_sum_def list_all_iff)
  obtain hi where hi: "vote_ceiling checks = FFin hi" "fl64 (99 / 100) \<le> hi"
    using ceiling_le_1 by (cases "has_authoritative_positive checks")
      (auto simp: vote_ceiling_def CONFIDENCE_CEILING_UNVERIFIED_def)
  have t: "0 < fl64 (30 / 100)" by code_simp
  have "fl64 (30 / 100) \<le> fl64 (99 / 100)" by (rule fl64_mono) simp
  then have order: "fl64 (30 / 100) \<le> hi" using hi(2) by linarith
  have one: "fl64 (30 / 100) \<le> 1" using fl64_unit [of "30 / 100"] by simp
  have "fl_less (vote_confidence checks) (FFin (fl64 (30 / 100)))"
  proof (cases "fl_add (FFin (1 / 2)) (FFin a)")
    case FNan
    then show ?thesis using fl_add_not_nan by blast
  next
    case (FInf neg)
    then show ?thesis using low t one hi(1)
      by (cases neg) (auto simp: vote_confidence_def provisional_confidence_def a vote_clamp_def py_max_def py_min_def fl64_double)
  next
    case (FFin x)
    then show ?thesis using low t one hi(1) order
      by (auto simp: vote_confidence_def provisional_confidence_def a vote_clamp_def py_max_def py_min_def
          simp del: fl_add.simps split: if_splits)
  qed
  then show ?thesis using two False by (simp add: vote_def vote_classify_def Let_def)
qed

text \<open>An anchor proven absent is not such a reason: the rule the selection mirrors knows the suppression
  marker only, so a finding the voter dismisses because its quote is absent is still sent to the judge.\<close>

theorem absent_anchor_still_reaches_the_judge:
  "let checks = [new_check ANCHOR_CHECK_ID ''absent'' (-1) [] []] in
   fst (vote checks) = ''likely_fp'' \<and> l5_candidate_provisional checks \<noteq> None"
  by (simp add: vote_def has_authoritative_demotion_def AUTHORITATIVE_CHECKS_def negative_def Let_def
      l5_candidate_provisional_def suppressed_def ANCHOR_CHECK_ID_def count_demoting_def)

section \<open>One coverage check each\<close>

definition coverage_count :: "pydict \<Rightarrow> nat" where
  "coverage_count f = length (filter (check_has_id COVERAGE_ID) (validation_checks f))"

lemma validation_checks_append:
  "validation_checks (append_check c f) = validation_checks f @ [PDict (check_to_json c)]"
proof -
  have "validation_checks f = (case as_list (get (case as_dict (get f ''validation'') of Some b \<Rightarrow> b
      | None \<Rightarrow> [(''checks'', PList [])]) ''checks'') of Some cs \<Rightarrow> cs | None \<Rightarrow> [])"
    by (auto simp: validation_checks_def get_or_def split: option.splits)
  then show ?thesis by (simp add: append_check_def validation_checks_def [of "put _ _ _"] Let_def)
qed

lemma has_id_json: "check_has_id k (PDict (check_to_json c)) \<longleftrightarrow> vc_id c = PStr k"
  by (simp add: check_has_id_def check_to_json_def get_or_def)

lemma coverage_count_append:
  "coverage_count (append_check c f) = coverage_count f + of_bool (vc_id c = PStr COVERAGE_ID)"
  by (simp add: coverage_count_def validation_checks_append has_id_json)

lemma validation_checks_rewrite: "validation_checks (rewrite_l5_check c f) =
    map (\<lambda>x. if check_has_id ''llm_judge'' x then PDict (check_to_json c) else x) (validation_checks f)"
  by (auto simp: rewrite_l5_check_def validation_checks_def as_dict_Some split: option.splits)

lemma coverage_count_rewrite:
  assumes "vc_id c = PStr ''llm_judge''"
  shows "coverage_count (rewrite_l5_check c f) = coverage_count f"
proof -
  have "check_has_id COVERAGE_ID (if check_has_id ''llm_judge'' x then PDict (check_to_json c) else x)
      \<longleftrightarrow> check_has_id COVERAGE_ID x" for x
    using assms has_id_json [of COVERAGE_ID c] by (auto simp: COVERAGE_ID_def check_has_id_def split: pyval.splits)
  then show ?thesis by (simp add: coverage_count_def validation_checks_rewrite filter_map comp_def)
qed

lemma verdict_check_ids: "vc_id (verdict_to_check env d model b lang f) = PStr ''llm_judge''"
    "vc_id (no_verdict_check model b lang) = PStr ''llm_judge''"
  by (simp_all add: no_verdict_check_def verdict_to_check_def)

lemma verdict_check_id: "batch_check env model b vs i lang f = Ret c \<Longrightarrow> vc_id c = PStr ''llm_judge''"
  using verdict_check_ids by (auto simp: batch_check_def bind_result_Ret split: option.splits)

definition uncovered :: "l5_state \<Rightarrow> bool" where
  "uncovered s = (\<forall>f \<in> set (ls_findings s). coverage_count f = 0)"

lemma uncovered_update:
  assumes "uncovered s" and "i < length (ls_findings s) \<Longrightarrow> coverage_count f = 0"
  shows "uncovered (s\<lparr>ls_findings := (ls_findings s)[i := f], ls_out := out\<rparr>)"
proof (cases "i < length (ls_findings s)")
  case True
  then show ?thesis using assms set_update_subset_insert [of "ls_findings s" i f] by (auto simp: uncovered_def)
qed (use assms in \<open>simp add: uncovered_def list_update_beyond\<close>)

lemma apply_batch_uncovered:
  "apply_batch_result env model b vs es s = (r, s') \<Longrightarrow> uncovered s \<Longrightarrow>
   uncovered s' \<and> length (ls_findings s') = length (ls_findings s)"
proof (induction env model b vs es s rule: apply_batch_result.induct)
  case (2 env model b vs i lang rest s)
  show ?case
  proof (cases "batch_check env model b vs i lang (ls_findings s ! i)")
    case (Inl e)
    then show ?thesis using "2.prems" by auto
  next
    case (Inr c)
    have "uncovered (judge_one i c s)"
      unfolding judge_one_def
      by (rule uncovered_update [OF "2.prems"(2)])
        (use "2.prems"(2) verdict_check_id [OF Inr] in
          \<open>simp add: coverage_count_append uncovered_def COVERAGE_ID_def\<close>)
    then show ?thesis using "2.IH" [OF Inr] "2.prems" Inr by (simp add: judge_one_def)
  qed
qed simp

lemma run_pool_uncovered:
  "run_pool env model None batches es s = (r, s') \<Longrightarrow> uncovered s \<Longrightarrow>
   uncovered s' \<and> length (ls_findings s') = length (ls_findings s)"
proof (induction es arbitrary: s)
  case (Cons e es)
  obtain b vs where e: "e = (b, vs)" by fastforce
  show ?case
  proof (cases "length batches \<le> b")
    case True
    then show ?thesis using Cons e by simp
  next
    case False
    obtain r1 s1 where a: "apply_batch_result env model b vs (batches ! b) s = (r1, s1)" by fastforce
    note keep = apply_batch_uncovered [OF a Cons.prems(2)]
    show ?thesis
    proof (cases r1)
      case (Inl x)
      then show ?thesis using Cons.prems(1) False e a keep by simp
    next
      case (Inr u)
      then show ?thesis using Cons.IH [of s1] Cons.prems(1) False e a keep by simp
    qed
  qed
qed simp

lemma rewrite_all_uncovered:
  assumes "\<forall>(old, new) \<in> set ps. old = new \<or> vc_id new = PStr ''llm_judge''" and "coverage_count f = 0"
  shows "coverage_count (foldl (\<lambda>f (old, new). if old = new then f else rewrite_l5_check new f) f ps) = 0"
  using assms by (induction ps arbitrary: f) (auto simp: coverage_count_rewrite)

lemma safe_rewrites_ids:
  "map_result (safe_check env t f) cs = Ret ds \<Longrightarrow>
   \<forall>(old, new) \<in> set (zip cs ds). old = new \<or> vc_id new = PStr ''llm_judge''"
  by (induction cs arbitrary: ds) (auto simp: bind_result_Ret neutralize_l5_check_def elim!: safe_check_cases)

lemma safeguard_all_uncovered:
  "safeguard_all env t js s = Ret s' \<Longrightarrow> uncovered s \<Longrightarrow>
   uncovered s' \<and> length (ls_findings s') = length (ls_findings s)"
proof (induction js arbitrary: s)
  case (Cons i js)
  obtain safe where safe: "map_result (safe_check env t (ls_findings s ! i)) (ls_out s ! i) = Ret safe"
    using Cons.prems(1) by (auto simp: safeguard_one_def bind_result_Ret Let_def)
  let ?f = "foldl (\<lambda>f (old, new). if old = new then f else rewrite_l5_check new f) (ls_findings s ! i) (zip (ls_out s ! i) safe)"
  let ?s1 = "s\<lparr>ls_findings := (ls_findings s)[i := ?f], ls_out := (ls_out s)[i := safe]\<rparr>"
  from safe_rewrites_ids [OF safe] have "coverage_count ?f = 0" if "i < length (ls_findings s)"
    by (rule rewrite_all_uncovered) (use that Cons.prems(2) in \<open>simp add: uncovered_def\<close>)
  then have u: "uncovered ?s1" by (rule uncovered_update [OF Cons.prems(2)])
  have "safeguard_all env t js ?s1 = Ret s'" using Cons.prems(1) safe by (simp add: safeguard_one_def Let_def)
  from Cons.IH [OF this u] show ?case by simp
qed simp

lemma safeguards_uncovered:
  "apply_l5_safeguards env sel s = Ret s' \<Longrightarrow> uncovered s \<Longrightarrow>
   uncovered s' \<and> length (ls_findings s') = length (ls_findings s)"
  using safeguard_all_uncovered
  by (auto simp: apply_l5_safeguards_def bind_result_Ret Let_def split: if_splits)

text \<open>The skips of a selection use the closed vocabulary.\<close>

definition skips_known :: "(nat \<times> skip) list \<Rightarrow> bool" where
  "skips_known skips = (\<forall>(i, sk) \<in> set skips. fst sk \<in> set COVERAGE_RESULTS)"

lemma triage_skip: "triage f l1 = Ret (Inl sk) \<Longrightarrow> fst sk \<in> set COVERAGE_RESULTS"
  by (auto simp: triage_def bind_result_Ret NO_WINDOW_SKIP_def SUPPRESSED_SKIP_def LIKELY_FP_SKIP_def
      COVERAGE_RESULTS_def split: if_splits option.splits)

lemma classify_skips_known:
  assumes "classify_selection findings l1 top_n = Ret (sel, skips)"
  shows "skips_known skips"
proof -
  obtain ts where ts: "map_result (\<lambda>(i, f). triage f (if i < length l1 then Some (l1 ! i) else None)) (enum_from 0 findings) = Ret ts"
    "select_from (enum_from 0 ts) top_n = (sel, skips)"
    using assms by (auto simp: classify_selection_def bind_result_Ret)
  have "fst sk \<in> set COVERAGE_RESULTS" if "Inl sk \<in> set ts" for sk
    using in_map_result [OF ts(1), of "Inl sk"] that by (auto dest: triage_skip)
  then have at: "fst sk \<in> set COVERAGE_RESULTS" if "ts ! k = Inl sk" "k < length ts" for sk k
    using that by (metis nth_mem)
  have ns: "(r, w) = not_selected_skip top_n k \<Longrightarrow> r \<in> set COVERAGE_RESULTS" for r w k
    by (simp add: not_selected_skip_def COVERAGE_RESULTS_def)
  let ?skips = "List.map_filter (\<lambda>(i, t). case t of Inl s \<Rightarrow> Some (i, s) | Inr _ \<Rightarrow> None) (enum_from 0 ts)"
  have "fst sk \<in> set COVERAGE_RESULTS" if "(k, sk) \<in> set ?skips" for k sk
  proof -
    have "k < length ts \<and> ts ! k = Inl sk"
      using that by (auto simp: in_set_map_filter in_set_enum_from split: sum.splits)
    then show ?thesis using at by blast
  qed
  then show ?thesis using ts(2) by (auto simp: skips_known_def select_from_def Let_def dest: ns)
qed

lemma coverage_of_known:
  assumes "skips_known (snd sel)"
  shows "fst (coverage_of sel out i) \<in> set COVERAGE_RESULTS"
proof (cases "map_of (snd sel) i")
  case None
  then show ?thesis by (simp add: coverage_of_def COVERAGE_RESULTS_def)
next
  case (Some sk)
  then show ?thesis using assms map_of_SomeD [OF Some] by (auto simp: coverage_of_def skips_known_def)
qed

lemma skips_known_update: "skips_known d \<Longrightarrow> fst sk \<in> set COVERAGE_RESULTS \<Longrightarrow> skips_known (foldl (\<lambda>d i. AList.update i sk d) d is)"
proof (induction "is" arbitrary: d)
  case (Cons i "is")
  have "set (AList.update i sk d) \<subseteq> insert (i, sk) (set d)" by (induction d) auto
  then have "skips_known (AList.update i sk d)" using Cons.prems unfolding skips_known_def by blast
  then show ?case using Cons by simp
qed simp

definition covered_once :: "pydict \<Rightarrow> bool" where
  "covered_once f = (\<exists>c. filter (check_has_id COVERAGE_ID) (validation_checks f) = [PDict (check_to_json c)]
     \<and> vc_result c \<in> PStr ` set COVERAGE_RESULTS \<and> vc_weight c = FFin 0)"

lemma stamp_covers:
  assumes "coverage_count f = 0" and "r \<in> set COVERAGE_RESULTS"
  shows "covered_once (stamp_coverage r why f)"
proof -
  let ?c = "new_check COVERAGE_ID r 0 why [(''provenance'', py_or (get f ''provenance'') (PStr ''skill''))]"
  have no: "filter (check_has_id COVERAGE_ID) (validation_checks f) = []" using assms(1) by (simp add: coverage_count_def)
  then have "stamp_coverage r why f = append_check ?c f"
    by (auto simp: stamp_coverage_def filter_empty_conv list_ex_iff)
  then have "filter (check_has_id COVERAGE_ID) (validation_checks (stamp_coverage r why f)) = [PDict (check_to_json ?c)]"
    using no by (simp add: validation_checks_append has_id_json)
  then show ?thesis using assms(2) unfolding covered_once_def by (intro exI [of _ ?c]) simp
qed

lemma stamp_all_covers:
  assumes "uncovered s" and "skips_known (snd sel)"
  shows "length (ls_findings (stamp_coverage_all sel s)) = length (ls_findings s)
    \<and> (\<forall>f \<in> set (ls_findings (stamp_coverage_all sel s)). covered_once f)"
proof -
  have "covered_once (case coverage_of sel (ls_out s) i of (r, why) \<Rightarrow> stamp_coverage r why f)"
    if "(i, f) \<in> set (enum_from 0 (ls_findings s))" for i f
  proof -
    obtain r why where c: "coverage_of sel (ls_out s) i = (r, why)" by fastforce
    have "coverage_count f = 0" using that assms(1) by (auto simp: uncovered_def in_set_enum_from)
    then show ?thesis using c stamp_covers coverage_of_known [OF assms(2), of "ls_out s" i] by simp
  qed
  then show ?thesis by (auto simp: stamp_coverage_all_def)
qed

text \<open>Every finding says what happened to it: when the judge layer returns, each finding carries exactly one
  coverage check, of weight zero and with a result of the closed vocabulary, whatever the selection,
  the dropped batches and the verdicts were.\<close>

theorem every_finding_gets_one_coverage_check:
  assumes "run_l5 env config rt pool None l1 findings = (Ret (), s)"
    and "\<forall>f \<in> set findings. filter (check_has_id COVERAGE_ID) (validation_checks f) = []"
  shows "length (ls_findings s) = length findings \<and>
    (\<forall>f \<in> set (ls_findings s). \<exists>c. filter (check_has_id COVERAGE_ID) (validation_checks f) = [PDict (check_to_json c)]
      \<and> vc_result c \<in> PStr ` set COVERAGE_RESULTS \<and> vc_weight c = FFin 0)"
proof -
  let ?s0 = "\<lparr>ls_findings = findings, ls_out = map (\<lambda>_. []) findings\<rparr>"
  have u0: "uncovered ?s0" using assms(2) by (simp add: uncovered_def coverage_count_def)
  obtain sel skips where sel: "bind_result (resolve_top_n env config) (classify_selection findings l1) = Ret (sel, skips)"
    using assms(1) by (auto simp: run_l5_def Let_def split: sum.splits)
  then have known: "skips_known skips" using classify_skips_known by (auto simp: bind_result_Ret)
  have "\<exists>sel' s1. s = stamp_coverage_all sel' s1 \<and> skips_known (snd sel') \<and> uncovered s1
      \<and> length (ls_findings s1) = length findings"
  proof (cases "sel = [] \<or> rt = None")
    case True
    let ?sel = "if sel = [] then (sel, skips) else (sel, foldl (\<lambda>d i. AList.update i no_runtime_skip d) skips sel)"
    have "s = stamp_coverage_all ?sel ?s0"
      using assms(1) sel True by (auto simp: run_l5_def judge_selected_def Let_def split: if_splits)
    moreover have "skips_known (snd ?sel)"
      using known skips_known_update [OF known, of no_runtime_skip] by (simp add: no_runtime_skip_def COVERAGE_RESULTS_def)
    ultimately show ?thesis using u0 by (intro exI [of _ ?sel] exI [of _ ?s0]) simp
  next
    case False
    then obtain model size where rt: "rt = Some (model, size)" by auto
    then obtain batches where b: "batch_findings findings sel size = Ret batches"
      using assms(1) sel False by (auto simp: run_l5_def judge_selected_def Let_def split: sum.splits)
    obtain r s1 where p: "run_pool env model None batches (pool batches) ?s0 = (r, s1)" by fastforce
    note k1 = run_pool_uncovered [OF p u0]
    have run: "run_l5 env config rt pool None l1 findings = (case r of Inl e \<Rightarrow> (Raise e, s1) | Inr _ \<Rightarrow> finish_l5 env (sel, skips) s1)"
      using sel False rt b p by (simp add: run_l5_def judge_selected_def Let_def)
    then obtain s2 where g: "apply_l5_safeguards env sel s1 = Ret s2" "s = stamp_coverage_all (sel, skips) s2"
      using assms(1) by (auto simp: finish_l5_def split: sum.splits)
    then show ?thesis using safeguards_uncovered [OF g(1)] k1 known by auto
  qed
  then obtain sel' s1 where "s = stamp_coverage_all sel' s1" "skips_known (snd sel')" "uncovered s1"
    "length (ls_findings s1) = length findings" by blast
  then show ?thesis using stamp_all_covers [of s1 sel'] by (simp add: covered_once_def)
qed

end
