(* ===== verification/Judge_Examples.thy ===== *)
theory Judge_Examples
  imports Judge
begin












definition ex_bare :: pydict where "ex_bare = [(''id'', PStr ''q'')]"

lemma ex_selection: "0 \<le> n \<Longrightarrow> classify_selection [ex_bare] [[]] n = Ret ([], [(0, NO_WINDOW_SKIP)])"
proof -
  have "strip ([] :: string) = []" by code_simp
  then have "triage ex_bare (Some []) = Ret (Inl NO_WINDOW_SKIP)"
    by (simp add: triage_def has_code_window_def ex_bare_def get_or_def py_or_def)
  then show "0 \<le> n \<Longrightarrow> ?thesis"
    by (simp add: classify_selection_def select_from_def List.map_filter_simps py_drop_def Let_def)
qed

theorem selection_covers_every_finding_witness:
  "distinct ([] @ map fst [(0 :: nat, NO_WINDOW_SKIP)]) \<and> set ([] @ map fst [(0 :: nat, NO_WINDOW_SKIP)]) = {..<length [ex_bare]}"
  using selection_covers_every_finding [OF ex_selection [of 5]] by simp

theorem budget_goes_to_the_highest_priority_witness: "(1 :: rat) \<le> 2"
proof -
  have "select_from (enum_from 0 [Inr 1, Inr 2]) 1 = ([1], [(0, not_selected_skip 1 2)])"
    by (simp add: select_from_def List.map_filter_simps py_drop_def Let_def numeral_2_eq_2)
  from budget_goes_to_the_highest_priority [OF this, of 1 0 "not_selected_skip 1 2" 2 1] show ?thesis by simp
qed

definition ex_two :: "validation_check list" where
  "ex_two = [new_check ''path'' ''test_file'' (-1 / 2) [] [], new_check ''sanitizer'' ''matched'' (-1 / 4) [] []]"

theorem skipped_as_dismissed_is_dismissed_witness: "fst (vote ex_two) = ''likely_fp''"
proof (rule skipped_as_dismissed_is_dismissed)
  have sum: "py_fsum [- 1 / 2, - 1 / 4] = - 3 / 4" "fl64 (- 1 / 4) = - 1 / 4" "0 < fl64 (30 / 100)" by code_simp+
  then have add: "fl_add (FFin (1 / 2)) (FFin (- 3 / 4)) = FFin (- 1 / 4)" by (simp add: to_double_def)
  show "l5_candidate_provisional ex_two = None"
    using sum add by (simp add: l5_candidate_provisional_def suppressed_def provisional_confidence_def ex_two_def
        py_sum_def count_demoting_def negative_def py_max_def py_min_def Let_def)
qed (simp add: ex_two_def)

theorem every_finding_gets_one_coverage_check_witness:
  "\<exists>s. run_l5 (\<lambda>_. None) default_config None (\<lambda>_. []) None [[]] [ex_bare] = (Ret (), s)
    \<and> length (ls_findings s) = 1"
proof -
  have "resolve_top_n (\<lambda>_. None) default_config = Ret 1000" by code_simp
  then obtain s where s: "run_l5 (\<lambda>_. None) default_config None (\<lambda>_. []) None [[]] [ex_bare] = (Ret (), s)"
    by (simp add: run_l5_def ex_selection Let_def)
  have "\<forall>f \<in> set [ex_bare]. filter (check_has_id COVERAGE_ID) (validation_checks f) = []"
    by (simp add: ex_bare_def validation_checks_def get_or_def)
  from every_finding_gets_one_coverage_check [OF s this] s show ?thesis by auto
qed

end
