(* ===== verification/Validate_Stage.thy ===== *)
theory Validate_Stage
  imports Judge Rollup "HOL-Library.Char_ord" "HOL-Library.List_Lexorder"
begin

text \<open>
  The validation stage (\<open>shared/validate/__init__.py\<close>): layer L1, layer L2, the provisional vote, the judge
  layer L5 with its two finalisers, and the summary; with the deletion of the private fields
  (\<open>_strip_private_fields\<close> of \<open>shared/audit_runner.py\<close>) every voted row goes through.

  L1, the clock, the quote store, the answers of the judge and the caller's stream callback are the
  fields of \<open>stage_world\<close>. Lists and findings the code mutates in place are returned updated, also when
  the mutation is cut short by an exception. A character outside ASCII is its UTF-8 bytes.

  The lemmas: what the stage keeps of every row, stated once as the locale \<open>row_invariant\<close> over the
  writes of L5 and \<open>stage_invariant\<close> over the whole stage, and interpreted on each promise of the stage.
\<close>

section \<open>Switches\<close>

definition is_enabled :: "env \<Rightarrow> pydict option \<Rightarrow> bool" where
  "is_enabled env config =
     (if lower (getenv env ''VULTURE_DISABLE_VALIDATE'' []) = ''true'' then False
      else case config of None \<Rightarrow> True | Some c \<Rightarrow> \<not> truthy (get c ''disable_validate''))"

definition resolve_l5_enabled :: "env \<Rightarrow> validate_config \<Rightarrow> bool" where
  "resolve_l5_enabled env cfg = (case cf_enable_l5_override cfg of
     Some b \<Rightarrow> b
   | None \<Rightarrow> (let e = lower (strip (getenv env ''VULTURE_USE_VALIDATE_LLM'' [])) in
       if e \<in> {''true'', ''1'', ''yes''} then True
       else if e \<in> {''false'', ''0'', ''no''} then False
       else cf_enable_l5 cfg))"

section \<open>World and log\<close>

record stage_world =
  sw_gate :: gate_world
  sw_now :: string
  sw_elapsed :: "string \<Rightarrow> int"
  sw_store :: "string \<Rightarrow> string option"
  sw_digest :: "string \<Rightarrow> string"
  sw_l1 :: "pydict list \<Rightarrow> string \<Rightarrow> gate_state \<Rightarrow> validation_check list list result \<times> gate_state"
  sw_runtime :: l5_runtime
  sw_pool :: "batch list \<Rightarrow> pool_events"
  sw_emit :: "(pydict list \<Rightarrow> unit result) option"

record stage_log =
  lg_events :: "string list"
  lg_layers :: "string list"
  lg_durations :: "(string \<times> int) list"

definition log_event :: "string \<Rightarrow> stage_log \<Rightarrow> stage_log" where
  "log_event t lg = lg\<lparr>lg_events := lg_events lg @ [t]\<rparr>"

definition log_layer :: "string \<Rightarrow> stage_log \<Rightarrow> stage_log" where
  "log_layer t lg = lg\<lparr>lg_layers := lg_layers lg @ [t]\<rparr>"

definition log_time :: "stage_world \<Rightarrow> string \<Rightarrow> stage_log \<Rightarrow> stage_log" where
  "log_time w t lg = lg\<lparr>lg_durations := AList.update t (sw_elapsed w t) (lg_durations lg)\<rparr>"

definition DOT :: string where "DOT = [CHR 0x20, CHR 0xC2, CHR 0xB7, CHR 0x20]"
definition DASH :: string where "DASH = [CHR 0x20, CHR 0xE2, CHR 0x80, CHR 0x94, CHR 0x20]"

section \<open>L1 and L2\<close>

definition l1_error_checks :: "pydict list \<Rightarrow> py_error \<Rightarrow> validation_check list list" where
  "l1_error_checks findings e = map (\<lambda>_. [new_check ''path'' ''error'' 0 (''L1 outer error: '' @ error_name e) []]) findings"

definition count_negative :: "validation_check list list \<Rightarrow> nat" where
  "count_negative results = sum_list (map count_demoting results)"

definition run_l1_phase ::
  "stage_world \<Rightarrow> validate_config \<Rightarrow> pydict list \<Rightarrow> string \<Rightarrow> gate_state \<Rightarrow> stage_log \<Rightarrow>
   validation_check list list \<times> gate_state \<times> stage_log" where
  "run_l1_phase w cfg findings source_path st lg =
     (if \<not> cf_enable_l1 cfg then (map (\<lambda>_. []) findings, st, lg)
      else case sw_l1 w findings source_path (clear_route_model_cache st) of (r, st1) \<Rightarrow>
        let (results, lg1) = (case r of
              Inr cs \<Rightarrow> (cs, log_layer ''L1'' lg)
            | Inl e \<Rightarrow> (l1_error_checks findings e,
                log_event (''[validate] L1 failed: '' @ error_name e @ ''; contributing weight=0 for all findings'') lg))
        in (results, st1, log_event (''[validate] L1 done'' @ DOT @ str_nat (length findings) @ '' findings'' @ DOT
              @ str_nat (count_negative results) @ '' demoting signal(s)'') (log_time w ''L1'' lg1)))"

text \<open>\<open>run_l2\<close> handles its own failures, so the outer handler of this phase never runs.\<close>

definition run_l2_phase ::
  "stage_world \<Rightarrow> validate_config \<Rightarrow> pydict list \<Rightarrow> string \<Rightarrow> gate_state \<Rightarrow> stage_log \<Rightarrow>
   (validation_check list list \<times> pydict list) \<times> gate_state \<times> stage_log" where
  "run_l2_phase w cfg findings audit_id st lg =
     (if \<not> cf_enable_l2 cfg then ((map (\<lambda>_. []) findings, []), st, lg)
      else case run_l2 (sw_digest w) (sw_gate w) findings audit_id st of ((results, rollups), st1) \<Rightarrow>
        ((results, rollups), st1, log_event (''[validate] L2 done'' @ DOT @ str_nat (length rollups)
           @ '' rollup parent(s)'') (log_time w ''L2'' (log_layer ''L2'' lg))))"

section \<open>Private fields\<close>

definition PRIVATE_FIELDS :: "string list" where
  "PRIVATE_FIELDS = [''evidence_quote'', ''_model_check_id'', ''_anchor_status'', ''_anchor_reason'',
     ''_claimed_line'', ''_anchor_delta'', ''_anchor_candidates'', ''_anchor_other_path'',
     ''_anchor_quote_chars'', ''_anchor_quote_tokens'']"

definition persist_evidence_quote :: "(string \<Rightarrow> string option) \<Rightarrow> pydict \<Rightarrow> pydict" where
  "persist_evidence_quote store finding =
     (let quote = text_field finding ''evidence_quote'' in
      if strip quote = [] then finding
      else case store quote of
        Some h \<Rightarrow> put ''quote_hash'' (PStr h) finding
      | None \<Rightarrow> pop ''quote_hash'' finding)"

definition strip_private_fields :: "(string \<Rightarrow> string option) \<Rightarrow> string list \<Rightarrow> pydict \<Rightarrow> pydict" where
  "strip_private_fields store names finding =
     foldl (\<lambda>f name. pop name f)
       (if ''evidence_quote'' \<in> set names then persist_evidence_quote store finding else finding) names"

definition strip_private :: "(string \<Rightarrow> string option) \<Rightarrow> pydict \<Rightarrow> pydict" where
  "strip_private store new_f = strip_private_fields store PRIVATE_FIELDS new_f"

section \<open>The vote on a row\<close>

definition L5_NO_ASSERTION :: "string list" where
  "L5_NO_ASSERTION = [JUDGE_UNDECIDED, ''error'']"

definition VALIDATION_KEYS :: "string list" where "VALIDATION_KEYS = [''ast'', ''flow'']"

text \<open>The results of the verdict checks are strings or numbers here, which the set lookup accepts.\<close>

definition retag_l5_verified :: "validation_check list \<Rightarrow> pydict \<Rightarrow> pydict" where
  "retag_l5_verified checks new_f =
     (let l5 = filter (\<lambda>c. vc_id c = PStr ''llm_judge'') checks in
      if get new_f ''provenance'' \<noteq> PStr ''llm'' \<or> l5 = [] then new_f
      else if list_ex l5_check_is_demoting l5 then new_f
      else if list_all (\<lambda>c. vc_result c \<in> set (map PStr L5_NO_ASSERTION)) l5 then new_f
      else put ''provenance'' (PStr ''llm_l5_verified'') new_f)"

definition carry_key :: "pydict \<Rightarrow> pydict \<Rightarrow> string \<Rightarrow> pydict" where
  "carry_key prior blob k = (case map_of prior k of None \<Rightarrow> blob | Some v \<Rightarrow> put k v blob)"

definition stamp_validation :: "finding_validation \<Rightarrow> pyval \<Rightarrow> pydict \<Rightarrow> pydict" where
  "stamp_validation fv prior target =
     (let blob = (case as_dict prior of None \<Rightarrow> validation_to_json fv
          | Some p \<Rightarrow> foldl (carry_key p) (validation_to_json fv) VALIDATION_KEYS) in
      put ''validation_confidence'' (PFloat (fv_confidence fv))
        (put ''validation_status'' (fv_status fv) (put ''validation'' (PDict blob) target)))"

definition voted :: "validate_config \<Rightarrow> string \<Rightarrow> validation_check list \<Rightarrow> finding_validation" where
  "voted cfg now checks =
     (case vote checks of (status, confidence) \<Rightarrow>
        let v = \<lparr>fv_status = PStr status, fv_confidence = confidence, fv_checks = checks,
              fv_validated_at = PStr now\<rparr>
        in if cf_compliance_mode cfg then apply_compliance_mode v else v)"

definition apply_validation_to_finding ::
  "stage_world \<Rightarrow> validate_config \<Rightarrow> pydict \<Rightarrow> validation_check list \<Rightarrow> pydict" where
  "apply_validation_to_finding w cfg finding checks =
     (let prior_window = window_reason_of finding;
          f1 = strip_private (sw_store w) finding;
          f2 = stamp_validation (voted cfg (sw_now w) checks) (get finding ''validation'') f1;
          f3 = (if prior_window \<noteq> [] then record_window_reason f2 prior_window else f2)
      in retag_l5_verified checks f3)"

text \<open>A category that is neither a string nor hashable raises; any other one is recorded by its text.\<close>

definition category_key :: "pydict \<Rightarrow> string result" where
  "category_key finding = (case py_or (get_or finding ''category'' (PStr [])) (PStr []) of
     PStr s \<Rightarrow> Ret s | PList _ \<Rightarrow> Raise TypeError | PDict _ \<Rightarrow> Raise TypeError | v \<Rightarrow> Ret (py_str v))"

definition ensure_obligation ::
  "stage_world \<Rightarrow> pydict \<Rightarrow> validation_check list \<Rightarrow> gate_state \<Rightarrow> validation_check list result \<times> gate_state" where
  "ensure_obligation w finding checks st =
     (if list_ex (\<lambda>c. vc_id c = PStr OBLIGATION_ID) checks then (Ret checks, st)
      else case category_key finding of
        Inl e \<Rightarrow> (Raise e, st)
      | Inr cat \<Rightarrow> (case obligation_check (sw_gate w) (plain_query cat) st of (c, st') \<Rightarrow>
          (Ret (checks @ [c]), st')))"

text \<open>One finding of the provisional vote: nothing stands for an index past the end of a check list.\<close>

fun provisional_rows ::
  "stage_world \<Rightarrow> validate_config \<Rightarrow> validation_check list list \<Rightarrow> validation_check list list \<Rightarrow>
   (nat \<times> pydict) list \<Rightarrow> gate_state \<Rightarrow> pydict list result \<times> gate_state" where
  "provisional_rows w cfg l1 l2 [] st = (Ret [], st)"
| "provisional_rows w cfg l1 l2 ((i, f) # fs) st =
     (if length l1 \<le> i \<or> length l2 \<le> i then (Raise IndexError, st)
      else case ensure_obligation w f (l1 ! i @ l2 ! i) st of
        (Inl e, st1) \<Rightarrow> (Raise e, st1)
      | (Inr cs, st1) \<Rightarrow> (case provisional_rows w cfg l1 l2 fs st1 of
          (Inl e, st2) \<Rightarrow> (Raise e, st2)
        | (Inr rows, st2) \<Rightarrow> (Ret (apply_validation_to_finding w cfg f cs # rows), st2)))"

definition provisional_vote ::
  "stage_world \<Rightarrow> validate_config \<Rightarrow> validation_check list list \<Rightarrow> validation_check list list \<Rightarrow>
   pydict list \<Rightarrow> gate_state \<Rightarrow> stage_log \<Rightarrow> (pydict list \<times> stage_log) result" where
  "provisional_vote w cfg l1 l2 findings st lg =
     bind_result (fst (provisional_rows w cfg l1 l2 (enum_from 0 findings) st))
       (\<lambda>rows. Ret (rows, log_layer ''vote'' (log_time w ''vote'' lg)))"

section \<open>The finalisers of L5\<close>

text \<open>\<open>f.get("validation", {}).get("checks", [])\<close>, iterated.\<close>

definition checks_of :: "pydict \<Rightarrow> pyval list result" where
  "checks_of f = (case get_or f ''validation'' (PDict []) of
     PDict blob \<Rightarrow> py_iter (get_or blob ''checks'' (PList [])) | _ \<Rightarrow> Raise AttributeError)"

definition decode_checks :: "pydict \<Rightarrow> validation_check list result" where
  "decode_checks f = bind_result (checks_of f) (map_result check_of_value)"

definition revote_finding_in_place :: "stage_world \<Rightarrow> validate_config \<Rightarrow> pydict \<Rightarrow> pydict result" where
  "revote_finding_in_place w cfg finding =
     bind_result (decode_checks finding) (\<lambda>cs. Ret (retag_l5_verified cs
       (stamp_validation (voted cfg (sw_now w) cs) (get finding ''validation'') finding)))"

text \<open>A loop that replaces the rows of the given indices one by one and stops at the first exception.\<close>

fun update_rows :: "(nat \<Rightarrow> pydict \<Rightarrow> pydict result) \<Rightarrow> nat list \<Rightarrow> pydict list \<Rightarrow> unit result \<times> pydict list" where
  "update_rows g [] fs = (Ret (), fs)"
| "update_rows g (i # is) fs =
     (case g i (fs ! i) of Inl e \<Rightarrow> (Raise e, fs) | Inr f \<Rightarrow> update_rows g is (fs[i := f]))"

definition stream_batch :: "stage_world \<Rightarrow> validate_config \<Rightarrow> emit_batch" where
  "stream_batch w cfg idx s = (case sw_emit w of
     None \<Rightarrow> (Ret (), s)
   | Some emit \<Rightarrow> (case update_rows (\<lambda>_. revote_finding_in_place w cfg) idx (ls_findings s) of
       (Inl e, fs) \<Rightarrow> (Raise e, s\<lparr>ls_findings := fs\<rparr>)
     | (Inr _, fs) \<Rightarrow> (emit (map ((!) fs) idx), s\<lparr>ls_findings := fs\<rparr>)))"

definition backfill_row ::
  "stage_world \<Rightarrow> validate_config \<Rightarrow> validation_check list list \<Rightarrow> nat \<Rightarrow> pydict \<Rightarrow> pydict result" where
  "backfill_row w cfg l5_results i f =
     (if l5_results ! i = [] then Ret f
      else bind_result (decode_checks f) (\<lambda>merged. Ret (apply_validation_to_finding w cfg f
        (if list_ex (\<lambda>c. vc_id c = PStr ''llm_judge'') merged then merged else merged @ l5_results ! i))))"

definition backfill_l5_offline ::
  "stage_world \<Rightarrow> validate_config \<Rightarrow> validation_check list list \<Rightarrow> pydict list \<Rightarrow> unit result \<times> pydict list" where
  "backfill_l5_offline w cfg l5_results out =
     update_rows (backfill_row w cfg l5_results) [0..<length l5_results] out"

definition revote_judged_row :: "stage_world \<Rightarrow> validate_config \<Rightarrow> nat \<Rightarrow> pydict \<Rightarrow> pydict result" where
  "revote_judged_row w cfg i f = bind_result (checks_of f) (\<lambda>cs.
     if list_ex (check_has_id ''llm_judge'') cs then revote_finding_in_place w cfg f else Ret f)"

definition revote_l5_judged :: "stage_world \<Rightarrow> validate_config \<Rightarrow> pydict list \<Rightarrow> unit result \<times> pydict list" where
  "revote_l5_judged w cfg out = update_rows (revote_judged_row w cfg) [0..<length out] out"

section \<open>Summaries\<close>

text \<open>Provenances and coverage results are strings; another value, which no stage writes, raises here.\<close>

definition coverage_row :: "pydict \<Rightarrow> (string \<times> string) option result" where
  "coverage_row f = bind_result (checks_of f) (\<lambda>cs. case first_such (check_has_id COVERAGE_ID) cs of
     None \<Rightarrow> Ret None
   | Some c \<Rightarrow> (case (check_field c ''result'' (PStr []), py_or (get f ''provenance'') (PStr ''skill'')) of
       (PStr r, PStr p) \<Rightarrow> Ret (Some (r, p)) | _ \<Rightarrow> Raise TypeError))"

definition counts_text :: "string \<Rightarrow> string list \<Rightarrow> string" where
  "counts_text sep results = join sep (map (\<lambda>(r, n). r @ ''='' @ str_nat n)
     (sort_key (\<lambda>(r, n). - int n) (tally results)))"

definition coverage_summary :: "(string \<times> string) list \<Rightarrow> string" where
  "coverage_summary rows =
     ''[validate] L5 coverage'' @ DOT @ counts_text DOT (map fst rows) @ DOT @ ''by provenance'' @ DASH
     @ join ''; '' (map (\<lambda>p. p @ '': '' @ counts_text '', '' (map fst (filter (\<lambda>r. snd r = p) rows)))
         (sort (remdups (map snd rows))))"

definition emit_l5_coverage_summary :: "pydict list \<Rightarrow> stage_log \<Rightarrow> stage_log result" where
  "emit_l5_coverage_summary out lg =
     bind_result (map_result coverage_row out) (\<lambda>rs. let rows = List.map_filter (\<lambda>r. r) rs in
       Ret (if rows = [] then lg else log_event (coverage_summary rows) lg))"

datatype judged = Unjudged | Judged | Errored

definition verdict_state :: "pydict \<Rightarrow> judged result" where
  "verdict_state f = bind_result (checks_of f) (\<lambda>cs.
     if list_ex (\<lambda>c. as_dict c = None) cs then Raise AttributeError
     else let verdicts = filter (check_has_id ''llm_judge'') cs in
       Ret (if verdicts = [] then Unjudged
         else if list_all (\<lambda>c. check_field c ''result'' PNone = PStr ''error'') verdicts then Errored else Judged))"

definition l5_done_text :: "nat \<Rightarrow> nat \<Rightarrow> string" where
  "l5_done_text judged errored = ''[validate] L5 done'' @ DOT @ str_nat judged @ '' finding(s) judged'' @
     (if errored = 0 then []
      else DOT @ str_nat errored @ '' returned no verdict (judge unavailable)'' @
        (if judged = 0 then DASH @ ''L5 CONTRIBUTED NOTHING; treat this run as unjudged'' else []))"

definition l5_done :: "pydict list \<Rightarrow> stage_log \<Rightarrow> stage_log result" where
  "l5_done out lg = bind_result (map_result verdict_state out) (\<lambda>vs.
     Ret (log_event (l5_done_text (count_list vs Judged) (count_list vs Errored)) lg))"

section \<open>L5\<close>

definition l5_final :: "stage_world \<Rightarrow> validate_config \<Rightarrow> l5_state \<Rightarrow> unit result \<times> pydict list" where
  "l5_final w cfg s = (if sw_emit w = None then backfill_l5_offline w cfg (ls_out s) (ls_findings s)
     else revote_l5_judged w cfg (ls_findings s))"

definition l5_guarded ::
  "stage_world \<Rightarrow> validate_config \<Rightarrow> validation_check list list \<Rightarrow> pydict list \<Rightarrow> unit result \<times> pydict list" where
  "l5_guarded w cfg l1_results out =
     (case run_l5 (gw_env (sw_gate w)) cfg (sw_runtime w) (sw_pool w) (Some (stream_batch w cfg)) l1_results out of
        (Inl e, s) \<Rightarrow> (Raise e, ls_findings s)
      | (Inr _, s) \<Rightarrow> l5_final w cfg s)"

definition run_l5_phase ::
  "stage_world \<Rightarrow> validate_config \<Rightarrow> validation_check list list \<Rightarrow> pydict list \<Rightarrow> pydict list \<Rightarrow> stage_log \<Rightarrow>
   (pydict list \<times> pydict list \<times> stage_log) result" where
  "run_l5_phase w cfg l1_results rollups out lg =
     (if \<not> resolve_l5_enabled (gw_env (sw_gate w)) cfg then
        let off = stamp_coverage ''skipped_l5_disabled'' ''L5 judge disabled for this run'' in
        bind_result (emit_l5_coverage_summary (map off (out @ rollups)) lg)
          (\<lambda>lg'. Ret (map off out, map off rollups, lg'))
      else
        let (r, fs) = l5_guarded w cfg l1_results out;
            (fs1, lg1) = (case r of
                Inr _ \<Rightarrow> (fs, log_layer ''L5'' lg)
              | Inl e \<Rightarrow> (map (stamp_coverage ''judge_error'' (''L5 layer failed outright: '' @ error_name e)) fs,
                  log_event (''[validate] L5 failed: '' @ error_name e @ ''; layer disabled'') lg));
            rs = map (stamp_coverage ''skipped_no_window'' ''rollup parent: synthesised row, never judged'') rollups
        in bind_result (l5_done fs1 (log_time w ''L5'' lg1)) (\<lambda>lg2.
           bind_result (emit_l5_coverage_summary (fs1 @ rs) lg2) (\<lambda>lg3. Ret (fs1, rs, lg3))))"

section \<open>The stage\<close>

definition count_status :: "string \<Rightarrow> pydict list \<Rightarrow> nat" where
  "count_status s out =
     length (filter (\<lambda>f. get_or f ''validation_status'' (PStr ''suspicious'') = PStr s) out)"

definition summary_text :: "pydict list \<Rightarrow> pydict list \<Rightarrow> stage_log \<Rightarrow> string" where
  "summary_text out rollups lg =
     ''[validate] done in '' @ str_int (sum_list (map snd (lg_durations lg))) @ ''ms'' @ DOT @
     ''high='' @ str_nat (count_status ''high_confidence'' out) @ DOT @
     ''susp='' @ str_nat (count_status ''suspicious'' out) @ DOT @
     ''fp='' @ str_nat (count_status ''likely_fp'' out) @ DOT @ ''rollups='' @ str_nat (length rollups)"

definition mirror_parent :: "pydict \<Rightarrow> pydict result" where
  "mirror_parent parent = (case py_or (get parent ''validation'') (PDict []) of
     PDict b \<Rightarrow> Ret (put ''validation_confidence'' (get_or b ''confidence'' (PFloat (FFin (fl64 (40 / 100)))))
       (put ''validation_status'' (get_or b ''status'' (PStr ''suspicious'')) parent))
   | _ \<Rightarrow> Raise AttributeError)"

definition emit_summary ::
  "stage_world \<Rightarrow> pydict list \<Rightarrow> pydict list \<Rightarrow> stage_log \<Rightarrow> (pydict list \<times> stage_log) result" where
  "emit_summary w out rollups lg =
     bind_result (derive_parent_verdicts (sw_now w) out rollups) (\<lambda>parents.
     bind_result (map_result mirror_parent parents) (\<lambda>parents'.
       Ret (parents', log_event (summary_text out rollups lg) lg)))"

record validation_result =
  vr_findings :: "pydict list"
  vr_rollups :: "pydict list"
  vr_event_texts :: "string list"
  vr_layers_run :: "string list"
  vr_duration_ms :: "(string \<times> int) list"

definition new_log :: stage_log where
  "new_log = \<lparr>lg_events = [], lg_layers = [], lg_durations = []\<rparr>"

definition to_result :: "pydict list \<Rightarrow> pydict list \<Rightarrow> stage_log \<Rightarrow> validation_result" where
  "to_result fs rs lg = \<lparr>vr_findings = fs, vr_rollups = rs, vr_event_texts = lg_events lg,
     vr_layers_run = lg_layers lg, vr_duration_ms = lg_durations lg\<rparr>"

definition effective_config :: "validate_config option \<Rightarrow> validate_config" where
  "effective_config config = (case config of None \<Rightarrow> default_config | Some c \<Rightarrow> c)"

definition validate ::
  "stage_world \<Rightarrow> validate_config option \<Rightarrow> string \<Rightarrow> string \<Rightarrow> gate_state \<Rightarrow> pydict list \<Rightarrow> validation_result result" where
  "validate w config source_path audit_id st findings =
     (let cfg = effective_config config in
      if findings = [] then Ret (to_result [] [] (log_event ''[validate] no findings to validate'' new_log))
      else case run_l1_phase w cfg findings source_path st new_log of (l1, st1, lg1) \<Rightarrow>
        case run_l2_phase w cfg findings audit_id st1 lg1 of ((l2, rollups), st2, lg2) \<Rightarrow>
        bind_result (provisional_vote w cfg l1 l2 findings st2 lg2) (\<lambda>(out, lg3).
        bind_result (run_l5_phase w cfg l1 rollups out lg3) (\<lambda>(out', rollups', lg4).
        bind_result (emit_summary w out' rollups' lg4) (\<lambda>(parents, lg5).
          Ret (to_result out' parents lg5)))))"

end
