(* ===== verification/Stage_Promises.thy ===== *)
theory Stage_Promises
  imports Validate_Stage
begin

text \<open>
  What the validation stage promises of every row it returns. The locale \<open>row_invariant\<close> states what a
  property of a row has to bear for the judge layer to keep it (a check is appended, a verdict check
  is rewritten), \<open>final_invariant\<close> adds the re-votes and \<open>stage_invariant\<close> the first vote; the client
  lemmas carry such a property through \<open>run_l5\<close>, the finalisers and \<open>validate\<close>. Each promise of the
  stage is an interpretation: no row is lost, private fields are gone, compliance mode never
  dismisses, an obligation was checked, and the status columns mirror the blob.
\<close>

section \<open>Rows under the judge layer\<close>

definition rows_ok :: "(pydict \<Rightarrow> bool) \<Rightarrow> nat \<Rightarrow> pydict list \<Rightarrow> bool" where
  "rows_ok I n fs \<longleftrightarrow> length fs = n \<and> list_all I fs"

lemma rows_ok_update: "rows_ok I n fs \<Longrightarrow> (i < length fs \<Longrightarrow> I f) \<Longrightarrow> rows_ok I n (fs[i := f])"
  by (cases "i < length fs") (auto simp: rows_ok_def list_all_iff list_update_beyond dest: set_update_subset_insert [THEN subsetD])

lemma rows_ok_nth: "rows_ok I n fs \<Longrightarrow> i < length fs \<Longrightarrow> I (fs ! i)"
  by (simp add: rows_ok_def list_all_length)

lemma rows_ok_map: "rows_ok I n fs \<Longrightarrow> (\<And>f. I f \<Longrightarrow> J (g f)) \<Longrightarrow> rows_ok J n (map g fs)"
  by (auto simp: rows_ok_def list_all_iff)

lemma rows_ok_enum: "rows_ok I n fs \<Longrightarrow> (\<And>i f. I f \<Longrightarrow> J (g (i, f))) \<Longrightarrow> rows_ok J n (map g (enum_from 0 fs))"
  by (auto simp: rows_ok_def list_all_iff in_set_enum_from)

lemma update_rows_ok:
  "update_rows g is fs = (r, fs') \<Longrightarrow> rows_ok I n fs \<Longrightarrow> (\<And>i f f'. i < n \<Longrightarrow> I f \<Longrightarrow> g i f = Ret f' \<Longrightarrow> I f') \<Longrightarrow>
   rows_ok I n fs'"
proof (induction g "is" fs rule: update_rows.induct)
  case (2 g i "is" fs)
  show ?case
  proof (cases "g i (fs ! i)")
    case (Inr f)
    have "I f" if "i < length fs"
      using that "2.prems"(3) [of i "fs ! i" f] rows_ok_nth [OF "2.prems"(2) that] Inr "2.prems"(2) by (simp add: rows_ok_def)
    then have "rows_ok I n (fs[i := f])" by (rule rows_ok_update [OF "2.prems"(2)])
    then show ?thesis using "2.IH" [OF Inr] "2.prems"(1,3) Inr by simp
  qed (use "2.prems" in simp)
qed simp

lemma safeguards_result:
  "apply_l5_safeguards env sel s = Ret s' \<Longrightarrow> s' = s \<or> (\<exists>t js. safeguard_all env t js s = Ret s')"
  by (auto simp: apply_l5_safeguards_def Let_def bind_result_Ret split: if_splits)

text \<open>What the judge layer needs of a property of a row to keep it.\<close>

locale row_invariant =
  fixes I :: "pydict \<Rightarrow> bool"
  assumes append: "I f \<Longrightarrow> I (append_check c f)"
    and rewritten: "I f \<Longrightarrow> vc_id c = PStr ''llm_judge'' \<Longrightarrow> I (rewrite_l5_check c f)"
begin

lemma stamped: "I f \<Longrightarrow> I (stamp_coverage r why f)"
  by (simp add: stamp_coverage_def append)

lemma batch_keeps:
  "apply_batch_result env model b vs es s = (r, s') \<Longrightarrow> rows_ok I n (ls_findings s) \<Longrightarrow> rows_ok I n (ls_findings s')"
proof (induction env model b vs es s rule: apply_batch_result.induct)
  case (2 env model b vs i lang rest s)
  show ?case
  proof (cases "batch_check env model b vs i lang (ls_findings s ! i)")
    case (Inr c)
    have "rows_ok I n (ls_findings (judge_one i c s))"
      using rows_ok_update [OF "2.prems"(2)] append rows_ok_nth [OF "2.prems"(2)] by (simp add: judge_one_def)
    then show ?thesis using "2.IH" [OF Inr] "2.prems"(1) Inr by simp
  qed (use "2.prems" in simp)
qed simp

definition emit_keeps :: "nat \<Rightarrow> emit_batch option \<Rightarrow> bool" where
  "emit_keeps n emit \<longleftrightarrow> (\<forall>f idx s. emit = Some f \<longrightarrow> rows_ok I n (ls_findings s) \<longrightarrow> rows_ok I n (ls_findings (snd (f idx s))))"

lemma pool_keeps:
  "run_pool env model emit batches es s = (r, s') \<Longrightarrow> rows_ok I n (ls_findings s) \<Longrightarrow> emit_keeps n emit \<Longrightarrow>
   rows_ok I n (ls_findings s')"
proof (induction es arbitrary: s)
  case (Cons e es)
  obtain b vs where e: "e = (b, vs)" by fastforce
  obtain r1 s1 where a: "apply_batch_result env model b vs (batches ! b) s = (r1, s1)" by fastforce
  note k1 = batch_keeps [OF a Cons.prems(2)]
  show ?case
  proof (cases "length batches \<le> b \<or> isl r1 \<or> emit = None")
    case True
    then show ?thesis using Cons.IH [of s] Cons.IH [of s1] Cons.prems e a k1 by (cases r1) (auto split: if_splits)
  next
    case False
    then obtain f u where f: "emit = Some f" "r1 = Inr u" "b < length batches" by (cases emit; cases r1) auto
    obtain r2 s2 where c: "f (map fst (batches ! b)) s1 = (r2, s2)" by fastforce
    have "rows_ok I n (ls_findings s2)" using Cons.prems(3) f(1) k1 c unfolding emit_keeps_def by (metis snd_conv)
    then show ?thesis using Cons.IH [of s2] Cons.prems e a f c by (cases r2) auto
  qed
qed simp

lemma rewrites_keep:
  "\<forall>(old, new) \<in> set ps. old = new \<or> vc_id new = PStr ''llm_judge'' \<Longrightarrow> I f \<Longrightarrow>
   I (foldl (\<lambda>f (old, new). if old = new then f else rewrite_l5_check new f) f ps)"
  by (induction ps arbitrary: f) (auto simp: rewritten)

lemma safeguards_keep:
  "safeguard_all env t js s = Ret s' \<Longrightarrow> rows_ok I n (ls_findings s) \<Longrightarrow> rows_ok I n (ls_findings s')"
proof (induction js arbitrary: s)
  case (Cons i js)
  obtain safe where safe: "map_result (safe_check env t (ls_findings s ! i)) (ls_out s ! i) = Ret safe"
    using Cons.prems(1) by (auto simp: safeguard_one_def bind_result_Ret Let_def)
  let ?f = "foldl (\<lambda>f (old, new). if old = new then f else rewrite_l5_check new f) (ls_findings s ! i) (zip (ls_out s ! i) safe)"
  let ?s1 = "s\<lparr>ls_findings := (ls_findings s)[i := ?f], ls_out := (ls_out s)[i := safe]\<rparr>"
  have "I ?f" if "i < length (ls_findings s)"
    by (rule rewrites_keep [OF safe_rewrites_ids [OF safe] rows_ok_nth [OF Cons.prems(2) that]])
  then have u: "rows_ok I n (ls_findings ?s1)" using rows_ok_update [OF Cons.prems(2)] by simp
  have "safeguard_all env t js ?s1 = Ret s'" using Cons.prems(1) safe by (simp add: safeguard_one_def Let_def)
  from Cons.IH [OF this u] show ?case .
qed simp

lemma coverage_keeps: "rows_ok I n (ls_findings s) \<Longrightarrow> rows_ok I n (ls_findings (stamp_coverage_all sel s))"
  by (auto simp: stamp_coverage_all_def stamped split: prod.splits intro!: rows_ok_enum)

lemma finish_keeps: "finish_l5 env sel s = (r, s') \<Longrightarrow> rows_ok I n (ls_findings s) \<Longrightarrow> rows_ok I n (ls_findings s')"
  by (auto simp: finish_l5_def split: sum.splits intro!: coverage_keeps dest!: safeguards_result dest: safeguards_keep)

lemma judged_keeps:
  assumes "judge_selected env rt pool emit sel s = (r, s')" and "rows_ok I n (ls_findings s)" and "emit_keeps n emit"
  shows "rows_ok I n (ls_findings s')"
proof (cases rt)
  case None
  then show ?thesis using assms coverage_keeps by (auto simp: judge_selected_def)
next
  case (Some mb)
  obtain model size where mb: "mb = (model, size)" by fastforce
  show ?thesis
  proof (cases "batch_findings (ls_findings s) (fst sel) size")
    case (Inl e)
    then show ?thesis using assms Some mb by (simp add: judge_selected_def)
  next
    case (Inr batches)
    obtain r1 s1 where p: "run_pool env model emit batches (pool batches) s = (r1, s1)" by fastforce
    show ?thesis
      using assms(1) Some mb Inr p pool_keeps [OF p assms(2,3)] finish_keeps
      by (cases r1) (auto simp: judge_selected_def)
  qed
qed

lemma run_l5_keeps:
  assumes "run_l5 env cfg rt pool emit l1 fs = (r, s)" and "rows_ok I n fs" and "emit_keeps n emit"
  shows "rows_ok I n (ls_findings s)"
  using assms judged_keeps [OF _ _ assms(3)] coverage_keeps
  by (auto simp: run_l5_def Let_def split: sum.splits if_splits)

end

section \<open>Rows under the stage\<close>

lemma ensured_obligation:
  assumes "ensure_obligation w f cs st = (Ret cs', st')"
  shows "list_ex (\<lambda>c. vc_id c = PStr OBLIGATION_ID) cs'"
proof (cases "list_ex (\<lambda>c. vc_id c = PStr OBLIGATION_ID) cs")
  case False
  then obtain cat where "category_key f = Ret cat" using assms by (cases "category_key f") (auto simp: ensure_obligation_def)
  moreover obtain c st1 where c: "obligation_check (sw_gate w) (plain_query cat) st = (c, st1)" by fastforce
  ultimately have "cs' = cs @ [c]" using assms False by (simp add: ensure_obligation_def)
  then show ?thesis using obligation_check_fields(1) [of "sw_gate w" "plain_query cat" st] c by simp
qed (use assms in \<open>simp add: ensure_obligation_def\<close>)

lemma validate_cases:
  assumes "validate w config src aid st findings = Ret r"
  obtains (empty) "findings = []" "r = to_result [] [] (log_event ''[validate] no findings to validate'' new_log)"
  | (run) l1 st1 lg1 l2 rollups st2 lg2 out lg3 out' rollups' lg4 parents lg5 where "findings \<noteq> []"
      "run_l1_phase w (effective_config config) findings src st new_log = (l1, st1, lg1)"
      "run_l2_phase w (effective_config config) findings aid st1 lg1 = ((l2, rollups), st2, lg2)"
      "provisional_vote w (effective_config config) l1 l2 findings st2 lg2 = Ret (out, lg3)"
      "run_l5_phase w (effective_config config) l1 rollups out lg3 = Ret (out', rollups', lg4)"
      "emit_summary w out' rollups' lg4 = Ret (parents, lg5)"
      "r = to_result out' parents lg5"
proof (cases "findings = []")
  case False
  obtain l1 st1 lg1 where l1: "run_l1_phase w (effective_config config) findings src st new_log = (l1, st1, lg1)"
    by (metis prod.exhaust)
  obtain l2 rollups st2 lg2 where l2: "run_l2_phase w (effective_config config) findings aid st1 lg1 = ((l2, rollups), st2, lg2)"
    by (metis prod.exhaust)
  obtain out lg3 where v: "provisional_vote w (effective_config config) l1 l2 findings st2 lg2 = Ret (out, lg3)"
    and v': "bind_result (run_l5_phase w (effective_config config) l1 rollups out lg3) (\<lambda>(out', rollups', lg4).
        bind_result (emit_summary w out' rollups' lg4) (\<lambda>(parents, lg5). Ret (to_result out' parents lg5))) = Ret r"
    using assms False l1 l2 by (auto simp: validate_def Let_def bind_result_Ret)
  then obtain out' rollups' lg4 parents lg5 where
      p: "run_l5_phase w (effective_config config) l1 rollups out lg3 = Ret (out', rollups', lg4)"
      "emit_summary w out' rollups' lg4 = Ret (parents, lg5)" "r = to_result out' parents lg5"
    by (auto simp: bind_result_Ret)
  show ?thesis by (rule run [OF False l1 l2 v p])
qed (use assms empty in \<open>simp add: validate_def Let_def\<close>)

locale final_invariant = row_invariant I for I :: "pydict \<Rightarrow> bool" +
  fixes w :: stage_world and cfg :: validate_config
  assumes revoted: "I f \<Longrightarrow> revote_finding_in_place w cfg f = Ret f' \<Longrightarrow> I f'"
    and rebuilt: "I f \<Longrightarrow> decode_checks f = Ret cs \<Longrightarrow> I (apply_validation_to_finding w cfg f (cs @ extra))"
begin

lemma stream_keeps: "emit_keeps n (Some (stream_batch w cfg))"
proof -
  have "rows_ok I n (ls_findings (snd (stream_batch w cfg idx s)))" if "rows_ok I n (ls_findings s)" for idx s
  proof -
    obtain r fs where u: "update_rows (\<lambda>_. revote_finding_in_place w cfg) idx (ls_findings s) = (r, fs)" by fastforce
    have "rows_ok I n fs" by (rule update_rows_ok [OF u that]) (rule revoted)
    then show ?thesis using u that by (cases r) (auto simp: stream_batch_def split: option.splits)
  qed
  then show ?thesis by (auto simp: emit_keeps_def)
qed

lemma backfill_row_keeps: "I f \<Longrightarrow> backfill_row w cfg res i f = Ret f' \<Longrightarrow> I f'"
  using rebuilt [of f _ "[]"] rebuilt by (auto simp: backfill_row_def bind_result_Ret split: if_splits)

lemma revote_row_keeps: "I f \<Longrightarrow> revote_judged_row w cfg i f = Ret f' \<Longrightarrow> I f'"
  using revoted by (auto simp: revote_judged_row_def bind_result_Ret split: if_splits)

lemma final_keeps: "l5_final w cfg s = (r, fs) \<Longrightarrow> rows_ok I n (ls_findings s) \<Longrightarrow> rows_ok I n fs"
  using update_rows_ok [of _ _ _ r fs, OF _ _ backfill_row_keeps] update_rows_ok [of _ _ _ r fs, OF _ _ revote_row_keeps]
  by (auto simp: l5_final_def backfill_l5_offline_def revote_l5_judged_def split: if_splits)

lemma guarded_keeps:
  assumes "l5_guarded w cfg l1 out = (r, fs)" and "rows_ok I n out"
  shows "rows_ok I n fs"
proof -
  obtain r1 s where l: "run_l5 (gw_env (sw_gate w)) cfg (sw_runtime w) (sw_pool w) (Some (stream_batch w cfg)) l1 out = (r1, s)"
    by fastforce
  note run_l5_keeps [OF l assms(2) stream_keeps]
  then show ?thesis using assms(1) l final_keeps by (cases r1) (auto simp: l5_guarded_def)
qed

lemma phase_keeps:
  assumes "run_l5_phase w cfg l1 rollups out lg = Ret (out', rollups', lg')" and "rows_ok I n out"
  shows "rows_ok I n out'"
proof -
  obtain r fs where g: "l5_guarded w cfg l1 out = (r, fs)" by fastforce
  have k: "rows_ok I n fs" by (rule guarded_keeps [OF g assms(2)])
  have "rows_ok I n (map (stamp_coverage res why) xs)" if "rows_ok I n xs" for res why xs
    using that stamped by (rule rows_ok_map)
  then show ?thesis using assms g k
    by (cases r) (auto simp: run_l5_phase_def Let_def bind_result_Ret split: if_splits)
qed

end

locale stage_invariant = final_invariant I w cfg for I w cfg +
  assumes voted: "list_ex (\<lambda>c. vc_id c = PStr OBLIGATION_ID) cs \<Longrightarrow> I (apply_validation_to_finding w cfg f cs)"
begin

lemma rows_keep: "fst (provisional_rows w cfg l1 l2 fs st) = Ret rows \<Longrightarrow> rows_ok I (length fs) rows"
proof (induction fs arbitrary: st rows)
  case (Cons p fs)
  obtain i f where p: "p = (i, f)" by fastforce
  obtain r1 st1 where o: "ensure_obligation w f (l1 ! i @ l2 ! i) st = (r1, st1)" by fastforce
  obtain r2 st2 where r: "provisional_rows w cfg l1 l2 fs st1 = (r2, st2)" by fastforce
  obtain cs rest where ok: "r1 = Ret cs" "r2 = Ret rest" "rows = apply_validation_to_finding w cfg f cs # rest"
    using Cons.prems p o r by (cases r1; cases r2) (auto split: if_splits)
  have "I (apply_validation_to_finding w cfg f cs)" using o ok(1) ensured_obligation voted by blast
  moreover have "rows_ok I (length fs) rest" using Cons.IH [of st1 rest] r ok(2) by simp
  ultimately show ?case using ok(3) by (simp add: rows_ok_def)
qed (simp add: rows_ok_def)

lemma vote_keeps: "provisional_vote w cfg l1 l2 fs st lg = Ret (out, lg') \<Longrightarrow> rows_ok I (length fs) out"
  using rows_keep [of l1 l2 "enum_from 0 fs" st] by (auto simp: provisional_vote_def bind_result_Ret)

lemma validate_keeps:
  assumes "validate w config src aid st fs = Ret r" and "effective_config config = cfg"
  shows "rows_ok I (length fs) (vr_findings r)"
  using assms(1)
proof (cases rule: validate_cases)
  case (run l1 st1 lg1 l2 rollups st2 lg2 out lg3 out' rollups' lg4 parents lg5)
  then show ?thesis using phase_keeps [OF _ vote_keeps] assms(2) by (simp add: to_result_def)
qed (simp add: to_result_def rows_ok_def)

end

section \<open>What a vote writes\<close>

lemma carried_get: "k \<notin> set ks \<Longrightarrow> get_or (foldl (carry_key p) b ks) k d = get_or b k d"
  by (induction ks arbitrary: b) (auto simp: carry_key_def split: option.splits)

lemma stamp_get: "get_or (stamp_validation fv p t) k d =
    (if k = ''validation_confidence'' then PFloat (fv_confidence fv) else if k = ''validation_status'' then fv_status fv
     else if k = ''validation'' then get (stamp_validation fv p t) ''validation'' else get_or t k d)"
  by (simp add: stamp_validation_def Let_def)

lemma stamp_blob: "\<exists>b. get (stamp_validation fv p t) ''validation'' = PDict b \<and> get b ''status'' = fv_status fv
    \<and> get b ''confidence'' = PFloat (fv_confidence fv)
    \<and> get b ''checks'' = PList (map (\<lambda>c. PDict (check_to_json c)) (fv_checks fv))"
proof -
  have no: "k \<notin> set VALIDATION_KEYS" if "k \<in> {''status'', ''confidence'', ''checks''}" for k :: string
    using that by (auto simp: VALIDATION_KEYS_def)
  have j: "get (validation_to_json fv) ''status'' = fv_status fv"
    "get (validation_to_json fv) ''confidence'' = PFloat (fv_confidence fv)"
    "get (validation_to_json fv) ''checks'' = PList (map (\<lambda>c. PDict (check_to_json c)) (fv_checks fv))"
    by (simp_all add: validation_to_json_def get_or_def)
  show ?thesis by (cases "as_dict p") (simp_all add: stamp_validation_def carried_get no j)
qed

lemma validation_checks_cong: "get f ''validation'' = get g ''validation'' \<Longrightarrow> validation_checks f = validation_checks g"
  by (simp add: validation_checks_def)

lemma stamp_checks: "validation_checks (stamp_validation fv p t) = map (\<lambda>c. PDict (check_to_json c)) (fv_checks fv)"
  using stamp_blob [of fv p t] by (auto simp: validation_checks_def as_dict_def as_list_def)

lemma retag_get: "k \<noteq> ''provenance'' \<Longrightarrow> get_or (retag_l5_verified cs f) k d = get_or f k d"
  by (simp add: retag_l5_verified_def Let_def)

lemma record_get: "k \<noteq> ''validation'' \<Longrightarrow> get_or (if r \<noteq> [] then record_window_reason f r else f) k d = get_or f k d"
  by (simp add: record_other_keys)

lemma record_blob: "get f ''validation'' = PDict b \<Longrightarrow>
    \<exists>b'. get (record_window_reason f r) ''validation'' = PDict b' \<and> (\<forall>k. k \<noteq> ''checks'' \<longrightarrow> get b' k = get b k)"
  by (simp add: record_window_reason_def Let_def)

lemma record_superset: "set (validation_checks f) \<subseteq> set (validation_checks (record_window_reason f r))"
proof (cases "r \<in> set WINDOW_REASONS")
  case True
  then show ?thesis by (auto simp: validation_checks_record)
qed (simp add: record_window_reason_def)

lemma voted_status: "fv_status (voted cfg now cs) = (if cf_compliance_mode cfg \<and> fst (vote cs) = ''likely_fp''
    then PStr ''suspicious'' else PStr (fst (vote cs)))"
  by (simp add: voted_def apply_compliance_mode_def Let_def split: prod.split)

lemma voted_checks: "\<exists>x. fv_checks (voted cfg now cs) = cs @ x"
  by (simp add: voted_def apply_compliance_mode_def Let_def split: prod.split)

lemma append_get: "k \<noteq> ''validation'' \<Longrightarrow> get_or (append_check c f) k d = get_or f k d"
  by (simp add: append_check_def Let_def)

lemma rewrite_get: "k \<noteq> ''validation'' \<Longrightarrow> get_or (rewrite_l5_check c f) k d = get_or f k d"
  by (simp add: rewrite_l5_check_def split: option.split)

lemma apply_get: "k \<notin> {''validation'', ''validation_status'', ''validation_confidence'', ''provenance''} \<Longrightarrow>
    get_or (apply_validation_to_finding w cfg f cs) k d = get_or (strip_private (sw_store w) f) k d"
  by (simp add: apply_validation_to_finding_def Let_def retag_get stamp_get record_other_keys)

lemma apply_status: "get (apply_validation_to_finding w cfg f cs) ''validation_status'' = fv_status (voted cfg (sw_now w) cs)"
    "get (apply_validation_to_finding w cfg f cs) ''validation_confidence'' = PFloat (fv_confidence (voted cfg (sw_now w) cs))"
  by (simp_all add: apply_validation_to_finding_def Let_def retag_get stamp_get record_other_keys)

lemma apply_checks: "\<forall>c \<in> set cs. PDict (check_to_json c) \<in> set (validation_checks (apply_validation_to_finding w cfg f cs))"
proof -
  let ?g = "stamp_validation (voted cfg (sw_now w) cs) (get f ''validation'') (strip_private (sw_store w) f)"
  obtain x where "fv_checks (voted cfg (sw_now w) cs) = cs @ x" using voted_checks by blast
  then have "\<forall>c \<in> set cs. PDict (check_to_json c) \<in> set (validation_checks ?g)" by (simp add: stamp_checks)
  moreover have "validation_checks (apply_validation_to_finding w cfg f cs) =
      validation_checks (if window_reason_of f \<noteq> [] then record_window_reason ?g (window_reason_of f) else ?g)"
    by (rule validation_checks_cong) (simp add: apply_validation_to_finding_def Let_def retag_get)
  ultimately show ?thesis using record_superset by auto
qed

lemma revote_result: "revote_finding_in_place w cfg f = Ret f' \<Longrightarrow>
    \<exists>cs. decode_checks f = Ret cs \<and> f' = retag_l5_verified cs
      (stamp_validation (voted cfg (sw_now w) cs) (get f ''validation'') f)"
  by (auto simp: revote_finding_in_place_def bind_result_Ret)

text \<open>Reading the checks back keeps every identifier.\<close>

lemma check_of_value_id: "check_of_value v = Ret c \<Longrightarrow> check_has_id k v \<longleftrightarrow> vc_id c = PStr k"
  by (auto simp: check_of_value_def check_from_json_def check_has_id_def get_or_def bind_result_Ret
      split: pyval.splits option.splits)

lemma decoded_id:
  assumes "decode_checks f = Ret cs" and "list_ex (check_has_id k) (validation_checks f)"
  shows "list_ex (\<lambda>c. vc_id c = PStr k) cs"
proof -
  obtain b xs where b: "get f ''validation'' = PDict b" "get b ''checks'' = PList xs" "validation_checks f = xs"
    using assms(2) by (auto simp: validation_checks_def as_dict_def as_list_def split: option.splits pyval.splits)
  then have "checks_of f = Ret xs" by (auto simp: checks_of_def get_or_def py_iter_def split: option.splits)
  then have m: "map_result check_of_value xs = Ret cs" using assms(1) by (simp add: decode_checks_def)
  obtain v where v: "v \<in> set xs" "check_has_id k v" using assms(2) b(3) by (auto simp: list_ex_iff)
  then show ?thesis using map_result_each [OF m v(1)] check_of_value_id by (auto simp: list_ex_iff)
qed

lemma kept_id:
  assumes "list_ex (\<lambda>c. vc_id c = PStr k) cs" and "\<forall>c \<in> set cs. PDict (check_to_json c) \<in> set (validation_checks f)"
  shows "list_ex (check_has_id k) (validation_checks f)"
  using assms has_id_json by (auto simp: list_ex_iff)

section \<open>The promises\<close>

definition clean :: "pydict \<Rightarrow> bool" where
  "clean f \<longleftrightarrow> (\<forall>k \<in> set PRIVATE_FIELDS. \<not> has_key f k)"

definition not_dismissed :: "validate_config \<Rightarrow> pydict \<Rightarrow> bool" where
  "not_dismissed cfg f \<longleftrightarrow> cf_compliance_mode cfg \<longrightarrow> get f ''validation_status'' \<noteq> PStr ''likely_fp''"

definition obliged :: "pydict \<Rightarrow> bool" where
  "obliged f \<longleftrightarrow> list_ex (check_has_id OBLIGATION_ID) (validation_checks f)"

definition mirrored :: "pydict \<Rightarrow> bool" where
  "mirrored f \<longleftrightarrow> (\<exists>b. get f ''validation'' = PDict b \<and> get f ''validation_status'' = get b ''status''
     \<and> get f ''validation_confidence'' = get b ''confidence'')"

lemma has_key_pop: "has_key (pop k d) k' \<longleftrightarrow> k' \<noteq> k \<and> has_key d k'"
  by (simp add: has_key_def)

lemma pops_clean: "has_key (foldl (\<lambda>f n. pop n f) d ks) k \<longleftrightarrow> k \<notin> set ks \<and> has_key d k"
  by (induction ks arbitrary: d) (auto simp: has_key_pop)

lemma private_not_stage: "k \<in> set PRIVATE_FIELDS \<Longrightarrow>
    k \<notin> {''validation'', ''validation_status'', ''validation_confidence'', ''provenance'', ''quote_hash''}"
  by (auto simp: PRIVATE_FIELDS_def)

lemma strip_clean: "clean (strip_private store f)"
  by (simp add: clean_def strip_private_def strip_private_fields_def pops_clean)

lemma clean_stamp: "clean f \<Longrightarrow> clean (stamp_validation fv p f)"
  using private_not_stage by (auto simp: clean_def stamp_validation_def Let_def)

lemma clean_retag: "clean f \<Longrightarrow> clean (retag_l5_verified cs f)"
  using private_not_stage by (auto simp: clean_def retag_l5_verified_def Let_def)

lemma clean_record: "clean f \<Longrightarrow> clean (record_window_reason f r)"
  using private_not_stage by (auto simp: clean_def record_window_reason_def Let_def)

lemma clean_apply: "clean (apply_validation_to_finding w cfg f cs)"
  by (simp add: apply_validation_to_finding_def Let_def clean_retag clean_record clean_stamp strip_clean)

interpretation every_row: stage_invariant "\<lambda>_. True" w cfg for w cfg
  by unfold_locales simp_all

interpretation private_fields: stage_invariant clean w cfg for w cfg
proof unfold_locales
  fix f c assume f: "clean f"
  show "clean (append_check c f)" using f private_not_stage by (auto simp: clean_def append_check_def Let_def)
  show "clean (rewrite_l5_check c f)"
    using f private_not_stage by (auto simp: clean_def rewrite_l5_check_def split: option.split)
  show "clean f'" if "revote_finding_in_place w cfg f = Ret f'" for f'
    using revote_result [OF that] f by (auto simp: clean_retag clean_stamp)
qed (simp_all add: clean_apply)

lemma not_dismissed_voted: "cf_compliance_mode cfg \<Longrightarrow> fv_status (voted cfg now cs) \<noteq> PStr ''likely_fp''"
  by (simp add: voted_status)

interpretation compliance: stage_invariant "not_dismissed cfg" w cfg for w cfg
proof unfold_locales
  fix f c assume f: "not_dismissed cfg f"
  show "not_dismissed cfg (append_check c f)" using f by (simp add: not_dismissed_def append_get)
  show "not_dismissed cfg (rewrite_l5_check c f)" using f by (simp add: not_dismissed_def rewrite_get)
  show "not_dismissed cfg f'" if "revote_finding_in_place w cfg f = Ret f'" for f'
    using revote_result [OF that] by (auto simp: not_dismissed_def retag_get stamp_get not_dismissed_voted)
qed (simp_all add: not_dismissed_def apply_status not_dismissed_voted)

lemma obliged_append: "obliged f \<Longrightarrow> obliged (append_check c f)"
  by (simp add: obliged_def validation_checks_append)

lemma other_id_rewrite:
  assumes "vc_id c = PStr ''llm_judge''" and "k \<noteq> ''llm_judge''" and "list_ex (check_has_id k) (validation_checks f)"
  shows "list_ex (check_has_id k) (validation_checks (rewrite_l5_check c f))"
proof -
  obtain x where x: "x \<in> set (validation_checks f)" "check_has_id k x" using assms(3) by (auto simp: list_ex_iff)
  then have "\<not> check_has_id ''llm_judge'' x" using assms(2) by (auto simp: check_has_id_def split: pyval.splits)
  then show ?thesis using x by (auto simp: list_ex_iff validation_checks_rewrite)
qed

lemma revote_id:
  assumes "revote_finding_in_place w cfg f = Ret f'" and "list_ex (check_has_id k) (validation_checks f)"
  shows "list_ex (check_has_id k) (validation_checks f')"
proof -
  obtain cs where d: "decode_checks f = Ret cs" and f': "f' = retag_l5_verified cs
      (stamp_validation (voted cfg (sw_now w) cs) (get f ''validation'') f)"
    using revote_result [OF assms(1)] by blast
  obtain x where x: "fv_checks (voted cfg (sw_now w) cs) = cs @ x" using voted_checks by blast
  have "validation_checks f' = map (\<lambda>c. PDict (check_to_json c)) (cs @ x)"
    using validation_checks_cong [of f' "stamp_validation (voted cfg (sw_now w) cs) (get f ''validation'') f"]
    by (simp add: f' retag_get stamp_checks x)
  then show ?thesis by (intro kept_id [OF decoded_id [OF d assms(2)]]) auto
qed

lemma rebuild_id:
  assumes "decode_checks f = Ret cs" and "list_ex (check_has_id k) (validation_checks f)"
  shows "list_ex (check_has_id k) (validation_checks (apply_validation_to_finding w cfg f (cs @ x)))"
  using decoded_id [OF assms] by (intro kept_id [OF _ apply_checks]) simp

interpretation obligation: stage_invariant obliged w cfg for w cfg
proof unfold_locales
  fix f c assume f: "obliged f"
  show "obliged (append_check c f)" using f by (rule obliged_append)
  show "obliged (rewrite_l5_check c f)" if "vc_id c = PStr ''llm_judge''"
    using other_id_rewrite [OF that] f by (simp add: obliged_def OBLIGATION_ID_def)
  show "obliged f'" if "revote_finding_in_place w cfg f = Ret f'" for f'
    using revote_id [OF that] f by (simp add: obliged_def)
  show "obliged (apply_validation_to_finding w cfg f (cs @ extra))" if "decode_checks f = Ret cs" for cs extra
    using rebuild_id [OF that] f by (simp add: obliged_def)
next
  fix cs :: "validation_check list" and f assume "list_ex (\<lambda>c. vc_id c = PStr OBLIGATION_ID) cs"
  then show "obliged (apply_validation_to_finding w cfg f cs)"
    unfolding obliged_def using apply_checks by (rule kept_id)
qed

lemma mirrored_stamp: "mirrored (stamp_validation fv p t)"
  using stamp_blob [of fv p t] by (auto simp: mirrored_def stamp_get [of _ _ _ "''validation_status''"]
      stamp_get [of _ _ _ "''validation_confidence''"])

lemma mirrored_cong: "mirrored f \<Longrightarrow> (\<And>k. k \<noteq> ''provenance'' \<Longrightarrow> get g k = get f k) \<Longrightarrow> mirrored g"
  by (simp add: mirrored_def)

lemma mirrored_record: "mirrored f \<Longrightarrow> mirrored (record_window_reason f r)"
  using record_blob [of f _ r] by (fastforce simp: mirrored_def record_other_keys)

lemma mirrored_apply: "mirrored (apply_validation_to_finding w cfg f cs)"
  unfolding apply_validation_to_finding_def Let_def
  by (rule mirrored_cong [OF _ retag_get]) (auto simp: mirrored_record mirrored_stamp)

interpretation mirror: stage_invariant mirrored w cfg for w cfg
proof unfold_locales
  fix f c assume f: "mirrored f"
  show "mirrored (append_check c f)" using f by (auto simp: mirrored_def append_check_def Let_def)
  show "mirrored (rewrite_l5_check c f)"
    using f by (auto simp: mirrored_def rewrite_l5_check_def split: option.split)
  show "mirrored f'" if "revote_finding_in_place w cfg f = Ret f'" for f'
    using revote_result [OF that] mirrored_cong [OF mirrored_stamp retag_get] by blast
qed (simp_all add: mirrored_apply)

section \<open>Coverage\<close>

definition covered :: "pydict \<Rightarrow> bool" where
  "covered f \<longleftrightarrow> list_ex (check_has_id COVERAGE_ID) (validation_checks f)"

lemma stamp_covered: "covered (stamp_coverage r why f)"
  by (simp add: covered_def stamp_coverage_def validation_checks_append has_id_json)

interpretation coverage: final_invariant covered w cfg for w cfg
proof unfold_locales
  fix f c assume f: "covered f"
  show "covered (append_check c f)" using f by (simp add: covered_def validation_checks_append)
  show "covered (rewrite_l5_check c f)" if "vc_id c = PStr ''llm_judge''"
    using other_id_rewrite [OF that] f by (simp add: covered_def COVERAGE_ID_def)
  show "covered f'" if "revote_finding_in_place w cfg f = Ret f'" for f'
    using revote_id [OF that] f by (simp add: covered_def)
  show "covered (apply_validation_to_finding w cfg f (cs @ extra))" if "decode_checks f = Ret cs" for cs extra
    using rebuild_id [OF that] f by (simp add: covered_def)
qed

lemma covered_all: "rows_ok covered (length (ls_findings s)) (ls_findings (stamp_coverage_all sel s))"
  by (auto simp: stamp_coverage_all_def rows_ok_def list_all_iff stamp_covered split: prod.splits)

lemma run_l5_covers:
  assumes "run_l5 env cfg rt pool emit l1 fs = (Ret (), s)"
  shows "list_all covered (ls_findings s)"
proof -
  have "\<exists>sel s1. s = stamp_coverage_all sel s1"
    using assms by (fastforce simp: run_l5_def judge_selected_def finish_l5_def Let_def split: sum.splits if_splits option.splits prod.splits)
  then show ?thesis using covered_all by (auto simp: rows_ok_def)
qed

lemma phase_covers:
  assumes "run_l5_phase w cfg l1 rollups out lg = Ret (out', rollups', lg')"
  shows "list_all covered (out' @ rollups')"
proof (cases "resolve_l5_enabled (gw_env (sw_gate w)) cfg")
  case False
  then show ?thesis
    using assms by (auto simp: run_l5_phase_def Let_def bind_result_Ret list_all_iff stamp_covered)
next
  case True
  obtain r fs where g: "l5_guarded w cfg l1 out = (r, fs)" by fastforce
  obtain r1 s where l: "run_l5 (gw_env (sw_gate w)) cfg (sw_runtime w) (sw_pool w) (Some (stream_batch w cfg)) l1 out = (r1, s)"
    by fastforce
  have "list_all covered fs" if "\<not> isl r"
  proof -
    have "r1 = Ret ()" using g l that by (cases r1) (auto simp: l5_guarded_def)
    moreover from this have "l5_final w cfg s = (r, fs)" using g l by (simp add: l5_guarded_def)
    ultimately show ?thesis
      using coverage.final_keeps [of w cfg s r fs "length (ls_findings s)"] run_l5_covers l by (auto simp: rows_ok_def)
  qed
  then show ?thesis using assms True g
    by (cases r) (auto simp: run_l5_phase_def Let_def bind_result_Ret list_all_iff stamp_covered)
qed

section \<open>Rollup parents\<close>

definition parent_ok :: "bool \<Rightarrow> pydict \<Rightarrow> bool" where
  "parent_ok c p \<longleftrightarrow> obliged p \<and> (\<exists>b. get p ''validation'' = PDict b
     \<and> (c \<longrightarrow> get b ''status'' \<noteq> PStr ''likely_fp''))"

lemma built_parent_ok:
  assumes "build_rollup_parent digest w aid c fp ms n st = (Ret p, st')"
  shows "parent_ok d p"
proof -
  obtain pf where pf: "parent_fields ms c fp = Ret pf"
    using assms by (cases "parent_fields ms c fp") (auto simp: build_rollup_parent_def)
  obtain ob st1 where ob: "obligation_check w (plain_query (pf_category pf)) st = (ob, st1)" by fastforce
  obtain wc where "p = parent_record digest aid pf ms n (PDict (check_to_json ob) # wc)"
    using assms pf ob by (auto simp: build_rollup_parent_def bind_result_Ret)
  moreover have "vc_id ob = PStr OBLIGATION_ID"
    using obligation_check_fields(1) [of w "plain_query (pf_category pf)" st] ob by simp
  ultimately show ?thesis
    by (auto simp: parent_ok_def obliged_def validation_checks_def parent_record_def get_or_def as_dict_def as_list_def
        rollup_status_for_def has_id_json)
qed

lemma groups_parents:
  assumes "emit_groups digest w aid findings gs per ps st = (Ret (per', ps'), st')" and "list_all P ps"
    and "\<And>c fp ms n st p st'. build_rollup_parent digest w aid c fp ms n st = (Ret p, st') \<Longrightarrow> P p"
  shows "list_all P ps'"
  using assms
proof (induction digest w aid findings gs per ps st rule: emit_groups.induct)
  case (2 digest w aid findings c t fp idx gs per ps st)
  show ?case
  proof (cases "length idx < 2")
    case False
    obtain r st1 where b: "build_rollup_parent digest w aid c fp (map ((!) findings) idx) (length idx) st = (r, st1)" by fastforce
    then obtain p where r: "r = Ret p" using "2.prems"(1) False by (cases r) auto
    show ?thesis using "2.IH"(2) [OF False b [symmetric] r] "2.prems" False b r by simp
  qed (use "2.IH"(1) "2.prems" in simp)
qed simp

lemma l2_parents:
  assumes "run_l2_phase w cfg findings aid st lg = ((l2, rollups), st', lg')"
    and "\<And>c fp ms n st p st'. build_rollup_parent (sw_digest w) (sw_gate w) aid c fp ms n st = (Ret p, st') \<Longrightarrow> P p"
  shows "list_all P rollups"
  using assms(1) groups_parents [where P = P, OF _ _ assms(2)]
  by (fastforce simp: run_l2_phase_def run_l2_def group_and_emit_def split: if_splits prod.splits sum.splits)

lemma l2_parents_ok: "run_l2_phase w cfg findings aid st lg = ((l2, rollups), st', lg') \<Longrightarrow> list_all (parent_ok d) rollups"
  by (erule l2_parents) (rule built_parent_ok)

lemma stamp_parent_ok: "parent_ok d p \<Longrightarrow> parent_ok d (stamp_coverage r why p)"
  using obligation.stamped [of p r why]
  by (auto simp: parent_ok_def stamp_coverage_def append_check_def Let_def)

text \<open>Deriving the verdict drops rollup checks only, and takes the status of a voted member.\<close>

lemma table_rows: "by_id_from fs d = Ret d' \<Longrightarrow> snd ` set d' \<subseteq> snd ` set d \<union> set fs"
proof (induction fs arbitrary: d)
  case (Cons f fs)
  have u: "snd ` set (AList.update k f d) \<subseteq> insert f (snd ` set d)" for k by (induction d) auto
  show ?case
  proof (cases "truthy (get f ''id'')")
    case True
    then obtain k where "by_id_from fs (AList.update k f d) = Ret d'" using Cons.prems by (auto simp: bind_result_Ret Let_def)
    then have "snd ` set d' \<subseteq> snd ` set (AList.update k f d) \<union> set fs" by (rule Cons.IH)
    then show ?thesis using u [of k] by (simp only: set_simps) blast
  qed (use Cons in \<open>auto simp: Let_def\<close>)
qed simp

lemma dropped_checks:
  assumes "drop_rollup_checks raw = Ret cs"
  shows "cs = filter (\<lambda>c. \<not> check_has_id ''rollup'' c) raw"
proof -
  obtain bs where m: "map_result is_rollup_check raw = Ret bs" and cs: "cs = map fst (filter (\<lambda>(c, b). \<not> b) (zip raw bs))"
    using assms by (auto simp: drop_rollup_checks_def bind_result_Ret)
  have "map_result is_rollup_check raw = Ret bs \<Longrightarrow>
      map fst (filter (\<lambda>(c, b). \<not> b) (zip raw bs)) = filter (\<lambda>c. \<not> check_has_id ''rollup'' c) raw"
    by (induction raw arbitrary: bs) (auto simp: bind_result_Ret is_rollup_check_def check_has_id_def split: pyval.splits)
  then show ?thesis using m cs by simp
qed

lemma with_checks_get: "get (with_checks cs c b) ''checks'' = PList (cs @ [PDict (check_to_json c)])"
    "k \<noteq> ''checks'' \<Longrightarrow> get (with_checks cs c b) k = get b k"
  by (simp_all add: with_checks_def)

lemma table_value: "map_of d k = Some v \<Longrightarrow> v \<in> snd ` set d"
  by (force dest: map_of_SomeD)

lemma derived_blob:
  assumes "derive_blob now by_id mids b = Ret b'"
  shows "\<exists>raw x. py_iter (get_or b ''checks'' (PList [])) = Ret raw
    \<and> get b' ''checks'' = PList (filter (\<lambda>c. \<not> check_has_id ''rollup'' c) raw @ [x])
    \<and> (get b' ''status'' = get b ''status'' \<or> get b' ''status'' = PStr PLACEHOLDER_STATUS
        \<or> (\<exists>m \<in> snd ` set by_id. get b' ''status'' = get m ''validation_status''))"
proof -
  obtain raw where raw: "py_iter (get_or b ''checks'' (PList [])) = Ret raw"
    "bind_result (drop_rollup_checks raw) (\<lambda>checks. bind_result (map_result (score_of by_id) mids) (\<lambda>scores.
       case List.map_filter (\<lambda>s. s) scores of
         [] \<Rightarrow> Ret (with_checks checks (orphan_check (length mids)) b)
       | s # ss \<Rightarrow> bind_result (max_score s ss) (\<lambda>(best_conf, best_id).
           let best = (case map_of by_id best_id of Some f \<Rightarrow> f | None \<Rightarrow> []) in
           Ret (with_checks checks (derived_check best_id (length (s # ss)) (length mids))
             (put ''validated_at'' (PStr now)
               (put ''status'' (py_or (get best ''validation_status'') (PStr PLACEHOLDER_STATUS))
                 (put ''confidence'' (PFloat best_conf) b))))))) = Ret b'"
    using assms by (auto simp: derive_blob_def bind_result_Ret)
  then obtain scores where sc: "(case List.map_filter (\<lambda>s. s) scores of
         [] \<Rightarrow> Ret (with_checks (filter (\<lambda>c. \<not> check_has_id ''rollup'' c) raw) (orphan_check (length mids)) b)
       | s # ss \<Rightarrow> bind_result (max_score s ss) (\<lambda>(best_conf, best_id).
           let best = (case map_of by_id best_id of Some f \<Rightarrow> f | None \<Rightarrow> []) in
           Ret (with_checks (filter (\<lambda>c. \<not> check_has_id ''rollup'' c) raw) (derived_check best_id (length (s # ss)) (length mids))
             (put ''validated_at'' (PStr now)
               (put ''status'' (py_or (get best ''validation_status'') (PStr PLACEHOLDER_STATUS))
                 (put ''confidence'' (PFloat best_conf) b)))))) = Ret b'"
    using dropped_checks by (auto simp: bind_result_Ret)
  show ?thesis
  proof (cases "List.map_filter (\<lambda>s. s) scores")
    case Nil
    then show ?thesis using sc raw(1) with_checks_get by force
  next
    case (Cons s ss)
    then obtain conf k where k: "b' = with_checks (filter (\<lambda>c. \<not> check_has_id ''rollup'' c) raw)
        (derived_check k (length (s # ss)) (length mids)) (put ''validated_at'' (PStr now)
          (put ''status'' (py_or (get (case map_of by_id k of Some f \<Rightarrow> f | None \<Rightarrow> []) ''validation_status'') (PStr PLACEHOLDER_STATUS))
             (put ''confidence'' (PFloat conf) b)))"
      using sc by (auto simp: bind_result_Ret Let_def)
    have "get b' ''status'' = py_or (get (case map_of by_id k of Some f \<Rightarrow> f | None \<Rightarrow> []) ''validation_status'') (PStr PLACEHOLDER_STATUS)"
      unfolding k by (subst with_checks_get(2)) simp_all
    then have "get b' ''status'' = PStr PLACEHOLDER_STATUS \<or> (\<exists>m \<in> snd ` set by_id. get b' ''status'' = get m ''validation_status'')"
      using table_value [of by_id k] by (cases "map_of by_id k") (auto simp: py_or_def split: if_splits)
    then show ?thesis using raw(1) with_checks_get(1) unfolding k by blast
  qed
qed

lemma derived_parent_ok:
  assumes "derive_parent now by_id p = Ret p'" and "parent_ok d p"
    and "d \<longrightarrow> (\<forall>m \<in> snd ` set by_id. get m ''validation_status'' \<noteq> PStr ''likely_fp'')"
  shows "parent_ok d p' \<and> (covered p \<longrightarrow> covered p')"
proof -
  obtain b cs where b: "get p ''validation'' = PDict b" "get b ''checks'' = PList cs" "validation_checks p = cs"
      "d \<longrightarrow> get b ''status'' \<noteq> PStr ''likely_fp''" "list_ex (check_has_id OBLIGATION_ID) cs"
    using assms(2) by (auto simp: parent_ok_def obliged_def validation_checks_def as_list_def as_dict_def split: pyval.splits)
  have g: "get_or p ''validation'' (PDict []) = PDict b" "get_or b ''checks'' (PList []) = PList cs"
    using b(1,2) by (auto simp: get_or_def split: option.splits)
  then obtain mids b' where db: "derive_blob now by_id mids b = Ret b'" "p' = put ''validation'' (PDict b') p"
    using assms(1) by (auto simp: derive_parent_def bind_result_Ret)
  obtain x where x: "get b' ''checks'' = PList (filter (\<lambda>c. \<not> check_has_id ''rollup'' c) cs @ [x])"
    and st: "get b' ''status'' = get b ''status'' \<or> get b' ''status'' = PStr PLACEHOLDER_STATUS
        \<or> (\<exists>m \<in> snd ` set by_id. get b' ''status'' = get m ''validation_status'')"
    using derived_blob [OF db(1)] unfolding g(2) py_iter_def by auto
  have ns: "d \<longrightarrow> get b' ''status'' \<noteq> PStr ''likely_fp''" using st b(4) assms(3) by (auto simp: PLACEHOLDER_STATUS_def)
  have vc: "validation_checks p' = filter (\<lambda>c. \<not> check_has_id ''rollup'' c) cs @ [x]"
    using db(2) x by (simp add: validation_checks_def as_dict_def as_list_def)
  have keep: "list_ex (check_has_id k) (validation_checks p')" if ex: "list_ex (check_has_id k) cs" "k \<noteq> ''rollup''" for k
  proof -
    obtain y where y: "y \<in> set cs" "check_has_id k y" using ex(1) by (auto simp: list_ex_iff)
    then have "\<not> check_has_id ''rollup'' y" using ex(2) by (auto simp: check_has_id_def split: pyval.splits)
    then show ?thesis using y vc by (auto simp: list_ex_iff)
  qed
  show ?thesis
    using keep [OF b(5)] keep [of COVERAGE_ID] b(3) db(2) ns
    by (auto simp: parent_ok_def obliged_def covered_def OBLIGATION_ID_def COVERAGE_ID_def)
qed

lemma mirrored_parent:
  assumes "mirror_parent p = Ret p'" and "parent_ok d p"
  shows "parent_ok d p' \<and> (covered p \<longrightarrow> covered p')
    \<and> (d \<longrightarrow> get p' ''validation_status'' \<noteq> PStr ''likely_fp'')"
proof -
  obtain b where b: "get p ''validation'' = PDict b" "d \<longrightarrow> get b ''status'' \<noteq> PStr ''likely_fp''" using assms(2) by (auto simp: parent_ok_def)
  have s: "d \<longrightarrow> get_or b ''status'' (PStr ''suspicious'') \<noteq> PStr ''likely_fp''"
    using b(2) by (auto simp: get_or_def split: option.splits)
  have v: "get p' k = get p k" if "k \<notin> {''validation_status'', ''validation_confidence''}" for k
    using assms(1) that by (auto simp: mirror_parent_def split: pyval.splits)
  have "get p' ''validation_status'' = get_or (if b = [] then [] else b) ''status'' (PStr ''suspicious'')"
    using assms(1) b(1) by (auto simp: mirror_parent_def py_or_def split: if_splits)
  then have "get p' ''validation_status'' = get_or b ''status'' (PStr ''suspicious'')" by (cases "b = []") auto
  then show ?thesis using s v [of "''validation''"] b assms(2) validation_checks_cong [of p' p]
    by (auto simp: parent_ok_def obliged_def covered_def)
qed

lemma summary_parents:
  assumes "emit_summary w out rollups lg = Ret (parents, lg')" and "list_all (parent_ok d) rollups" and "list_all covered rollups"
    and "d \<longrightarrow> (\<forall>f \<in> set out. get f ''validation_status'' \<noteq> PStr ''likely_fp'')"
  shows "list_all (parent_ok d) parents \<and> list_all covered parents
    \<and> (d \<longrightarrow> (\<forall>p \<in> set parents. get p ''validation_status'' \<noteq> PStr ''likely_fp''))"
proof -
  obtain ps where ps: "derive_parent_verdicts (sw_now w) out rollups = Ret ps" "map_result mirror_parent ps = Ret parents"
    using assms(1) by (auto simp: emit_summary_def bind_result_Ret)
  have each: "parent_ok d p \<and> covered p" if p: "p \<in> set ps" for p
  proof -
    obtain by_id where t: "by_id_from out [] = Ret by_id" and m: "map_result (derive_parent (sw_now w) by_id) rollups = Ret ps"
      using ps(1) p by (auto simp: derive_parent_verdicts_def bind_result_Ret split: if_splits)
    obtain q where q: "q \<in> set rollups" "derive_parent (sw_now w) by_id q = Ret p" using in_map_result [OF m] p by blast
    have "d \<longrightarrow> (\<forall>m \<in> snd ` set by_id. get m ''validation_status'' \<noteq> PStr ''likely_fp'')"
      using table_rows [OF t] assms(4) by auto
    then show ?thesis using derived_parent_ok [OF q(2), of d] q(1) assms(2,3) by (simp add: list_all_iff)
  qed
  show ?thesis unfolding list_all_iff
    using in_map_result [OF ps(2)] mirrored_parent each by blast
qed

lemma phase_parents:
  "run_l5_phase w cfg l1 rollups out lg = Ret (out', rollups', lg') \<Longrightarrow> list_all (parent_ok d) rollups \<Longrightarrow>
   list_all (parent_ok d) rollups'"
  by (auto simp: run_l5_phase_def Let_def bind_result_Ret list_all_iff stamp_parent_ok split: if_splits prod.splits)

lemma result_parents:
  assumes "validate w config src aid st fs = Ret r"
  shows "list_all (parent_ok False) (vr_rollups r) \<and> list_all covered (vr_findings r @ vr_rollups r)
    \<and> (cf_compliance_mode (effective_config config) \<longrightarrow> (\<forall>p \<in> set (vr_rollups r). get p ''validation_status'' \<noteq> PStr ''likely_fp''))"
  using assms
proof (cases rule: validate_cases)
  case (run l1 st1 lg1 l2 rollups st2 lg2 out lg3 out' rollups' lg4 parents lg5)
  note ps = phase_parents [OF run(5) l2_parents_ok [OF run(3)]]
  have cov: "list_all covered out'" "list_all covered rollups'" using phase_covers [OF run(5)] by simp_all
  have nd: "cf_compliance_mode (effective_config config) \<longrightarrow> (\<forall>f \<in> set out'. get f ''validation_status'' \<noteq> PStr ''likely_fp'')"
    using compliance.validate_keeps [OF assms refl] run(7) by (auto simp: to_result_def rows_ok_def list_all_iff not_dismissed_def)
  note s1 = summary_parents [OF run(6) ps cov(2), of False]
  note s2 = summary_parents [OF run(6) ps cov(2) nd]
  show ?thesis using run(7) cov(1) s1 s2 by (simp add: to_result_def)
qed (simp add: to_result_def)

section \<open>Properties\<close>

text \<open>C8. Demote, never drop: the stage returns exactly as many findings as it was given, whatever L1, the
  judge and the callback do.\<close>

theorem validate_keeps_every_row:
  assumes "validate w config src aid st findings = Ret r"
  shows "length (vr_findings r) = length findings"
  using every_row.validate_keeps [OF assms refl] by (simp add: rows_ok_def)

text \<open>C6. No private field leaves the stage: no returned finding carries the copied evidence quote, the
  model's own check identifier or a stamp of the anchor verifier.\<close>

theorem private_fields_never_leave:
  assumes "validate w config src aid st findings = Ret r"
  shows "\<forall>f \<in> set (vr_findings r). \<forall>k \<in> set PRIVATE_FIELDS. \<not> has_key f k"
  using private_fields.validate_keeps [OF assms refl] by (simp add: rows_ok_def list_all_iff clean_def)

text \<open>C3. Compliance mode never dismisses: in compliance mode no returned row, finding or rollup parent, has
  the status \<open>likely_fp\<close>, also after the judge's demotions and the re-votes of both finalisers.\<close>

theorem compliance_never_dismisses:
  assumes "validate w config src aid st findings = Ret r" and "cf_compliance_mode (effective_config config)"
  shows "\<forall>f \<in> set (vr_findings r @ vr_rollups r). get f ''validation_status'' \<noteq> PStr ''likely_fp''"
  using compliance.validate_keeps [OF assms(1) refl] result_parents [OF assms(1)] assms(2)
  by (auto simp: rows_ok_def list_all_iff not_dismissed_def)

text \<open>No row is voted without an obligation: every returned finding and every rollup parent carries an
  obligation check in its blob.\<close>

theorem no_row_without_obligation:
  assumes "validate w config src aid st findings = Ret r"
  shows "\<forall>f \<in> set (vr_findings r @ vr_rollups r). list_ex (check_has_id OBLIGATION_ID) (validation_checks f)"
  using obligation.validate_keeps [OF assms refl] result_parents [OF assms]
  by (auto simp: rows_ok_def list_all_iff obliged_def parent_ok_def)

text \<open>C9. Every row says what became of it: each returned finding and each rollup parent carries a coverage
  check, with the judge on, off or failing outright, and after the re-votes.\<close>

theorem every_row_is_covered:
  assumes "validate w config src aid st findings = Ret r"
  shows "\<forall>f \<in> set (vr_findings r @ vr_rollups r). list_ex (check_has_id COVERAGE_ID) (validation_checks f)"
  using result_parents [OF assms] by (auto simp: list_all_iff covered_def)

text \<open>The columns mirror the blob: the status and the confidence stamped on a returned finding are the
  ones in its validation blob.\<close>

theorem columns_mirror_the_blob:
  assumes "validate w config src aid st findings = Ret r"
  shows "\<forall>f \<in> set (vr_findings r). \<exists>b. get f ''validation'' = PDict b
    \<and> get f ''validation_status'' = get b ''status'' \<and> get f ''validation_confidence'' = get b ''confidence''"
  using mirror.validate_keeps [OF assms refl] by (simp add: rows_ok_def list_all_iff mirrored_def)

text \<open>Verified by the judge means a verdict that survived: a vote tags a finding \<open>llm_l5_verified\<close> exactly
  when it came from a model and carries verdict checks of which none demotes and one asserts something;
  every other provenance is left as it was.\<close>

theorem retagged_exactly_when:
  "get (apply_validation_to_finding w cfg f cs) ''provenance'' =
    (if get f ''provenance'' = PStr ''llm''
        \<and> list_ex (\<lambda>c. vc_id c = PStr ''llm_judge'' \<and> vc_result c \<noteq> PStr ''undecided'' \<and> vc_result c \<noteq> PStr ''error'') cs
        \<and> \<not> list_ex (\<lambda>c. vc_id c = PStr ''llm_judge'' \<and> fl_less (vc_weight c) (FFin 0)) cs
     then PStr ''llm_l5_verified'' else get f ''provenance'')"
proof -
  have p: "get (foldl (\<lambda>f n. pop n f) g ks) k = (if k \<in> set ks then PNone else get g k)" for g ks k
    by (induction ks arbitrary: g) auto
  have s: "get (strip_private store f) ''provenance'' = get f ''provenance''" for store
    using private_not_stage [of "''provenance''"]
    by (auto simp: strip_private_def strip_private_fields_def p persist_evidence_quote_def Let_def split: option.split)
  have r: "get (retag_l5_verified cs g) ''provenance'' =
    (if get g ''provenance'' = PStr ''llm''
        \<and> list_ex (\<lambda>c. vc_id c = PStr ''llm_judge'' \<and> vc_result c \<noteq> PStr ''undecided'' \<and> vc_result c \<noteq> PStr ''error'') cs
        \<and> \<not> list_ex (\<lambda>c. vc_id c = PStr ''llm_judge'' \<and> fl_less (vc_weight c) (FFin 0)) cs
     then PStr ''llm_l5_verified'' else get g ''provenance'')" for g
    by (auto simp: retag_l5_verified_def Let_def L5_NO_ASSERTION_def JUDGE_UNDECIDED_def l5_check_is_demoting_def
        negative_def list_ex_iff list_all_iff filter_empty_conv)
  show ?thesis
    by (simp add: apply_validation_to_finding_def Let_def r record_get stamp_get s record_other_keys)
qed

end
