(* ===== verification/Stage_Examples.thy ===== *)
theory Stage_Examples
  imports Stage_Promises
begin

text \<open>
  The promises of the stage applied to a concrete run: two findings, an obligation from L1 on each, a
  suppression marker on one, compliance mode, and a judge that has no code window to read.
\<close>

definition ex_row_of :: "string \<Rightarrow> pydict" where
  "ex_row_of i = [(''id'', PStr i), (''title'', PStr ''t''), (''category'', PStr ''CWE-89''),
     (''file_path'', PStr ''a.py''), (''line_start'', PInt 7), (''provenance'', PStr ''llm''),
     (''evidence_quote'', PStr ''q(x)''), (''_anchor_status'', PStr ''exact'')]"

definition ex_obligation :: validation_check where
  "ex_obligation = new_check OBLIGATION_ID OBLIGATION_DISCHARGED 0 [] []"

definition ex_stage :: stage_world where
  "ex_stage = \<lparr>sw_gate = ex_world ''observe'', sw_now = ''2025-01-01'', sw_elapsed = \<lambda>_. 3, sw_store = \<lambda>q. Some ''00ff'',
     sw_digest = \<lambda>t. ''ab'', sw_l1 = \<lambda>fs root st. (Ret (map (\<lambda>f. if get f ''id'' = PStr ''f2'' then [ex_nosec, ex_obligation] else [ex_obligation]) fs), st),
     sw_runtime = Some (''m'', 10), sw_pool = \<lambda>_. [], sw_emit = None\<rparr>"

definition ex_compliance :: validate_config where
  "ex_compliance = default_config\<lparr>cf_compliance_mode := True, cf_enable_l2 := False, cf_enable_l5_override := Some True\<rparr>"

definition ex_stage_run :: "validation_result result" where
  "ex_stage_run = validate ex_stage (Some ex_compliance) ''/src'' ''A1'' ex_state [ex_row_of ''f1'', ex_row_of ''f2'']"

lemma ex_ran: "case ex_stage_run of Inl e \<Rightarrow> False | Inr r \<Rightarrow> length (vr_findings r) = 2 \<and> vr_rollups r = []
    \<and> vr_layers_run r = [''L1'', ''vote'', ''L5'']"
  by code_simp

lemma ex_ret: obtains r where "ex_stage_run = Ret r" "length (vr_findings r) = 2" "vr_findings r ! 1 \<in> set (vr_findings r)"
proof (cases ex_stage_run)
  case (Inr r)
  have "length (vr_findings r) = 2" using ex_ran unfolding Inr by simp
  then show ?thesis using that [OF Inr] by simp
next
  case (Inl e)
  show ?thesis using ex_ran unfolding Inl by simp
qed

lemma ex_config: "effective_config (Some ex_compliance) = ex_compliance" "cf_compliance_mode ex_compliance"
  by (simp_all add: effective_config_def ex_compliance_def)

theorem validate_keeps_every_row_witness:
  "\<exists>r. ex_stage_run = Ret r \<and> length (vr_findings r) = length [ex_row_of ''f1'', ex_row_of ''f2'']"
proof -
  obtain r where r: "ex_stage_run = Ret r" by (rule ex_ret)
  then show ?thesis using validate_keeps_every_row [OF r [unfolded ex_stage_run_def]] by blast
qed

theorem private_fields_never_leave_witness:
  "has_key (ex_row_of ''f1'') ''evidence_quote''
    \<and> (\<exists>r. ex_stage_run = Ret r \<and> \<not> has_key (vr_findings r ! 0) ''evidence_quote'')"
proof -
  obtain r where r: "ex_stage_run = Ret r" "length (vr_findings r) = 2" "vr_findings r ! 1 \<in> set (vr_findings r)"
    by (rule ex_ret)
  have "''evidence_quote'' \<in> set PRIVATE_FIELDS" "vr_findings r ! 0 \<in> set (vr_findings r)" using r(2) by (simp_all add: PRIVATE_FIELDS_def)
  then have "\<not> has_key (vr_findings r ! 0) ''evidence_quote''"
    using private_fields_never_leave [OF r(1) [unfolded ex_stage_run_def]] by blast
  then show ?thesis using r(1) by (auto simp: has_key_def ex_row_of_def)
qed

theorem compliance_never_dismisses_witness:
  "\<exists>r. ex_stage_run = Ret r \<and> get (vr_findings r ! 1) ''validation_status'' \<noteq> PStr ''likely_fp''"
proof -
  obtain r where r: "ex_stage_run = Ret r" "length (vr_findings r) = 2" "vr_findings r ! 1 \<in> set (vr_findings r)"
    by (rule ex_ret)
  then show ?thesis
    using compliance_never_dismisses [OF r(1) [unfolded ex_stage_run_def]] ex_config r(1,3) by (intro exI [of _ r]) simp
qed

theorem no_row_without_obligation_witness:
  "\<exists>r. ex_stage_run = Ret r \<and> list_ex (check_has_id OBLIGATION_ID) (validation_checks (vr_findings r ! 1))"
proof -
  obtain r where r: "ex_stage_run = Ret r" "length (vr_findings r) = 2" "vr_findings r ! 1 \<in> set (vr_findings r)"
    by (rule ex_ret)
  then show ?thesis using no_row_without_obligation [OF r(1) [unfolded ex_stage_run_def]] r(1,3) by (intro exI [of _ r]) simp
qed

theorem every_row_is_covered_witness:
  "\<exists>r. ex_stage_run = Ret r \<and> list_ex (check_has_id COVERAGE_ID) (validation_checks (vr_findings r ! 1))"
proof -
  obtain r where r: "ex_stage_run = Ret r" "length (vr_findings r) = 2" "vr_findings r ! 1 \<in> set (vr_findings r)"
    by (rule ex_ret)
  then show ?thesis using every_row_is_covered [OF r(1) [unfolded ex_stage_run_def]] r(1,3) by (intro exI [of _ r]) simp
qed

theorem columns_mirror_the_blob_witness:
  "\<exists>r b. ex_stage_run = Ret r \<and> get (vr_findings r ! 1) ''validation'' = PDict b
    \<and> get (vr_findings r ! 1) ''validation_status'' = get b ''status''"
proof -
  obtain r where r: "ex_stage_run = Ret r" "length (vr_findings r) = 2" "vr_findings r ! 1 \<in> set (vr_findings r)"
    by (rule ex_ret)
  then show ?thesis using columns_mirror_the_blob [OF r(1) [unfolded ex_stage_run_def]] r(1,3) by blast
qed

section \<open>Compliance checks stack\<close>

text \<open>Each re-vote in compliance mode appends another copy of the override's check.\<close>

lemma compliance_checks_stack:
  "let f = apply_validation_to_finding ex_stage ex_compliance [] [ex_nosec] in
   case revote_finding_in_place ex_stage ex_compliance f of
     Inr f' \<Rightarrow> length (filter (check_has_id ''compliance'') (validation_checks f')) = 2
   | Inl e \<Rightarrow> False"
  by code_simp

end
