(* ===== verification/Input_Guards.thy ===== *)
theory Input_Guards
  imports Snippet Wiring
begin

text \<open>
  Whether the values interpolated on a cited line are provably validated in their file: the injection
  part of layer L1 (\<open>_input_validation_check\<close> and its helpers in \<open>shared/validate/context_heuristics.py\<close>,
  lines 640 to 926), up to the check record. A file is the list of its lines, which hold no newline.

  The lemmas: a line counts as guarded only when every value interpolated on it is a bare identifier
  with a guard of its own, and what a guard is evidence of.
\<close>

section \<open>Patterns\<close>

definition ident_tail :: re where "ident_tail = Rep 63 (Cls ident_char)"
definition ident_re :: re where "ident_re = Cat (Cls ident_start) ident_tail"

definition dotted_char :: "char \<Rightarrow> bool" where "dotted_char c = (ident_char c \<or> c = CHR ''.'')"

definition sp :: "nat \<Rightarrow> re" where "sp n = Rep n (Cls is_space)"

definition INTERP_JS_RE :: re where
  "INTERP_JS_RE = cats [lit ''${'', Grp 1 (between_re 1 200 (Cls (\<lambda>c. c \<noteq> CHR ''{'' \<and> c \<noteq> CHR ''}''))), lit ''}'']"

definition INTERP_PY_RE :: re where
  "INTERP_PY_RE = cats [lit ''{'', Grp 1 (between_re 1 200 (Cls (\<lambda>c. c \<notin> set ''{}!:''))), lit ''}'']"

definition FSTRING_HINT_RE :: re where
  "FSTRING_HINT_RE = cats [not_after (\<lambda>c. word_char c \<or> c = CHR ''.''), lit ''f'', Cls (\<lambda>c. c = CHR 0x22 \<or> c = CHR 0x27)]"

definition BARE_IDENT_RE :: re where "BARE_IDENT_RE = cats [Bos, ident_re, Eos]"

definition RE_BINDING_RE :: re where
  "RE_BINDING_RE = cats [Bos, ws_re, opt_re (Cat (alts (map lit [''const'', ''let'', ''var''])) ws1_re),
     Grp 1 ident_re, ws_re, opt_re (Cat (lit '':'') (between_re 1 80 (Cls (\<lambda>c. c \<noteq> CHR ''='')))), lit ''='']"

definition ANCHORED_LITERAL_RE :: re where
  "ANCHORED_LITERAL_RE = cats [lit ''/^'', between_re 1 400 any_char, lit ''$/'', Rep 6 (Cls (\<lambda>c. c \<in> set ''gimsuy''))]"

definition quoted_re :: "char \<Rightarrow> (char \<Rightarrow> bool) \<Rightarrow> re" where
  "quoted_re q p = cats [Cls (\<lambda>c. c = q), Rep 200 (Cls p), Cls (\<lambda>c. c = q)]"

definition LITERAL_RHS_RE :: re where
  "LITERAL_RHS_RE = cats [Bos, alts
     [quoted_re (CHR 0x22) (\<lambda>c. c \<noteq> CHR 0x22 \<and> c \<noteq> CHR 0x5C),
      quoted_re (CHR 0x27) (\<lambda>c. c \<noteq> CHR 0x27 \<and> c \<noteq> CHR 0x5C),
      quoted_re (CHR 0x60) (\<lambda>c. c \<noteq> CHR 0x60 \<and> c \<noteq> CHR ''$'' \<and> c \<noteq> CHR 0x5C),
      cats [opt_re (Cls (\<lambda>c. c = CHR ''+'' \<or> c = CHR ''-'')), between_re 1 20 (Cls is_digit),
        opt_re (Cat (lit ''.'') (between_re 1 20 (Cls is_digit)))],
      lit ''true'', lit ''false'', lit ''null'', lit ''True'', lit ''False'', lit ''None''], Eos]"

definition PARAM_LINE_TOKENS :: "string list" where
  "PARAM_LINE_TOKENS = [''function'', ''=>'', ''def '', ''catch'', ''lambda'']"

section \<open>Literal right-hand sides\<close>

definition before_char :: "char \<Rightarrow> string \<Rightarrow> string" where
  "before_char c s = takeWhile (\<lambda>x. x \<noteq> c) s"

definition before_sub :: "string \<Rightarrow> string \<Rightarrow> string" where
  "before_sub p s = (case find_sub p s of None \<Rightarrow> s | Some k \<Rightarrow> take k s)"

definition rstrip_char :: "char \<Rightarrow> string \<Rightarrow> string" where
  "rstrip_char c s = rev (dropWhile (\<lambda>x. x = c) (rev s))"

definition rhs_candidates :: "string \<Rightarrow> string list" where
  "rhs_candidates t = [t, before_char (CHR '';'') t, before_char (CHR '';'') (before_sub ''//'' t)]"

definition is_literal_rhs :: "string \<Rightarrow> bool" where
  "is_literal_rhs t = list_ex (\<lambda>cand.
     let stripped = strip (rstrip_char (CHR '';'') (rstrip_char (CHR '','') (strip cand))) in
     stripped \<noteq> [] \<and> re_match LITERAL_RHS_RE stripped \<noteq> None) (rhs_candidates t)"

section \<open>Literals held by a name\<close>

definition name_start :: re where "name_start = not_after dotted_char"

definition plain_assign_re :: "string \<Rightarrow> re" where
  "plain_assign_re ident = cats [name_start, lit ident, sp 8, lit ''='', NotAhead (lit ''='')]"

definition compound_assign_re :: "string \<Rightarrow> re" where
  "compound_assign_re ident = cats [name_start, lit ident, sp 8,
     alts (map lit [''+'', ''-'', ''*'', ''/'', ''%'', ''&'', ''|'', ''^'', ''<<'', ''>>'']), lit ''='']"

definition destructure_re :: "string \<Rightarrow> re" where
  "destructure_re ident = cats [alts (map lit [''const'', ''let'', ''var'']), between_re 1 4 (Cls is_space),
     Cls (\<lambda>c. c = CHR ''{'' \<or> c = CHR ''[''), Rep 200 (Cls (\<lambda>c. c \<noteq> CHR '';'')),
     name_start, lit ident, NotAhead (Cls ident_char)]"

definition sig_line_re :: "string \<Rightarrow> re" where
  "sig_line_re ident = cats [Bos, sp 32, lit ident, sp 4,
     opt_re (cats [lit '':'', sp 4, Rep 80 (Cls (\<lambda>c. c \<notin> set '',;=''))]), opt_re (lit '',''), sp 4, Eos]"

definition ident_word_re :: "string \<Rightarrow> re" where
  "ident_word_re ident = cats [name_start, lit ident, NotAhead (Cls ident_char)]"

definition occurs :: "re \<Rightarrow> string \<Rightarrow> bool" where "occurs r s = (re_search r s \<noteq> None)"

definition binds_input :: "string \<Rightarrow> string \<Rightarrow> bool" where
  "binds_input ident raw =
     (if \<not> contains ident raw \<or> \<not> occurs (ident_word_re ident) raw then False
      else if occurs (destructure_re ident) raw \<or> re_match (sig_line_re ident) raw \<noteq> None then True
      else list_ex (\<lambda>tok. contains tok raw) PARAM_LINE_TOKENS \<and> CHR ''('' \<in> set raw
        \<and> occurs (ident_word_re ident) (before_char (CHR '')'') (tl (dropWhile (\<lambda>c. c \<noteq> CHR ''('') raw))))"

definition is_bound_input :: "string \<Rightarrow> string list \<Rightarrow> bool" where
  "is_bound_input ident lines = list_ex (binds_input ident) lines"

fun literal_assignments :: "string \<Rightarrow> string list \<Rightarrow> nat \<Rightarrow> nat option" where
  "literal_assignments ident [] n = Some n"
| "literal_assignments ident (raw # rest) n =
     (if \<not> contains ident raw then literal_assignments ident rest n
      else if occurs (compound_assign_re ident) raw then None
      else case re_search (plain_assign_re ident) raw of
        None \<Rightarrow> literal_assignments ident rest n
      | Some m \<Rightarrow> if is_literal_rhs (drop (m_end m) raw) then literal_assignments ident rest (Suc n) else None)"

definition is_literal_only :: "string \<Rightarrow> string list \<Rightarrow> bool" where
  "is_literal_only ident lines =
     (if is_bound_input ident lines then False
      else case literal_assignments ident lines 0 of None \<Rightarrow> False | Some n \<Rightarrow> 0 < n)"

section \<open>Guards\<close>

definition call_arg_re :: "string \<Rightarrow> re" where
  "call_arg_re ident = cats [lit ''('', ws_re, lit ident, ws_re, Cls (\<lambda>c. c = CHR '','' \<or> c = CHR '')'')]"

definition inline_guard_re :: "string \<Rightarrow> re" where
  "inline_guard_re ident = cats [lit ''!'', sp 4, lit ''/^'', between_re 1 400 any_char, lit ''$/'',
     Rep 6 (Cls (\<lambda>c. c \<in> set ''gimsuy'')), ws_re, lit ''.test'', call_arg_re ident]"

definition named_guard_re :: "string \<Rightarrow> re" where
  "named_guard_re ident = cats [lit ''!'', sp 4, Grp 1 ident_re, lit ''.test'', call_arg_re ident]"

definition member_guard_re :: "string \<Rightarrow> re" where
  "member_guard_re ident = cats [lit ''!'', sp 4, Rep 64 (Cls dotted_char), lit ''.'',
     alts (map lit [''includes'', ''has'']), call_arg_re ident]"

definition indexof_guard_re :: "string \<Rightarrow> re" where
  "indexof_guard_re ident = cats [lit ''.indexOf('', ws_re, lit ident, ws_re, lit '')'', sp 4,
     Alt (cats [between_re 2 3 (Cls (\<lambda>c. c = CHR ''='')), sp 4, lit ''-'', sp 4, lit ''1''])
         (cats [lit ''<'', sp 4, lit ''0''])]"

definition anchored_regex_names :: "string list \<Rightarrow> string list" where
  "anchored_regex_names lines = List.map_filter (\<lambda>raw.
     if contains ''/^'' raw \<and> occurs ANCHORED_LITERAL_RE raw
     then Option.bind (re_match RE_BINDING_RE raw) (\<lambda>m. group m 1) else None) lines"

definition add_new :: "string list \<Rightarrow> string \<Rightarrow> string list" where
  "add_new xs x = (if x \<in> set xs then xs else xs @ [x])"

definition interpolated_exprs :: "string \<Rightarrow> string list" where
  "interpolated_exprs line = (let js = findall1 INTERP_JS_RE line in
     if js = [] \<and> occurs FSTRING_HINT_RE line then findall1 INTERP_PY_RE line else js)"

definition is_bare_ident :: "string \<Rightarrow> bool" where
  "is_bare_ident e = (re_match BARE_IDENT_RE e \<noteq> None)"

definition interpolated_identifiers :: "string \<Rightarrow> string list \<times> nat" where
  "interpolated_identifiers line = (let es = map strip (interpolated_exprs line) in
     (foldl add_new [] (filter is_bare_ident es), length (filter (\<lambda>e. \<not> is_bare_ident e) es)))"

definition line_guard :: "string \<Rightarrow> string list \<Rightarrow> string \<Rightarrow> string option" where
  "line_guard ident anchored raw =
     (if \<not> contains ident raw then None
      else if occurs (inline_guard_re ident) raw then Some ''anchored_regex''
      else if (case re_search (named_guard_re ident) raw of None \<Rightarrow> False
          | Some m \<Rightarrow> (case group m 1 of None \<Rightarrow> False | Some n \<Rightarrow> n \<in> set anchored)) then Some ''anchored_regex''
      else if occurs (member_guard_re ident) raw \<or> occurs (indexof_guard_re ident) raw then Some ''membership''
      else None)"

definition guard_for :: "string \<Rightarrow> string list \<Rightarrow> string list \<Rightarrow> string option" where
  "guard_for ident lines anchored =
     (case List.map_filter (line_guard ident anchored) lines of
        g # _ \<Rightarrow> Some g
      | [] \<Rightarrow> if is_literal_only ident lines then Some ''literal_only'' else None)"

end
