(* ===== verification/Layer1.thy ===== *)
theory Layer1
  imports Refutation Input_Guards Py_Order
begin

text \<open>
  Layer L1 of the validation stage (\<open>shared/validate/context_heuristics.py\<close>): the path class, suppression
  markers, the sanitizer scan, the anchor check, the presence of a secret value, the input-validation
  check and the obligation of a finding, and \<open>run_l1\<close> over a batch. Opening a file, resolving a path,
  the redaction primitive and the text of an exception are the fields of \<open>l1_world\<close>; the line and scan
  caches are the pure functions they memoise, because the layer clears them around every batch.

  The lemmas: every finding leaves with an obligation, nothing but a production path promotes, what
  demotes and why, and that the secret check tells only facts about a value, never the value.
\<close>

record l1_world =
  lw_gate :: gate_world
  lw_open :: "string \<Rightarrow> string result"
  lw_resolve :: "string \<Rightarrow> string option"
  lw_redact :: "string \<Rightarrow> string"
  lw_message :: "py_error \<Rightarrow> string"

section \<open>Paths\<close>

definition sep_start :: re where "sep_start = Alt Bos (lit ''/'')"
definition sep_end :: re where "sep_end = Alt (lit ''/'') Eos"
definition no_slash1 :: re where "no_slash1 = plus_re (Cls (\<lambda>c. c \<noteq> CHR ''/''))"

definition DEMOTING_DIRS :: "re list" where
  "DEMOTING_DIRS = [Cat (ilit ''test'') (opt_re (ilit ''s'')), ilit ''test_data'', ilit ''testdata'',
     Cat (ilit ''fixture'') (opt_re (ilit ''s'')), Cat (ilit ''example'') (opt_re (ilit ''s'')),
     Cat (ilit ''sample'') (opt_re (ilit ''s'')), Cat (ilit ''demo'') (opt_re (ilit ''s'')),
     Cat (ilit ''spec'') (opt_re (ilit ''s'')), ilit ''__tests__'', ilit ''spec'', ilit ''e2e'',
     Cat (ilit ''integration_test'') (opt_re (ilit ''s'')), Cat (ilit ''unit_test'') (opt_re (ilit ''s'')),
     ilit ''vendor'', ilit ''third_party'', ilit ''node_modules'', ilit ''.venv'', ilit ''venv'', ilit ''__pycache__'',
     ilit ''stubs'', ilit ''.gradle'', ilit ''build'', ilit ''target'', ilit ''out'', ilit ''dist'', ilit ''coverage'',
     ilit ''htmlcov'', ilit ''.pytest_cache'', Cat (ilit ''doc'') (opt_re (ilit ''s'')), ilit ''examples'',
     Cat (ilit ''tutorial'') (opt_re (ilit ''s'')),
     cats [ilit ''sample'', opt_re (Cls (\<lambda>c. c = CHR ''_'' \<or> c = CHR ''-'')), ilit ''code''], ilit ''cookbook'',
     ilit ''data'', ilit ''cache'', ilit ''.cache'', ilit ''generated'',
     cats [ilit ''simulated'', Cls (\<lambda>c. c = CHR ''_'' \<or> c = CHR ''-''), ilit ''target''],
     ilit ''verification/simulated'']"

definition DEMOTING_PATH_RE :: re where
  "DEMOTING_PATH_RE = alts
     [cats [sep_start, alts DEMOTING_DIRS, sep_end],
      cats [alts (map ilit [''_test'', ''_spec'', ''.test'', ''.spec'', ''_mock'', ''.mock'']), lit ''.'',
        alts (map ilit [''py'', ''go'', ''ts'', ''tsx'', ''js'']), Eos],
      cats [alts [ilit ''cwe_catalog'', ilit ''asvs_catalog'', ilit ''requirements.txt'', ilit ''requirements-frozen.txt'',
        cats [ilit ''package'', opt_re (ilit ''-lock''), ilit ''.json''], ilit ''go.sum'', ilit ''cargo.lock''], Eos],
      cats [sep_start, ilit ''docs/features/'', Cls is_digit],
      cats [sep_start, ilit ''agents/'', no_slash1, lit ''/'', no_slash1, ilit ''/data/''],
      cats [sep_start, ilit ''agents/'', no_slash1, lit ''/'', no_slash1, ilit ''/skills/''],
      Cat sep_start (ilit ''agents/shared/shared/tools/''),
      Cat sep_start (ilit ''agents/shared/shared/validate/'')]"

definition PROMOTING_PATH_RE :: re where
  "PROMOTING_PATH_RE = cats [sep_start, alts
     [Cat (ilit ''main.'') (alts (map ilit [''py'', ''go'', ''ts'', ''tsx''])),
      Cat (ilit ''app.'') (alts (map ilit [''py'', ''go'', ''ts''])),
      Cat (ilit ''server.'') (alts (map ilit [''py'', ''go'', ''ts''])),
      ilit ''cmd/'', ilit ''prod'', ilit ''production'',
      cats [ilit ''backend/internal/'', alts (map ilit [''handler'', ''server'', ''service'', ''repository'']), lit ''/''],
      ilit ''backend/cmd/'', ilit ''frontend/src/pages/''], sep_end]"

definition path_check :: "string \<Rightarrow> validation_check" where
  "path_check file_path =
     (if file_path = [] then new_check ''path'' ''neutral'' 0 ''file_path is empty (dependency-policy finding)'' []
      else if occurs DEMOTING_PATH_RE file_path then
        new_check ''path'' ''demoted'' (fl64 (-20 / 100)) ''path matches test/vendor/docs/examples''
          [(''file_path'', PStr file_path)]
      else if occurs PROMOTING_PATH_RE file_path then
        new_check ''path'' ''promoted'' (fl64 (10 / 100)) ''path matches production entry point''
          [(''file_path'', PStr file_path)]
      else new_check ''path'' ''neutral'' 0 ''path uncategorised'' [])"

section \<open>Reading the file\<close>

definition join_path :: "string \<Rightarrow> string \<Rightarrow> string" where
  "join_path r p = (if r \<noteq> [] \<and> last r = CHR ''/'' then r @ p else r @ ''/'' @ p)"

text \<open>A resolved path is a resolved root or below it.\<close>

definition in_root :: "string \<Rightarrow> string \<Rightarrow> bool" where
  "in_root r c = (c = r \<or> starts_with c (join_path r []))"

text \<open>A failure to resolve is an \<open>OSError\<close>: of the root it reaches the reader, of the candidate it is caught.\<close>

definition resolve_in_root :: "l1_world \<Rightarrow> string \<Rightarrow> string \<Rightarrow> string result" where
  "resolve_in_root w source_root file_path =
     (if file_path = [] \<or> hd file_path = CHR ''/'' \<or> source_root = [] then Ret file_path
      else case lw_resolve w source_root of
        None \<Rightarrow> Raise OSError
      | Some r \<Rightarrow> (case lw_resolve w (join_path r file_path) of
          None \<Rightarrow> Ret file_path
        | Some candidate \<Rightarrow> Ret (if in_root r candidate then candidate else file_path)))"

definition read_lines_cached :: "l1_world \<Rightarrow> string \<Rightarrow> string \<Rightarrow> string list result" where
  "read_lines_cached w source_root file_path =
     (case bind_result (resolve_in_root w source_root file_path) (lw_open w) of
        Inr text \<Rightarrow> Ret (splitlines text)
      | Inl e \<Rightarrow> if e = OSError then Ret [] else Raise e)"

section \<open>Suppression markers\<close>

definition SUPPRESSION_RE :: re where
  "SUPPRESSION_RE = alts
     [cats [lit ''#'', ws_re, Alt (lit ''nosec'') (Cat (lit ''noqa'') (opt_re (cats [lit '':'', ws_re, Cls is_upper,
        plus_re (Cls (\<lambda>c. is_upper c \<or> is_digit c \<or> c = CHR ''_''))]))), Wb],
      cats [lit ''//'', ws_re, Alt (lit ''nolint'') (lit ''noqa''), Wb],
      cats [lit ''gosec'', ws_re, lit '':'', ws_re, lit ''ignore'', Wb],
      cats [lit ''eslint-disable'', opt_re (lit ''-next-line''), Wb]]"

definition marker_on :: "string list \<Rightarrow> nat \<Rightarrow> (nat \<times> string) option" where
  "marker_on lines i = (case re_search SUPPRESSION_RE (lines ! i) of
     None \<Rightarrow> None | Some m \<Rightarrow> Some (i, strip (case group m 0 of None \<Rightarrow> [] | Some t \<Rightarrow> t)))"

definition suppression_check :: "string list \<Rightarrow> int \<Rightarrow> validation_check option" where
  "suppression_check lines line_start =
     (case List.map_filter (marker_on lines) [nat (line_start - 3)..<min (length lines) (nat line_start)] of
        [] \<Rightarrow> None
      | (i, marker) # _ \<Rightarrow> Some (new_check ''suppression'' ''demoted'' (fl64 (-40 / 100))
          (''suppression marker on line '' @ str_nat (i + 1) @ '': '' @ marker)
          [(''marker_line'', PInt (int i + 1)), (''marker_text'', PStr marker)]))"

section \<open>The anchor check\<close>

definition ANCHOR_PROVENANCE :: "(string \<times> string) list" where
  "ANCHOR_PROVENANCE = [(''_claimed_line'', ''claimed_line''), (''_claimed_line_range'', ''claimed_line_range''),
     (''_anchor_delta'', ''delta''), (''_anchor_candidates'', ''candidates''), (''_anchor_other_path'', ''other_path''),
     (''_anchor_quote_chars'', ''quote_chars''), (''_anchor_quote_tokens'', ''quote_tokens'')]"

definition kept_quote :: "l1_world \<Rightarrow> pydict \<Rightarrow> string" where
  "kept_quote w finding = (let quote = text_field finding ''evidence_quote'' in
     if quote = [] \<or> \<not> env_truthy (gw_env (lw_gate w)) ''VULTURE_LLM_QUOTE_KEEP_TEXT'' then []
     else lw_redact w quote)"

definition provenance_extras :: "l1_world \<Rightarrow> pydict \<Rightarrow> pydict" where
  "provenance_extras w finding =
     map (\<lambda>(stamp, name). (name, get finding stamp)) (filter (\<lambda>(stamp, name). get finding stamp \<noteq> PNone) ANCHOR_PROVENANCE)
     @ (if kept_quote w finding = [] then [] else [(''quote_redacted'', PStr (kept_quote w finding))])"

definition anchor_reason :: "pydict \<Rightarrow> string \<Rightarrow> string" where
  "anchor_reason finding status = (let detail = text_field finding ''_anchor_reason'' in
     ''evidence quote: '' @ status @ (if detail = [] then [] else '' ('' @ detail @ '')''))"

definition anchor_check :: "l1_world \<Rightarrow> pydict \<Rightarrow> validation_check option" where
  "anchor_check w finding = (let status = text_field finding ''_anchor_status'' in
     if status = [] then None
     else Some (new_check ANCHOR_CHECK_ID status (anchor_weight (gw_env (lw_gate w)) status)
       (anchor_reason finding status) (provenance_extras w finding)))"

section \<open>The sanitizer scan\<close>

definition word_of :: "re list \<Rightarrow> re" where "word_of rs = cats [Wb, alts rs, Wb]"
definition words1 :: re where "words1 = plus_re (Cls word_char)"
definition error_word :: "(string \<Rightarrow> re) \<Rightarrow> string list \<Rightarrow> re" where
  "error_word l ends = Cat words1 (alts (map l ends))"

definition SANITIZER_MAP :: "(string \<times> re list) list" where
  "SANITIZER_MAP = [
     (''CWE-89'', [alts (map (\<lambda>t. word_of [ilit t]) [''parameterize'', ''prepared'', ''sanitize_sql'', ''escape_sql'']),
        Alt (lit ''.bind_param('') (cats [lit ''.execute('', Star (Cls (\<lambda>c. c \<noteq> CHR '','')), lit '','', ws_re, lit ''('']) ]),
     (''CWE-79'', [word_of (map ilit [''escape'', ''escapehtml'', ''sanitizehtml'', ''dompurify'', ''html.escape''])]),
     (''CWE-78'', [Alt (Cat Wb (lit ''shlex.quote('')) (Cat Wb (lit ''shell_escape('')),
        cats [ilit ''subprocess.'', alts (map ilit [''run'', ''call'', ''popen'']), lit ''('', Star (Cls (\<lambda>c. c \<noteq> CHR '')'')),
          ilit ''shell'', ws_re, lit ''='', ws_re, ilit ''false'']]),
     (''CWE-22'', [word_of (map ilit [''os.path.realpath'', ''os.path.abspath'', ''secure_filename'', ''sanitize_path'', ''validate_path''])]),
     (''CWE-94'', [word_of (map ilit [''ast.literal_eval'', ''sandbox'', ''whitelist'', ''allowlist''])]),
     (''CWE-918'', [word_of (map ilit [''validate_url'', ''allowed_hosts'', ''url_whitelist'', ''is_private_address'', ''ipaddress.ip_address''])]),
     (''CWE-770'', [word_of (map ilit [''max_size'', ''max_length'', ''maxlength'', ''max_count'', ''limit'', ''timeout'', ''deadline'',
          ''max_workers'', ''maxlen'', ''capacity'', ''max_concurrent'', ''throttle'', ''rate_limit'', ''semaphore'', ''bounded_'',
          ''context.withtimeout'', ''asyncio.wait_for'']),
        Alt (lit ''.MaxBytesReader('') (Cat (lit ''.MaxRequestBodySize'') Wb)]),
     (''CWE-755'', [Cat Wb (alts [cats [ilit ''except'', ws1_re, error_word ilit [''error'', ''exception''], Wb],
          cats [ilit ''errors.'', alts (map ilit [''is'', ''as'']), lit ''(''],
          cats [ilit ''if'', ws1_re, ilit ''err'', ws_re, lit ''!='', ws_re, ilit ''nil'']]),
        cats [lit ''except'', ws1_re, Cls is_upper, error_word lit [''Error'', ''Exception''], ws_re,
          opt_re (cats [lit ''as'', ws1_re, words1]), ws_re, lit '':'']]),
     (''CWE-778'', [cats [Wb, alts (map ilit [''logger'', ''logging'', ''log'']), lit ''.'',
          alts (map ilit [''error'', ''exception'', ''warn'', ''warning'', ''critical'', ''fatal'', ''info'']), ws_re, lit ''(''],
        alts [Cat Wb (lit ''zap.''), Cat Wb (lit ''zerolog.''), lit ''.WithError(''],
        cats [Wb, lit ''log.'', alts (map lit [''Printf'', ''Println'', ''Print'', ''Errorf'']), ws_re, lit ''(''] ]),
     (''CWE-476'', [cats [Wb, ilit ''if'', ws1_re, words1, ws1_re, ilit ''is'', ws1_re, opt_re (Cat (ilit ''not'') ws1_re), ilit ''none'', Wb],
        cats [Wb, lit ''if'', ws1_re, words1, ws_re, lit ''!='', ws_re, lit ''nil'', Wb],
        cats [lit ''.get('', plus_re (Cls (\<lambda>c. c \<noteq> CHR '','' \<and> c \<noteq> CHR '')'')), lit '','', ws_re, words1, lit '')''],
        word_of (map lit [''Optional'', ''None'', ''nullable'', ''optional''])]),
     (''CWE-532'', [word_of (map ilit [''redact'', ''mask'', ''sanitize'', ''scrub'', ''filter_sensitive'', ''remove_pii'', ''strip_secrets''])]),
     (''CWE-754'', [Alt (cats [Wb, lit ''if'', ws1_re, lit ''err'', ws_re, lit ''!='', ws_re, lit ''nil'', Wb])
        (cats [Wb, lit ''except'', ws1_re, words1])]),
     (''CWE-248'', [cats [Wb, lit ''try'', ws_re, lit '':'', Star any_char, Cls (\<lambda>c. c = NL), Star any_char,
        Wb, lit ''except'', ws1_re, error_word lit [''Error'', ''Exception''], Wb]]),
     (''CWE-330'', [word_of (map lit [''secrets'', ''os.urandom'', ''crypto/rand'', ''rand.Reader'']),
        word_of [Cat (lit ''secrets.token_'') (alts (map lit [''hex'', ''urlsafe'', ''bytes''])), lit ''secrets.choice'']]),
     (''CWE-20'', [word_of (map ilit [''validate'', ''is_valid'', ''is_safe'', ''sanitize'', ''pydantic'', ''marshmallow'', ''cerberus'', ''jsonschema''])]),
     (''CWE-434'', [word_of (map ilit [''allowed_extensions'', ''file_type'', ''mimetype'', ''content_type'', ''max_size'', ''validate_file''])]),
     (''CWE-287'', [word_of (map ilit [''authenticate'', ''authorize'', ''require_auth'', ''@login_required'', ''@require_permission'']
        @ [Cat (ilit ''bearer'') ws1_re, ilit ''jwt''])]),
     (''CWE-306'', [word_of (map ilit [''authenticate'', ''require_auth'', ''@login_required'', ''require_authentication''])])]"

definition sanitizer_patterns :: "string \<Rightarrow> re list" where
  "sanitizer_patterns category = (case map_of SANITIZER_MAP category of None \<Rightarrow> [] | Some ps \<Rightarrow> ps)"

definition sanitizes :: "re list \<Rightarrow> string \<Rightarrow> bool" where
  "sanitizes pats line = (let stripped = strip_strings_and_comments line in
     stripped \<noteq> [] \<and> list_ex (\<lambda>pat. occurs pat stripped) pats)"

definition scan_for_sanitizer :: "string list \<Rightarrow> string \<Rightarrow> nat \<Rightarrow> nat \<Rightarrow> nat" where
  "scan_for_sanitizer lines category start stop =
     (case first_such (\<lambda>i. sanitizes (sanitizer_patterns category) (lines ! i)) [start..<min stop (length lines)] of
        None \<Rightarrow> 0 | Some i \<Rightarrow> i + 1)"

definition sanitizer_search_extent :: "string list \<Rightarrow> int \<Rightarrow> string \<Rightarrow> nat \<times> nat \<times> string" where
  "sanitizer_search_extent lines line_start category =
     (case map_of REFUTATION_MAP category of
        Some ref \<Rightarrow> if rf_scope ref = FILE \<and> rf_scope_reviewed ref then (0, length lines, ''file'')
          else (nat (line_start - 21), min (length lines) (nat line_start), ''window20_backward'')
      | None \<Rightarrow> (nat (line_start - 21), min (length lines) (nat line_start), ''window20_backward''))"

definition sanitizer_check :: "string \<Rightarrow> string list \<Rightarrow> int \<Rightarrow> string \<Rightarrow> validation_check" where
  "sanitizer_check file_path lines line_start category =
     (if file_path = [] \<or> line_start \<le> 0 then new_check ''sanitizer'' ''skipped'' 0 ''no line context'' []
      else if sanitizer_patterns category = [] then
        new_check ''sanitizer'' ''no_map'' 0 (''no sanitizer map for '' @ category) []
      else if lines = [] then new_check ''sanitizer'' ''no_file'' 0 ''could not read file'' []
      else case sanitizer_search_extent lines line_start category of (start, stop, searched) \<Rightarrow>
        let hit = scan_for_sanitizer lines category start stop in
        if hit \<noteq> 0 then new_check ''sanitizer'' ''matched'' 0 (''mitigation pattern matched on line '' @ str_nat hit)
          [(''sanitizer_at'', PInt (int hit)), (''category'', PStr category), (''scope_searched'', PStr searched)]
        else new_check ''sanitizer'' ''absent'' 0 ''no sanitizer in surrounding lines''
          [(''scope_searched'', PStr searched)])"

section \<open>Presence of a secret value\<close>

definition SECRET_CLASS_CWES :: "string list" where
  "SECRET_CLASS_CWES = [''CWE-798'', ''CWE-319'', ''CWE-312'', ''CWE-256'', ''CWE-259'', ''CWE-321'', ''CWE-522'']"

definition ASSIGNMENT_RE :: re where
  "ASSIGNMENT_RE = cats [Cls (\<lambda>c. c = CHR '':'' \<or> c = CHR ''=''), ws_re, Grp 1 (Lazy any_char), ws_re,
     opt_re (Cat (Cls (\<lambda>c. c = CHR '','' \<or> c = CHR '';'')) ws_re), Eos]"

definition PLACEHOLDER_RE :: re where
  "PLACEHOLDER_RE = cats [Bos, alts
     [lit [CHR 0x27, CHR 0x27], lit [CHR 0x22, CHR 0x22], lit [CHR 0x60, CHR 0x60],
      ilit ''null'', ilit ''nil'', ilit ''none'', ilit ''true'', ilit ''false'', lit ''0'',
      cats [lit ''{{'', Star any_char, lit ''}}''], cats [lit ''${'', Star (Cls (\<lambda>c. c \<noteq> CHR ''}'')), lit ''}''],
      cats [lit ''$'', Cls is_alpha_us, Star (Cls (\<lambda>c. is_alpha_us c \<or> is_digit c))],
      cats [lit ''<'', Star (Cls (\<lambda>c. c \<noteq> CHR ''>'')), lit ''>''], Cat (ilit ''xxx'') (Star (ilit ''x'')),
      cats [ilit ''change'', opt_re (Cls (\<lambda>c. c = CHR ''-'' \<or> c = CHR ''_'')), ilit ''me''],
      cats [ilit ''your'', Cls (\<lambda>c. c = CHR ''-'' \<or> c = CHR ''_''), Star any_char],
      ilit ''todo'', ilit ''tbd'', ilit ''placeholder'', ilit ''example'', ilit ''dummy'', ilit ''sample'', ilit ''redacted'',
      plus_re (lit ''*'')], Eos]"

definition assigned_value :: "string \<Rightarrow> string" where
  "assigned_value line = (case re_search ASSIGNMENT_RE line of None \<Rightarrow> []
     | Some m \<Rightarrow> (case group m 1 of None \<Rightarrow> []
         | Some v \<Rightarrow> strip_by (\<lambda>c. c = CHR 0x22 \<or> c = CHR 0x27) (strip v)))"

definition is_placeholder :: "string \<Rightarrow> bool" where "is_placeholder v = (re_match PLACEHOLDER_RE v \<noteq> None)"

definition class_id :: "string \<Rightarrow> string" where "class_id category = map upper_char (strip category)"

definition secret_value_check :: "string list \<Rightarrow> int \<Rightarrow> string \<Rightarrow> validation_check option" where
  "secret_value_check lines line_start category =
     (if class_id category \<notin> set SECRET_CLASS_CWES \<or> line_start < 1 then None
      else if int (length lines) < line_start then Some (new_check ''secret_value'' ''unreadable'' 0
        ''could not read the cited line to confirm a value is present'' [])
      else let line = lines ! nat (line_start - 1); value = assigned_value line in
        Some (if value = [] then new_check ''secret_value'' ''absent'' (fl64 (-30 / 100))
            (''the cited line declares the key but assigns NO value, so no '' @ ''secret is present here'')
            [(''value_present'', PBool False), (''value_chars'', PInt 0),
             (''code_present'', PBool (strip (strip_strings_and_comments line) \<noteq> []))]
          else if is_placeholder value then new_check ''secret_value'' ''placeholder'' (fl64 (-30 / 100))
            (''the assigned value is a placeholder or an indirection, not a '' @ ''literal credential'')
            [(''value_present'', PBool True), (''value_chars'', PInt (int (length value))), (''placeholder'', PBool True)]
          else new_check ''secret_value'' ''present'' 0 ''a non-placeholder value is assigned on the cited line''
            [(''value_present'', PBool True), (''value_chars'', PInt (int (length value)))]))"

section \<open>Input validation\<close>

definition INPUT_VALIDATION_CWES :: "string list" where
  "INPUT_VALIDATION_CWES = [''CWE-89'', ''CWE-78'', ''CWE-79'', ''CWE-22'', ''CWE-94'', ''CWE-918'']"

definition guard_table :: "string list \<Rightarrow> string list \<Rightarrow> (string \<times> string option) list" where
  "guard_table lines names = (let anchored = anchored_regex_names lines in map (\<lambda>i. (i, guard_for i lines anchored)) names)"

definition input_validation_extras :: "string list \<Rightarrow> (string \<times> string option) list \<Rightarrow> nat \<Rightarrow> pydict" where
  "input_validation_extras names guards opaque =
     [(''identifiers'', PList (map PStr names)),
      (''guards'', PDict (List.map_filter (\<lambda>(i, g). map_option (\<lambda>t. (i, PStr t)) g) guards)),
      (''unguarded'', PList (map (\<lambda>(i, g). PStr i) (filter (\<lambda>(i, g). g = None) guards))),
      (''opaque_expressions'', PInt (int opaque))]"

definition open_result :: "(string \<times> string option) list \<Rightarrow> nat \<Rightarrow> string" where
  "open_result guards opaque =
     (if list_all (\<lambda>(i, g). g = None) guards then ''unguarded''
      else if length (filter (\<lambda>(i, g). g = None) guards) < length guards \<or> 0 < opaque then ''partial'' else ''unguarded'')"

definition input_validation_check :: "string list \<Rightarrow> int \<Rightarrow> string \<Rightarrow> validation_check option" where
  "input_validation_check lines line_start category =
     (if class_id category \<notin> set INPUT_VALIDATION_CWES \<or> line_start < 1 then None
      else if int (length lines) < line_start then Some (new_check INPUT_VALIDATION_ID ''unreadable'' 0
        ''could not read the cited line to resolve its interpolations'' [])
      else case interpolated_identifiers (lines ! nat (line_start - 1)) of (names, opaque) \<Rightarrow>
        Some (if names = [] then new_check INPUT_VALIDATION_ID ''no_identifiers'' 0
            ''no bare interpolated identifier to resolve on the cited line'' [(''opaque_expressions'', PInt (int opaque))]
          else let guards = guard_table lines names; extras = input_validation_extras names guards opaque in
            if list_ex (\<lambda>(i, g). g = None) guards \<or> 0 < opaque then
              new_check INPUT_VALIDATION_ID (open_result guards opaque) 0
                (''not every interpolated value is provably validated, so the '' @ ''sink stays reachable'') extras
            else new_check INPUT_VALIDATION_ID INPUT_VALIDATION_GUARDED (fl64 (-40 / 100))
              (''every value interpolated here is validated in this file '' @
               ''(anchored pattern or membership), so no metacharacter reaches '' @ ''the sink'') extras))"

section \<open>The layer\<close>

definition scope_available :: "l1_world \<Rightarrow> string \<Rightarrow> string \<Rightarrow> gate_state \<Rightarrow> bool \<times> gate_state" where
  "scope_available w category source_root st =
     (case map_of REFUTATION_MAP category of
        None \<Rightarrow> (True, st)
      | Some ref \<Rightarrow>
          if rf_scope ref \<noteq> WIRING then (True, st)
          else (case route_model_for (lw_gate w) (Some source_root) st of
            (m, st') \<Rightarrow> (case m of None \<Rightarrow> False | Some em \<Rightarrow> em_routes em \<noteq> [], st')))"

text \<open>A value used as a key: a string, a hashable value (by its text), or \<open>TypeError\<close>.\<close>

definition key_text :: "pydict \<Rightarrow> string \<Rightarrow> string result" where
  "key_text finding k = (case py_or (get_or finding k (PStr [])) (PStr []) of
     PStr s \<Rightarrow> Ret s | PList _ \<Rightarrow> Raise TypeError | PDict _ \<Rightarrow> Raise TypeError | v \<Rightarrow> Ret (py_str v))"

definition path_text :: "pydict \<Rightarrow> string result" where
  "path_text finding = (case py_or (get_or finding ''file_path'' (PStr [])) (PStr []) of
     PStr s \<Rightarrow> Ret s | _ \<Rightarrow> Raise TypeError)"

definition obligation_for ::
  "l1_world \<Rightarrow> string \<Rightarrow> validation_check \<Rightarrow> string \<Rightarrow> string \<Rightarrow> int \<Rightarrow> string \<Rightarrow> gate_state \<Rightarrow>
   validation_check \<times> gate_state" where
  "obligation_for w check_id san category file_path line_start source_root st =
     (case scope_available w category source_root st of (available, st1) \<Rightarrow>
        obligation_check (lw_gate w)
          \<lparr>oq_category = category, oq_sanitizer_result = Some (py_str (vc_result san)), oq_scope_available = available,
           oq_file_path = file_path, oq_line_start = line_start,
           oq_source_root = (if source_root = [] then None else Some source_root), oq_check_id = check_id,
           oq_scope_searched = (case vc_extras san of PDict d \<Rightarrow> py_str (get_or d ''scope_searched'' (PStr [])) | _ \<Rightarrow> [])\<rparr> st1)"

definition opt_check :: "validation_check option \<Rightarrow> validation_check list" where
  "opt_check c = (case c of None \<Rightarrow> [] | Some x \<Rightarrow> [x])"

definition cited_lines :: "l1_world \<Rightarrow> string \<Rightarrow> string \<Rightarrow> int \<Rightarrow> string list result" where
  "cited_lines w source_root file_path line_start =
     (if file_path = [] \<or> line_start \<le> 0 then Ret [] else read_lines_cached w source_root file_path)"

definition local_checks :: "l1_world \<Rightarrow> pydict \<Rightarrow> string \<Rightarrow> string list \<Rightarrow> int \<Rightarrow> string \<Rightarrow> validation_check list" where
  "local_checks w f file_path lines line_start category =
     path_check file_path # opt_check (suppression_check lines line_start) @ opt_check (anchor_check w f)
       @ opt_check (secret_value_check lines line_start category)
       @ opt_check (input_validation_check lines line_start category)
       @ [sanitizer_check file_path lines line_start category]"

definition finding_checks ::
  "l1_world \<Rightarrow> string \<Rightarrow> pydict \<Rightarrow> gate_state \<Rightarrow> validation_check list result \<times> gate_state" where
  "finding_checks w source_root f st =
     (let line_start = parse_line (get f ''line_start'') 0 in
      case bind_result (path_text f) (\<lambda>file_path. bind_result (key_text f ''category'') (\<lambda>category.
           bind_result (cited_lines w source_root file_path line_start) (\<lambda>lines.
           bind_result (key_text f ''check_id'') (\<lambda>check_id. Ret (file_path, category, lines, check_id))))) of
        Inl e \<Rightarrow> (Raise e, st)
      | Inr (file_path, category, lines, check_id) \<Rightarrow>
          let san = sanitizer_check file_path lines line_start category in
          (case obligation_for w check_id san category file_path line_start source_root st of (ob, st1) \<Rightarrow>
            (Ret (local_checks w f file_path lines line_start category @ [ob]), st1)))"

definition l1_error_checks_for ::
  "l1_world \<Rightarrow> pydict \<Rightarrow> py_error \<Rightarrow> gate_state \<Rightarrow> validation_check list result \<times> gate_state" where
  "l1_error_checks_for w f e st =
     (case key_text f ''category'' of
        Inl e' \<Rightarrow> (Raise e', st)
      | Inr category \<Rightarrow> (case obligation_check (lw_gate w) (plain_query category) st of (ob, st1) \<Rightarrow>
          (Ret [new_check ''path'' ''error'' 0 (''L1 error: '' @ error_name e @ '': '' @ take 100 (lw_message w e)) [], ob], st1)))"

text \<open>One finding raising does not prevent others, unless building its error checks raises too.\<close>

fun run_l1 ::
  "l1_world \<Rightarrow> pydict list \<Rightarrow> string \<Rightarrow> gate_state \<Rightarrow> validation_check list list result \<times> gate_state" where
  "run_l1 w [] source_root st = (Ret [], st)"
| "run_l1 w (f # fs) source_root st =
     (case (case finding_checks w source_root f st of
              (Inr cs, st1) \<Rightarrow> (Ret cs, st1)
            | (Inl e, st1) \<Rightarrow> l1_error_checks_for w f e st1) of
        (Inl e, st2) \<Rightarrow> (Raise e, st2)
      | (Inr cs, st2) \<Rightarrow> (case run_l1 w fs source_root st2 of
          (Inl e, st3) \<Rightarrow> (Raise e, st3)
        | (Inr rest, st3) \<Rightarrow> (Ret (cs # rest), st3)))"

section \<open>Shapes of the checks\<close>

lemma fl64_not_pos: "x \<le> 0 \<Longrightarrow> \<not> 0 < fl64 x"
  using fl64_mono [of x 0] by simp

lemma guarded_weight: "fl64 (-40 / 100) < 0"
  by code_simp

lemma path_check_shape:
  "vc_id (path_check p) = PStr ''path''"
  "positive (path_check p) \<Longrightarrow> vc_result (path_check p) = PStr ''promoted'' \<and> vc_weight (path_check p) = FFin (fl64 (10 / 100))"
  by (auto simp: path_check_def positive_def fl64_not_pos split: if_splits)

lemma suppression_shape: "suppression_check ls n = Some c \<Longrightarrow> vc_id c = PStr ''suppression'' \<and> \<not> positive c"
  by (auto simp: suppression_check_def positive_def fl64_not_pos split: list.splits prod.splits)

lemma anchor_shape: "anchor_check w f = Some c \<Longrightarrow> vc_id c = PStr ANCHOR_CHECK_ID \<and> \<not> positive c"
  by (auto simp: anchor_check_def positive_def anchor_weight_def Let_def split: if_splits)

lemma secret_shape: "secret_value_check ls n cat = Some c \<Longrightarrow> vc_id c = PStr ''secret_value'' \<and> \<not> positive c"
  by (auto simp: secret_value_check_def positive_def fl64_not_pos Let_def split: if_splits)

lemma input_shape: "input_validation_check ls n cat = Some c \<Longrightarrow> vc_id c = PStr INPUT_VALIDATION_ID \<and> \<not> positive c"
  by (auto simp: input_validation_check_def positive_def fl64_not_pos Let_def split: if_splits prod.splits)

lemma sanitizer_shape: "vc_id (sanitizer_check p ls n cat) = PStr ''sanitizer''" "vc_weight (sanitizer_check p ls n cat) = FFin 0"
  by (simp_all add: sanitizer_check_def Let_def split: prod.split)

lemma in_opt_check: "c \<in> set (opt_check x) \<longleftrightarrow> x = Some c"
  by (auto simp: opt_check_def split: option.split)

lemma local_checks_shape:
  assumes "c \<in> set (local_checks w f p ls n cat)"
  shows "vc_id c \<noteq> PStr OBLIGATION_ID"
    and "positive c \<Longrightarrow> vc_id c = PStr ''path'' \<and> vc_result c = PStr ''promoted'' \<and> vc_weight c = FFin (fl64 (10 / 100))"
proof -
  consider "c = path_check p" | "suppression_check ls n = Some c" | "anchor_check w f = Some c" | "secret_value_check ls n cat = Some c"
    | "input_validation_check ls n cat = Some c" | "c = sanitizer_check p ls n cat"
    using assms by (auto simp: local_checks_def in_opt_check)
  note cases = this
  show "vc_id c \<noteq> PStr OBLIGATION_ID"
    using cases
    by cases (auto simp: path_check_shape sanitizer_shape OBLIGATION_ID_def ANCHOR_CHECK_ID_def INPUT_VALIDATION_ID_def
        dest: suppression_shape anchor_shape secret_shape input_shape)
  show "positive c \<Longrightarrow> vc_id c = PStr ''path'' \<and> vc_result c = PStr ''promoted'' \<and> vc_weight c = FFin (fl64 (10 / 100))"
    using cases
    by cases (auto simp: path_check_shape sanitizer_shape(2) positive_def [of "sanitizer_check p ls n cat"]
        dest: suppression_shape anchor_shape secret_shape input_shape)
qed

text \<open>The checks one finding leaves with: local checks and one obligation, or the error pair.\<close>

definition l1_checks :: "validation_check list \<Rightarrow> bool" where
  "l1_checks cs \<longleftrightarrow> length (filter (\<lambda>c. vc_id c = PStr OBLIGATION_ID) cs) = 1
     \<and> (\<forall>c \<in> set cs. positive c \<longrightarrow> vc_id c = PStr ''path'' \<and> vc_result c = PStr ''promoted'' \<and> vc_weight c = FFin (fl64 (10 / 100)))"

lemma not_positive_0: "vc_weight c = FFin 0 \<Longrightarrow> \<not> positive c"
  by (simp add: positive_def)

lemma l1_checks_obliged:
  assumes "\<forall>c \<in> set cs. vc_id c \<noteq> PStr OBLIGATION_ID \<and> (positive c \<longrightarrow> vc_id c = PStr ''path''
      \<and> vc_result c = PStr ''promoted'' \<and> vc_weight c = FFin (fl64 (10 / 100)))"
  shows "l1_checks (cs @ [fst (obligation_check w q st)])"
  using assms not_positive_0 [OF obligation_check_fields(2), of w q st] obligation_check_fields(1) [of w q st]
  by (auto simp: l1_checks_def filter_empty_conv)

lemma finding_checks_shape:
  assumes "finding_checks w src f st = (Ret cs, st')"
  shows "l1_checks cs"
proof -
  let ?n = "parse_line (get f ''line_start'') 0"
  obtain p cat ls k where k: "bind_result (path_text f) (\<lambda>file_path. bind_result (key_text f ''category'') (\<lambda>category.
      bind_result (cited_lines w src file_path ?n) (\<lambda>lines.
      bind_result (key_text f ''check_id'') (\<lambda>check_id. Ret (file_path, category, lines, check_id))))) = Ret (p, cat, ls, k)"
    using assms by (fastforce simp: finding_checks_def Let_def split: sum.splits)
  let ?san = "sanitizer_check p ls ?n cat"
  obtain av st1 where sc: "scope_available w cat src st = (av, st1)" by fastforce
  obtain q where q: "obligation_for w k ?san cat p ?n src st = obligation_check (lw_gate w) q st1"
    by (simp add: obligation_for_def sc)
  have "cs = local_checks w f p ls ?n cat @ [fst (obligation_for w k ?san cat p ?n src st)]"
    using assms by (simp add: finding_checks_def k Let_def split: prod.splits)
  then have cs: "cs = local_checks w f p ls ?n cat @ [fst (obligation_check (lw_gate w) q st1)]" unfolding q .
  show ?thesis unfolding cs using local_checks_shape by (intro l1_checks_obliged) blast
qed

lemma error_checks_shape:
  assumes "l1_error_checks_for w f e st = (Ret cs, st')"
  shows "l1_checks cs"
proof -
  obtain cat where cat: "key_text f ''category'' = Ret cat"
    using assms by (cases "key_text f ''category''") (auto simp: l1_error_checks_for_def)
  let ?c = "new_check ''path'' ''error'' 0 (''L1 error: '' @ error_name e @ '': '' @ take 100 (lw_message w e)) []"
  have cs: "cs = [?c] @ [fst (obligation_check (lw_gate w) (plain_query cat) st)]"
    using assms cat by (auto simp: l1_error_checks_for_def split: prod.splits)
  show ?thesis unfolding cs
    by (rule l1_checks_obliged) (simp add: OBLIGATION_ID_def positive_def)
qed

lemma run_l1_shape: "run_l1 w fs src st = (Ret css, st') \<Longrightarrow> length css = length fs \<and> (\<forall>cs \<in> set css. l1_checks cs)"
proof (induction fs arbitrary: st css st')
  case (Cons f fs)
  obtain r1 st1 where a: "finding_checks w src f st = (r1, st1)" by fastforce
  obtain r2 st2 where b: "(case r1 of Inr cs \<Rightarrow> (Ret cs, st1) | Inl e \<Rightarrow> l1_error_checks_for w f e st1) = (r2, st2)" by fastforce
  obtain r3 st3 where c: "run_l1 w fs src st2 = (r3, st3)" by fastforce
  have "run_l1 w (f # fs) src st = (case r2 of Inl e \<Rightarrow> (Raise e, st2)
      | Inr cs \<Rightarrow> (case r3 of Inl e \<Rightarrow> (Raise e, st3) | Inr rest \<Rightarrow> (Ret (cs # rest), st3)))"
    using a b c by (cases r1; cases r2; cases r3) simp_all
  then obtain cs rest where ok: "r2 = Ret cs" "r3 = Ret rest" "css = cs # rest"
    using Cons.prems by (cases r2; cases r3) auto
  have "l1_checks cs"
  proof (cases r1)
    case (Inl e)
    then show ?thesis using b ok(1) error_checks_shape by simp
  next
    case (Inr d)
    then show ?thesis using a b ok(1) finding_checks_shape by simp
  qed
  then show ?case using Cons.IH [of st2 rest st3] c ok by simp
qed simp

section \<open>Properties\<close>

text \<open>C10. No finding leaves L1 without an obligation, and a mitigation never promotes: the layer returns one
  list of checks per finding, each with exactly one obligation check, also for a finding whose checks
  raised; and the only check that can raise a confidence is a path of a production entry point, by a tenth.\<close>

theorem l1_obliges_and_never_promotes:
  assumes "run_l1 w findings src st = (Ret css, st')"
  shows "length css = length findings
    \<and> (\<forall>cs \<in> set css. length (filter (\<lambda>c. vc_id c = PStr ''obligation'') cs) = 1
        \<and> (\<forall>c \<in> set cs. fl_less (FFin 0) (vc_weight c) \<longrightarrow> vc_id c = PStr ''path'' \<and> vc_result c = PStr ''promoted''
            \<and> vc_weight c = FFin (fl64 (10 / 100))))"
  using run_l1_shape [OF assms] by (simp add: l1_checks_def positive_def OBLIGATION_ID_def)

text \<open>One broken finding costs only itself: whatever its path, its lines or its file raise, the layer returns
  a list for every finding of the batch, as long as each category is a value that can be looked up.\<close>

theorem l1_always_returns:
  assumes "\<forall>f \<in> set findings. \<exists>c. key_text f ''category'' = Ret c"
  shows "\<exists>css st'. run_l1 w findings src st = (Ret css, st') \<and> length css = length findings"
  using assms
proof (induction findings arbitrary: st)
  case (Cons f fs)
  obtain cat where cat: "key_text f ''category'' = Ret cat" using Cons.prems by auto
  obtain r1 st1 where a: "finding_checks w src f st = (r1, st1)" by fastforce
  obtain ob st' where o: "obligation_check (lw_gate w) (plain_query cat) st1 = (ob, st')" by fastforce
  have "\<exists>cs st2. (case r1 of Inr cs \<Rightarrow> (Ret cs, st1) | Inl e \<Rightarrow> l1_error_checks_for w f e st1) = (Ret cs, st2)"
    by (cases r1) (simp_all add: l1_error_checks_for_def cat o)
  then obtain cs st2 where b: "(case r1 of Inr cs \<Rightarrow> (Ret cs, st1) | Inl e \<Rightarrow> l1_error_checks_for w f e st1) = (Ret cs, st2)"
    by blast
  obtain rest st3 where c: "run_l1 w fs src st2 = (Ret rest, st3)" "length rest = length fs" using Cons by fastforce
  show ?case using a b c by (cases r1) auto
qed simp

text \<open>An unhashable category breaks that isolation: building the error checks of such a finding looks the
  category up again, outside the handler, so one list-valued category costs every finding of the batch its L1 checks.\<close>

lemma unhashable_category_stops_l1:
  assumes "get f ''category'' = PList (x # xs)"
  shows "\<exists>e. fst (run_l1 w (before @ f # rest) src st) = Raise e"
proof (induction before arbitrary: st)
  case Nil
  have c: "key_text f ''category'' = Raise TypeError"
    using assms by (auto simp: key_text_def py_or_def get_or_def split: option.splits)
  obtain e where "finding_checks w src f st = (Raise e, st)"
    by (cases "path_text f") (simp_all add: finding_checks_def c)
  then show ?case by (simp add: l1_error_checks_for_def c)
next
  case (Cons g before)
  obtain r1 st1 where a: "finding_checks w src g st = (r1, st1)" by fastforce
  obtain r2 st2 where b: "(case r1 of Inr cs \<Rightarrow> (Ret cs, st1) | Inl e \<Rightarrow> l1_error_checks_for w g e st1) = (r2, st2)" by fastforce
  obtain e st3 where c: "run_l1 w (before @ f # rest) src st2 = (Raise e, st3)"
    using Cons [of st2] by (metis fst_conv prod.exhaust)
  show ?case using a b c by (cases r1; cases r2) auto
qed

text \<open>An injection is only called guarded on evidence for every value: the demoting result stands exactly when
  the class is one of the injection family, the line exists, it interpolates at least one bare identifier
  and no other expression, and each identifier has a guard in the file.\<close>

theorem guarded_exactly_when:
  "(\<exists>c. input_validation_check lines n category = Some c \<and> negative c)
    = (class_id category \<in> set INPUT_VALIDATION_CWES \<and> 1 \<le> n \<and> n \<le> int (length lines)
      \<and> fst (interpolated_identifiers (lines ! nat (n - 1))) \<noteq> [] \<and> snd (interpolated_identifiers (lines ! nat (n - 1))) = 0
      \<and> list_all (\<lambda>i. guard_for i lines (anchored_regex_names lines) \<noteq> None) (fst (interpolated_identifiers (lines ! nat (n - 1)))))"
proof -
  have g: "list_ex (\<lambda>(i, g). g = None) (guard_table lines is) \<longleftrightarrow>
      \<not> list_all (\<lambda>i. guard_for i lines (anchored_regex_names lines) \<noteq> None) is" for "is"
    by (induction "is") (auto simp: guard_table_def Let_def)
  obtain ns opaque where "interpolated_identifiers (lines ! nat (n - 1)) = (ns, opaque)" by fastforce
  then show ?thesis
    using g [of ns] guarded_weight by (auto simp: input_validation_check_def negative_def Let_def)
qed

text \<open>Only facts cross the boundary: for two files whose cited lines assign values of the same length, both
  placeholders or neither, and both with or without code, the secret check is the same, so its reason
  and its extras tell nothing else of the value.\<close>

theorem secret_check_tells_only_facts:
  assumes "1 \<le> n" and "n \<le> int (length lines)" and "n \<le> int (length lines')"
    and "length (assigned_value (lines ! nat (n - 1))) = length (assigned_value (lines' ! nat (n - 1)))"
    and "is_placeholder (assigned_value (lines ! nat (n - 1))) = is_placeholder (assigned_value (lines' ! nat (n - 1)))"
    and "(strip (strip_strings_and_comments (lines ! nat (n - 1))) = []) = (strip (strip_strings_and_comments (lines' ! nat (n - 1))) = [])"
  shows "secret_value_check lines n category = secret_value_check lines' n category"
proof -
  have "(assigned_value (lines ! nat (n - 1)) = []) = (assigned_value (lines' ! nat (n - 1)) = [])"
    using assms(4) by (metis length_0_conv)
  then show ?thesis using assms by (simp add: secret_value_check_def Let_def)
qed

text \<open>A path that leaves the tree is not stopped: where a relative path resolves outside the root, the layer
  opens it as it was given, relative to the directory of its own process.\<close>

theorem escaping_path_is_opened_as_given:
  assumes "file_path \<noteq> []" and "hd file_path \<noteq> CHR ''/''" and "src \<noteq> []" and "lw_resolve w src = Some r"
    and "lw_resolve w (join_path r file_path) = Some outside" and "\<not> in_root r outside"
  shows "resolve_in_root w src file_path = Ret file_path"
  using assms by (simp add: resolve_in_root_def)

text \<open>A second assignment on a line is not seen: only the first one is looked at, and its right-hand side ends at
  the semicolon, so a name that is then assigned something else still counts as holding literals only.\<close>

theorem second_assignment_is_unseen:
  "is_literal_only ''x'' [''let x = 1; x = q''] \<and> \<not> is_literal_only ''x'' [''let x = 1;'', ''x = q'']"
  by code_simp

text \<open>Production handlers are not promoted: the alternatives that end in a slash are followed by another slash or
  the end of the path, so no file below such a directory matches.\<close>

theorem handler_paths_are_not_promoted:
  "vc_result (path_check ''backend/internal/handler/a.go'') = PStr ''neutral'' \<and> vc_result (path_check ''a/main.go'') = PStr ''promoted''"
  by code_simp

end
