(* ===== verification/Layer1_Examples.thy ===== *)
theory Layer1_Examples
  imports Layer1
begin

text \<open>
  Layer L1 on concrete files: the properties of \<open>Layer1\<close> applied to a batch of two findings, one of them
  with a path that is no string.
\<close>

definition ex_file_lines :: "string list" where
  "ex_file_lines = [''password = hunter22'', ''query(`SELECT ${id}`)'']"

definition ex_l1 :: l1_world where
  "ex_l1 = \<lparr>lw_gate = ex_world ''observe'', lw_open = \<lambda>p. if p = ''/src/a.py'' then Ret (concat (map (\<lambda>l. l @ [NL]) ex_file_lines)) else Raise OSError,
     lw_resolve = \<lambda>p. Some p, lw_redact = \<lambda>t. t, lw_message = \<lambda>e. ''boom''\<rparr>"

definition ex_cited :: pydict where
  "ex_cited = [(''file_path'', PStr ''a.py''), (''line_start'', PInt 1), (''category'', PStr ''CWE-798'')]"

definition ex_broken :: pydict where
  "ex_broken = [(''file_path'', PInt 5), (''line_start'', PInt 1), (''category'', PStr ''CWE-798'')]"

definition ex_l1_run :: "validation_check list list result \<times> gate_state" where
  "ex_l1_run = run_l1 ex_l1 [ex_cited, ex_broken] ''/src'' ex_state"

theorem l1_always_returns_witness:
  "\<exists>css st'. ex_l1_run = (Ret css, st') \<and> length css = length [ex_cited, ex_broken]"
  unfolding ex_l1_run_def
  by (rule l1_always_returns) (simp add: ex_cited_def ex_broken_def key_text_def py_or_def get_or_def)

theorem l1_obliges_and_never_promotes_witness:
  "\<exists>css st'. ex_l1_run = (Ret css, st') \<and> length css = length [ex_cited, ex_broken]
    \<and> (\<forall>cs \<in> set css. length (filter (\<lambda>c. vc_id c = PStr ''obligation'') cs) = 1)"
proof -
  have "case fst ex_l1_run of Inl e \<Rightarrow> False | Inr css \<Rightarrow> True" by code_simp
  then obtain css st' where r: "ex_l1_run = (Ret css, st')"
    by (metis Inr_not_Inl old.sum.exhaust prod.collapse sum.case(1))
  show ?thesis using l1_obliges_and_never_promotes [OF r [unfolded ex_l1_run_def]] r by (intro exI [of _ css] exI [of _ st']) simp
qed

theorem secret_check_tells_only_facts_witness:
  "secret_value_check [''password = hunter22''] 1 ''CWE-798'' = secret_value_check [''password = swordfis''] 1 ''CWE-798''"
  by (rule secret_check_tells_only_facts) code_simp+

end
