(* ===== verification/Stage_Layer1.thy ===== *)
theory Stage_Layer1
  imports Layer1 Stage_Promises
begin

text \<open>
  The stage with its own layer L1: \<open>validate\<close> run with \<open>run_l1\<close> in the place of the field \<open>sw_l1\<close>. What
  the two promise together, and what one ill-typed category costs them.
\<close>

definition with_layer1 :: "l1_world \<Rightarrow> stage_world \<Rightarrow> stage_world" where
  "with_layer1 lw w = w\<lparr>sw_gate := lw_gate lw, sw_l1 := run_l1 lw\<rparr>"

lemma layer1_field: "sw_l1 (with_layer1 lw w) = run_l1 lw"
  by (simp add: with_layer1_def)

definition no_obligation :: "validation_check list \<Rightarrow> bool" where
  "no_obligation cs \<longleftrightarrow> \<not> list_ex (\<lambda>c. vc_id c = PStr OBLIGATION_ID) cs"

lemma l1_phase_bare:
  assumes "\<And>st. \<exists>e st'. sw_l1 w findings src st = (Raise e, st')"
    and "run_l1_phase w cfg findings src st lg = (l1, st1, lg1)"
  shows "\<forall>cs \<in> set l1. no_obligation cs"
proof -
  obtain e st' where r: "sw_l1 w findings src (clear_route_model_cache st) = (Raise e, st')" using assms(1) by blast
  show ?thesis using assms(2)
    by (auto simp: run_l1_phase_def r Let_def l1_error_checks_def no_obligation_def OBLIGATION_ID_def split: if_splits)
qed

lemma l2_phase_bare:
  assumes "run_l2_phase w cfg findings aid st lg = ((l2, rollups), st2, lg2)"
  shows "\<forall>cs \<in> set l2. no_obligation cs"
proof (cases "cf_enable_l2 cfg")
  case True
  obtain r st' where r: "run_l2 (sw_digest w) (sw_gate w) findings aid st = (r, st')" by fastforce
  obtain per parents where p: "r = (per, parents)" by fastforce
  have "list_all l2_checks per" using run_l2_shape [OF r [unfolded p]] by simp
  then show ?thesis using assms True
    by (auto simp: run_l2_phase_def r p l2_checks_def no_obligation_def list_all_iff OBLIGATION_ID_def)
next
  case False
  then show ?thesis using assms by (auto simp: run_l2_phase_def no_obligation_def)
qed

lemma rows_raise:
  assumes "\<forall>cs \<in> set l1. no_obligation cs" and "\<forall>cs \<in> set l2. no_obligation cs" and "category_key f = Raise e"
  shows "\<exists>e. fst (provisional_rows w cfg l1 l2 (es @ (i, f) # rest) st) = Raise e"
proof (induction es arbitrary: st)
  case Nil
  show ?case
  proof (cases "length l1 \<le> i \<or> length l2 \<le> i")
    case False
    then have "no_obligation (l1 ! i)" "no_obligation (l2 ! i)" using assms(1,2) by simp_all
    then show ?thesis using False assms(3) by (simp add: ensure_obligation_def no_obligation_def)
  qed auto
next
  case (Cons x es)
  obtain j g where x: "x = (j, g)" by fastforce
  show ?case
  proof (cases "length l1 \<le> j \<or> length l2 \<le> j")
    case False
    obtain r st1 where r: "ensure_obligation w g (l1 ! j @ l2 ! j) st = (r, st1)" by fastforce
    obtain r2 st2 where r2: "provisional_rows w cfg l1 l2 (es @ (i, f) # rest) st1 = (r2, st2)" by fastforce
    then show ?thesis using Cons [of st1] False by (cases r) (auto simp: x r r2)
  qed (auto simp: x)
qed

text \<open>One list-valued category ends the whole stage: the layer raises while it builds the error checks of that
  finding, every finding of the batch loses its L1 checks, and the vote raises again on the missing
  obligation, so no finding of the batch is validated at all.\<close>

theorem unhashable_category_stops_the_stage:
  assumes "get f ''category'' = PList (x # xs)"
  shows "\<exists>e. validate (with_layer1 lw w) config src audit_id st (before @ f # rest) = Raise e"
proof -
  let ?w = "with_layer1 lw w" and ?fs = "before @ f # rest" and ?cfg = "effective_config config"
  obtain l1 st1 lg1 where l1: "run_l1_phase ?w ?cfg ?fs src st new_log = (l1, st1, lg1)" by (metis prod.exhaust)
  obtain l2 rollups st2 lg2 where l2: "run_l2_phase ?w ?cfg ?fs audit_id st1 lg1 = ((l2, rollups), st2, lg2)" by (metis prod.exhaust)
  have raises: "\<exists>e st'. sw_l1 ?w ?fs src st0 = (Raise e, st')" for st0
    using unhashable_category_stops_l1 [OF assms, of lw before rest src st0] by (metis layer1_field prod.collapse)
  have bare: "\<forall>cs \<in> set l1. no_obligation cs" "\<forall>cs \<in> set l2. no_obligation cs"
    using l1_phase_bare [OF raises l1] l2_phase_bare [OF l2] by blast+
  have cat: "category_key f = Raise TypeError" using assms by (auto simp: category_key_def py_or_def get_or_def split: option.splits)
  have "enum_from 0 ?fs = enum_from 0 before @ (length before, f) # enum_from (Suc (length before)) rest"
    by (simp add: enum_from_append)
  then obtain e where "fst (provisional_rows ?w ?cfg l1 l2 (enum_from 0 ?fs) st2) = Raise e"
    using rows_raise [OF bare cat] by metis
  then show ?thesis by (simp add: validate_def l1 l2 provisional_vote_def Let_def)
qed

theorem unhashable_category_stops_the_stage_witness:
  "\<forall>lw w st. \<exists>e. validate (with_layer1 lw w) None ''/src'' ''A1'' st ([[(''category'', PStr ''CWE-89'')]] @ [(''category'', PList [PNone])] # []) = Raise e"
  by (intro allI unhashable_category_stops_the_stage [where x = PNone and xs = "[]"]) (simp add: get_or_def)

end
