(* ===== verification/Cooldown.thy ===== *)
theory Cooldown
  imports Py_Float Prelude
begin

text \<open>
  The cooldown of failing models (\<open>shared/llm/cooldown.py\<close>): consecutive failures and the end of the
  cooldown per model, the doubling duration with a ceiling per kind of error. Times are the values
  \<open>time.monotonic()\<close> returned to the operation; the lock makes each operation one step, and the
  process-wide flag that silences a repeated log line is not modelled.

  The lemmas: the two tables implement a plain reading of the history of calls, and no model stays
  locked out.
\<close>

section \<open>State and operations\<close>

definition MAX_COOLDOWN :: rat where "MAX_COOLDOWN = 300"
definition AUTH_COOLDOWN :: rat where "AUTH_COOLDOWN = 3600"
definition RATE_LIMIT_MAX :: rat where "RATE_LIMIT_MAX = 600"
definition MAX_DOUBLINGS :: int where "MAX_DOUBLINGS = 64"

record cooldown_manager =
  cm_failures :: "string \<rightharpoonup> int"
  cm_until :: "string \<rightharpoonup> rat"
  cm_threshold :: int
  cm_base :: rat

definition new_manager :: "int \<Rightarrow> rat \<Rightarrow> cooldown_manager" where
  "new_manager threshold base = \<lparr>cm_failures = Map.empty, cm_until = Map.empty, cm_threshold = threshold, cm_base = base\<rparr>"

definition DEFAULT_MANAGER :: cooldown_manager where "DEFAULT_MANAGER = new_manager 3 60"

definition until_of :: "cooldown_manager \<Rightarrow> string \<Rightarrow> rat" where
  "until_of cm model = (case cm_until cm model of None \<Rightarrow> 0 | Some u \<Rightarrow> u)"

definition is_available :: "rat \<Rightarrow> string \<Rightarrow> cooldown_manager \<Rightarrow> bool" where
  "is_available now model cm = (until_of cm model \<le> now)"

definition get_cooldown_remaining :: "rat \<Rightarrow> string \<Rightarrow> cooldown_manager \<Rightarrow> rat" where
  "get_cooldown_remaining now model cm = (let remaining = fl64 (until_of cm model - now) in if 0 < remaining then remaining else 0)"

definition record_success :: "string \<Rightarrow> cooldown_manager \<Rightarrow> cooldown_manager" where
  "record_success model cm = cm\<lparr>cm_failures := (cm_failures cm)(model := None), cm_until := (cm_until cm)(model := None)\<rparr>"

definition cooldown_ceiling :: "string option \<Rightarrow> rat" where
  "cooldown_ceiling error_kind =
     (if error_kind = Some ''auth_error'' then AUTH_COOLDOWN
      else if error_kind = Some ''rate_limited'' then RATE_LIMIT_MAX else MAX_COOLDOWN)"

definition cooldown_duration :: "cooldown_manager \<Rightarrow> int \<Rightarrow> string option \<Rightarrow> rat" where
  "cooldown_duration cm count error_kind =
     (let exponent = min (count - cm_threshold cm) MAX_DOUBLINGS; grown = fl64 (cm_base cm * 2 ^ nat exponent)
      in if cooldown_ceiling error_kind < grown then cooldown_ceiling error_kind else grown)"

definition record_failure :: "rat \<Rightarrow> string \<Rightarrow> string option \<Rightarrow> cooldown_manager \<Rightarrow> cooldown_manager" where
  "record_failure now model error_kind cm =
     (let count = (case cm_failures cm model of None \<Rightarrow> 0 | Some n \<Rightarrow> n) + 1;
          cm1 = cm\<lparr>cm_failures := (cm_failures cm)(model \<mapsto> count)\<rparr>
      in if cm_threshold cm \<le> count
         then cm1\<lparr>cm_until := (cm_until cm)(model \<mapsto> fl64 (now + cooldown_duration cm count error_kind))\<rparr>
         else cm1)"

definition reset :: "string option \<Rightarrow> cooldown_manager \<Rightarrow> cooldown_manager" where
  "reset model cm = (case model of
     None \<Rightarrow> cm\<lparr>cm_failures := Map.empty, cm_until := Map.empty\<rparr>
   | Some m \<Rightarrow> record_success m cm)"

section \<open>The history a manager implements\<close>

text \<open>What the manager was told, in order, with the time of each failure.\<close>

datatype cooldown_event = Failed rat string "string option" | Succeeded string | Was_reset "string option"

fun apply_event :: "cooldown_event \<Rightarrow> cooldown_manager \<Rightarrow> cooldown_manager" where
  "apply_event (Failed now m kind) cm = record_failure now m kind cm"
| "apply_event (Succeeded m) cm = record_success m cm"
| "apply_event (Was_reset m) cm = reset m cm"

definition manager_after :: "int \<Rightarrow> rat \<Rightarrow> cooldown_event list \<Rightarrow> cooldown_manager" where
  "manager_after threshold base events = fold apply_event events (new_manager threshold base)"

fun clears :: "string \<Rightarrow> cooldown_event \<Rightarrow> bool" where
  "clears m (Failed now m' kind) = False"
| "clears m (Succeeded m') = (m' = m)"
| "clears m (Was_reset None) = True"
| "clears m (Was_reset (Some m')) = (m' = m)"

fun failure_of :: "string \<Rightarrow> cooldown_event \<Rightarrow> (rat \<times> string option) option" where
  "failure_of m (Failed now m' kind) = (if m' = m then Some (now, kind) else None)"
| "failure_of m _ = None"

text \<open>The failures of a model since it last answered or was reset, latest first.\<close>

definition streak :: "string \<Rightarrow> cooldown_event list \<Rightarrow> (rat \<times> string option) list" where
  "streak m events = List.map_filter (failure_of m) (takeWhile (\<lambda>e. \<not> clears m e) (rev events))"

text \<open>The specification: below the threshold a model is open; otherwise it is closed until its latest
  failure is as old as the duration of that failure.\<close>

definition open_spec :: "int \<Rightarrow> rat \<Rightarrow> cooldown_event list \<Rightarrow> rat \<Rightarrow> string \<Rightarrow> bool" where
  "open_spec threshold base events now m = (case streak m events of
     [] \<Rightarrow> True
   | (t, kind) # fs \<Rightarrow> int (Suc (length fs)) < threshold
       \<or> fl64 (t + cooldown_duration (new_manager threshold base) (int (Suc (length fs))) kind) \<le> now)"

lemma streak_simps:
  "streak m [] = []"
  "streak m (es @ [e]) = (if clears m e then [] else case failure_of m e of None \<Rightarrow> streak m es | Some f \<Rightarrow> f # streak m es)"
  by (auto simp: streak_def map_filter_simps split: option.split)

lemma manager_after_simps:
  "manager_after k b [] = new_manager k b"
  "manager_after k b (es @ [e]) = apply_event e (manager_after k b es)"
  by (simp_all add: manager_after_def)

lemma duration_config: "cm_threshold cm = cm_threshold cm' \<Longrightarrow> cm_base cm = cm_base cm' \<Longrightarrow> cooldown_duration cm = cooldown_duration cm'"
  by (intro ext) (simp add: cooldown_duration_def)

definition follows :: "cooldown_manager \<Rightarrow> int \<Rightarrow> rat \<Rightarrow> cooldown_event list \<Rightarrow> string \<Rightarrow> bool" where
  "follows cm k b es m \<longleftrightarrow>
     cm_failures cm m = (if streak m es = [] then None else Some (int (length (streak m es))))
     \<and> cm_until cm m = (if int (length (streak m es)) < k then None
          else Some (fl64 (fst (hd (streak m es)) + cooldown_duration (new_manager k b) (int (length (streak m es))) (snd (hd (streak m es))))))"

lemma config_after: "cm_threshold (manager_after k b es) = k \<and> cm_base (manager_after k b es) = b"
proof (induction es rule: rev_induct)
  case (snoc e es)
  then show ?case
    by (cases e) (auto simp: manager_after_simps record_failure_def record_success_def reset_def Let_def split: option.split)
qed (simp add: manager_after_simps new_manager_def)

lemma failure_follows:
  assumes "follows cm k b es m" and "cm_threshold cm = k" and "cm_base cm = b" and "1 \<le> k"
  shows "follows (record_failure t m kind cm) k b (es @ [Failed t m kind]) m"
proof -
  have d: "cooldown_duration cm = cooldown_duration (new_manager k b)"
    by (rule duration_config) (simp_all add: assms new_manager_def)
  show ?thesis using assms by (auto simp: follows_def streak_simps record_failure_def Let_def d add.commute)
qed

lemma event_follows:
  assumes "follows cm k b es m" and "cm_threshold cm = k" and "cm_base cm = b" and "1 \<le> k"
  shows "follows (apply_event e cm) k b (es @ [e]) m"
proof (cases e)
  case (Failed t m' kind)
  show ?thesis
  proof (cases "m' = m")
    case True
    then show ?thesis using failure_follows [OF assms] Failed by simp
  next
    case False
    then show ?thesis using assms(1) Failed by (simp add: follows_def streak_simps record_failure_def Let_def)
  qed
next
  case (Succeeded m')
  then show ?thesis using assms by (auto simp: follows_def streak_simps record_success_def)
next
  case (Was_reset r)
  then show ?thesis using assms by (cases r) (auto simp: follows_def streak_simps record_success_def reset_def)
qed

lemma after_follows: "1 \<le> k \<Longrightarrow> follows (manager_after k b es) k b es m"
proof (induction es rule: rev_induct)
  case Nil
  then show ?case by (simp add: follows_def streak_simps manager_after_simps new_manager_def)
next
  case (snoc e es)
  then show ?case using event_follows config_after by (simp add: manager_after_simps)
qed

text \<open>C36. The two tables implement the history: whatever the manager was told, a model is available exactly when the
  specification over the whole history says so, with the failures counted since the model last answered.\<close>

theorem availability_refines_history:
  assumes "1 \<le> threshold" and "0 \<le> now"
  shows "is_available now model (manager_after threshold base events) = open_spec threshold base events now model"
  using after_follows [OF assms(1), of base events model] assms
  by (auto simp: is_available_def until_of_def open_spec_def follows_def split: list.split)

theorem availability_refines_history_witness:
  "is_available 59 ''m'' (manager_after 3 60 (replicate 3 (Failed 0 ''m'' None)))
     = open_spec 3 60 (replicate 3 (Failed 0 ''m'' None)) 59 ''m''
   \<and> \<not> open_spec 3 60 (replicate 3 (Failed 0 ''m'' None)) 59 ''m''
   \<and> open_spec 3 60 (replicate 3 (Failed 0 ''m'' None)) 60 ''m''"
proof -
  have "\<not> open_spec 3 60 (replicate 3 (Failed 0 ''m'' None)) 59 ''m'' \<and> open_spec 3 60 (replicate 3 (Failed 0 ''m'' None)) 60 ''m''"
    by code_simp
  then show ?thesis using availability_refines_history [of 3 59 "''m''" 60 "replicate 3 (Failed 0 ''m'' None)"] by simp
qed

section \<open>Every model comes back\<close>

text \<open>What can happen to a manager as its clock goes on.\<close>

inductive managed :: "int \<Rightarrow> rat \<Rightarrow> rat \<Rightarrow> cooldown_manager \<Rightarrow> bool" for threshold :: int and base :: rat where
  start: "0 \<le> now \<Longrightarrow> managed threshold base now (new_manager threshold base)"
| wait: "managed threshold base now cm \<Longrightarrow> now \<le> later \<Longrightarrow> managed threshold base later cm"
| failure: "managed threshold base now cm \<Longrightarrow> managed threshold base now (record_failure now m kind cm)"
| success: "managed threshold base now cm \<Longrightarrow> managed threshold base now (record_success m cm)"
| forget: "managed threshold base now cm \<Longrightarrow> managed threshold base now (reset r cm)"

lemma duration_le: "cooldown_duration cm n kind \<le> AUTH_COOLDOWN"
  by (simp add: cooldown_duration_def cooldown_ceiling_def Let_def AUTH_COOLDOWN_def RATE_LIMIT_MAX_def MAX_COOLDOWN_def)

lemma managed_bound: "managed k b now cm \<Longrightarrow> 0 \<le> now \<and> (\<forall>m u. cm_until cm m = Some u \<longrightarrow> u \<le> fl64 (now + AUTH_COOLDOWN))"
proof (induction rule: managed.induct)
  case (start now)
  then show ?case by (simp add: new_manager_def)
next
  case (wait now cm later)
  have "fl64 (now + AUTH_COOLDOWN) \<le> fl64 (later + AUTH_COOLDOWN)" using wait.hyps(2) by (intro fl64_mono) simp
  then show ?case using wait by fastforce
next
  case (failure now cm m kind)
  have "fl64 (now + cooldown_duration cm n kind) \<le> fl64 (now + AUTH_COOLDOWN)" for n
    by (intro fl64_mono add_left_mono duration_le)
  then show ?case using failure.IH by (auto simp: record_failure_def Let_def)
next
  case (success now cm m)
  then show ?case by (simp add: record_success_def)
next
  case (forget now cm r)
  then show ?case by (cases r) (simp_all add: reset_def record_success_def)
qed

text \<open>C37. No model is locked out for good: from any state a manager can get into, an hour after now every model is
  available again unless it fails once more, whatever errors of whatever kind came before.\<close>

theorem every_model_comes_back:
  assumes "managed threshold base now cm" and "fl64 (now + AUTH_COOLDOWN) \<le> later"
  shows "is_available later model cm \<and> get_cooldown_remaining later model cm = 0"
proof -
  have "until_of cm model \<le> later"
  proof (cases "cm_until cm model")
    case None
    have "fl64 0 \<le> fl64 (now + AUTH_COOLDOWN)"
      using managed_bound [OF assms(1)] by (intro fl64_mono) (simp add: AUTH_COOLDOWN_def)
    then show ?thesis using None assms(2) by (simp add: until_of_def)
  next
    case (Some u)
    then show ?thesis using managed_bound [OF assms(1)] assms(2) by (fastforce simp: until_of_def)
  qed
  moreover from this have "fl64 (until_of cm model - later) \<le> fl64 0" by (intro fl64_mono) simp
  ultimately show ?thesis by (simp add: is_available_def get_cooldown_remaining_def Let_def)
qed

theorem every_model_comes_back_witness:
  "\<exists>cm. \<not> is_available 10 ''m'' cm \<and> is_available 4000 ''m'' cm"
proof -
  let ?cm = "(record_failure 0 ''m'' None ^^ 3) (new_manager 3 60)"
  have "managed 3 60 0 ?cm" by (simp add: numeral_3_eq_3 managed.intros)
  moreover have "fl64 (0 + AUTH_COOLDOWN) \<le> 4000" by (simp add: AUTH_COOLDOWN_def) code_simp
  ultimately have "is_available 4000 ''m'' ?cm" using every_model_comes_back by blast
  moreover have "\<not> is_available 10 ''m'' ?cm" by code_simp
  ultimately show ?thesis by blast
qed

text \<open>A revoked key is not left alone for an hour: the ceiling of an authentication error is an hour, but the
  first cooldown is the base duration, as for any other error.\<close>

lemma auth_cooldown_starts_at_the_base:
  "\<not> is_available 59 ''m'' (manager_after 3 60 (replicate 3 (Failed 0 ''m'' (Some ''auth_error''))))
   \<and> is_available 60 ''m'' (manager_after 3 60 (replicate 3 (Failed 0 ''m'' (Some ''auth_error''))))"
  by code_simp

end
