(* ===== verification/Loop_Detector.thy ===== *)
theory Loop_Detector
  imports Py_Order Lines_Env
begin

text \<open>
  The detection of tool loops (\<open>shared/llm/loop_detector.py\<close>) and the hook that stops a run
  (\<open>shared/llm/loop_guard.py\<close>): the sliding window of call signatures with its counts, the three
  patterns, and the exception raised on a kill. MD5 is a parameter; log lines are not modelled, and a
  missing Agents SDK, where there is no hook, is not either.

  The lemmas: the incremental window and counts implement a specification over the list of all calls,
  and a guarded run is over at the global limit.
\<close>

section \<open>Configuration\<close>

definition PING_PONG_CYCLES :: nat where "PING_PONG_CYCLES = 2"

definition safe_int_env :: "env \<Rightarrow> string \<Rightarrow> int \<Rightarrow> int" where
  "safe_int_env env name dflt = (let v = environ_get env name in
     if v = [] then dflt else case parse_int v of Some i \<Rightarrow> i | None \<Rightarrow> dflt)"

definition GLOBAL_CALL_LIMIT :: "env \<Rightarrow> int" where
  "GLOBAL_CALL_LIMIT env = safe_int_env env ''VULTURE_LOOP_GLOBAL_LIMIT'' 100"

datatype loop_action = CONTINUE | WARN | KILL

record loop_detector =
  ld_window :: nat
  ld_warn :: int
  ld_kill :: int
  ld_limit :: int
  ld_history :: "string list"
  ld_counts :: "(string \<times> int) list"
  ld_total :: int

definition new_detector :: "nat \<Rightarrow> int \<Rightarrow> int \<Rightarrow> int \<Rightarrow> loop_detector" where
  "new_detector window warn kill limit = \<lparr>ld_window = window, ld_warn = warn, ld_kill = kill, ld_limit = limit,
     ld_history = [], ld_counts = [], ld_total = 0\<rparr>"

definition default_detector :: "env \<Rightarrow> loop_detector" where
  "default_detector env = new_detector 40 10 20 (GLOBAL_CALL_LIMIT env)"

section \<open>Signatures\<close>

definition args_text :: "pydict \<Rightarrow> string" where
  "args_text args = ''['' @ join '', '' (map (\<lambda>(k, v). ''('' @ repr_str k @ '', '' @ py_repr v @ '')'')
     (foldr (\<lambda>x ys. takeWhile (\<lambda>y. str_less (fst y) (fst x)) ys @ x # dropWhile (\<lambda>y. str_less (fst y) (fst x)) ys) args [])) @ '']''"

definition signature :: "(string \<Rightarrow> string) \<Rightarrow> string \<Rightarrow> pydict \<Rightarrow> string \<Rightarrow> string" where
  "signature md5 tool_name args result_hash =
     (if args = [] \<and> result_hash = [] then tool_name @ '':()''
      else md5 (utf8 (join '':'' ([tool_name] @ (if args = [] then [] else [args_text args])
        @ (if result_hash = [] then [] else [result_hash])))))"

definition hash_result :: "(string \<Rightarrow> string) \<Rightarrow> string \<Rightarrow> string" where
  "hash_result md5 res = take 12 (md5 (utf8 res))"

section \<open>Recording a call\<close>

definition count_in :: "(string \<times> int) list \<Rightarrow> string \<Rightarrow> int" where
  "count_in counts s = (case map_of counts s of None \<Rightarrow> 0 | Some n \<Rightarrow> n)"

definition detect_ping_pong :: "string list \<Rightarrow> bool" where
  "detect_ping_pong history = (let n = PING_PONG_CYCLES * 2 in
     if length history < n then False
     else let recent = drop (length history - n) history; a = recent ! 0; b = recent ! 1
       in a \<noteq> b \<and> list_all (\<lambda>i. recent ! i = (if i mod 2 = 0 then a else b)) [0..<n])"

text \<open>An empty window has no oldest call to evict, and reading it raises.\<close>

definition evict :: "loop_detector \<Rightarrow> (string \<times> int) list result" where
  "evict d = (if length (ld_history d) = ld_window d then (case ld_history d of
       [] \<Rightarrow> Raise IndexError
     | oldest # _ \<Rightarrow> Ret (if count_in (ld_counts d) oldest \<le> 1 then AList.delete oldest (ld_counts d)
         else AList.update oldest (count_in (ld_counts d) oldest - 1) (ld_counts d)))
     else Ret (ld_counts d))"

definition push_call :: "loop_detector \<Rightarrow> string \<Rightarrow> string list" where
  "push_call d sig = (if length (ld_history d) = ld_window d then tl (ld_history d) else ld_history d) @ [sig]"

definition action_of :: "loop_detector \<Rightarrow> int \<Rightarrow> loop_action" where
  "action_of d count =
     (if ld_limit d \<le> ld_total d then KILL
      else if ld_kill d \<le> count then KILL
      else if detect_ping_pong (ld_history d) then KILL
      else if ld_warn d \<le> count then WARN else CONTINUE)"

definition record_signature :: "string \<Rightarrow> loop_detector \<Rightarrow> loop_action result \<times> loop_detector" where
  "record_signature sig d0 = (let d = d0\<lparr>ld_total := ld_total d0 + 1\<rparr> in
     case evict d of
       Inl e \<Rightarrow> (Raise e, d)
     | Inr counts \<Rightarrow>
         let d1 = d\<lparr>ld_history := push_call d sig, ld_counts := AList.update sig (count_in counts sig + 1) counts\<rparr>
         in (Ret (action_of d1 (count_in (ld_counts d1) sig)), d1))"

definition record_call ::
  "(string \<Rightarrow> string) \<Rightarrow> string \<Rightarrow> pydict \<Rightarrow> string \<Rightarrow> loop_detector \<Rightarrow> loop_action result \<times> loop_detector" where
  "record_call md5 tool_name args result_hash d = record_signature (signature md5 tool_name args result_hash) d"

definition reset_detector :: "loop_detector \<Rightarrow> loop_detector" where
  "reset_detector d = d\<lparr>ld_history := [], ld_counts := [], ld_total := 0\<rparr>"

definition loop_count :: "loop_detector \<Rightarrow> int" where
  "loop_count d = (case map snd (ld_counts d) of [] \<Rightarrow> 0 | n # ns \<Rightarrow> fold max ns n)"

section \<open>The hook of a run\<close>

datatype hook_outcome = Go_on | Loop_detected string int | Hook_failed py_error

definition on_tool_end :: "(string \<Rightarrow> string) \<Rightarrow> string \<Rightarrow> pyval \<Rightarrow> loop_detector \<Rightarrow> hook_outcome \<times> loop_detector" where
  "on_tool_end md5 tool_name res d =
     (case record_call md5 tool_name [] (if truthy res then hash_result md5 (py_str res) else []) d of
        (Inl e, d1) \<Rightarrow> (Hook_failed e, d1)
      | (Inr a, d1) \<Rightarrow> (if a = KILL then Loop_detected (''Tool loop detected: '' @ tool_name @ '' (total_calls=''
            @ str_int (ld_total d1) @ '', max_repeat='' @ str_int (loop_count d1) @ '')'') (ld_total d1) else Go_on, d1))"

text \<open>A run the hook watches: the calls an agent would make, one after another, until the hook raises.\<close>

fun watched_run :: "(string \<Rightarrow> string) \<Rightarrow> (string \<times> pyval) list \<Rightarrow> loop_detector \<Rightarrow> nat \<times> hook_outcome" where
  "watched_run md5 [] d = (0, Go_on)"
| "watched_run md5 ((tool, res) # calls) d = (case on_tool_end md5 tool res d of
     (Go_on, d1) \<Rightarrow> (case watched_run md5 calls d1 of (n, out) \<Rightarrow> (Suc n, out))
   | (out, d1) \<Rightarrow> (1, out))"

section \<open>The specification over all calls\<close>

definition recent :: "nat \<Rightarrow> 'a list \<Rightarrow> 'a list" where "recent w xs = drop (length xs - w) xs"

definition spec_action :: "loop_detector \<Rightarrow> string list \<Rightarrow> loop_action" where
  "spec_action d sigs = (let shown = recent (ld_window d) sigs; n = int (count_list shown (last sigs)) in
     if ld_limit d \<le> int (length sigs) \<or> ld_kill d \<le> n then KILL
     else if 4 \<le> length shown \<and> (\<exists>a b. a \<noteq> b \<and> recent 4 shown = [a, b, a, b]) then KILL
     else if ld_warn d \<le> n then WARN else CONTINUE)"

text \<open>The state after the calls \<open>sigs\<close>.\<close>

definition tracks :: "loop_detector \<Rightarrow> string list \<Rightarrow> bool" where
  "tracks d sigs \<longleftrightarrow> ld_history d = recent (ld_window d) sigs \<and> ld_total d = int (length sigs)
     \<and> (\<forall>s. map_of (ld_counts d) s = (let n = count_list (ld_history d) s in if n = 0 then None else Some (int n)))"

lemma recent_snoc:
  assumes "0 < w"
  shows "recent w (xs @ [x]) = (if length (recent w xs) = w then tl (recent w xs) else recent w xs) @ [x]"
proof (cases "length xs < w")
  case False
  then have "recent w (xs @ [x]) = drop (Suc (length xs - w)) xs @ [x]" using assms by (simp add: recent_def Suc_diff_le)
  then show ?thesis using False by (simp add: recent_def drop_Suc tl_drop)
qed (auto simp: recent_def)

lemma length_four: "length xs = 4 \<Longrightarrow> \<exists>a b c d. xs = [a, b, c, d]"
  by (auto simp: length_Suc_conv numeral_eq_Suc)

lemma ping_pong_iff: "detect_ping_pong h \<longleftrightarrow> 4 \<le> length h \<and> (\<exists>a b. a \<noteq> b \<and> recent 4 h = [a, b, a, b])"
proof (cases "4 \<le> length h")
  case True
  then have "length (recent 4 h) = 4" by (simp add: recent_def)
  then obtain a b c d where r: "recent 4 h = [a, b, c, d]" using length_four by blast
  moreover have "[0..<4] = [0, 1, 2, 3 :: nat]" by code_simp
  ultimately have "detect_ping_pong h \<longleftrightarrow> a \<noteq> b \<and> c = a \<and> d = b"
    using True by (auto simp: detect_ping_pong_def recent_def PING_PONG_CYCLES_def Let_def)
  then show ?thesis using True r by auto
qed (simp add: detect_ping_pong_def PING_PONG_CYCLES_def)

lemma count_tracks:
  assumes "\<forall>s. map_of cs s = (let n = count_list h s in if n = 0 then None else Some (int n))"
  shows "count_in cs s = int (count_list h s)"
  using assms by (simp add: count_in_def Let_def)

lemma evict_tracks:
  assumes "tracks d sigs" and "0 < ld_window d"
  shows "\<exists>cs. evict (d\<lparr>ld_total := t\<rparr>) = Ret cs \<and> (\<forall>s. map_of cs s = (let n = count_list
      (if length (ld_history d) = ld_window d then tl (ld_history d) else ld_history d) s in if n = 0 then None else Some (int n)))"
proof (cases "length (ld_history d) = ld_window d")
  case True
  then obtain x h where h: "ld_history d = x # h" using assms(2) by (cases "ld_history d") auto
  have c: "\<forall>s. map_of (ld_counts d) s = (let n = count_list (x # h) s in if n = 0 then None else Some (int n))"
    using assms(1) unfolding tracks_def h by blast
  show ?thesis using True c count_tracks [OF c, of x]
    by (auto simp: evict_def h Let_def AList.update_conv' AList.delete_conv')
next
  case False
  then show ?thesis using assms(1) by (simp add: evict_def tracks_def)
qed

lemma record_tracks:
  assumes "tracks d sigs" and "0 < ld_window d"
  shows "\<exists>d'. record_signature sig d = (Ret (spec_action d (sigs @ [sig])), d') \<and> tracks d' (sigs @ [sig])
    \<and> ld_window d' = ld_window d \<and> ld_warn d' = ld_warn d \<and> ld_kill d' = ld_kill d \<and> ld_limit d' = ld_limit d"
proof -
  define h where "h = (if length (ld_history d) = ld_window d then tl (ld_history d) else ld_history d)"
  obtain cs where cs: "evict (d\<lparr>ld_total := ld_total d + 1\<rparr>) = Ret cs"
    "\<forall>s. map_of cs s = (let n = count_list h s in if n = 0 then None else Some (int n))"
    using evict_tracks [OF assms] unfolding h_def by blast
  define d' where "d' = d\<lparr>ld_total := ld_total d + 1, ld_history := h @ [sig], ld_counts := AList.update sig (count_in cs sig + 1) cs\<rparr>"
  have hist: "h @ [sig] = recent (ld_window d) (sigs @ [sig])"
    using assms recent_snoc [of "ld_window d" sigs sig] by (simp add: h_def tracks_def)
  have counts: "map_of (ld_counts d') s = (let n = count_list (h @ [sig]) s in if n = 0 then None else Some (int n))" for s
    using cs(2) count_tracks [OF cs(2), of sig] by (auto simp: d'_def AList.update_conv' Let_def)
  have c: "count_in (ld_counts d') sig = int (count_list (h @ [sig]) sig)" using count_tracks counts by blast
  have "record_signature sig d = (Ret (action_of d' (count_in (ld_counts d') sig)), d')"
    by (simp add: record_signature_def Let_def cs(1) push_call_def d'_def h_def)
  moreover have "action_of d' (count_in (ld_counts d') sig) = spec_action d (sigs @ [sig])"
    using assms(1) unfolding c hist
    by (auto simp: action_of_def spec_action_def d'_def hist ping_pong_iff tracks_def Let_def)
  moreover have "tracks d' (sigs @ [sig])"
    using assms(1) counts by (simp add: tracks_def d'_def hist)
  ultimately show ?thesis by (simp add: d'_def)
qed

fun record_all :: "string list \<Rightarrow> loop_detector \<Rightarrow> loop_action result list" where
  "record_all [] d = []"
| "record_all (s # ss) d = (case record_signature s d of (a, d1) \<Rightarrow> a # record_all ss d1)"

lemma spec_action_config:
  "ld_window d = ld_window d' \<Longrightarrow> ld_warn d = ld_warn d' \<Longrightarrow> ld_kill d = ld_kill d' \<Longrightarrow> ld_limit d = ld_limit d'
   \<Longrightarrow> spec_action d = spec_action d'"
  by (intro ext) (simp only: spec_action_def)

lemma record_all_tracks:
  "tracks d before \<Longrightarrow> 0 < ld_window d
   \<Longrightarrow> record_all sigs d = map (\<lambda>i. Ret (spec_action d (before @ take (Suc i) sigs))) [0..<length sigs]"
proof (induction sigs arbitrary: d before)
  case (Cons s ss)
  obtain d1 where d1: "record_signature s d = (Ret (spec_action d (before @ [s])), d1)" "tracks d1 (before @ [s])"
    "ld_window d1 = ld_window d" "ld_warn d1 = ld_warn d" "ld_kill d1 = ld_kill d" "ld_limit d1 = ld_limit d"
    using record_tracks [OF Cons.prems] by blast
  have sp: "spec_action d1 = spec_action d" by (rule spec_action_config) (fact d1)+
  have "record_all ss d1 = map (\<lambda>i. Ret (spec_action d ((before @ [s]) @ take (Suc i) ss))) [0..<length ss]"
    using Cons.IH [OF d1(2)] d1(3) Cons.prems(2) unfolding sp by simp
  then show ?case using d1(1) by (simp add: upt_conv_Cons map_Suc_upt [symmetric] del: upt_Suc)
qed simp

lemma fresh_tracks: "tracks (new_detector w a k l) []"
  by (simp add: tracks_def new_detector_def recent_def)

text \<open>C35. The window of 40 signatures and its table of counts implement the plain specification: each call of a run
  gets the action the specification gives on the list of all calls so far, and none raises.\<close>

theorem detector_refines_call_list:
  assumes "0 < window"
  shows "record_all sigs (new_detector window warn kill limit)
    = map (\<lambda>i. Ret (spec_action (new_detector window warn kill limit) (take (Suc i) sigs))) [0..<length sigs]"
  using record_all_tracks [OF fresh_tracks, of window warn kill limit sigs] assms by (simp add: new_detector_def)

theorem detector_refines_call_list_witness:
  "record_all [''a'', ''b'', ''a'', ''b''] (new_detector 40 10 20 100)
     = map (\<lambda>i. Ret (spec_action (new_detector 40 10 20 100) (take (Suc i) [''a'', ''b'', ''a'', ''b'']))) [0..<length [''a'', ''b'', ''a'', ''b'']]
   \<and> record_all [''a'', ''b'', ''a'', ''b''] (new_detector 40 10 20 100) = map Ret [CONTINUE, CONTINUE, CONTINUE, KILL]"
proof -
  have "record_all [''a'', ''b'', ''a'', ''b''] (new_detector 40 10 20 100) = map Ret [CONTINUE, CONTINUE, CONTINUE, KILL]"
    by code_simp
  then show ?thesis using detector_refines_call_list [OF zero_less_numeral, of "[''a'', ''b'', ''a'', ''b'']"] by blast
qed

section \<open>A watched run ends\<close>

lemma hook_goes_on:
  assumes "tracks d sigs" and "0 < ld_window d" and "on_tool_end md5 tool res d = (Go_on, d1)"
  shows "\<exists>s. tracks d1 (sigs @ [s]) \<and> ld_window d1 = ld_window d \<and> ld_limit d1 = ld_limit d \<and> int (length sigs) + 1 < ld_limit d"
proof -
  let ?s = "signature md5 tool [] (if truthy res then hash_result md5 (py_str res) else [])"
  obtain d' where d': "record_signature ?s d = (Ret (spec_action d (sigs @ [?s])), d')" "tracks d' (sigs @ [?s])"
    "ld_window d' = ld_window d" "ld_limit d' = ld_limit d"
    using record_tracks [OF assms(1,2)] by blast
  then have "d1 = d'" "spec_action d (sigs @ [?s]) \<noteq> KILL"
    using assms(3) by (auto simp: on_tool_end_def record_call_def split: if_splits)
  then show ?thesis using d' by (intro exI [of _ ?s]) (auto simp: spec_action_def Let_def split: if_splits)
qed

lemma watched_run_bound:
  "tracks d sigs \<Longrightarrow> 0 < ld_window d \<Longrightarrow> watched_run md5 calls d = (n, out)
   \<Longrightarrow> n \<le> length calls \<and> (out = Go_on \<longrightarrow> n = length calls \<and> (n = 0 \<or> int (length sigs) + int n < ld_limit d))
     \<and> (n \<le> 1 \<or> int (length sigs) + int n \<le> ld_limit d)"
proof (induction calls arbitrary: d sigs n out)
  case (Cons c cs)
  obtain tool res where c: "c = (tool, res)" by fastforce
  show ?case
  proof (cases "fst (on_tool_end md5 tool res d)")
    case Go_on
    then obtain d1 where d1: "on_tool_end md5 tool res d = (Go_on, d1)" by (metis prod.collapse)
    obtain s where s: "tracks d1 (sigs @ [s])" "ld_window d1 = ld_window d" "ld_limit d1 = ld_limit d" "int (length sigs) + 1 < ld_limit d"
      using hook_goes_on [OF Cons.prems(1,2) d1] by blast
    obtain m out' where m: "watched_run md5 cs d1 = (m, out')" by fastforce
    have "n = Suc m" "out' = out" using Cons.prems(3) by (simp_all add: c d1 m)
    then show ?thesis using Cons.IH [OF s(1) _ m] s Cons.prems(2) by auto
  next
    case (Loop_detected msg t)
    then show ?thesis using Cons.prems(3) by (cases "on_tool_end md5 tool res d") (auto simp: c)
  next
    case (Hook_failed e)
    then show ?thesis using Cons.prems(3) by (cases "on_tool_end md5 tool res d") (auto simp: c)
  qed
qed simp

text \<open>A watched run ends: however many tool calls an agent would make and whatever they return, the hook stops it
  no later than at the global limit; a run that is never stopped makes fewer calls than that.\<close>

theorem watched_run_ends:
  assumes "0 < window" and "1 \<le> limit"
    and "watched_run md5 calls (new_detector window warn kill limit) = (n, out)"
  shows "int n \<le> limit \<and> (out = Go_on \<longrightarrow> n = length calls \<and> int n < limit)"
  using watched_run_bound [OF fresh_tracks _ assms(3)] assms(1,2) by (auto simp: new_detector_def)

theorem watched_run_ends_witness:
  "fst (watched_run (\<lambda>s. s) (replicate 7 (''t'', PNone)) (new_detector 40 10 20 5)) = 5
   \<and> int 5 \<le> (5 :: int)"
proof -
  have r: "watched_run (\<lambda>s. s) (replicate 7 (''t'', PNone)) (new_detector 40 10 20 5)
      = (5, Loop_detected ''Tool loop detected: t (total_calls=5, max_repeat=5)'' 5)" by code_simp
  from watched_run_ends [OF _ _ r] show ?thesis by (simp add: r)
qed

text \<open>An empty window stops the first call with an exception of its own.\<close>

lemma empty_window_raises: "fst (record_signature s (new_detector 0 warn kill limit)) = Raise IndexError"
  by (simp add: record_signature_def evict_def new_detector_def Let_def)

end
