(* ===== verification/Cancel_Token.thy ===== *)
theory Cancel_Token
  imports Prelude
begin

text \<open>
  Cooperative cancellation (\<open>shared/cancellation.py\<close>): the token, the ambient token and deadline of a
  context, and the interleavings of several threads that cancel one token. \<open>cancel\<close> is three accesses
  (test the event, write the reason, set the event) with no lock around them; \<open>cancel_step\<close> lets the
  threads take them in any order.
\<close>

section \<open>The token\<close>

record cancel_token =
  ct_event :: bool
  ct_reason :: "string option"

definition new_token :: cancel_token where "new_token = \<lparr>ct_event = False, ct_reason = None\<rparr>"

definition cancel :: "string \<Rightarrow> cancel_token \<Rightarrow> cancel_token" where
  "cancel reason t = (if ct_event t then t else t\<lparr>ct_reason := Some reason\<rparr>)\<lparr>ct_event := True\<rparr>"

definition cancelled :: "cancel_token \<Rightarrow> bool" where "cancelled t = ct_event t"

lemma cancel_once: "ct_event t \<Longrightarrow> cancel r t = t"
  by (simp add: cancel_def)

lemma cancel_many: "cancel r t = t' \<Longrightarrow> fold cancel rs t' = t'"
  by (induction rs) (auto simp: cancel_def)

text \<open>One after another, the first reason wins.\<close>

lemma first_reason_wins: "ct_reason (fold cancel (r # rs) new_token) = Some r"
  using cancel_many [of r new_token "cancel r new_token" rs] by (simp add: cancel_def new_token_def)

section \<open>The context of a request\<close>

text \<open>Tokens are shared objects: a context holds a reference, and whoever cancels the token is seen through it.\<close>

type_synonym token_store = "nat \<Rightarrow> cancel_token"

record ambient =
  am_token :: "nat option"
  am_deadline :: "rat option"

definition no_ambient :: ambient where "no_ambient = \<lparr>am_token = None, am_deadline = None\<rparr>"

definition set_cancel_token :: "nat option \<Rightarrow> ambient \<Rightarrow> ambient" where
  "set_cancel_token t am = am\<lparr>am_token := t\<rparr>"

definition set_audit_deadline :: "rat option \<Rightarrow> ambient \<Rightarrow> ambient" where
  "set_audit_deadline d am = am\<lparr>am_deadline := d\<rparr>"

definition current_cancel_token :: "ambient \<Rightarrow> nat option" where "current_cancel_token am = am_token am"

definition current_audit_deadline :: "ambient \<Rightarrow> rat option" where "current_audit_deadline am = am_deadline am"

definition is_cancelled :: "token_store \<Rightarrow> ambient \<Rightarrow> bool" where
  "is_cancelled store am = (case am_token am of None \<Rightarrow> False | Some i \<Rightarrow> cancelled (store i))"

text \<open>A thread that starts with an empty context never sees the cancellation of its request.\<close>

lemma empty_context_never_cancelled: "\<not> is_cancelled store no_ambient"
  by (simp add: is_cancelled_def no_ambient_def)

section \<open>Several threads\<close>

datatype cancel_pc = At_test | At_write | At_set | Finished

record cancel_state =
  cs_token :: cancel_token
  cs_pc :: "nat \<Rightarrow> cancel_pc"

definition cancel_start :: cancel_state where
  "cancel_start = \<lparr>cs_token = new_token, cs_pc = \<lambda>_. At_test\<rparr>"

definition move :: "nat \<Rightarrow> cancel_pc \<Rightarrow> cancel_token \<Rightarrow> cancel_state \<Rightarrow> cancel_state" where
  "move i pc t s = \<lparr>cs_token = t, cs_pc = (cs_pc s)(i := pc)\<rparr>"

text \<open>Thread \<open>i\<close> cancels with the reason \<open>reasons i\<close>.\<close>

inductive cancel_step :: "(nat \<Rightarrow> string) \<Rightarrow> cancel_state \<Rightarrow> cancel_state \<Rightarrow> bool" for reasons :: "nat \<Rightarrow> string" where
  test_clear: "cs_pc s i = At_test \<Longrightarrow> \<not> ct_event (cs_token s) \<Longrightarrow> cancel_step reasons s (move i At_write (cs_token s) s)"
| test_set: "cs_pc s i = At_test \<Longrightarrow> ct_event (cs_token s) \<Longrightarrow> cancel_step reasons s (move i At_set (cs_token s) s)"
| write_reason: "cs_pc s i = At_write
    \<Longrightarrow> cancel_step reasons s (move i At_set ((cs_token s)\<lparr>ct_reason := Some (reasons i)\<rparr>) s)"
| set_event: "cs_pc s i = At_set \<Longrightarrow> cancel_step reasons s (move i Finished ((cs_token s)\<lparr>ct_event := True\<rparr>) s)"

inductive cancel_reachable :: "(nat \<Rightarrow> string) \<Rightarrow> cancel_state \<Rightarrow> bool" for reasons :: "nat \<Rightarrow> string" where
  initial: "cancel_reachable reasons cancel_start"
| further: "cancel_reachable reasons s \<Longrightarrow> cancel_step reasons s s' \<Longrightarrow> cancel_reachable reasons s'"

inductive_cases cancel_stepE: "cancel_step reasons s s'"

definition reason_known :: "(nat \<Rightarrow> string) \<Rightarrow> cancel_state \<Rightarrow> bool" where
  "reason_known reasons s \<longleftrightarrow>
     (ct_event (cs_token s) \<or> (\<exists>i. cs_pc s i = At_set \<or> cs_pc s i = Finished) \<longrightarrow> (\<exists>i. ct_reason (cs_token s) = Some (reasons i)))"

lemma step_reason_known: "cancel_step reasons s s' \<Longrightarrow> reason_known reasons s \<Longrightarrow> reason_known reasons s'"
proof (induction rule: cancel_step.induct)
  case (test_clear s i)
  then show ?case by (auto simp: reason_known_def move_def split: if_splits)
next
  case (test_set s i)
  then show ?case by (auto simp: reason_known_def move_def)
next
  case (write_reason s i)
  then show ?case by (auto simp: reason_known_def move_def)
next
  case (set_event s i)
  then show ?case by (auto simp: reason_known_def move_def)
qed

lemma reachable_reason_known: "cancel_reachable reasons s \<Longrightarrow> reason_known reasons s"
proof (induction rule: cancel_reachable.induct)
  case initial
  then show ?case by (simp add: reason_known_def cancel_start_def new_token_def)
next
  case (further s s')
  then show ?case by (simp add: step_reason_known)
qed

text \<open>A cancelled token says why: in every interleaving of the threads, a reader that finds the event set finds
  the reason of one of them.\<close>

theorem cancelled_token_has_a_reason:
  assumes "cancel_reachable reasons s" and "cancelled (cs_token s)"
  shows "\<exists>i. ct_reason (cs_token s) = Some (reasons i)"
  using reachable_reason_known [OF assms(1)] assms(2) by (simp add: reason_known_def cancelled_def)

definition ex_reasons :: "nat \<Rightarrow> string" where
  "ex_reasons i = (if i = 0 then ''disconnect'' else ''stream_closed'')"

definition ex_race :: "nat \<Rightarrow> cancel_state" where
  "ex_race n = (let s2 = move 1 At_write new_token (move 0 At_write new_token cancel_start);
      s4 = move 0 Finished \<lparr>ct_event = True, ct_reason = Some (ex_reasons 0)\<rparr> s2
    in if n = 0 then s4 else move 1 At_set \<lparr>ct_event = True, ct_reason = Some (ex_reasons 1)\<rparr> s4)"

lemma move_same: "move i pc t (move i pc' t' s) = move i pc t s"
  by (simp add: move_def)

lemma race_reachable: "cancel_reachable ex_reasons (ex_race 0)" "cancel_step ex_reasons (ex_race 0) (ex_race 1)"
proof -
  let ?s1 = "move 0 At_write new_token cancel_start"
  let ?s2 = "move 1 At_write new_token ?s1"
  let ?s3 = "move 0 At_set (new_token\<lparr>ct_reason := Some ''disconnect''\<rparr>) ?s2"
  have "cancel_step ex_reasons cancel_start ?s1"
    using cancel_step.test_clear [of cancel_start 0 ex_reasons] by (simp add: cancel_start_def new_token_def)
  moreover have "cancel_step ex_reasons ?s1 ?s2"
    using cancel_step.test_clear [of ?s1 1 ex_reasons] by (simp add: cancel_start_def new_token_def move_def)
  moreover have "cancel_step ex_reasons ?s2 ?s3"
    using cancel_step.write_reason [of ?s2 0 ex_reasons] by (simp add: ex_reasons_def move_def)
  moreover have "cancel_step ex_reasons ?s3 (ex_race 0)"
    using cancel_step.set_event [of ?s3 0 ex_reasons] by (simp add: ex_race_def move_same Let_def) (simp add: move_def new_token_def ex_reasons_def)
  ultimately show "cancel_reachable ex_reasons (ex_race 0)"
    by (meson cancel_reachable.intros)
  show "cancel_step ex_reasons (ex_race 0) (ex_race 1)"
    using cancel_step.write_reason [of "ex_race 0" 1 ex_reasons] by (simp add: ex_race_def ex_reasons_def move_def Let_def)
qed

theorem cancelled_token_has_a_reason_witness:
  "\<exists>i. ct_reason (cs_token (ex_race 0)) = Some (ex_reasons i)"
proof -
  have "cancelled (cs_token (ex_race 0))" by (simp add: ex_race_def cancelled_def move_def Let_def)
  then show ?thesis using cancelled_token_has_a_reason [OF race_reachable(1)] by blast
qed

text \<open>The first reason does not always win: two threads that both test before either sets the event leave the
  reason of the later one on a token a reader has already seen cancelled with the first.\<close>

lemma first_reason_can_be_overwritten:
  "\<exists>s s'. cancel_reachable ex_reasons s \<and> cancel_step ex_reasons s s'
    \<and> cancelled (cs_token s) \<and> ct_reason (cs_token s) = Some ''disconnect'' \<and> ct_reason (cs_token s') = Some ''stream_closed''"
proof (intro exI conjI)
  show "cancel_reachable ex_reasons (ex_race 0)" "cancel_step ex_reasons (ex_race 0) (ex_race 1)" by (rule race_reachable)+
qed (simp_all add: ex_race_def cancelled_def move_def Let_def ex_reasons_def)

end
