(* ===== verification/L5_Cache.thy ===== *)
theory L5_Cache
  imports Py_Order Lines_Env
begin

text \<open>
  The verdict cache of the judge (\<open>shared/validate/l5_cache.py\<close>): its key, the lazily opened connection,
  lookup and store over the table, the counters of a run. The table is an association list (what
  \<open>INSERT OR REPLACE\<close> and \<open>SELECT\<close> of SQLite make of it); whether opening the database and whether a
  statement succeeds are arguments of each operation, as are the clock and SHA-256. File modes,
  PRAGMAs, the schema migration and the locks are not modelled.

  The lemmas: the cache implements the history of its stores with a time to live, and a verdict is
  replayed as it was stored.
\<close>

section \<open>Keys\<close>

definition TTL_S :: rat where "TTL_S = 2592000"

definition VERDICT_SCHEMA_VERSION :: string where "VERDICT_SCHEMA_VERSION = ''v9-judge-adapt''"

definition key_source :: "string \<Rightarrow> int \<Rightarrow> int \<Rightarrow> string \<Rightarrow> string \<Rightarrow> string \<Rightarrow> string" where
  "key_source file_path line_start line_end check_id model file_sig =
     join '':'' [VERDICT_SCHEMA_VERSION, file_path, str_int line_start, str_int line_end, check_id, model, file_sig]"

definition cache_key :: "(string \<Rightarrow> string) \<Rightarrow> string \<Rightarrow> int \<Rightarrow> int \<Rightarrow> string \<Rightarrow> string \<Rightarrow> string \<Rightarrow> string" where
  "cache_key sha256 file_path line_start line_end check_id model file_sig =
     take 32 (sha256 (utf8 (key_source file_path line_start line_end check_id model file_sig)))"

definition default_path :: "env \<Rightarrow> string \<Rightarrow> string" where
  "default_path env user_home =
     (let base = environ_get env ''VULTURE_L5_CACHE_PATH''; home = environ_get env ''VULTURE_DATA_DIR''
      in if base \<noteq> [] then base
         else (if home \<noteq> [] then home else user_home @ ''/.vulture'') @ ''/l5_cache.db'')"

section \<open>State\<close>

record cached_verdict =
  cv_exploitable :: rat
  cv_reasoning :: string
  cv_model :: string
  cv_language :: string
  cv_window_sufficient :: "bool option"
  cv_evidence_line :: "int option"
  cv_evidence_file :: "string option"

record run_counters =
  rc_hits :: nat
  rc_misses :: nat
  rc_stores :: nat

datatype connection = Unopened | Opened | Disabled

record l5_cache =
  lc_conn :: connection
  lc_rows :: "(string \<times> cached_verdict \<times> rat) list"
  lc_counters :: "run_counters option"

definition connect :: "bool \<Rightarrow> l5_cache \<Rightarrow> bool \<times> l5_cache" where
  "connect opens c = (case lc_conn c of
     Disabled \<Rightarrow> (False, c)
   | Opened \<Rightarrow> (True, c)
   | Unopened \<Rightarrow> (opens, c\<lparr>lc_conn := if opens then Opened else Disabled\<rparr>))"

definition add_counter :: "string \<Rightarrow> l5_cache \<Rightarrow> l5_cache" where
  "add_counter name c = (case lc_counters c of
     None \<Rightarrow> c
   | Some r \<Rightarrow> c\<lparr>lc_counters := Some (
       if name = ''hits'' then r\<lparr>rc_hits := Suc (rc_hits r)\<rparr>
       else if name = ''misses'' then r\<lparr>rc_misses := Suc (rc_misses r)\<rparr>
       else r\<lparr>rc_stores := Suc (rc_stores r)\<rparr>)\<rparr>)"

text \<open>\<open>counting\<close> around a run: fresh counters inside, the old ones after it.\<close>

definition counting :: "(l5_cache \<Rightarrow> l5_cache) \<Rightarrow> l5_cache \<Rightarrow> run_counters option \<times> l5_cache" where
  "counting run c = (let inner = run (c\<lparr>lc_counters := Some \<lparr>rc_hits = 0, rc_misses = 0, rc_stores = 0\<rparr>\<rparr>)
     in (lc_counters inner, inner\<lparr>lc_counters := lc_counters c\<rparr>))"

section \<open>Operations\<close>

text \<open>One operation: when it runs, whether the database opens, whether its statement succeeds.\<close>

record access =
  ac_now :: rat
  ac_opens :: bool
  ac_works :: bool

definition fresh_row :: "rat \<Rightarrow> cached_verdict \<times> rat \<Rightarrow> cached_verdict option" where
  "fresh_row now row = (case row of (v, judged_at) \<Rightarrow> if TTL_S < fl64 (now - judged_at) then None else Some v)"

definition lookup_row :: "access \<Rightarrow> string \<Rightarrow> l5_cache \<Rightarrow> cached_verdict option \<times> l5_cache" where
  "lookup_row a key c = (case connect (ac_opens a) c of (ok, c1) \<Rightarrow>
     (if \<not> ok \<or> \<not> ac_works a then None
      else case map_of (lc_rows c1) key of None \<Rightarrow> None | Some row \<Rightarrow> fresh_row (ac_now a) row, c1))"

definition lookup :: "access \<Rightarrow> string \<Rightarrow> l5_cache \<Rightarrow> cached_verdict option \<times> l5_cache" where
  "lookup a key c = (case lookup_row a key c of (found, c1) \<Rightarrow>
     (found, add_counter (if found = None then ''misses'' else ''hits'') c1))"

text \<open>What a stored verdict reads back as: an empty file name is no file.\<close>

definition as_stored :: "cached_verdict \<Rightarrow> cached_verdict" where
  "as_stored v = v\<lparr>cv_evidence_file := (if cv_evidence_file v = Some [] then None else cv_evidence_file v)\<rparr>"

definition int64 :: "int \<Rightarrow> bool" where "int64 i \<longleftrightarrow> -9223372036854775808 \<le> i \<and> i \<le> 9223372036854775807"

definition storable :: "cached_verdict \<Rightarrow> bool" where
  "storable v = (case cv_evidence_line v of None \<Rightarrow> True | Some i \<Rightarrow> int64 i)"

definition store :: "access \<Rightarrow> string \<Rightarrow> cached_verdict \<Rightarrow> l5_cache \<Rightarrow> l5_cache" where
  "store a key v c = (case connect (ac_opens a) c of (ok, c1) \<Rightarrow>
     if ok \<and> ac_works a \<and> storable v
     then add_counter ''stores'' (c1\<lparr>lc_rows := AList.update key (as_stored v, ac_now a) (lc_rows c1)\<rparr>)
     else c1)"

definition reset_connection :: "l5_cache \<Rightarrow> l5_cache" where
  "reset_connection c = c\<lparr>lc_conn := Unopened\<rparr>"

definition cache_stats :: "access \<Rightarrow> l5_cache \<Rightarrow> nat option \<times> l5_cache" where
  "cache_stats a c = (case connect (ac_opens a) c of (ok, c1) \<Rightarrow>
     (if ok \<and> ac_works a then Some (length (lc_rows c1)) else None, c1))"

section \<open>The history a cache implements\<close>

datatype cache_op = Looked access string | Stored access string cached_verdict

fun apply_op :: "cache_op \<Rightarrow> l5_cache \<Rightarrow> l5_cache" where
  "apply_op (Looked a k) c = snd (lookup a k c)"
| "apply_op (Stored a k v) c = store a k v c"

definition empty_cache :: l5_cache where
  "empty_cache = \<lparr>lc_conn = Opened, lc_rows = [], lc_counters = None\<rparr>"

definition cache_after :: "cache_op list \<Rightarrow> l5_cache" where "cache_after ops = fold apply_op ops empty_cache"

text \<open>The specification: the latest store of the key that went through.\<close>

fun store_of :: "string \<Rightarrow> cache_op \<Rightarrow> (cached_verdict \<times> rat) option" where
  "store_of k (Stored a k' v) = (if k' = k \<and> ac_works a \<and> storable v then Some (as_stored v, ac_now a) else None)"
| "store_of k _ = None"

definition latest_store :: "string \<Rightarrow> cache_op list \<Rightarrow> (cached_verdict \<times> rat) option" where
  "latest_store k ops = (case List.map_filter (store_of k) (rev ops) of [] \<Rightarrow> None | r # _ \<Rightarrow> Some r)"

lemma latest_store_simps:
  "latest_store k [] = None"
  "latest_store k (ops @ [op]) = (case store_of k op of Some r \<Rightarrow> Some r | None \<Rightarrow> latest_store k ops)"
  by (simp_all add: latest_store_def map_filter_simps split: option.split)

lemma add_counter_frame [simp]: "lc_rows (add_counter n c) = lc_rows c" "lc_conn (add_counter n c) = lc_conn c"
  by (simp_all add: add_counter_def split: option.split)

lemma connect_opened [simp]: "lc_conn c = Opened \<Longrightarrow> connect b c = (True, c)"
  by (simp add: connect_def)

lemma lookup_frame [simp]: "lc_conn c = Opened \<Longrightarrow> lc_conn (snd (lookup a k c)) = Opened \<and> lc_rows (snd (lookup a k c)) = lc_rows c"
  by (simp add: lookup_def lookup_row_def)

lemma op_rows: "lc_conn c = Opened \<Longrightarrow> lc_conn (apply_op op c) = Opened
    \<and> map_of (lc_rows (apply_op op c)) k = (case store_of k op of Some r \<Rightarrow> Some r | None \<Rightarrow> map_of (lc_rows c) k)"
  by (cases op) (auto simp: store_def AList.update_conv')

lemma cache_after_simps: "cache_after [] = empty_cache" "cache_after (ops @ [op]) = apply_op op (cache_after ops)"
  by (simp_all add: cache_after_def)

lemma cache_after_rows: "lc_conn (cache_after ops) = Opened \<and> map_of (lc_rows (cache_after ops)) k = latest_store k ops"
proof (induction ops rule: rev_induct)
  case (snoc op ops)
  then show ?case using op_rows [of "cache_after ops" op k] by (simp add: cache_after_simps latest_store_simps split: option.splits)
qed (simp add: cache_after_simps empty_cache_def latest_store_simps)

text \<open>C34. The cache implements the history of its stores: after any operations, failed ones among them, a lookup finds
  exactly the latest verdict that was stored under its key, provided it is not older than thirty days.\<close>

theorem lookup_refines_store_history:
  assumes "ac_works a"
  shows "fst (lookup a k (cache_after ops)) = (case latest_store k ops of None \<Rightarrow> None
    | Some (v, stored) \<Rightarrow> if TTL_S < fl64 (ac_now a - stored) then None else Some v)"
proof -
  have r: "lc_conn (cache_after ops) = Opened" "map_of (lc_rows (cache_after ops)) k = latest_store k ops"
    using cache_after_rows [of ops k] by simp_all
  show ?thesis using assms by (simp add: lookup_def lookup_row_def r fresh_row_def split: option.split)
qed

definition ex_verdict_row :: cached_verdict where
  "ex_verdict_row = \<lparr>cv_exploitable = 1/4, cv_reasoning = ''r'', cv_model = ''m'', cv_language = ''py'',
     cv_window_sufficient = Some True, cv_evidence_line = Some 3, cv_evidence_file = Some []\<rparr>"

definition ex_at :: "rat \<Rightarrow> access" where "ex_at t = \<lparr>ac_now = t, ac_opens = True, ac_works = True\<rparr>"

theorem lookup_refines_store_history_witness:
  "fst (lookup (ex_at 100) ''k'' (cache_after [Stored (ex_at 0) ''k'' ex_verdict_row])) = Some (as_stored ex_verdict_row)"
proof -
  have "latest_store ''k'' [Stored (ex_at 0) ''k'' ex_verdict_row] = Some (as_stored ex_verdict_row, 0)"
    by (simp add: latest_store_def map_filter_simps storable_def int64_def ex_verdict_row_def ex_at_def)
  moreover have "\<not> TTL_S < fl64 (100 - 0)" by code_simp
  ultimately show ?thesis
    using lookup_refines_store_history [of "ex_at 100" "''k''" "[Stored (ex_at 0) ''k'' ex_verdict_row]"]
    by (simp add: ex_at_def)
qed

text \<open>Every lookup of a run is counted once, as a hit or a miss.\<close>

lemma lookup_counted: "lc_counters c = Some r \<Longrightarrow>
    \<exists>r'. lc_counters (snd (lookup a k c)) = Some r' \<and> rc_hits r' + rc_misses r' = Suc (rc_hits r + rc_misses r)"
  by (auto simp: lookup_def lookup_row_def add_counter_def connect_def split: connection.split)

text \<open>Old rows are not pruned: a lookup that finds a row expired leaves it in the table.\<close>

lemma expired_rows_stay: "lc_rows (snd (lookup a k c)) = lc_rows c"
  by (auto simp: lookup_def lookup_row_def connect_def split: connection.split)

text \<open>A failure to open is for good: no later operation tries again.\<close>

lemma disabled_for_good: "lc_conn c = Disabled \<Longrightarrow> store a k v c = c \<and> fst (lookup a k c) = None"
  by (simp add: store_def lookup_def lookup_row_def connect_def)

text \<open>The parts of a key are joined without quoting, so two different findings can share a key: a colon in a check
  id moves the boundary to the model.\<close>

lemma keys_can_collide:
  "cache_key sha256 p n m ''a'' ''b:c'' s = cache_key sha256 p n m ''a:b'' ''c'' s"
  by (simp add: cache_key_def key_source_def)

end
