(* ===== verification/Request_Cap.thy ===== *)
theory Request_Cap
  imports Py_Order
begin

text \<open>
  The bound on the tool outputs of a model request (\<open>shared/llm/request_cap.py\<close>): the size of an item as
  UTF-8 bytes of its JSON, the cut of a single oversized output, the elision of the oldest outputs, and
  the filter over a whole conversation. The cap of \<open>audit_runner._get_max_body_bytes\<close> is an argument;
  instructions pass through the filter untouched and are left out.

  The lemmas: nothing but outputs changes, the newest outputs survive, and the outputs fit the budget
  unless every one of them was elided.
\<close>

section \<open>JSON text\<close>

definition is_control :: "char \<Rightarrow> bool" where "is_control c = ((of_char c :: nat) < 32)"

lemma is_control_code [code]: "is_control (Char b0 b1 b2 b3 b4 b5 b6 b7) = (\<not> (b7 \<or> b6 \<or> b5))"
  by (cases b0; cases b1; cases b2; cases b3; cases b4; cases b5; cases b6; cases b7; simp add: is_control_def)

definition json_control :: "nat \<Rightarrow> string" where
  "json_control n = [CHR 0x5C] @ (if n = 10 then ''n'' else if n = 13 then ''r'' else if n = 9 then ''t''
     else if n = 8 then ''b'' else if n = 12 then ''f''
     else [CHR ''u'', CHR ''0'', CHR ''0'', hex_digit (n div 16), hex_digit (n mod 16)])"

definition json_char :: "char \<Rightarrow> string" where
  "json_char c = (if c = CHR 0x22 \<or> c = CHR 0x5C then [CHR 0x5C, c]
     else if is_control c then json_control (of_char c) else [c])"

definition json_string :: "string \<Rightarrow> string" where
  "json_string s = [CHR 0x22] @ concat (map json_char s) @ [CHR 0x22]"

definition json_float :: "pyfloat \<Rightarrow> string" where
  "json_float f = (case f of FNan \<Rightarrow> ''NaN'' | FInf neg \<Rightarrow> (if neg then ''-Infinity'' else ''Infinity'') | FFin _ \<Rightarrow> float_repr f)"

fun json_dumps :: "pyval \<Rightarrow> string" where
  "json_dumps PNone = ''null''"
| "json_dumps (PBool b) = (if b then ''true'' else ''false'')"
| "json_dumps (PInt i) = str_int i"
| "json_dumps (PFloat f) = json_float f"
| "json_dumps (PStr s) = json_string s"
| "json_dumps (PList xs) = ''['' @ join '', '' (map json_dumps xs) @ '']''"
| "json_dumps (PDict d) = ''{'' @ join '', '' (map (\<lambda>(k, v). json_string k @ '': '' @ json_dumps v) d) @ ''}''"

definition json_size :: "pyval \<Rightarrow> int" where "json_size v = int (length (utf8 (json_dumps v)))"

section \<open>Outputs\<close>

definition OUTPUT :: string where "OUTPUT = ''function_call_output''"

definition CUT_MARKER :: "nat \<Rightarrow> string" where
  "CUT_MARKER n = [NL] @ ''[... '' @ str_nat n @ '' bytes cut to keep the request under the size cap; read a narrower line range]''"

definition ELIDED :: "int \<Rightarrow> string" where
  "ELIDED n = ''[tool output elided: '' @ str_int n @ '' bytes, to keep the request under the size cap]''"

definition is_output :: "pyval \<Rightarrow> bool" where
  "is_output item = (case item of
     PDict d \<Rightarrow> get d ''type'' = PStr OUTPUT \<and> (case get d ''output'' of PStr _ \<Rightarrow> True | PList _ \<Rightarrow> True | _ \<Rightarrow> False)
   | _ \<Rightarrow> False)"

definition output_of :: "pyval \<Rightarrow> pyval" where
  "output_of item = (case item of PDict d \<Rightarrow> get d ''output'' | _ \<Rightarrow> PNone)"

definition output_bytes :: "pyval \<Rightarrow> int" where
  "output_bytes item = (case output_of item of PStr s \<Rightarrow> int (length (utf8 s)) | v \<Rightarrow> json_size v)"

definition with_output :: "pyval \<Rightarrow> string \<Rightarrow> pyval" where
  "with_output item out = (case item of PDict d \<Rightarrow> PDict (put ''output'' (PStr out) d) | v \<Rightarrow> v)"

text \<open>The characters whose bytes fit: a character cut in the middle is dropped by the decoder.\<close>

fun fitting :: "nat \<Rightarrow> string \<Rightarrow> string" where
  "fitting k [] = []"
| "fitting k (c # cs) = (if length (utf8_char c) \<le> k then c # fitting (k - length (utf8_char c)) cs else [])"

definition kept_item :: "pyval \<Rightarrow> string \<Rightarrow> int \<Rightarrow> pyval" where
  "kept_item item text keep = (let kept = fitting (nat keep) text in
     with_output item (kept @ CUT_MARKER (length (utf8 text) - length (utf8 kept))))"

fun shrink :: "pyval \<Rightarrow> string \<Rightarrow> int \<Rightarrow> nat \<Rightarrow> int \<Rightarrow> pyval" where
  "shrink item text limit 0 keep = kept_item item text keep"
| "shrink item text limit (Suc n) keep = (let sz = json_size (kept_item item text keep) in
     if sz \<le> limit \<or> keep = 0 then kept_item item text keep
     else shrink item text limit n (max (keep - (sz - limit) - 64) 0))"

definition cut_item :: "pyval \<Rightarrow> string \<Rightarrow> int \<Rightarrow> int \<Rightarrow> pyval" where
  "cut_item item text sz limit =
     shrink item text limit 3 (max (int (length (utf8 text)) - (sz - limit) - 128) 0)"

section \<open>The filter\<close>

text \<open>The loops over the sizes of the outputs, as recursions over the conversation; an item that is no
  output is passed over.\<close>

definition cut_oversized :: "int \<Rightarrow> pyval list \<Rightarrow> pyval list" where
  "cut_oversized limit items = map (\<lambda>item. if is_output item \<and> limit < json_size item
     then (case output_of item of PStr s \<Rightarrow> cut_item item s (json_size item) limit | _ \<Rightarrow> item) else item) items"

fun elide_oldest :: "int \<Rightarrow> int \<Rightarrow> pyval list \<Rightarrow> pyval list" where
  "elide_oldest budget used [] = []"
| "elide_oldest budget used (item # items) =
     (if \<not> is_output item then item # elide_oldest budget used items
      else if used \<le> budget then item # items
      else let new = with_output item (ELIDED (output_bytes item))
        in new # elide_oldest budget (used + (json_size new - json_size item)) items)"

definition tool_bytes :: "pyval list \<Rightarrow> int" where
  "tool_bytes items = sum_list (map json_size (filter is_output items))"

definition bounded_model_input :: "int \<Rightarrow> pyval list \<Rightarrow> pyval list" where
  "bounded_model_input budget items =
     (if budget \<le> 0 then items
      else if tool_bytes items \<le> budget then items
      else let cut = cut_oversized (max (budget div 4) 1024) items in elide_oldest budget (tool_bytes cut) cut)"

section \<open>What the filter keeps\<close>

definition elided :: "pyval \<Rightarrow> bool" where
  "elided item = (\<exists>n. output_of item = PStr (ELIDED n))"

text \<open>Two items that differ at most in the output of a tool call.\<close>

definition same_but_output :: "pyval \<Rightarrow> pyval \<Rightarrow> bool" where
  "same_but_output a b \<longleftrightarrow> a = b \<or> is_output a \<and> is_output b \<and> (\<exists>d d'. a = PDict d \<and> b = PDict d' \<and>
     (\<forall>k. k \<noteq> ''output'' \<longrightarrow> get d k = get d' k) \<and> map fst d = map fst d')"

lemma is_outputD: "is_output item \<Longrightarrow> \<exists>d. item = PDict d \<and> has_key d ''output''"
  by (auto simp: is_output_def has_key_def get_or_def split: pyval.splits option.splits)

lemma with_output_is_output [simp]: "is_output item \<Longrightarrow> is_output (with_output item s)"
  by (auto simp: is_output_def with_output_def split: pyval.splits)

lemma output_of_with_output [simp]: "is_output item \<Longrightarrow> output_of (with_output item s) = PStr s"
  by (auto simp: is_output_def with_output_def output_of_def split: pyval.splits)

lemma keys_put: "has_key d k \<Longrightarrow> map fst (put k v d) = map fst d"
  by (induction d) (auto simp: has_key_def split: if_splits)

lemma same_with_output: "is_output item \<Longrightarrow> same_but_output item (with_output item s)"
  using is_outputD [of item] with_output_is_output [of item s]
  by (auto simp: same_but_output_def with_output_def keys_put)

lemma same_refl [simp]: "same_but_output a a"
  by (simp add: same_but_output_def)

lemma same_trans: "same_but_output a b \<Longrightarrow> same_but_output b c \<Longrightarrow> same_but_output a c"
  by (auto simp: same_but_output_def)

lemma shrink_with_output: "\<exists>s. shrink item text limit n keep = with_output item s"
  by (induction item "text" limit n keep rule: shrink.induct) (auto simp: kept_item_def Let_def)

lemma cut_same: "list_all2 same_but_output items (cut_oversized limit items)"
proof -
  have "same_but_output item (cut_item item s sz limit)" if "is_output item" for item s sz
    using same_with_output [OF that] shrink_with_output unfolding cut_item_def by metis
  then show ?thesis by (auto simp: cut_oversized_def list.rel_map list.rel_refl_strong split: pyval.split)
qed

lemma elide_same: "list_all2 same_but_output items (elide_oldest budget used items)"
  by (induction budget used items rule: elide_oldest.induct)
    (auto simp: Let_def same_with_output list.rel_refl_strong)

text \<open>Only outputs change: the filter returns an item for every item of the conversation, in order, and each is the
  item it was but for the text of a tool output, so no call loses its output.\<close>

theorem only_outputs_change:
  "list_all2 same_but_output items (bounded_model_input budget items)"
proof -
  have "list_all2 same_but_output items (elide_oldest budget t (cut_oversized limit items))" for t limit
    by (rule list_all2_trans [OF _ cut_same elide_same]) (rule same_trans)
  then show ?thesis by (simp add: bounded_model_input_def Let_def list.rel_refl_strong)
qed

section \<open>The budget\<close>

lemma tool_bytes_Cons: "tool_bytes (item # items) = (if is_output item then json_size item else 0) + tool_bytes items"
  by (simp add: tool_bytes_def)

lemma elide_bound:
  "used = acc + tool_bytes items \<Longrightarrow> out = elide_oldest budget used items
   \<Longrightarrow> acc + tool_bytes out \<le> budget \<or> (\<forall>item \<in> set out. is_output item \<longrightarrow> elided item)"
proof (induction budget used items arbitrary: acc out rule: elide_oldest.induct)
  case (2 budget used item items)
  show ?case
  proof (cases "is_output item \<and> \<not> used \<le> budget")
    case True
    let ?new = "with_output item (ELIDED (output_bytes item))"
    let ?rest = "elide_oldest budget (used + (json_size ?new - json_size item)) items"
    have o: "out = ?new # ?rest" using True 2(4) by (simp add: Let_def)
    have "acc + json_size ?new + tool_bytes ?rest \<le> budget \<or> (\<forall>i \<in> set ?rest. is_output i \<longrightarrow> elided i)"
      using "2.IH"(2) [of ?new "acc + json_size ?new" ?rest] True 2(3) by (simp add: tool_bytes_Cons)
    moreover have "elided ?new" using True by (auto simp: elided_def)
    ultimately show ?thesis using True unfolding o by (auto simp: tool_bytes_Cons)
  next
    case False
    show ?thesis
    proof (cases "is_output item")
      case True
      then show ?thesis using False 2(3,4) by (simp add: tool_bytes_Cons)
    next
      case no: False
      then show ?thesis using "2.IH"(1) [of acc "elide_oldest budget used items"] 2(3,4) by (auto simp: tool_bytes_Cons)
    qed
  qed
qed simp

text \<open>The outputs of a request fit the budget, or there is nothing left to give up: after the filter their bytes
  are within the cap, or every single output has been replaced by the marker.\<close>

theorem outputs_fit_or_all_elided:
  assumes "0 < budget"
  shows "tool_bytes (bounded_model_input budget items) \<le> budget
    \<or> (\<forall>item \<in> set (bounded_model_input budget items). is_output item \<longrightarrow> elided item)"
  using elide_bound [of "tool_bytes (cut_oversized (max (budget div 4) 1024) items)" 0, OF _ refl, of _ budget] assms
  by (auto simp: bounded_model_input_def Let_def)

text \<open>The newest outputs survive: what is elided is a front part of the conversation.\<close>

definition elide_item :: "pyval \<Rightarrow> pyval" where
  "elide_item item = (if is_output item then with_output item (ELIDED (output_bytes item)) else item)"

lemma elide_front: "\<exists>k. elide_oldest budget used items = map elide_item (take k items) @ drop k items"
proof (induction budget used items rule: elide_oldest.induct)
  case (2 budget used item items)
  consider (no) "\<not> is_output item" | (stop) "is_output item" "used \<le> budget" | (go) "is_output item" "\<not> used \<le> budget"
    by blast
  then show ?case
  proof cases
    case no
    then obtain k where "elide_oldest budget used items = map elide_item (take k items) @ drop k items"
      using "2.IH"(1) by blast
    then show ?thesis using no by (intro exI [of _ "Suc k"]) (simp add: elide_item_def)
  next
    case stop
    then show ?thesis by (intro exI [of _ 0]) simp
  next
    case go
    have e: "elide_item item = with_output item (ELIDED (output_bytes item))" using go by (simp add: elide_item_def)
    obtain k where "elide_oldest budget (used + (json_size (elide_item item) - json_size item)) items
        = map elide_item (take k items) @ drop k items"
      using "2.IH"(2) go unfolding e by blast
    then show ?thesis using go by (intro exI [of _ "Suc k"]) (simp add: elide_item_def Let_def)
  qed
qed simp

definition ex_output :: "string \<Rightarrow> pyval" where
  "ex_output t = PDict [(''type'', PStr OUTPUT), (''output'', PStr t)]"

theorem outputs_fit_or_all_elided_witness:
  "tool_bytes (bounded_model_input 200 [ex_output (replicate 200 CHR ''x''), ex_output ''ok'']) \<le> 200
   \<and> (0 :: int) < 200"
proof -
  have "\<not> (\<forall>item \<in> set (bounded_model_input 200 [ex_output (replicate 200 CHR ''x''), ex_output ''ok'']).
      is_output item \<longrightarrow> output_of item \<noteq> PStr ''ok'')"
    by code_simp
  moreover have "ELIDED n \<noteq> ''ok''" for n by (simp add: ELIDED_def)
  ultimately show ?thesis
    using outputs_fit_or_all_elided [of 200 "[ex_output (replicate 200 CHR ''x''), ex_output ''ok'']"] by (auto simp: elided_def)
qed

text \<open>Elision can make a request larger: a short output is replaced by a longer marker, so three one-word outputs
  over a small budget are all lost and the request grows.\<close>

lemma elision_can_grow_the_request:
  "tool_bytes (bounded_model_input 100 (replicate 3 (ex_output ''ok''))) > tool_bytes (replicate 3 (ex_output ''ok''))"
  by code_simp

end
