(* ===== verification/Llm_Errors.thy ===== *)
theory Llm_Errors
  imports Py_Regex Json_Scan
begin

text \<open>
  Failures of a model call (\<open>shared/llm/errors.py\<close>): the text the classifiers read, the ordered
  classification, the retries of a call and of a skill, and the broker's diagnosis. An exception is what
  the code reads of it: its text, its classes, its status and number, the body and response a client left
  on it. \<open>json.loads\<close> is a parameter, and so are the outcomes of the attempts and the random numbers.
  Masking of secrets and the rendering of messages for a log are not modelled.

  The lemmas: the retries end within their budget with the outcome of the last attempt, a permanent
  signal is never retried, and what the size of a request can fix is not hidden by it.
\<close>

section \<open>Exceptions and their text\<close>

datatype llm_error_kind = RATE_LIMITED | AUTH_ERROR | CONTEXT_OVERFLOW | TIMEOUT | SERVER_ERROR | INVALID_RESPONSE
  | CONNECTION_ERROR | PROVIDER_BAD_REQUEST | UNKNOWN

record llm_exc =
  ex_text :: string
  ex_mro :: "string list"
  ex_status :: pyval
  ex_errno :: "int option"
  ex_body :: pyval
  ex_response :: "(pyval option \<times> string) option"

definition dict_or_none :: "pydict option \<Rightarrow> pyval" where
  "dict_or_none d = (case d of None \<Rightarrow> PNone | Some x \<Rightarrow> PDict x)"

definition envelope_candidates :: "(string \<Rightarrow> pyval option) \<Rightarrow> llm_exc \<Rightarrow> pyval list" where
  "envelope_candidates loads exc = filter (\<lambda>c. c \<noteq> PNone)
     ([ex_body exc]
      @ (case ex_response exc of None \<Rightarrow> []
         | Some (json, t) \<Rightarrow> (case json of None \<Rightarrow> [] | Some v \<Rightarrow> [v]) @ [dict_or_none (first_json_object loads t)])
      @ [dict_or_none (first_json_object loads (ex_text exc))])"

definition error_text :: "(string \<Rightarrow> pyval option) \<Rightarrow> llm_exc \<Rightarrow> string" where
  "error_text loads exc = join '' - '' (ex_text exc # map py_repr (filter (\<lambda>c. as_dict c \<noteq> None) (envelope_candidates loads exc)))"

section \<open>Classification\<close>

definition dot :: re where "dot = Cls (\<lambda>c. c \<noteq> NL)"

text \<open>A text of a pattern under \<open>IGNORECASE\<close> in which each full stop is any character.\<close>

definition dotted :: "string \<Rightarrow> re" where
  "dotted s = foldr (\<lambda>c r. Cat (if c = CHR ''.'' then dot else Cls (\<lambda>x. lower_char x = c)) r) s Eps"

definition matches :: "re \<Rightarrow> string \<Rightarrow> bool" where "matches r s = (re_search r s \<noteq> None)"

definition OVERFLOW_CODE_RE :: re where
  "OVERFLOW_CODE_RE = alts (map ilit [''provider_context_overflow'', ''request_too_large'', ''context_length_exceeded'',
     ''payload_too_large'', ''string_above_max_length''])"

definition quote_opt :: re where "quote_opt = opt_re (Cls (\<lambda>c. c = CHR 0x22 \<or> c = CHR 0x27))"

definition BROKER_PERMANENT_RE :: re where
  "BROKER_PERMANENT_RE = alts [cats [quote_opt, ilit ''x_retriable'', quote_opt, ws_re, lit '':'', ws_re, ilit ''false''],
     ilit ''provider_bad_request'', ilit ''provider_auth_error'', ilit ''model_not_found'']"

definition RATE_LIMIT_RE :: re where
  "RATE_LIMIT_RE = alts [cats [ilit ''rate'', opt_re dot, ilit ''limit''], lit ''429'', ilit ''too many requests'', ilit ''quota'',
     dotted ''resource.exhausted'', ilit ''throttl'']"

definition AUTH_RE :: re where
  "AUTH_RE = alts [lit ''401'', lit ''403'', ilit ''unauthorized'', ilit ''forbidden'',
     cats [ilit ''invalid'', opt_re dot, ilit ''api'', opt_re dot, ilit ''key''], cats [ilit ''invalid'', opt_re dot, ilit ''token''],
     dotted ''authentication.failed'', dotted ''access.denied'', dotted ''no.credentials'']"

definition CTX_OVERFLOW_RE :: re where
  "CTX_OVERFLOW_RE = alts [dotted ''context.length.exceeded'',
     Cat (dotted ''maximum.context.'') (alts (map ilit [''length'', ''window''])),
     cats [ilit ''max'', opt_re (ilit ''imum''), dot, alts (map ilit [''tokens'', ''length'']), dot, ilit ''exceeded''],
     cats [dotted ''context.'', alts (map ilit [''window'', ''limit'', ''size'', ''length'']), dot, alts (map ilit [''exceeded'', ''overflow''])],
     cats [ilit ''exceed'', opt_re (ilit ''s''), dot, opt_re (dotted ''the.''), opt_re (alts [dotted ''available.'', dotted ''maximum.'']),
       alts (map ilit [''context'', ''token'']), dot, alts (map ilit [''length'', ''window'', ''size'', ''limit''])],
     cats [alts (map ilit [''greater'', ''longer'', ''larger'']), dotted ''.than.the.'', opt_re (dotted ''maximum.''), dotted ''context.'',
       alts (map ilit [''length'', ''window'', ''size''])],
     Cat (dotted ''token.limit.'') (alts (map ilit [''exceeded'', ''reached''])),
     cats [ilit ''n_keep'', Star dot, ilit ''n_ctx''], cats [ilit ''prompt'', Rep 10 dot, dotted ''too.long''], dotted ''too.large.for.model'',
     cats [dotted ''input.token.count'', Star dot, ilit ''exceeds''], dotted ''exceeds.the.maximum.number.of.tokens'',
     dotted ''request.payload.size.exceeds'', dotted ''payload.too.large'', ilit ''request_too_large'', dotted ''request.body.too.large'',
     ilit ''provider_context_overflow'']"

definition TIMEOUT_RE :: re where
  "TIMEOUT_RE = alts [ilit ''timeout'', dotted ''timed.out'', dotted ''deadline.exceeded'', ilit ''etimedout'', ilit ''econnreset'']"

definition SERVER_RE :: re where
  "SERVER_RE = alts [lit ''500'', lit ''502'', lit ''503'', lit ''504'', lit ''529'', dotted ''internal.server.error'',
     dotted ''bad.gateway'', ilit ''overloaded'']"

definition CONN_RE :: re where
  "CONN_RE = alts (map ilit [''connect'', ''dns'', ''resolve'', ''refused'', ''unreachable'', ''econnrefused''])"

definition CLASSIFIERS :: "(re \<times> llm_error_kind) list" where
  "CLASSIFIERS = [(OVERFLOW_CODE_RE, CONTEXT_OVERFLOW), (BROKER_PERMANENT_RE, PROVIDER_BAD_REQUEST), (RATE_LIMIT_RE, RATE_LIMITED),
     (AUTH_RE, AUTH_ERROR), (CTX_OVERFLOW_RE, CONTEXT_OVERFLOW), (TIMEOUT_RE, TIMEOUT), (SERVER_RE, SERVER_ERROR),
     (CONN_RE, CONNECTION_ERROR)]"

definition classify_text :: "string \<Rightarrow> llm_error_kind" where
  "classify_text msg = (case first_such (\<lambda>(pattern, kind). matches pattern msg) CLASSIFIERS of
     None \<Rightarrow> UNKNOWN | Some (pattern, kind) \<Rightarrow> kind)"

definition classify_llm_error :: "(string \<Rightarrow> pyval option) \<Rightarrow> llm_exc \<Rightarrow> llm_error_kind" where
  "classify_llm_error loads exc = classify_text (error_text loads exc)"

definition RETRYABLE_KINDS :: "llm_error_kind list" where
  "RETRYABLE_KINDS = [RATE_LIMITED, TIMEOUT, SERVER_ERROR, CONNECTION_ERROR]"

section \<open>Retries\<close>

text \<open>What the attempts of a call produce, and the random number drawn after each: the outcome with the
  delays that were slept. With no attempt at all the code raises \<open>None\<close>, which is a \<open>TypeError\<close>.\<close>

datatype 'a attempted = Done 'a | Gave_up llm_exc | Never_tried

record backoff =
  bo_base :: rat
  bo_cap :: "rat option"
  bo_jitter :: rat
  bo_floor :: rat

definition backoff_delay :: "backoff \<Rightarrow> nat \<Rightarrow> rat \<Rightarrow> rat" where
  "backoff_delay b attempt random =
     (let grown = fl64 (bo_base b * 2 ^ attempt);
          delay = (case bo_cap b of None \<Rightarrow> grown | Some m \<Rightarrow> if m < grown then m else grown);
          offset = fl64 (fl64 (fl64 (random * 2) - 1) * bo_jitter b);
          jittered = fl64 (delay * fl64 (1 + offset))
      in if bo_floor b < jittered then jittered else bo_floor b)"

fun retry_from ::
  "(llm_exc \<Rightarrow> bool) \<Rightarrow> backoff \<Rightarrow> (nat \<Rightarrow> llm_exc + 'a) \<Rightarrow> (nat \<Rightarrow> rat) \<Rightarrow> nat \<Rightarrow> nat \<Rightarrow> 'a attempted \<times> rat list" where
  "retry_from retryable b call random attempt 0 = (Never_tried, [])"
| "retry_from retryable b call random attempt (Suc left) = (case call attempt of
     Inr x \<Rightarrow> (Done x, [])
   | Inl exc \<Rightarrow> (if \<not> retryable exc \<or> left = 0 then (Gave_up exc, [])
       else case retry_from retryable b call random (Suc attempt) left of
         (out, delays) \<Rightarrow> (out, backoff_delay b attempt (random attempt) # delays)))"

definition retry_llm_call ::
  "(string \<Rightarrow> pyval option) \<Rightarrow> nat \<Rightarrow> rat \<Rightarrow> rat \<Rightarrow> rat \<Rightarrow> (nat \<Rightarrow> llm_exc + 'a) \<Rightarrow> (nat \<Rightarrow> rat) \<Rightarrow> 'a attempted \<times> rat list" where
  "retry_llm_call loads max_attempts base_delay max_delay jitter call random =
     retry_from (\<lambda>exc. classify_llm_error loads exc \<in> set RETRYABLE_KINDS)
       \<lparr>bo_base = base_delay, bo_cap = Some max_delay, bo_jitter = jitter, bo_floor = fl64 (1 / 10)\<rparr> call random 0 max_attempts"

definition TRANSIENT_ERRNOS :: "int list" where "TRANSIENT_ERRNOS = [11, 16, 37]"

definition is_transient_skill_error :: "llm_exc \<Rightarrow> bool" where
  "is_transient_skill_error exc =
     (if ''PermissionError'' \<in> set (ex_mro exc) \<or> ''TimeoutError'' \<in> set (ex_mro exc) then True
      else ''OSError'' \<in> set (ex_mro exc) \<and> (case ex_errno exc of None \<Rightarrow> False | Some n \<Rightarrow> n \<in> set TRANSIENT_ERRNOS))"

definition retry_skill :: "nat \<Rightarrow> rat \<Rightarrow> rat \<Rightarrow> (nat \<Rightarrow> llm_exc + 'a) \<Rightarrow> (nat \<Rightarrow> rat) \<Rightarrow> 'a attempted \<times> rat list" where
  "retry_skill max_attempts base_delay jitter call random =
     retry_from is_transient_skill_error
       \<lparr>bo_base = base_delay, bo_cap = None, bo_jitter = jitter, bo_floor = fl64 (5 / 100)\<rparr> call random 0 max_attempts"

section \<open>The broker's diagnosis\<close>

definition unwrap_envelope :: "pyval \<Rightarrow> pydict option" where
  "unwrap_envelope raw = (case as_dict raw of
     None \<Rightarrow> None
   | Some d \<Rightarrow> (case as_dict (get d ''error'') of Some inner \<Rightarrow> Some inner | None \<Rightarrow> Some d))"

definition is_broker_envelope :: "pydict \<Rightarrow> bool" where
  "is_broker_envelope err = ((case get err ''x_retriable'' of PBool _ \<Rightarrow> True | _ \<Rightarrow> False) \<or> as_dict (get err ''upstream'') \<noteq> None)"

definition upstream_clause :: "pyval \<Rightarrow> string" where
  "upstream_clause up = (case as_dict up of
     None \<Rightarrow> []
   | Some d \<Rightarrow> (let upmsg = strip (text_field d ''message'') in
       if upmsg = [] then []
       else let provider = strip (py_str (py_or (get d ''provider'') (PStr ''provider'')));
                where_txt = (if truthy (get d ''status'') then provider @ '' '' @ py_str (get d ''status'') else provider)
         in '' | '' @ where_txt @ '' said: '' @ upmsg))"

definition NOT_RETRIABLE :: string where
  "NOT_RETRIABLE = '' (not retriable '' @ [CHR 0xE2, CHR 0x80, CHR 0x94] @ '' retrying cannot help)''"

definition render_envelope :: "pydict \<Rightarrow> string" where
  "render_envelope err = (let code = strip (py_str (py_or (get err ''code'') (py_or (get err ''type'') (PStr []))));
       message = strip (text_field err ''message'')
     in if code = [] then []
        else ''broker says '' @ code @ (if message = [] then [] else '': '' @ message)
          @ upstream_clause (get err ''upstream'') @ (if get err ''x_retriable'' = PBool False then NOT_RETRIABLE else []))"

definition envelope_detail :: "pyval \<Rightarrow> string" where
  "envelope_detail raw = (case unwrap_envelope raw of
     None \<Rightarrow> [] | Some err \<Rightarrow> if is_broker_envelope err then render_envelope err else [])"

definition broker_detail :: "(string \<Rightarrow> pyval option) \<Rightarrow> llm_exc \<Rightarrow> string" where
  "broker_detail loads exc = (case filter (\<lambda>t. t \<noteq> []) (map envelope_detail (envelope_candidates loads exc)) of
     [] \<Rightarrow> [] | t # _ \<Rightarrow> t)"

section \<open>Retries end\<close>

lemma retry_from_ends:
  "retry_from retryable b call random a (Suc left) = (out, delays) \<Longrightarrow>
   length delays \<le> left \<and> (\<forall>i < length delays. \<exists>e. call (a + i) = Inl e \<and> retryable e)
   \<and> (case out of Done x \<Rightarrow> call (a + length delays) = Inr x
      | Gave_up e \<Rightarrow> call (a + length delays) = Inl e \<and> (retryable e \<longrightarrow> length delays = left)
      | Never_tried \<Rightarrow> False)"
proof (induction left arbitrary: a out delays)
  case 0
  then show ?case by (auto split: sum.splits)
next
  case (Suc n)
  show ?case
  proof (cases "call a")
    case (Inr x)
    then show ?thesis using Suc.prems by auto
  next
    case (Inl e)
    show ?thesis
    proof (cases "retryable e")
      case True
      obtain out' ds where r: "retry_from retryable b call random (Suc a) (Suc n) = (out', ds)" by fastforce
      note ih = Suc.IH [OF r]
      have o: "out = out'" "delays = backoff_delay b a (random a) # ds"
        using Suc.prems Inl True r by (simp_all del: retry_from.simps add: retry_from.simps(2) [of _ _ _ _ _ "Suc n"])
      have "\<exists>e. call (a + i) = Inl e \<and> retryable e" if "i < length delays" for i
        using that ih Inl True o(2) by (cases i) auto
      then show ?thesis using ih o by (auto split: attempted.splits)
    next
      case False
      then show ?thesis using Suc.prems Inl by auto
    qed
  qed
qed

text \<open>C38. Retrying ends within its budget: a call is attempted at most the given number of times, each attempt before
  the last one failed with an error worth retrying, and the outcome is that of the last attempt: an answer,
  an error that is not retried, or the budget spent.\<close>

theorem retries_end_within_budget:
  assumes "0 < max_attempts"
    and "retry_llm_call loads max_attempts base_delay max_delay jitter call random = (out, delays)"
  shows "length delays < max_attempts
    \<and> (\<forall>i < length delays. \<exists>e. call i = Inl e \<and> classify_llm_error loads e \<in> set RETRYABLE_KINDS)
    \<and> (case out of Done x \<Rightarrow> call (length delays) = Inr x
       | Gave_up e \<Rightarrow> call (length delays) = Inl e
           \<and> (classify_llm_error loads e \<in> set RETRYABLE_KINDS \<longrightarrow> Suc (length delays) = max_attempts)
       | Never_tried \<Rightarrow> False)"
proof -
  obtain n where n: "max_attempts = Suc n" using assms(1) gr0_conv_Suc by blast
  show ?thesis using retry_from_ends [OF assms(2) [unfolded retry_llm_call_def n]]
    by (auto simp: n split: attempted.splits)
qed

definition ex_exc :: "string \<Rightarrow> llm_exc" where
  "ex_exc t = \<lparr>ex_text = t, ex_mro = [''Exception''], ex_status = PNone, ex_errno = None, ex_body = PNone, ex_response = None\<rparr>"

theorem retries_end_within_budget_witness:
  "\<exists>d. retry_llm_call (\<lambda>_. None) 3 1 30 (1/2) (\<lambda>i. if i = 1 then Inr ''ok'' else Inl (ex_exc ''timeout'')) (\<lambda>_. 1/2) = (Done ''ok'', [d]) \<and> (0 :: nat) < 3"
proof -
  let ?call = "\<lambda>i. if i = 1 then Inr ''ok'' else Inl (ex_exc ''timeout'')"
  obtain out ds where r: "retry_llm_call (\<lambda>_. None) 3 1 30 (1/2) ?call (\<lambda>_. 1/2) = (out, ds)" by fastforce
  have "classify_llm_error (\<lambda>_. None) (ex_exc ''timeout'') = TIMEOUT" by code_simp
  then have k: "classify_llm_error (\<lambda>_. None) (ex_exc ''timeout'') \<in> set RETRYABLE_KINDS" by (simp add: RETRYABLE_KINDS_def)
  note p = retries_end_within_budget [OF _ r]
  have "length ds = 1"
  proof (cases "length ds")
    case 0
    then show ?thesis using p k by (auto split: attempted.splits)
  next
    case (Suc m)
    then show ?thesis using p by (auto split: attempted.splits if_splits dest: spec [of _ "1 :: nat"])
  qed
  then show ?thesis using p r k by (auto simp: length_Suc_conv split: attempted.splits)
qed

section \<open>Permanent faults\<close>

lemma classify_overflow: "matches OVERFLOW_CODE_RE msg \<Longrightarrow> classify_text msg = CONTEXT_OVERFLOW"
  by (simp add: classify_text_def CLASSIFIERS_def first_such_def)

lemma classify_permanent:
  "\<not> matches OVERFLOW_CODE_RE msg \<Longrightarrow> matches BROKER_PERMANENT_RE msg \<Longrightarrow> classify_text msg = PROVIDER_BAD_REQUEST"
  by (simp add: classify_text_def CLASSIFIERS_def first_such_def)

text \<open>What the broker calls permanent is never sent again: a failure whose text carries a permanent signal or an
  overflow code ends the retries at its attempt, whatever status digits its message also holds.\<close>

theorem permanent_fault_is_not_retried:
  assumes "matches OVERFLOW_CODE_RE (error_text loads e) \<or> matches BROKER_PERMANENT_RE (error_text loads e)"
    and "call 0 = Inl e" and "0 < max_attempts"
  shows "retry_llm_call loads max_attempts base_delay max_delay jitter call random = (Gave_up e, [])"
proof -
  have "classify_llm_error loads e \<notin> set RETRYABLE_KINDS"
    using assms(1) classify_overflow classify_permanent [of "error_text loads e"]
    by (cases "matches OVERFLOW_CODE_RE (error_text loads e)") (auto simp: classify_llm_error_def RETRYABLE_KINDS_def)
  then show ?thesis using assms(2,3) by (cases max_attempts) (simp_all add: retry_llm_call_def)
qed

text \<open>Digits in a message are read as a status: a message that only mentions a length of 15000 characters is a server
  error, and is retried.\<close>

lemma digits_are_read_as_a_status: "classify_text ''max 15000 characters'' = SERVER_ERROR"
  by code_simp

text \<open>With no attempts there is nothing to raise.\<close>

lemma no_attempts: "retry_llm_call loads 0 b m j call random = (Never_tried, [])"
  by (simp add: retry_llm_call_def)

end
