(* ===== verification/Prompt_Slots.thy ===== *)
theory Prompt_Slots
  imports Py_Regex
begin

text \<open>
  The delimiters around untrusted text in a prompt (\<open>shared/prompt/slots.py\<close>): the channels, the pattern
  of a marker, the scrub that breaks markers in the text, and the wrapping. The random nonce is an
  argument.

  The lemmas: a text without markers is passed unchanged, a closing marker standing alone is broken, and
  the scrub is not idempotent: an opening marker glued to a closing one leaves the closing one alive.
\<close>

definition KINDS :: "string list" where "KINDS = [''SOURCE'', ''CODE'', ''DESC'', ''RESP'', ''PRIOR'', ''TOOL'']"

definition is_hex :: "char \<Rightarrow> bool" where
  "is_hex c = (is_digit c \<or> c \<in> set ''abcdefABCDEF'')"

definition ANGLES_OPEN :: string where "ANGLES_OPEN = ''<<<''"
definition ANGLES_CLOSE :: string where "ANGLES_CLOSE = ''>>>''"

definition MARKER_RE :: re where
  "MARKER_RE = (let kinds = alts (map lit KINDS); token = opt_re (Cat (lit '':'') (plus_re (Cls is_hex))) in
     Alt (cats [lit ANGLES_OPEN, kinds, token]) (cats [kinds, token, lit ANGLES_CLOSE]))"

record slot =
  sl_kind :: string
  sl_content :: string

definition slot_source :: "string \<Rightarrow> slot" where "slot_source t = \<lparr>sl_kind = ''SOURCE'', sl_content = t\<rparr>"
definition slot_code_window :: "string \<Rightarrow> slot" where "slot_code_window t = \<lparr>sl_kind = ''CODE'', sl_content = t\<rparr>"
definition slot_description :: "string \<Rightarrow> slot" where "slot_description t = \<lparr>sl_kind = ''DESC'', sl_content = t\<rparr>"
definition slot_http_response :: "string \<Rightarrow> slot" where "slot_http_response t = \<lparr>sl_kind = ''RESP'', sl_content = t\<rparr>"
definition slot_prior_findings :: "string \<Rightarrow> slot" where "slot_prior_findings t = \<lparr>sl_kind = ''PRIOR'', sl_content = t\<rparr>"
definition slot_tool_result :: "string \<Rightarrow> slot" where "slot_tool_result t = \<lparr>sl_kind = ''TOOL'', sl_content = t\<rparr>"

definition match_text :: "re_match \<Rightarrow> string" where
  "match_text m = (case group m 0 of None \<Rightarrow> [] | Some t \<Rightarrow> t)"

definition forged_markers :: "string \<Rightarrow> string list" where
  "forged_markers content = map match_text (finditer MARKER_RE content)"

definition defang :: "string \<Rightarrow> string" where
  "defang tok = (if starts_with tok ANGLES_OPEN then ''<< <'' @ drop 3 tok else take (length tok - 3) tok @ ''> >>'')"

text \<open>\<open>sub\<close> with a function of the matched text; a marker is never empty.\<close>

fun scrub_from :: "nat \<Rightarrow> string \<Rightarrow> string \<Rightarrow> string" where
  "scrub_from 0 b s = s"
| "scrub_from (Suc n) b s = (case search_from MARKER_RE b s of None \<Rightarrow> s
     | Some (m, b', s') \<Rightarrow> take (m_start m - length b) s @ defang (match_text m) @ scrub_from n b' s')"

definition scrub :: "string \<Rightarrow> string" where "scrub content = scrub_from (Suc (length content)) [] content"

definition wrap_slot :: "slot \<Rightarrow> string \<Rightarrow> string" where
  "wrap_slot slot nonce = ANGLES_OPEN @ sl_kind slot @ '':'' @ nonce @ [NL] @ scrub (sl_content slot) @ [NL]
     @ sl_kind slot @ '':'' @ nonce @ ANGLES_CLOSE"

lemma scrub_unmarked: "forged_markers content = [] \<Longrightarrow> scrub content = content"
  by (auto simp: forged_markers_def finditer_def scrub_def split: option.splits)

text \<open>Ordinary source text goes through untouched: a text in which the linter finds no marker stands in the block
  exactly as it was written, between the two markers of the request.\<close>

theorem unmarked_text_is_wrapped_verbatim:
  assumes "forged_markers (sl_content slot) = []"
  shows "wrap_slot slot nonce = ANGLES_OPEN @ sl_kind slot @ '':'' @ nonce @ [NL] @ sl_content slot @ [NL]
     @ sl_kind slot @ '':'' @ nonce @ ANGLES_CLOSE"
  by (simp add: wrap_slot_def scrub_unmarked [OF assms])

lemma markers_are_broken:
  "scrub ''a CODE>>> b'' = ''a CODE> >> b''" "scrub ''x <<<TOOL:0a y'' = ''x << <TOOL:0a y''"
  "scrub ''>>> import sys'' = ''>>> import sys''"
  by code_simp+

text \<open>The scrub is not idempotent: an opening marker is matched without the angles behind it, so a token with
  angles on both sides keeps its closing marker, the nonce of the request included; a second pass breaks it.\<close>

lemma glued_marker_keeps_its_closer:
  "scrub ''<<<CODE:0a1b>>>'' = ''<< <CODE:0a1b>>>'' \<and> forged_markers (scrub ''<<<CODE:0a1b>>>'') = [''CODE:0a1b>>>'']
   \<and> scrub (scrub ''<<<CODE:0a1b>>>'') \<noteq> scrub ''<<<CODE:0a1b>>>''"
  by code_simp

end
