(* ===== verification/Judge_Calls.thy ===== *)
theory Judge_Calls
  imports Judge L5_Cache Request_Cap Llm_Errors Prompt_Slots
begin

text \<open>
  The calls of the judge (\<open>shared/validate/llm_judge.py\<close>): one batch from the cache lookup to its table of
  verdicts, through the bounded tool loop, the two response modes at two token budgets, the strict
  retry, and the stop on a transport failure. The provider is a function of all requests sent so far;
  the cancel token, the pool flag and the cache are functions of how often they were asked; the
  rendered prompts and the tools are fields of \<open>judge_world\<close>. An operation returns its outcome and the
  state: the log of requests, the tool calls that ran, and the cache.
\<close>

section \<open>The world and the state\<close>

record tool_call =
  tc_id :: string
  tc_name :: string
  tc_arguments :: string

datatype chat_turn = System string | User string | Assistant "string option" "tool_call list" | Tool_result string string

record llm_request =
  rq_turns :: "chat_turn list"
  rq_tools :: bool
  rq_json :: bool
  rq_budget :: int

text \<open>A reply: an exception, no choices, or a message with its text, tool calls and whether it was cut off.\<close>

datatype llm_reply = Call_failed llm_exc | No_choices | Replied "string option" "tool_call list" bool

type_synonym entry = "nat \<times> pydict \<times> string"

record judge_world =
  jw_loads :: "string \<Rightarrow> pyval option"
  jw_client :: bool
  jw_provider :: "llm_request list \<Rightarrow> llm_reply"
  jw_execute :: "string \<Rightarrow> string \<Rightarrow> string"
  jw_cancelled :: "nat \<Rightarrow> bool"
  jw_active :: "nat \<Rightarrow> bool"
  jw_access :: "nat \<Rightarrow> access"
  jw_sha :: "string \<Rightarrow> string"
  jw_file_sig :: "pyval \<Rightarrow> string result"
  jw_render :: "bool \<Rightarrow> entry list \<Rightarrow> string"
  jw_system :: "bool \<Rightarrow> nat \<Rightarrow> string"
  jw_nonce :: string
  jw_model :: string
  jw_max_bytes :: int
  jw_max_tokens :: int
  jw_max_calls :: nat

record judge_calls =
  jc_requests :: "llm_request list"
  jc_tools :: "(string \<times> string) list"
  jc_cancel_polls :: nat
  jc_active_polls :: nat
  jc_accesses :: nat
  jc_cache :: l5_cache

text \<open>An outcome: a value, the kind of a transport failure, or an exception of the code itself.\<close>

datatype 'a outcome = Got 'a | Broke llm_error_kind | Crashed py_error

definition poll_cancel :: "judge_world \<Rightarrow> judge_calls \<Rightarrow> bool \<times> judge_calls" where
  "poll_cancel w st = (jw_cancelled w (jc_cancel_polls st), st\<lparr>jc_cancel_polls := Suc (jc_cancel_polls st)\<rparr>)"

definition poll_active :: "judge_world \<Rightarrow> judge_calls \<Rightarrow> bool \<times> judge_calls" where
  "poll_active w st = (jw_active w (jc_active_polls st), st\<lparr>jc_active_polls := Suc (jc_active_polls st)\<rparr>)"

definition send :: "judge_world \<Rightarrow> llm_request \<Rightarrow> judge_calls \<Rightarrow> llm_reply \<times> judge_calls" where
  "send w rq st = (let rqs = jc_requests st @ [rq] in (jw_provider w rqs, st\<lparr>jc_requests := rqs\<rparr>))"

section \<open>Transport failures\<close>

definition CONN_RESET_RE :: re where
  "CONN_RESET_RE = alts (map ilit [''econnreset'', ''connection reset'', ''reset by peer''])"

definition status_rules_out_transport :: "pyval \<Rightarrow> bool" where
  "status_rules_out_transport status = (case status of
     PInt n \<Rightarrow> n = 408 \<or> n = 504 \<or> (400 \<le> n \<and> n < 500 \<and> n \<noteq> 429) | _ \<Rightarrow> False)"

definition is_transport_failure :: "judge_world \<Rightarrow> llm_exc \<Rightarrow> bool" where
  "is_transport_failure w exc =
     (if status_rules_out_transport (ex_status exc) then False
      else let kind = classify_llm_error (jw_loads w) exc in
        if kind = TIMEOUT then matches CONN_RESET_RE (ex_text exc)
        else kind \<in> {RATE_LIMITED, CONNECTION_ERROR, SERVER_ERROR})"

section \<open>Request bodies\<close>

definition SIZE_ERROR_RE :: re where
  "SIZE_ERROR_RE = alts [cats [ilit ''request'', Cls (\<lambda>c. c = CHR ''_'' \<or> c = CHR '' ''), ilit ''too'',
       Cls (\<lambda>c. c = CHR ''_'' \<or> c = CHR '' ''), ilit ''large''], ilit ''request body too large'',
     cats [Wb, lit ''413'', Wb], cats [ilit ''context'', Cls (\<lambda>c. c = CHR ''_'' \<or> c = CHR '' ''), ilit ''length'']]"

definition is_size_error :: "judge_world \<Rightarrow> llm_exc \<Rightarrow> bool" where
  "is_size_error w exc = matches SIZE_ERROR_RE (error_text (jw_loads w) exc)"

definition max_request_bytes :: "env \<Rightarrow> int result" where
  "max_request_bytes env = bind_result (env_digits env ''VULTURE_VALIDATE_LLM_MAX_BODY_BYTES'')
     (or_config 131072 (\<lambda>n. Ret (if 0 < n then n else 131072)))"

definition clamp_request_body :: "int \<Rightarrow> string \<Rightarrow> string" where
  "clamp_request_body limit body = (if int (length (utf8 body)) \<le> limit then body else fitting (nat limit) body)"

definition judge_turns :: "string \<Rightarrow> string \<Rightarrow> chat_turn list" where
  "judge_turns system_prompt user_msg = (if system_prompt = [] then [] else [System system_prompt]) @ [User user_msg]"

section \<open>The plain call\<close>

definition MAX_RESPONSE_BYTES :: int where "MAX_RESPONSE_BYTES = 65536"
definition LENGTH_RETRY_FACTOR :: int where "LENGTH_RETRY_FACTOR = 2"

definition reply_text :: "llm_reply \<Rightarrow> string" where
  "reply_text r = (case r of
     Replied content _ cut_off \<Rightarrow> if cut_off then [] else
       (let t = (case content of None \<Rightarrow> [] | Some t \<Rightarrow> t) in
        if MAX_RESPONSE_BYTES < int (length (utf8 t)) then fitting (nat MAX_RESPONSE_BYTES) t else t)
   | _ \<Rightarrow> [])"

definition do_call :: "judge_world \<Rightarrow> chat_turn list \<Rightarrow> bool \<Rightarrow> int \<Rightarrow> judge_calls \<Rightarrow> (llm_exc + string) \<times> judge_calls" where
  "do_call w turns json budget st =
     (case send w \<lparr>rq_turns = turns, rq_tools = False, rq_json = json, rq_budget = budget\<rparr> st of
        (Call_failed e, st1) \<Rightarrow> (Inl e, st1)
      | (r, st1) \<Rightarrow> (Inr (reply_text r), st1))"

definition escalate :: "judge_world \<Rightarrow> llm_exc \<Rightarrow> 'a \<Rightarrow> 'a outcome" where
  "escalate w e x = (if is_transport_failure w e then Broke (classify_llm_error (jw_loads w) e) else Got x)"

definition plain_mode :: "judge_world \<Rightarrow> chat_turn list \<Rightarrow> int \<Rightarrow> judge_calls \<Rightarrow> string outcome \<times> judge_calls" where
  "plain_mode w turns budget st = (case do_call w turns False budget st of
     (Inr t, st1) \<Rightarrow> (Got t, st1)
   | (Inl e, st1) \<Rightarrow> (escalate w e [], st1))"

definition try_both_modes :: "judge_world \<Rightarrow> chat_turn list \<Rightarrow> int \<Rightarrow> judge_calls \<Rightarrow> string outcome \<times> judge_calls" where
  "try_both_modes w turns budget st = (case do_call w turns True budget st of
     (Inr t, st1) \<Rightarrow> (if t \<noteq> [] then (Got t, st1) else plain_mode w turns budget st1)
   | (Inl e, st1) \<Rightarrow> (case escalate w e [] of Got t \<Rightarrow> plain_mode w turns budget st1 | broken \<Rightarrow> (broken, st1)))"

definition call_llm :: "judge_world \<Rightarrow> string \<Rightarrow> string \<Rightarrow> judge_calls \<Rightarrow> string outcome \<times> judge_calls" where
  "call_llm w system_prompt user_msg st =
     (if \<not> jw_client w then (Got [], st)
      else let turns = judge_turns system_prompt (clamp_request_body (jw_max_bytes w) user_msg) in
        case try_both_modes w turns (jw_max_tokens w) st of
          (Got t, st1) \<Rightarrow> (if t \<noteq> [] then (Got t, st1) else try_both_modes w turns (jw_max_tokens w * LENGTH_RETRY_FACTOR) st1)
        | other \<Rightarrow> other)"

definition STRICT_NUDGE :: string where
  "STRICT_NUDGE = [NL, NL] @ ''IMPORTANT: your previous response was not valid JSON. ''
     @ ''Reply with ONLY the JSON object specified, no prose.''"

definition parse_text :: "judge_world \<Rightarrow> string \<Rightarrow> nat \<Rightarrow> verdict list option outcome" where
  "parse_text w raw batch_size = (if raw = [] then Got None
     else case parse_response (jw_loads w) raw batch_size of Inl e \<Rightarrow> Crashed e | Inr p \<Rightarrow> Got p)"

definition parsed_call ::
  "judge_world \<Rightarrow> string \<Rightarrow> string \<Rightarrow> nat \<Rightarrow> judge_calls \<Rightarrow> verdict list option outcome \<times> judge_calls" where
  "parsed_call w system_prompt user_msg batch_size st = (case call_llm w system_prompt user_msg st of
     (Got raw, st1) \<Rightarrow> (parse_text w raw batch_size, st1)
   | (Broke k, st1) \<Rightarrow> (Broke k, st1)
   | (Crashed e, st1) \<Rightarrow> (Crashed e, st1))"

definition strict_retry ::
  "judge_world \<Rightarrow> string \<Rightarrow> string \<Rightarrow> nat \<Rightarrow> judge_calls \<Rightarrow> verdict list outcome \<times> judge_calls" where
  "strict_retry w system_prompt user_msg batch_size st =
     (case poll_cancel w st of (gone, st1) \<Rightarrow> if gone then (Got [], st1)
      else case poll_active w st1 of (alive, st2) \<Rightarrow> if \<not> alive then (Got [], st2)
      else case parsed_call w system_prompt (user_msg @ STRICT_NUDGE) batch_size st2 of
        (Got p, st3) \<Rightarrow> (Got (case p of None \<Rightarrow> [] | Some vs \<Rightarrow> vs), st3)
      | (Broke k, st3) \<Rightarrow> (Broke k, st3)
      | (Crashed e, st3) \<Rightarrow> (Crashed e, st3))"

definition call_with_strict_retry ::
  "judge_world \<Rightarrow> string \<Rightarrow> string \<Rightarrow> nat \<Rightarrow> judge_calls \<Rightarrow> verdict list outcome \<times> judge_calls" where
  "call_with_strict_retry w system_prompt user_msg batch_size st =
     (case poll_active w st of (alive, st1) \<Rightarrow> if \<not> alive then (Got [], st1)
      else case parsed_call w system_prompt user_msg batch_size st1 of
        (Got (Some vs), st2) \<Rightarrow> (Got vs, st2)
      | (Got None, st2) \<Rightarrow> strict_retry w system_prompt user_msg batch_size st2
      | (Broke k, st2) \<Rightarrow> (Broke k, st2)
      | (Crashed e, st2) \<Rightarrow> (Crashed e, st2))"

section \<open>The tool loop\<close>

definition BUDGET_EXHAUSTED :: string where
  "BUDGET_EXHAUSTED = ''TOOL BUDGET EXHAUSTED: no further tool calls are available. Do not guess from the partial view.''"

fun run_tool_calls ::
  "judge_world \<Rightarrow> tool_call list \<Rightarrow> nat \<Rightarrow> judge_calls \<Rightarrow> chat_turn list \<times> bool \<times> nat \<times> judge_calls" where
  "run_tool_calls w [] used st = ([], False, used, st)"
| "run_tool_calls w (tc # tcs) used st =
     (if jw_max_calls w \<le> used
      then case run_tool_calls w tcs used st of (turns, _, used', st') \<Rightarrow>
        (Tool_result (tc_id tc) BUDGET_EXHAUSTED # turns, True, used', st')
      else case run_tool_calls w tcs (Suc used) (st\<lparr>jc_tools := jc_tools st @ [(tc_name tc, tc_arguments tc)]\<rparr>) of
        (turns, exhausted, used', st') \<Rightarrow>
        (Tool_result (tc_id tc) (wrap_slot (slot_tool_result (jw_execute w (tc_name tc) (tc_arguments tc))) (jw_nonce w)) # turns,
         exhausted, used', st'))"

text \<open>The loop is over: with what was parsed, with the budget exhausted, or with a failure of the tool path.\<close>

datatype tool_outcome = Settled "verdict list option" | Exhausted | Fallback | Broke_off llm_error_kind

definition parse_tool_answer :: "judge_world \<Rightarrow> string option \<Rightarrow> nat \<Rightarrow> tool_outcome" where
  "parse_tool_answer w content batch_size =
     (case parse_response (jw_loads w) (case content of None \<Rightarrow> [] | Some t \<Rightarrow> t) batch_size of
        Inl e \<Rightarrow> Fallback | Inr p \<Rightarrow> Settled p)"

fun tool_turns :: "judge_world \<Rightarrow> nat \<Rightarrow> nat \<Rightarrow> chat_turn list \<Rightarrow> nat \<Rightarrow> judge_calls \<Rightarrow> tool_outcome \<times> judge_calls" where
  "tool_turns w batch_size 0 turns used st = (Exhausted, st)"
| "tool_turns w batch_size (Suc left) turns used st =
     (case poll_cancel w st of (gone, st1) \<Rightarrow> if gone then (Settled None, st1)
      else case poll_active w st1 of (alive, st2) \<Rightarrow> if \<not> alive then (Settled None, st2)
      else case send w \<lparr>rq_turns = turns, rq_tools = True, rq_json = False, rq_budget = jw_max_tokens w\<rparr> st2 of
        (Call_failed e, st3) \<Rightarrow> (if is_transport_failure w e then Broke_off (classify_llm_error (jw_loads w) e) else Fallback, st3)
      | (No_choices, st3) \<Rightarrow> (Settled None, st3)
      | (Replied content tool_calls _, st3) \<Rightarrow>
          if tool_calls = [] then (parse_tool_answer w content batch_size, st3)
          else case run_tool_calls w tool_calls used st3 of (results, exhausted, used', st4) \<Rightarrow>
            if exhausted then (Exhausted, st4)
            else tool_turns w batch_size left (turns @ [Assistant content tool_calls] @ results) used' st4)"

definition call_llm_with_tools :: "judge_world \<Rightarrow> string \<Rightarrow> nat \<Rightarrow> judge_calls \<Rightarrow> tool_outcome \<times> judge_calls" where
  "call_llm_with_tools w user_msg batch_size st =
     (if \<not> jw_client w then (Fallback, st)
      else tool_turns w batch_size (jw_max_calls w + 2)
        (judge_turns (jw_system w True (max 1 batch_size)) (clamp_request_body (jw_max_bytes w) user_msg)) 0 st)"

section \<open>A batch\<close>

definition cache_key_for :: "judge_world \<Rightarrow> pydict \<Rightarrow> string result" where
  "cache_key_for w finding = (let fp = get_or finding ''file_path'' (PStr []) in
     bind_result (jw_file_sig w fp) (\<lambda>sig. Ret (cache_key (jw_sha w) (py_str fp)
       (safe_int (get finding ''line_start'')) (safe_int (py_or (get finding ''line_end'') (get finding ''line_start'')))
       (py_str (py_or (get finding ''check_id'') (get_or finding ''category'' (PStr [])))) (jw_model w) sig)))"

definition cached_lookup :: "judge_world \<Rightarrow> string \<Rightarrow> judge_calls \<Rightarrow> cached_verdict option \<times> judge_calls" where
  "cached_lookup w key st = (case lookup (jw_access w (jc_accesses st)) key (jc_cache st) of
     (found, c) \<Rightarrow> (found, st\<lparr>jc_accesses := Suc (jc_accesses st), jc_cache := c\<rparr>))"

definition replayed :: "string \<Rightarrow> cached_verdict \<Rightarrow> verdict" where
  "replayed fid c = \<lparr>vd_id = fid, vd_exploitable = FFin (cv_exploitable c), vd_reasoning = PStr (cv_reasoning c),
     vd_window_sufficient = cv_window_sufficient c, vd_evidence_line = cv_evidence_line c,
     vd_evidence_file = cv_evidence_file c\<rparr>"

definition key_of_id :: "pyval \<Rightarrow> pyval outcome" where
  "key_of_id fid = (case py_key fid of Inl e \<Rightarrow> Crashed e | Inr k \<Rightarrow> Got k)"

fun partition_batch_by_cache ::
  "judge_world \<Rightarrow> entry list \<Rightarrow> verdict_table \<Rightarrow> judge_calls \<Rightarrow> (verdict_table \<times> entry list) outcome \<times> judge_calls" where
  "partition_batch_by_cache w [] verdicts st = (Got (verdicts, []), st)"
| "partition_batch_by_cache w ((i, finding, lang) # rest) verdicts st =
     (case bind_result (finding_id i finding) (\<lambda>fid. bind_result (cache_key_for w finding) (\<lambda>key. Ret (fid, key))) of
        Inl e \<Rightarrow> (Crashed e, st)
      | Inr (fid, key) \<Rightarrow> (case cached_lookup w key st of
          (Some c, st1) \<Rightarrow> (case py_key fid of
              Inl e \<Rightarrow> (Crashed e, st1)
            | Inr k \<Rightarrow> partition_batch_by_cache w rest (AList.update k (replayed (py_str fid) c) verdicts) st1)
        | (None, st1) \<Rightarrow> (case partition_batch_by_cache w rest verdicts st1 of
              (Got (vs, uncached), st2) \<Rightarrow> (Got (vs, (i, finding, lang) # uncached), st2)
            | other \<Rightarrow> other)))"

text \<open>A verdict as a row; a reasoning that is no text cannot be bound, and that store fails.\<close>

definition row_of :: "judge_world \<Rightarrow> string \<Rightarrow> verdict \<Rightarrow> cached_verdict option" where
  "row_of w lang v = (case (vd_exploitable v, vd_reasoning v) of
     (FFin r, PStr t) \<Rightarrow> Some \<lparr>cv_exploitable = r, cv_reasoning = t, cv_model = jw_model w, cv_language = lang,
       cv_window_sufficient = vd_window_sufficient v, cv_evidence_line = vd_evidence_line v, cv_evidence_file = vd_evidence_file v\<rparr>
   | _ \<Rightarrow> None)"

definition cached_store :: "judge_world \<Rightarrow> string \<Rightarrow> string \<Rightarrow> verdict \<Rightarrow> judge_calls \<Rightarrow> judge_calls" where
  "cached_store w key lang v st = (case row_of w lang v of
     None \<Rightarrow> st
   | Some row \<Rightarrow> st\<lparr>jc_accesses := Suc (jc_accesses st), jc_cache := store (jw_access w (jc_accesses st)) key row (jc_cache st)\<rparr>)"

fun store_one :: "judge_world \<Rightarrow> verdict \<Rightarrow> entry list \<Rightarrow> judge_calls \<Rightarrow> unit outcome \<times> judge_calls" where
  "store_one w v [] st = (Got (), st)"
| "store_one w v ((i, finding, lang) # rest) st = (case finding_id i finding of
     Inl e \<Rightarrow> (Crashed e, st)
   | Inr fid \<Rightarrow> if fid \<noteq> PStr (vd_id v) then store_one w v rest st
       else (case cache_key_for w finding of Inl e \<Rightarrow> (Crashed e, st) | Inr key \<Rightarrow> (Got (), cached_store w key lang v st)))"

fun store_verdicts ::
  "judge_world \<Rightarrow> verdict list \<Rightarrow> entry list \<Rightarrow> verdict_table \<Rightarrow> judge_calls \<Rightarrow> verdict_table outcome \<times> judge_calls" where
  "store_verdicts w [] uncached verdicts st = (Got verdicts, st)"
| "store_verdicts w (v # vs) uncached verdicts st = (case store_one w v uncached st of
     (Got _, st1) \<Rightarrow> store_verdicts w vs uncached (AList.update (PStr (vd_id v)) v verdicts) st1
   | (Broke k, st1) \<Rightarrow> (Broke k, st1)
   | (Crashed e, st1) \<Rightarrow> (Crashed e, st1))"

definition undecided_verdict :: "string \<Rightarrow> verdict" where
  "undecided_verdict fid = \<lparr>vd_id = fid, vd_exploitable = FFin (1 / 2), vd_reasoning = PStr ''tool budget exhausted before a decision'',
     vd_window_sufficient = None, vd_evidence_line = None, vd_evidence_file = None\<rparr>"

fun mark_undecided :: "entry list \<Rightarrow> verdict_table \<Rightarrow> verdict_table outcome" where
  "mark_undecided [] verdicts = Got verdicts"
| "mark_undecided ((i, finding, lang) # rest) verdicts =
     (case bind_result (finding_id i finding) (\<lambda>fid. bind_result (py_key fid) (\<lambda>k. Ret (fid, k))) of
        Inl e \<Rightarrow> Crashed e
      | Inr (fid, k) \<Rightarrow> mark_undecided rest (AList.update k (undecided_verdict (py_str fid)) verdicts))"

text \<open>\<open>None\<close> falls back to plain judging.\<close>

definition judge_with_tools ::
  "judge_world \<Rightarrow> verdict_table \<Rightarrow> entry list \<Rightarrow> judge_calls \<Rightarrow> verdict_table option outcome \<times> judge_calls" where
  "judge_with_tools w verdicts uncached st =
     (case call_llm_with_tools w (jw_render w True uncached) (length uncached) st of
        (Fallback, st1) \<Rightarrow> (Got None, st1)
      | (Broke_off k, st1) \<Rightarrow> (Broke k, st1)
      | (Exhausted, st1) \<Rightarrow> (case mark_undecided uncached verdicts of
          Got vs \<Rightarrow> (Got (Some vs), st1) | Broke k \<Rightarrow> (Broke k, st1) | Crashed e \<Rightarrow> (Crashed e, st1))
      | (Settled None, st1) \<Rightarrow> (Got None, st1)
      | (Settled (Some parsed), st1) \<Rightarrow> (case store_verdicts w (drop_uncited_closure parsed) uncached verdicts st1 of
          (Got vs, st2) \<Rightarrow> (Got (Some vs), st2) | (Broke k, st2) \<Rightarrow> (Broke k, st2) | (Crashed e, st2) \<Rightarrow> (Crashed e, st2)))"

definition judge_plainly ::
  "judge_world \<Rightarrow> verdict_table \<Rightarrow> entry list \<Rightarrow> judge_calls \<Rightarrow> verdict_table outcome \<times> judge_calls" where
  "judge_plainly w verdicts uncached st =
     (case call_with_strict_retry w (jw_system w False (length uncached)) (jw_render w False uncached) (length uncached) st of
        (Got parsed, st1) \<Rightarrow> store_verdicts w parsed uncached verdicts st1
      | (Broke k, st1) \<Rightarrow> (Broke k, st1)
      | (Crashed e, st1) \<Rightarrow> (Crashed e, st1))"

definition judge_uncached ::
  "judge_world \<Rightarrow> bool \<Rightarrow> verdict_table \<Rightarrow> entry list \<Rightarrow> judge_calls \<Rightarrow> verdict_table outcome \<times> judge_calls" where
  "judge_uncached w tools verdicts uncached st =
     (if \<not> tools then judge_plainly w verdicts uncached st
      else case judge_with_tools w verdicts uncached st of
        (Got (Some vs), st1) \<Rightarrow> (Got vs, st1)
      | (Got None, st1) \<Rightarrow> judge_plainly w verdicts uncached st1
      | (Broke k, st1) \<Rightarrow> (Broke k, st1)
      | (Crashed e, st1) \<Rightarrow> (Crashed e, st1))"

text \<open>\<open>first\<close>: this batch was the first of its pool to begin.\<close>

definition judge_batch ::
  "judge_world \<Rightarrow> bool \<Rightarrow> bool \<Rightarrow> entry list \<Rightarrow> judge_calls \<Rightarrow> verdict_table outcome \<times> judge_calls" where
  "judge_batch w tools first batch st =
     (case poll_active w st of (alive, st1) \<Rightarrow> if \<not> alive then (Got [], st1)
      else case poll_cancel w st1 of (gone, st2) \<Rightarrow> if gone \<and> \<not> first then (Got [], st2)
      else case partition_batch_by_cache w batch [] st2 of
        (Got (verdicts, uncached), st3) \<Rightarrow>
          if uncached = [] then (Got verdicts, st3)
          else (case judge_uncached w tools verdicts uncached st3 of
              (Broke k, st4) \<Rightarrow> (Got verdicts, st4)
            | other \<Rightarrow> other)
      | (Broke k, st3) \<Rightarrow> (Broke k, st3)
      | (Crashed e, st3) \<Rightarrow> (Crashed e, st3))"

end
