(* ===== verification/Judge_Bounds.thy ===== *)
theory Judge_Bounds
  imports Judge_Calls
begin

text \<open>
  What the calls of one batch may do: how many requests they send and how many tools they run, that a
  transport failure is the last request, and what may enter the cache. The lemmas follow the calls from
  the single request up to the batch with one relation between the logs before and after.
\<close>

section \<open>The log of requests\<close>

text \<open>The last request of a log failed in transport.\<close>

definition hung_up :: "judge_world \<Rightarrow> llm_request list \<Rightarrow> bool" where
  "hung_up w rqs = (case jw_provider w rqs of Call_failed e \<Rightarrow> is_transport_failure w e | _ \<Rightarrow> False)"

text \<open>From one state to another at most \<open>n\<close> requests were sent, and none after one that failed in
  transport; if there was such a one, \<open>ended\<close> holds.\<close>

definition sent :: "judge_world \<Rightarrow> nat \<Rightarrow> bool \<Rightarrow> judge_calls \<Rightarrow> judge_calls \<Rightarrow> bool" where
  "sent w n ended st st' \<longleftrightarrow> (\<exists>rqs. jc_requests st' = jc_requests st @ rqs \<and> length rqs \<le> n
     \<and> (\<forall>i < length rqs. hung_up w (jc_requests st @ take (Suc i) rqs) \<longrightarrow> ended \<and> Suc i = length rqs))"

definition broke :: "'a outcome \<Rightarrow> bool" where "broke out = (case out of Broke _ \<Rightarrow> True | _ \<Rightarrow> False)"

lemma broke_simps [simp]: "broke (Broke k)" "\<not> broke (Got x)" "\<not> broke (Crashed e)"
  by (simp_all add: broke_def)

lemma sent_none: "jc_requests st' = jc_requests st \<Longrightarrow> sent w n ended st st'"
  by (auto simp: sent_def)

lemma sent_weaken: "sent w n ended st st' \<Longrightarrow> n \<le> m \<Longrightarrow> (ended \<Longrightarrow> ended') \<Longrightarrow> sent w m ended' st st'"
  unfolding sent_def by (meson order_trans)

lemma sent_from: "sent w n ended st st' \<Longrightarrow> jc_requests st = jc_requests st0 \<Longrightarrow> sent w n ended st0 st'"
  by (simp add: sent_def)

lemma sent_to: "sent w n ended st st' \<Longrightarrow> jc_requests st'' = jc_requests st' \<Longrightarrow> sent w n ended st st''"
  by (simp add: sent_def)

lemma sent_then:
  assumes "sent w n False st st1" and "sent w m ended st1 st2"
  shows "sent w (n + m) ended st st2"
proof -
  obtain a where a: "jc_requests st1 = jc_requests st @ a" "length a \<le> n"
    "\<forall>i < length a. \<not> hung_up w (jc_requests st @ take (Suc i) a)"
    using assms(1) by (auto simp: sent_def)
  obtain b where b: "jc_requests st2 = jc_requests st1 @ b" "length b \<le> m"
    "\<forall>i < length b. hung_up w (jc_requests st1 @ take (Suc i) b) \<longrightarrow> ended \<and> Suc i = length b"
    using assms(2) by (auto simp: sent_def)
  have "ended \<and> Suc i = length (a @ b)"
    if "i < length (a @ b)" "hung_up w (jc_requests st @ take (Suc i) (a @ b))" for i
  proof (cases "i < length a")
    case True
    then show ?thesis using a(3) that(2) by simp
  next
    case False
    then have "take (Suc i) (a @ b) = a @ take (Suc (i - length a)) b" by (simp add: Suc_diff_le)
    then show ?thesis using b(3) [rule_format, of "i - length a"] that a(1) False by auto
  qed
  then show ?thesis using a b unfolding sent_def by (intro exI [of _ "a @ b"]) auto
qed

lemma send_sent:
  "send w rq st = (r, st') \<Longrightarrow> sent w 1 (case r of Call_failed e \<Rightarrow> is_transport_failure w e | _ \<Rightarrow> False) st st'"
  by (auto simp: send_def sent_def hung_up_def Let_def split: llm_reply.splits)

lemma poll_requests [simp]: "jc_requests (snd (poll_cancel w st)) = jc_requests st" "jc_requests (snd (poll_active w st)) = jc_requests st"
  by (simp_all add: poll_cancel_def poll_active_def)

section \<open>Plain calls\<close>

lemma do_call_sent:
  "do_call w turns json budget st = (out, st') \<Longrightarrow> sent w 1 (case out of Inl e \<Rightarrow> is_transport_failure w e | _ \<Rightarrow> False) st st'"
  unfolding do_call_def
  by (auto split: prod.splits llm_reply.splits dest!: send_sent)

lemma plain_mode_sent: "plain_mode w turns budget st = (out, st') \<Longrightarrow> sent w 1 (broke out) st st'"
  unfolding plain_mode_def escalate_def
  by (auto split: prod.splits sum.splits if_splits dest!: do_call_sent)

lemma try_both_sent: "try_both_modes w turns budget st = (out, st') \<Longrightarrow> sent w 2 (broke out) st st'"
proof -
  assume t: "try_both_modes w turns budget st = (out, st')"
  obtain r st1 where r: "do_call w turns True budget st = (r, st1)" by fastforce
  note first = do_call_sent [OF r]
  have second: "sent w 2 (broke out) st st'"
    if "plain_mode w turns budget st1 = (out, st')" and "sent w 1 False st st1"
    using sent_then [OF that(2) plain_mode_sent [OF that(1)]] by (simp add: numeral_2_eq_2)
  show ?thesis
  proof (cases r)
    case (Inl e)
    show ?thesis
    proof (cases "is_transport_failure w e")
      case True
      then show ?thesis using t first by (auto simp: try_both_modes_def r Inl escalate_def elim: sent_weaken)
    next
      case False
      then show ?thesis using t first second by (auto simp: try_both_modes_def r Inl escalate_def)
    qed
  next
    case (Inr t0)
    then show ?thesis using t first second by (auto simp: try_both_modes_def r split: if_splits elim: sent_weaken)
  qed
qed

lemma call_llm_sent: "call_llm w sp um st = (out, st') \<Longrightarrow> sent w 4 (broke out) st st'"
proof -
  assume c: "call_llm w sp um st = (out, st')"
  show ?thesis
  proof (cases "jw_client w")
    case False
    then show ?thesis using c by (auto simp: call_llm_def sent_none)
  next
    case True
    define turns where "turns = judge_turns sp (clamp_request_body (jw_max_bytes w) um)"
    obtain o1 st1 where o1: "try_both_modes w turns (jw_max_tokens w) st = (o1, st1)" by fastforce
    note first = try_both_sent [OF o1]
    have c': "(case o1 of Got t \<Rightarrow> if t \<noteq> [] then (Got t, st1) else try_both_modes w turns (jw_max_tokens w * LENGTH_RETRY_FACTOR) st1
        | x \<Rightarrow> (x, st1)) = (out, st')"
      using c by (cases o1) (auto simp: call_llm_def True Let_def turns_def [symmetric] o1 split: if_splits)
    show ?thesis
    proof (cases "o1 = Got []")
      case True
      then have "sent w (2 + 2) (broke out) st st'" using c' first by (intro sent_then [OF _ try_both_sent]) auto
      then show ?thesis by simp
    next
      case False
      then have "out = o1" "st' = st1" using c' by (cases o1; auto)+
      then show ?thesis using first by (simp add: sent_weaken)
    qed
  qed
qed

lemma parse_text_not_broke [simp]: "\<not> broke (parse_text w raw n)"
  by (simp add: parse_text_def split: sum.split)

lemma parsed_call_sent: "parsed_call w sp um n st = (out, st') \<Longrightarrow> sent w 4 (broke out) st st'"
  unfolding parsed_call_def by (auto split: prod.splits outcome.splits dest!: call_llm_sent)

lemma strict_retry_sent: "strict_retry w sp um n st = (out, st') \<Longrightarrow> sent w 4 (broke out) st st'"
proof -
  assume s: "strict_retry w sp um n st = (out, st')"
  obtain g st1 where g: "poll_cancel w st = (g, st1)" by fastforce
  obtain a st2 where a: "poll_active w st1 = (a, st2)" by fastforce
  obtain p st3 where p: "parsed_call w sp (um @ STRICT_NUDGE) n st2 = (p, st3)" by fastforce
  have rq: "jc_requests st2 = jc_requests st" "jc_requests st1 = jc_requests st"
    using poll_requests(1) [of w st] poll_requests(2) [of w st1] g a by simp_all
  have "sent w 4 (broke p) st st3" using parsed_call_sent [OF p] rq(1) by (rule sent_from)
  then show ?thesis using s rq by (cases p) (auto simp: strict_retry_def g a p sent_none split: if_splits)
qed

lemma strict_call_sent: "call_with_strict_retry w sp um n st = (out, st') \<Longrightarrow> sent w 8 (broke out) st st'"
proof -
  assume s: "call_with_strict_retry w sp um n st = (out, st')"
  obtain a st1 where a: "poll_active w st = (a, st1)" by fastforce
  obtain p st2 where p: "parsed_call w sp um n st1 = (p, st2)" by fastforce
  have rq: "jc_requests st1 = jc_requests st" using poll_requests(2) [of w st] a by simp
  have first: "sent w 4 (broke p) st st2" using parsed_call_sent [OF p] rq by (rule sent_from)
  show ?thesis
  proof (cases "a \<and> p = Got None")
    case True
    then have "strict_retry w sp um n st2 = (out, st')" using s by (simp add: call_with_strict_retry_def a p)
    then have "sent w (4 + 4) (broke out) st st'" using first True strict_retry_sent by (intro sent_then) auto
    then show ?thesis by simp
  next
    case False
    then show ?thesis using s first rq
      by (cases p) (auto simp: call_with_strict_retry_def a p sent_none elim: sent_weaken split: if_splits option.splits)
  qed
qed

lemma do_call_tools: "do_call w turns json budget st = (out, st') \<Longrightarrow> jc_tools st' = jc_tools st"
  by (auto simp: do_call_def send_def Let_def split: llm_reply.splits)

lemma plain_mode_tools: "plain_mode w turns budget st = (out, st') \<Longrightarrow> jc_tools st' = jc_tools st"
  by (auto simp: plain_mode_def split: prod.splits sum.splits dest!: do_call_tools)

lemma try_both_tools: "try_both_modes w turns budget st = (out, st') \<Longrightarrow> jc_tools st' = jc_tools st"
  by (auto simp: try_both_modes_def split: prod.splits sum.splits if_splits outcome.splits dest!: do_call_tools plain_mode_tools)

lemma call_llm_tools: "call_llm w sp um st = (out, st') \<Longrightarrow> jc_tools st' = jc_tools st"
  by (auto simp: call_llm_def Let_def split: prod.splits if_splits outcome.splits dest!: try_both_tools)

lemma parsed_call_tools: "parsed_call w sp um n st = (out, st') \<Longrightarrow> jc_tools st' = jc_tools st"
  by (auto simp: parsed_call_def split: prod.splits outcome.splits dest!: call_llm_tools)

lemma strict_retry_tools: "strict_retry w sp um n st = (out, st') \<Longrightarrow> jc_tools st' = jc_tools st"
  by (auto simp: strict_retry_def poll_cancel_def poll_active_def split: prod.splits if_splits outcome.splits dest!: parsed_call_tools)

lemma strict_call_tools: "call_with_strict_retry w sp um n st = (out, st') \<Longrightarrow> jc_tools st' = jc_tools st"
  by (auto simp: call_with_strict_retry_def poll_active_def split: prod.splits if_splits outcome.splits option.splits
      dest!: parsed_call_tools strict_retry_tools)

section \<open>The tool loop\<close>

definition broke_off :: "tool_outcome \<Rightarrow> bool" where "broke_off out = (case out of Broke_off _ \<Rightarrow> True | _ \<Rightarrow> False)"

lemma run_tool_calls_frame:
  "run_tool_calls w tcs used st = (turns, exhausted, used', st') \<Longrightarrow>
     jc_requests st' = jc_requests st \<and> jc_cache st' = jc_cache st \<and> length (jc_tools st') + used = length (jc_tools st) + used'
     \<and> used \<le> used' \<and> (used \<le> jw_max_calls w \<longrightarrow> used' \<le> jw_max_calls w) \<and> length turns = length tcs"
  by (induction w tcs used st arbitrary: turns exhausted used' st' rule: run_tool_calls.induct)
    (auto split: if_splits prod.splits)

lemma tool_turns_step:
  assumes "tool_turns w n (Suc left) turns used st = (out, st')"
  obtains (stopped) "jc_requests st' = jc_requests st" "out = Settled None" "jc_tools st' = jc_tools st" "jc_cache st' = jc_cache st"
  | (last) "sent w 1 (broke_off out) st st'" "jc_tools st' = jc_tools st" "jc_cache st' = jc_cache st"
  | (tools) content tcs st2 st4 results exhausted used' where "sent w 1 False st st4"
      "jc_tools st2 = jc_tools st" "jc_cache st4 = jc_cache st"
      "run_tool_calls w tcs used st2 = (results, exhausted, used', st4)" "jc_requests st2 = jc_requests st4"
      "exhausted \<longrightarrow> out = Exhausted \<and> st' = st4"
      "\<not> exhausted \<longrightarrow> tool_turns w n left (turns @ [Assistant content tcs] @ results) used' st4 = (out, st')"
proof -
  obtain g st1 where g: "poll_cancel w st = (g, st1)" by fastforce
  obtain a st2 where a: "poll_active w st1 = (a, st2)" by fastforce
  have rq: "jc_requests st1 = jc_requests st" "jc_requests st2 = jc_requests st" "jc_tools st2 = jc_tools st" "jc_tools st1 = jc_tools st"
    "jc_cache st2 = jc_cache st" "jc_cache st1 = jc_cache st"
    using g a by (auto simp: poll_cancel_def poll_active_def)
  obtain r st3 where r: "send w \<lparr>rq_turns = turns, rq_tools = True, rq_json = False, rq_budget = jw_max_tokens w\<rparr> st2 = (r, st3)" by fastforce
  have one: "sent w 1 (case r of Call_failed e \<Rightarrow> is_transport_failure w e | _ \<Rightarrow> False) st st3"
    using send_sent [OF r] rq(2) by (rule sent_from)
  have keep: "jc_tools st3 = jc_tools st" "jc_cache st3 = jc_cache st" using r rq by (auto simp: send_def Let_def)
  show thesis
  proof (cases "g \<or> \<not> a")
    case True
    then show thesis using assms rq stopped by (auto simp: g a split: if_splits)
  next
    case False
    then have step: "(case r of Call_failed e \<Rightarrow> (if is_transport_failure w e then Broke_off (classify_llm_error (jw_loads w) e) else Fallback, st3)
      | No_choices \<Rightarrow> (Settled None, st3)
      | Replied content tool_calls x \<Rightarrow>
          if tool_calls = [] then (parse_tool_answer w content n, st3)
          else case run_tool_calls w tool_calls used st3 of (results, exhausted, used', st4) \<Rightarrow>
            if exhausted then (Exhausted, st4)
            else tool_turns w n left (turns @ [Assistant content tool_calls] @ results) used' st4) = (out, st')"
      using assms by (simp add: g a r)
    show thesis
    proof (cases "\<exists>content tcs x. r = Replied content tcs x \<and> tcs \<noteq> []")
      case True
      then obtain content tcs x where rep: "r = Replied content tcs x" "tcs \<noteq> []" by blast
      obtain results exhausted used' st4 where run: "run_tool_calls w tcs used st3 = (results, exhausted, used', st4)" by (metis prod.exhaust)
      note fr = run_tool_calls_frame [OF run]
      have "sent w 1 False st st4" using one fr rep by (auto intro: sent_to)
      then show thesis using step rep run fr keep by (intro tools [of st4 st3 tcs results exhausted used' content]) (auto split: if_splits)
    next
      case False
      then show thesis using step one keep
        by (intro last) (auto simp: broke_off_def parse_tool_answer_def split: llm_reply.splits if_splits sum.splits elim: sent_weaken)
    qed
  qed
qed

lemma tool_turns_sent:
  "tool_turns w n left turns used st = (out, st') \<Longrightarrow> used \<le> jw_max_calls w \<Longrightarrow>
     sent w left (broke_off out) st st' \<and> length (jc_tools st') + used \<le> length (jc_tools st) + jw_max_calls w
     \<and> jc_cache st' = jc_cache st"
proof (induction left arbitrary: turns used st)
  case 0
  then show ?case by (auto simp: sent_none)
next
  case (Suc left)
  from Suc.prems(1) show ?case
  proof (cases rule: tool_turns_step)
    case stopped
    then show ?thesis using Suc.prems(2) by (simp add: sent_none)
  next
    case last
    then show ?thesis using Suc.prems(2) by (auto elim: sent_weaken)
  next
    case (tools content tcs st2 st4 results exhausted used')
    note fr = run_tool_calls_frame [OF tools(4)]
    show ?thesis
    proof (cases exhausted)
      case True
      then show ?thesis using tools fr Suc.prems(2) by (auto elim: sent_weaken)
    next
      case False
      then have "tool_turns w n left (turns @ [Assistant content tcs] @ results) used' st4 = (out, st')" using tools(7) by simp
      from Suc.IH [OF this] fr Suc.prems(2) have ih: "sent w left (broke_off out) st4 st'"
        "length (jc_tools st') + used' \<le> length (jc_tools st4) + jw_max_calls w" "jc_cache st' = jc_cache st4"
        by auto
      have "sent w (1 + left) (broke_off out) st st'" by (rule sent_then [OF tools(1) ih(1)])
      then show ?thesis using ih fr tools(2,3) by simp
    qed
  qed
qed

lemma tool_call_sent:
  "call_llm_with_tools w um n st = (out, st') \<Longrightarrow> sent w (jw_max_calls w + 2) (broke_off out) st st'
     \<and> length (jc_tools st') \<le> length (jc_tools st) + jw_max_calls w \<and> jc_cache st' = jc_cache st"
proof (cases "jw_client w")
  case True
  assume "call_llm_with_tools w um n st = (out, st')"
  then have "tool_turns w n (jw_max_calls w + 2)
      (judge_turns (jw_system w True (max 1 n)) (clamp_request_body (jw_max_bytes w) um)) 0 st = (out, st')"
    by (simp only: call_llm_with_tools_def True simp_thms if_False)
  from tool_turns_sent [OF this] show ?thesis by simp
qed (auto simp: call_llm_with_tools_def sent_none)

section \<open>The batch\<close>

lemma store_one_frame:
  "store_one w v es st = (out, st') \<Longrightarrow> jc_requests st' = jc_requests st \<and> jc_tools st' = jc_tools st \<and> \<not> broke out"
  by (induction w v es st rule: store_one.induct)
    (auto simp: cached_store_def split: sum.splits if_splits option.splits)

lemma store_verdicts_frame:
  "store_verdicts w vs es verdicts st = (out, st') \<Longrightarrow> jc_requests st' = jc_requests st \<and> jc_tools st' = jc_tools st \<and> \<not> broke out"
proof (induction vs arbitrary: verdicts st)
  case (Cons v vs)
  obtain o1 st1 where o: "store_one w v es st = (o1, st1)" by fastforce
  show ?case using Cons store_one_frame [OF o] by (cases o1) (auto simp: o)
qed auto

lemma lookup_frame_calls: "cached_lookup w k st = (found, st') \<Longrightarrow> jc_requests st' = jc_requests st \<and> jc_tools st' = jc_tools st"
  by (auto simp: cached_lookup_def split: prod.splits)

lemma partition_frame:
  "partition_batch_by_cache w es verdicts st = (out, st') \<Longrightarrow> jc_requests st' = jc_requests st \<and> jc_tools st' = jc_tools st \<and> \<not> broke out"
proof (induction es arbitrary: verdicts st out st')
  case (Cons e es)
  obtain i finding lang where e: "e = (i, finding, lang)" by (cases e)
  show ?case
  proof (cases "bind_result (finding_id i finding) (\<lambda>fid. bind_result (cache_key_for w finding) (\<lambda>key. Ret (fid, key)))")
    case (Inl x)
    then show ?thesis using Cons.prems by (auto simp: e)
  next
    case (Inr r)
    obtain fid key where r: "r = (fid, key)" by fastforce
    obtain found st1 where l: "cached_lookup w key st = (found, st1)" by fastforce
    obtain o2 st2 where p: "partition_batch_by_cache w es verdicts st1 = (o2, st2)" by fastforce
    note fr = lookup_frame_calls [OF l]
    show ?thesis
    proof (cases found)
      case None
      then show ?thesis using Cons.prems Cons.IH [OF p] fr Inr by (cases o2) (auto simp: e r l p)
    next
      case (Some c)
      then show ?thesis using Cons.prems Cons.IH fr Inr by (fastforce simp: e r l split: sum.splits)
    qed
  qed
qed auto

lemma mark_undecided_not_broke: "\<not> broke (mark_undecided es verdicts)"
  by (induction es verdicts rule: mark_undecided.induct) (auto split: sum.split)

lemma plainly_sent: "judge_plainly w verdicts es st = (out, st') \<Longrightarrow> sent w 8 (broke out) st st' \<and> jc_tools st' = jc_tools st"
proof -
  assume j: "judge_plainly w verdicts es st = (out, st')"
  obtain o1 st1 where o: "call_with_strict_retry w (jw_system w False (length es)) (jw_render w False es) (length es) st = (o1, st1)" by fastforce
  note s1 = strict_call_sent [OF o]
  show ?thesis
  proof (cases o1)
    case (Got parsed)
    then have sv: "store_verdicts w parsed es verdicts st1 = (out, st')" using j by (simp add: judge_plainly_def o)
    note fr = store_verdicts_frame [OF sv]
    then show ?thesis using s1 strict_call_tools [OF o] Got by (auto elim: sent_to sent_weaken)
  qed (use j s1 strict_call_tools [OF o] in \<open>auto simp: judge_plainly_def o\<close>)
qed

lemma with_tools_sent:
  "judge_with_tools w verdicts es st = (out, st') \<Longrightarrow> sent w (jw_max_calls w + 2) (broke out) st st'
     \<and> length (jc_tools st') \<le> length (jc_tools st) + jw_max_calls w"
proof -
  assume j: "judge_with_tools w verdicts es st = (out, st')"
  obtain o1 st1 where o: "call_llm_with_tools w (jw_render w True es) (length es) st = (o1, st1)" by fastforce
  note s1 = tool_call_sent [OF o]
  show ?thesis
  proof (cases o1)
    case (Settled p)
    show ?thesis
    proof (cases p)
      case None
      then show ?thesis using j s1 Settled by (auto simp: judge_with_tools_def o broke_off_def)
    next
      case (Some parsed)
      obtain o2 st2 where o2: "store_verdicts w (drop_uncited_closure parsed) es verdicts st1 = (o2, st2)" by fastforce
      note fr = store_verdicts_frame [OF o2]
      show ?thesis using j s1 Settled Some fr
        by (cases o2) (auto simp: judge_with_tools_def o o2 broke_off_def elim!: sent_to intro: sent_weaken)
    qed
  next
    case Exhausted
    then show ?thesis using j s1 mark_undecided_not_broke [of es verdicts]
      by (cases "mark_undecided es verdicts") (auto simp: judge_with_tools_def o broke_off_def)
  qed (use j s1 in \<open>auto simp: judge_with_tools_def o broke_off_def\<close>)
qed

lemma uncached_sent:
  "judge_uncached w tools verdicts es st = (out, st') \<Longrightarrow> sent w (jw_max_calls w + 10) (broke out) st st'
     \<and> length (jc_tools st') \<le> length (jc_tools st) + jw_max_calls w"
proof -
  assume j: "judge_uncached w tools verdicts es st = (out, st')"
  obtain o1 st1 where o: "judge_with_tools w verdicts es st = (o1, st1)" by fastforce
  note s1 = with_tools_sent [OF o]
  show ?thesis
  proof (cases "tools \<and> o1 = Got None")
    case True
    then have pl: "judge_plainly w verdicts es st1 = (out, st')" using j by (simp add: judge_uncached_def o)
    note s2 = plainly_sent [OF pl]
    have "sent w ((jw_max_calls w + 2) + 8) (broke out) st st'"
      using s1 True by (intro sent_then [OF _ conjunct1 [OF s2]]) simp
    then show ?thesis using s1 s2 by (simp add: ac_simps)
  next
    case False
    show ?thesis
    proof (cases tools)
      case True
      then have "broke out = broke o1" "st' = st1" using False j
        by (cases o1; auto simp: judge_uncached_def o split: option.splits)+
      then show ?thesis using s1 by (auto elim: sent_weaken)
    next
      case False
      then have "judge_plainly w verdicts es st = (out, st')" using j by (simp add: judge_uncached_def)
      from plainly_sent [OF this] show ?thesis by (auto elim: sent_weaken)
    qed
  qed
qed

lemma batch_sent:
  "judge_batch w tools first es st = (out, st') \<Longrightarrow> sent w (jw_max_calls w + 10) True st st'
     \<and> length (jc_tools st') \<le> length (jc_tools st) + jw_max_calls w"
proof -
  assume j: "judge_batch w tools first es st = (out, st')"
  obtain a st1 where a: "poll_active w st = (a, st1)" by fastforce
  obtain g st2 where g: "poll_cancel w st1 = (g, st2)" by fastforce
  obtain p st3 where p: "partition_batch_by_cache w es [] st2 = (p, st3)" by fastforce
  note fr = partition_frame [OF p]
  have rq: "jc_requests st1 = jc_requests st" "jc_requests st2 = jc_requests st" "jc_requests st3 = jc_requests st"
    "jc_tools st1 = jc_tools st" "jc_tools st2 = jc_tools st" "jc_tools st3 = jc_tools st"
    using a g fr by (auto simp: poll_cancel_def poll_active_def)
  have early: ?thesis if "jc_requests st' = jc_requests st" "jc_tools st' = jc_tools st"
    using that by (simp add: sent_none)
  show ?thesis
  proof (cases "a \<and> \<not> (g \<and> \<not> first)")
    case False
    then show ?thesis using j rq by (intro early) (auto simp: judge_batch_def a g split: if_splits)
  next
    case True
    show ?thesis
    proof (cases p)
      case (Got r)
      obtain verdicts uncached where r: "r = (verdicts, uncached)" by fastforce
      obtain o4 st4 where u: "judge_uncached w tools verdicts uncached st3 = (o4, st4)" by fastforce
      note s4 = uncached_sent [OF u]
      have "uncached = [] \<and> st' = st3 \<or> st' = st4"
        using j True by (cases o4) (auto simp: judge_batch_def a g p Got r u split: if_splits)
      then show ?thesis
      proof
        assume "st' = st4"
        then show ?thesis using s4 rq sent_from [OF _ rq(3) [symmetric], of w _ "broke o4"]
          by (metis sent_from sent_weaken order_refl)
      qed (use rq early in auto)
    next
      case (Broke k)
      then show ?thesis using fr by simp
    next
      case (Crashed e)
      then show ?thesis using j True rq by (intro early) (auto simp: judge_batch_def a g p)
    qed
  qed
qed

section \<open>Properties\<close>

text \<open>C26. Judging a batch ends: whatever the provider answers, however often it asks for tools and whenever the run is
  cancelled, one batch sends at most ten requests more than its tool budget (the turns of the tool loop, then
  two response modes at two token budgets, once more after the strict nudge) and runs at most that many tools.\<close>

theorem batch_calls_are_bounded:
  assumes "judge_batch w tools first batch st = (out, st')"
  shows "length (jc_requests st') \<le> length (jc_requests st) + jw_max_calls w + 10
    \<and> length (jc_tools st') \<le> length (jc_tools st) + jw_max_calls w"
  using batch_sent [OF assms] by (auto simp: sent_def)

text \<open>C25. A transport failure is the last word: when the endpoint cannot take a request (rate limited, unreachable, a
  server error), the batch sends nothing after it, neither the other mode nor a retry nor a plain call.\<close>

theorem nothing_is_sent_after_a_transport_failure:
  assumes "judge_batch w tools first batch st = (out, st')"
    and "length (jc_requests st) \<le> i" and "i < length (jc_requests st')"
    and "jw_provider w (take (Suc i) (jc_requests st')) = Call_failed e" and "is_transport_failure w e"
  shows "Suc i = length (jc_requests st')"
proof -
  obtain rqs where rqs: "jc_requests st' = jc_requests st @ rqs"
    "\<forall>j < length rqs. hung_up w (jc_requests st @ take (Suc j) rqs) \<longrightarrow> Suc j = length rqs"
    using batch_sent [OF assms(1)] by (auto simp: sent_def)
  have "take (Suc i) (jc_requests st') = jc_requests st @ take (Suc (i - length (jc_requests st))) rqs"
    using assms(2) by (simp add: rqs(1) Suc_diff_le)
  then show ?thesis using rqs(2) [rule_format, of "i - length (jc_requests st)"] assms by (simp add: rqs(1) hung_up_def)
qed

definition undecided :: "verdict \<Rightarrow> bool" where
  "undecided v \<longleftrightarrow> vd_exploitable v = FFin (1 / 2) \<and> vd_window_sufficient v = None \<and> vd_evidence_line v = None"

lemma mark_undecided_keeps: "mark_undecided es verdicts = Got vs \<Longrightarrow> map_of verdicts k = Some v \<Longrightarrow> undecided v
    \<Longrightarrow> \<exists>v'. map_of vs k = Some v' \<and> undecided v'"
proof (induction es verdicts arbitrary: v rule: mark_undecided.induct)
  case (2 i finding lang rest verdicts)
  obtain fid k' where r: "bind_result (finding_id i finding) (\<lambda>fid. bind_result (py_key fid) (\<lambda>k. Ret (fid, k))) = Ret (fid, k')"
    using 2(2) by (auto split: sum.splits)
  show ?case
  proof (rule "2.IH" [OF r refl])
    show "mark_undecided rest (AList.update k' (undecided_verdict (py_str fid)) verdicts) = Got vs" using 2(2) r by simp
    show "map_of (AList.update k' (undecided_verdict (py_str fid)) verdicts) k
        = Some (if k = k' then undecided_verdict (py_str fid) else v)"
      using 2(3) by (simp add: AList.update_conv')
    show "undecided (if k = k' then undecided_verdict (py_str fid) else v)"
      using 2(4) by (simp add: undecided_def undecided_verdict_def)
  qed
qed auto

lemma mark_undecided_all: "mark_undecided es verdicts = Got vs \<Longrightarrow> (i, finding, lang) \<in> set es
    \<Longrightarrow> \<exists>fid k v. finding_id i finding = Ret fid \<and> py_key fid = Ret k \<and> map_of vs k = Some v \<and> undecided v"
proof (induction es verdicts rule: mark_undecided.induct)
  case (2 i' finding' lang' rest verdicts)
  obtain fid k where r: "bind_result (finding_id i' finding') (\<lambda>fid. bind_result (py_key fid) (\<lambda>k. Ret (fid, k))) = Ret (fid, k)"
    using 2(2) by (auto split: sum.splits)
  have m: "mark_undecided rest (AList.update k (undecided_verdict (py_str fid)) verdicts) = Got vs" using 2(2) r by simp
  show ?case
  proof (cases "(i, finding, lang) \<in> set rest")
    case True
    then show ?thesis using "2.IH" [OF r refl m] by simp
  next
    case False
    then have "i = i'" "finding = finding'" using 2(3) by auto
    then have "finding_id i finding = Ret fid" "py_key fid = Ret k" using r by (auto simp: bind_result_Ret)
    then show ?thesis
      using mark_undecided_keeps [OF m, of k "undecided_verdict (py_str fid)"]
      by (auto simp: undecided_def undecided_verdict_def)
  qed
qed simp

text \<open>No verdict is built on a partial view: when the model wanted more tools than the budget allows, every finding it
  was asked about is left undecided at one half, claims no closure, and nothing of it enters the cache.\<close>

theorem exhausted_tools_decide_nothing:
  assumes "call_llm_with_tools w (jw_render w True uncached) (length uncached) st = (Exhausted, st1)"
    and "judge_with_tools w verdicts uncached st = (Got table, st')"
  shows "jc_cache st' = jc_cache st \<and> (\<exists>vs. table = Some vs \<and> (\<forall>(i, finding, lang) \<in> set uncached.
    \<exists>fid k v. finding_id i finding = Ret fid \<and> py_key fid = Ret k \<and> map_of vs k = Some v \<and> undecided v))"
proof -
  have c: "jc_cache st1 = jc_cache st" using tool_call_sent [OF assms(1)] by simp
  obtain vs where vs: "mark_undecided uncached verdicts = Got vs" "table = Some vs" "st' = st1"
    using assms by (cases "mark_undecided uncached verdicts") (auto simp: judge_with_tools_def)
  show ?thesis using c vs mark_undecided_all [OF vs(1)] by blast
qed

lemma in_update: "(k, v) \<in> set (AList.update k' x d) \<Longrightarrow> (k, v) = (k', x) \<or> (k, v) \<in> set d"
  by (induction d) (auto split: if_splits)

lemma store_verdicts_table:
  "store_verdicts w vs es verdicts st = (Got table, st') \<Longrightarrow> (k, v) \<in> set table \<Longrightarrow> (k, v) \<in> set verdicts \<or> v \<in> set vs"
proof (induction vs arbitrary: verdicts st)
  case (Cons x xs)
  obtain o1 st1 where o: "store_one w x es st = (o1, st1)" by fastforce
  have sv: "store_verdicts w xs es (AList.update (PStr (vd_id x)) x verdicts) st1 = (Got table, st')"
    using Cons.prems(1) by (cases o1) (auto simp: o)
  from Cons.IH [OF sv Cons.prems(2)] show ?case by (auto dest: in_update)
qed simp

lemma mark_undecided_table: "mark_undecided es verdicts = Got table \<Longrightarrow> (k, v) \<in> set table \<Longrightarrow> (k, v) \<in> set verdicts \<or> undecided v"
  by (induction es verdicts rule: mark_undecided.induct)
    (fastforce split: sum.splits dest: in_update simp: undecided_def undecided_verdict_def)+

text \<open>A search that found nothing closes nothing: every verdict a tool run adds that lowers a finding without citing
  a line comes without an asserted closure.\<close>

theorem uncited_tool_verdict_claims_no_closure:
  assumes "judge_with_tools w verdicts uncached st = (Got (Some table), st')"
    and "(k, v) \<in> set table" and "(k, v) \<notin> set verdicts"
    and "fl_less (vd_exploitable v) (FFin (1 / 2))" and "vd_evidence_line v = None"
  shows "vd_window_sufficient v = None"
proof -
  obtain o1 st1 where o: "call_llm_with_tools w (jw_render w True uncached) (length uncached) st = (o1, st1)" by fastforce
  show ?thesis
  proof (cases o1)
    case (Settled p)
    then obtain parsed where p: "p = Some parsed" using assms(1) by (cases p) (auto simp: judge_with_tools_def o)
    have "store_verdicts w (drop_uncited_closure parsed) uncached verdicts st1 = (Got table, st')"
      using assms(1) Settled p by (auto simp: judge_with_tools_def o split: prod.splits outcome.splits)
    then have "v \<in> set (drop_uncited_closure parsed)" using store_verdicts_table assms(2,3) by blast
    then show ?thesis using assms(4,5) by (auto simp: drop_uncited_closure_def split: if_splits)
  next
    case Exhausted
    then have "mark_undecided uncached verdicts = Got table"
      using assms(1) by (auto simp: judge_with_tools_def o split: outcome.splits)
    from mark_undecided_table [OF this assms(2)] assms(3) show ?thesis by (simp add: undecided_def)
  qed (use assms(1) in \<open>auto simp: judge_with_tools_def o\<close>)
qed

section \<open>Cached batches\<close>

text \<open>The cache answers for a finding: its identifier and key are known and the row is fresh at every time asked.\<close>

definition answered :: "judge_world \<Rightarrow> l5_cache \<Rightarrow> entry \<Rightarrow> cached_verdict \<Rightarrow> bool" where
  "answered w c e row \<longleftrightarrow> (case e of (i, finding, lang) \<Rightarrow>
     \<exists>fid k key stored. finding_id i finding = Ret fid \<and> py_key fid = Ret k \<and> cache_key_for w finding = Ret key
       \<and> map_of (lc_rows c) key = Some (row, stored)
       \<and> (\<forall>n. ac_works (jw_access w n) \<and> \<not> TTL_S < fl64 (ac_now (jw_access w n) - stored)))"

lemma answered_lookup:
  assumes "map_of (lc_rows (jc_cache st)) key = Some (row, stored)" and "lc_conn (jc_cache st) = Opened"
    and "ac_works (jw_access w (jc_accesses st)) \<and> \<not> TTL_S < fl64 (ac_now (jw_access w (jc_accesses st)) - stored)"
  shows "\<exists>st'. cached_lookup w key st = (Some row, st') \<and> lc_rows (jc_cache st') = lc_rows (jc_cache st) \<and> lc_conn (jc_cache st') = Opened"
  using assms by (simp add: cached_lookup_def lookup_def lookup_row_def fresh_row_def)

lemma partition_answered:
  "\<forall>e \<in> set es. \<exists>row. answered w (jc_cache st) e row \<Longrightarrow> lc_conn (jc_cache st) = Opened
   \<Longrightarrow> \<exists>vs st'. partition_batch_by_cache w es verdicts st = (Got (vs, []), st')"
proof (induction es arbitrary: verdicts st)
  case (Cons e es)
  obtain i finding lang where e: "e = (i, finding, lang)" by (cases e)
  obtain row fid k key stored where r: "finding_id i finding = Ret fid" "py_key fid = Ret k" "cache_key_for w finding = Ret key"
    "map_of (lc_rows (jc_cache st)) key = Some (row, stored)"
    "\<forall>n. ac_works (jw_access w n) \<and> \<not> TTL_S < fl64 (ac_now (jw_access w n) - stored)"
    using Cons.prems(1) by (auto simp: answered_def e)
  obtain st1 where l: "cached_lookup w key st = (Some row, st1)" "lc_rows (jc_cache st1) = lc_rows (jc_cache st)"
    "lc_conn (jc_cache st1) = Opened"
    using answered_lookup [OF r(4) Cons.prems(2) spec [OF r(5)]] by blast
  have "\<forall>e \<in> set es. \<exists>row. answered w (jc_cache st1) e row" using Cons.prems(1) l(2) by (simp add: answered_def)
  from Cons.IH [OF this l(3)] show ?case by (simp add: e r(1-3) l(1))
qed simp

text \<open>A second look costs nothing: a batch whose findings all have a fresh row in the cache is judged without a
  single request and without a tool call, whatever the provider would say.\<close>

theorem cached_batch_sends_nothing:
  assumes "\<forall>e \<in> set batch. \<exists>row. answered w (jc_cache st) e row" and "lc_conn (jc_cache st) = Opened"
    and "judge_batch w tools first batch st = (out, st')"
  shows "jc_requests st' = jc_requests st \<and> jc_tools st' = jc_tools st \<and> (\<exists>table. out = Got table)"
proof -
  obtain a st1 where a: "poll_active w st = (a, st1)" by fastforce
  obtain g st2 where g: "poll_cancel w st1 = (g, st2)" by fastforce
  have same: "jc_cache st2 = jc_cache st" "jc_requests st2 = jc_requests st" "jc_requests st1 = jc_requests st"
    "jc_tools st2 = jc_tools st" "jc_tools st1 = jc_tools st"
    using a g by (auto simp: poll_active_def poll_cancel_def)
  have "\<exists>vs st3. partition_batch_by_cache w batch [] st2 = (Got (vs, []), st3)"
    using partition_answered [of batch w st2 "[]"] assms(1,2) unfolding same(1) by blast
  then obtain vs st3 where p: "partition_batch_by_cache w batch [] st2 = (Got (vs, []), st3)" by blast
  note fr = partition_frame [OF p]
  show ?thesis using assms(3) same fr by (auto simp: judge_batch_def a g p split: if_splits)
qed

end
