(* ===== verification/Judge_Calls_Examples.thy ===== *)
theory Judge_Calls_Examples
  imports Judge_Bounds
begin

text \<open>
  One finding judged against small providers: one that keeps asking for tools, one that is rate limited,
  one whose run is cancelled in the middle of the tool loop; and a finding that is already in the cache.
\<close>

definition ex_finding :: pydict where
  "ex_finding = [(''id'', PStr ''f1''), (''file_path'', PStr ''a.py''), (''line_start'', PInt 3), (''check_id'', PStr ''c'')]"

definition ex_batch :: "entry list" where "ex_batch = [(0, ex_finding, ''python'')]"

definition ex_judge :: "(llm_request list \<Rightarrow> llm_reply) \<Rightarrow> judge_world" where
  "ex_judge provider = \<lparr>jw_loads = \<lambda>_. None, jw_client = True, jw_provider = provider, jw_execute = \<lambda>_ _. ''found'',
     jw_cancelled = \<lambda>_. False, jw_active = \<lambda>_. True, jw_access = \<lambda>_. ex_at 100, jw_sha = \<lambda>_. ''k'', jw_file_sig = \<lambda>_. Ret ''s'',
     jw_render = \<lambda>_ _. ''judge this'', jw_system = \<lambda>_ _. ''system'', jw_nonce = ''00ff'', jw_model = ''m'',
     jw_max_bytes = 131072, jw_max_tokens = 16000, jw_max_calls = 1\<rparr>"

definition ex_calls :: "l5_cache \<Rightarrow> judge_calls" where
  "ex_calls c = \<lparr>jc_requests = [], jc_tools = [], jc_cancel_polls = 0, jc_active_polls = 0, jc_accesses = 0, jc_cache = c\<rparr>"

definition ex_asking :: "llm_request list \<Rightarrow> llm_reply" where
  "ex_asking rqs = Replied None [\<lparr>tc_id = ''t'', tc_name = ''read_file'', tc_arguments = ''{}''\<rparr>] False"

definition ex_limited :: "llm_request list \<Rightarrow> llm_reply" where
  "ex_limited rqs = Call_failed (ex_exc ''429 rate limit'')"

theorem batch_calls_are_bounded_witness:
  "\<exists>out st'. judge_batch (ex_judge ex_asking) True True ex_batch (ex_calls empty_cache) = (out, st')
     \<and> length (jc_requests st') \<le> 0 + 1 + 10 \<and> length (jc_tools st') \<le> 0 + 1"
proof -
  obtain out st' where j: "judge_batch (ex_judge ex_asking) True True ex_batch (ex_calls empty_cache) = (out, st')" by fastforce
  show ?thesis using batch_calls_are_bounded [OF j] j by (simp add: ex_calls_def ex_judge_def)
qed

lemma limited_is_transport: "is_transport_failure (ex_judge p) (ex_exc ''429 rate limit'')"
  by code_simp

lemma limited_sends_one:
  "case judge_batch (ex_judge ex_limited) True True ex_batch (ex_calls empty_cache) of
     (out, st') \<Rightarrow> length (jc_requests st') = 1"
  by code_simp

theorem nothing_is_sent_after_a_transport_failure_witness:
  "\<exists>out st'. judge_batch (ex_judge ex_limited) True True ex_batch (ex_calls empty_cache) = (out, st')
     \<and> Suc 0 = length (jc_requests st')"
proof -
  obtain out st' where j: "judge_batch (ex_judge ex_limited) True True ex_batch (ex_calls empty_cache) = (out, st')" by fastforce
  have l: "length (jc_requests st') = 1" using limited_sends_one by (simp add: j)
  have "Suc 0 = length (jc_requests st')"
  proof (rule nothing_is_sent_after_a_transport_failure [OF j])
    show "length (jc_requests (ex_calls empty_cache)) \<le> 0" by (simp add: ex_calls_def)
    show "0 < length (jc_requests st')" using l by simp
    show "jw_provider (ex_judge ex_limited) (take (Suc 0) (jc_requests st')) = Call_failed (ex_exc ''429 rate limit'')"
      by (simp add: ex_judge_def ex_limited_def)
  qed (rule limited_is_transport)
  then show ?thesis using j by blast
qed

lemma ex_exhausts:
  "case call_llm_with_tools (ex_judge ex_asking) ''judge this'' 1 (ex_calls empty_cache) of (out, st1) \<Rightarrow> out = Exhausted"
  by code_simp

lemma ex_decides:
  "case judge_with_tools (ex_judge ex_asking) [] ex_batch (ex_calls empty_cache) of
     (Got table, st') \<Rightarrow> True | _ \<Rightarrow> False"
  by code_simp

theorem exhausted_tools_decide_nothing_witness:
  "\<exists>table st'. judge_with_tools (ex_judge ex_asking) [] ex_batch (ex_calls empty_cache) = (Got table, st')
     \<and> jc_cache st' = empty_cache"
proof -
  obtain o1 st1 where c: "call_llm_with_tools (ex_judge ex_asking) ''judge this'' 1 (ex_calls empty_cache) = (o1, st1)" by fastforce
  then have o: "call_llm_with_tools (ex_judge ex_asking) (jw_render (ex_judge ex_asking) True ex_batch) (length ex_batch) (ex_calls empty_cache) = (Exhausted, st1)"
    using ex_exhausts by (simp add: ex_batch_def ex_judge_def)
  obtain table st' where j: "judge_with_tools (ex_judge ex_asking) [] ex_batch (ex_calls empty_cache) = (Got table, st')"
    using ex_decides by (cases "judge_with_tools (ex_judge ex_asking) [] ex_batch (ex_calls empty_cache)") (auto split: outcome.splits)
  show ?thesis using exhausted_tools_decide_nothing [OF o j] j by (simp add: ex_calls_def)
qed

definition ex_answer :: pyval where
  "ex_answer = PDict [(''verdicts'', PList [PDict [(''id'', PStr ''f1''), (''exploitable'', PFloat (FFin (1 / 4))),
     (''reasoning'', PStr ''none found''), (''window_sufficient'', PBool True)]])]"

definition ex_answering :: judge_world where
  "ex_answering = (ex_judge (\<lambda>_. Replied (Some ''v'') [] False))\<lparr>jw_loads := \<lambda>s. if s = ''v'' then Some ex_answer else None\<rparr>"

definition closed_verdicts :: "verdict_table \<Rightarrow> bool" where
  "closed_verdicts table = (length table = 1 \<and> vd_exploitable (snd (hd table)) = FFin (1 / 4) \<and> vd_evidence_line (snd (hd table)) = None)"

lemma ex_answers:
  "case judge_with_tools ex_answering [] ex_batch (ex_calls empty_cache) of (out, st') \<Rightarrow>
     (case out of Got (Some table) \<Rightarrow> closed_verdicts table | _ \<Rightarrow> False)"
  by code_simp

theorem uncited_tool_verdict_claims_no_closure_witness:
  "\<exists>k v st'. judge_with_tools ex_answering [] ex_batch (ex_calls empty_cache) = (Got (Some [(k, v)]), st')
     \<and> vd_exploitable v = FFin (1 / 4) \<and> vd_window_sufficient v = None"
proof -
  obtain out st' where o: "judge_with_tools ex_answering [] ex_batch (ex_calls empty_cache) = (out, st')" by fastforce
  then obtain table where t: "out = Got (Some table)" "closed_verdicts table"
    using ex_answers by (auto split: outcome.splits option.splits)
  then obtain k v where kv: "table = [(k, v)]" "vd_exploitable v = FFin (1 / 4)" "vd_evidence_line v = None"
    by (cases table) (auto simp: closed_verdicts_def)
  have "vd_window_sufficient v = None"
    by (rule uncited_tool_verdict_claims_no_closure [OF o [unfolded t(1)], of k]) (simp_all add: kv)
  then show ?thesis using o t kv by blast
qed

definition ex_cached :: l5_cache where "ex_cached = empty_cache\<lparr>lc_rows := [(''k'', ex_verdict_row, 0)]\<rparr>"

theorem cached_batch_sends_nothing_witness:
  "\<exists>out st'. judge_batch (ex_judge ex_asking) True True ex_batch (ex_calls ex_cached) = (out, st') \<and> jc_requests st' = []"
proof -
  obtain out st' where j: "judge_batch (ex_judge ex_asking) True True ex_batch (ex_calls ex_cached) = (out, st')" by fastforce
  have fresh: "\<not> TTL_S < fl64 (100 - 0)" by code_simp
  have "cache_key_for (ex_judge ex_asking) ex_finding = Ret ''k''"
    by (simp add: cache_key_for_def ex_judge_def Let_def cache_key_def)
  moreover have "finding_id 0 ex_finding = Ret (PStr ''f1'')" by (simp add: finding_id_def ex_finding_def get_or_def)
  ultimately have a: "\<forall>e \<in> set ex_batch. \<exists>row. answered (ex_judge ex_asking) (jc_cache (ex_calls ex_cached)) e row"
    using fresh by (auto simp: ex_batch_def answered_def ex_calls_def ex_cached_def ex_judge_def ex_at_def)
  have o: "lc_conn (jc_cache (ex_calls ex_cached)) = Opened" by (simp add: ex_calls_def ex_cached_def empty_cache_def)
  show ?thesis using cached_batch_sends_nothing [OF a o j] j by (simp add: ex_calls_def)
qed

text \<open>Cancellation in the middle of the tool loop does not stop the batch: the loop ends with nothing parsed, which is
  read as a reason to judge plainly, so a batch that had already made its call sends four more requests.\<close>

definition ex_cancelled :: judge_world where
  "ex_cancelled = (ex_judge (\<lambda>rqs. if rq_tools (last rqs) then ex_asking rqs else Replied None [] False))
     \<lparr>jw_cancelled := \<lambda>n. 2 \<le> n\<rparr>"

lemma cancelled_tool_loop_still_calls:
  "case judge_batch ex_cancelled True True ex_batch (ex_calls empty_cache) of
     (out, st') \<Rightarrow> map rq_tools (jc_requests st') = [True, False, False, False, False]"
  by code_simp

end
