(* ===== verification/Collapse.thy ===== *)
theory Collapse
  imports Rollup
begin

text \<open>
  The collapse of rows that share one source line (\<open>shared/tools/finding_collapse.py\<close>): the CWE
  catalog as a relation between ids, its transitive closure, and the pass that drops a row whose
  category is an ancestor of another category on the same line, folding its text into the survivor.

  Where the catalog lies is a question to the file system: the record \<open>catalog_world\<close> holds its
  answers (\<open>Path.is_file\<close>, \<open>Path.is_dir\<close>, the sorted matches of a glob, the parsed JSON of a file, or
  nothing where reading or parsing fails). A Python \<open>set\<close> of ids is a list whose order no result
  depends on. \<open>max_severity\<close> is the text of its twin in the rollup layer and is used from there.
\<close>

section \<open>The catalog\<close>

record catalog_world =
  ca_env :: env
  ca_roots :: "string list"
  ca_is_dir :: "string \<Rightarrow> bool"
  ca_is_file :: "string \<Rightarrow> bool"
  ca_glob :: "string \<Rightarrow> string \<Rightarrow> string list"
  ca_json :: "string \<Rightarrow> pyval option"

definition CATALOG_PATH_ENV :: string where "CATALOG_PATH_ENV = ''VULTURE_CWE_CATALOG_PATH''"
definition CHILD_OF :: string where "CHILD_OF = ''ChildOf''"
definition CATALOG_GLOBS :: "string list" where
  "CATALOG_GLOBS = [''*/data/cwe_catalog.json'', ''*/*/data/cwe_catalog.json'']"

text \<open>The first value of a list that is not \<open>None\<close>: the loops that return at their first hit.\<close>

fun first_hit :: "('a \<Rightarrow> 'b option) \<Rightarrow> 'a list \<Rightarrow> 'b option" where
  "first_hit f [] = None"
| "first_hit f (x # xs) = (case f x of Some y \<Rightarrow> Some y | None \<Rightarrow> first_hit f xs)"

definition first_match :: "catalog_world \<Rightarrow> string \<Rightarrow> string option" where
  "first_match w start = first_hit (\<lambda>pattern. case ca_glob w start pattern of [] \<Rightarrow> None | p # _ \<Rightarrow> Some p) CATALOG_GLOBS"

definition discover_catalog :: "catalog_world \<Rightarrow> string option" where
  "discover_catalog w = first_hit (\<lambda>start. if ca_is_dir w start then first_match w start else None) (ca_roots w)"

definition catalog_path :: "catalog_world \<Rightarrow> string option" where
  "catalog_path w =
     (let override = strip (environ_get (ca_env w) CATALOG_PATH_ENV) in
      if override = [] then discover_catalog w
      else if ca_is_file w override then Some override else None)"

definition load_catalog :: "catalog_world \<Rightarrow> pydict" where
  "load_catalog w = (case catalog_path w of None \<Rightarrow> []
     | Some p \<Rightarrow> (case ca_json w p of Some (PDict d) \<Rightarrow> d | _ \<Rightarrow> []))"

definition edge_id :: "pydict \<Rightarrow> string" where
  "edge_id edge = strip (py_str (get_or edge ''cwe_id'' (PStr [])))"

definition is_child_edge :: "pydict \<Rightarrow> string \<Rightarrow> bool" where
  "is_child_edge edge cid =
     (get edge ''nature'' = PStr CHILD_OF \<and> edge_id edge \<noteq> [] \<and> edge_id edge \<noteq> cid)"

definition edge_dict :: "pyval \<Rightarrow> pydict result" where
  "edge_dict e = (case e of PDict d \<Rightarrow> Ret d | _ \<Rightarrow> Raise AttributeError)"

definition parent_ids :: "pydict \<Rightarrow> string \<Rightarrow> string list result" where
  "parent_ids entry cid =
     bind_result (py_iter (py_or (get entry ''related_weaknesses'') (PList []))) (\<lambda>es.
     bind_result (map_result edge_dict es) (\<lambda>edges.
       Ret (remdups (map edge_id (filter (\<lambda>e. is_child_edge e cid) edges)))))"

type_synonym parents = "(string \<times> string list) list"

definition direct_parents :: "pydict \<Rightarrow> parents result" where
  "direct_parents catalog =
     bind_result (map_result (\<lambda>(cid, entry).
         bind_result (case entry of PDict d \<Rightarrow> parent_ids d cid | _ \<Rightarrow> Ret []) (\<lambda>pids. Ret (cid, pids))) catalog)
       (\<lambda>rows. Ret (filter (\<lambda>(cid, pids). pids \<noteq> []) rows))"

definition parents_of :: "parents \<Rightarrow> string \<Rightarrow> string list" where
  "parents_of ps cid = (case map_of ps cid of None \<Rightarrow> [] | Some pids \<Rightarrow> pids)"

text \<open>The walk over the ids above one id: \<open>stack.pop()\<close> takes the last.\<close>

abbreviation named_ids :: "parents \<Rightarrow> string set" where
  "named_ids ps \<equiv> \<Union> (set ` snd ` set ps)"

lemma parents_of_named: "set (parents_of ps cid) \<subseteq> named_ids ps"
proof (cases "map_of ps cid")
  case (Some pids)
  then show ?thesis using map_of_SomeD [OF Some] by (auto simp: parents_of_def intro!: bexI)
qed (simp add: parents_of_def)

lemma finite_pending: "finite ((set stack \<union> named_ids ps) - set seen)"
  by auto

lemma pending_rest: "set rest \<subseteq> set stack \<Longrightarrow>
    card ((set rest \<union> named_ids ps) - set seen) \<le> card ((set stack \<union> named_ids ps) - set seen)"
  by (intro card_mono finite_pending) auto

lemma pending_new:
  assumes "set rest \<subseteq> set stack" and "pid \<in> set stack" and "pid \<notin> set seen"
  shows "card ((set (rest @ parents_of ps pid) \<union> named_ids ps) - set (pid # seen)) <
         card ((set stack \<union> named_ids ps) - set seen)"
proof (rule psubset_card_mono [OF finite_pending])
  show "(set (rest @ parents_of ps pid) \<union> named_ids ps) - set (pid # seen) \<subset> (set stack \<union> named_ids ps) - set seen"
    using assms parents_of_named [of ps pid] by auto
qed

function walk :: "parents \<Rightarrow> string list \<Rightarrow> string list \<Rightarrow> string list" where
  "walk ps seen stack =
     (if stack = [] then seen
      else let pid = last stack; rest = butlast stack in
        if pid \<in> set seen then walk ps seen rest
        else walk ps (pid # seen) (rest @ parents_of ps pid))"
  by pat_completeness auto

termination
proof (relation "measures [\<lambda>(ps, seen, stack). card ((set stack \<union> named_ids ps) - set seen), \<lambda>(ps, seen, stack). length stack]", goal_cases)
  case (2 ps seen stack pid rest)
  then have "set rest \<subseteq> set stack" by (auto dest: in_set_butlastD)
  then show ?case using pending_rest [of rest stack ps seen] 2 by auto
next
  case (3 ps seen stack pid rest)
  then have "set rest \<subseteq> set stack" by (auto dest: in_set_butlastD)
  then show ?case using pending_new [of rest stack pid seen ps] 3 by simp
qed simp

declare walk.simps [simp del]

definition hierarchy :: "parents \<Rightarrow> parents" where
  "hierarchy ps = map (\<lambda>(cid, direct). (cid, walk ps [] direct)) ps"

definition cwe_ancestors :: "parents \<Rightarrow> string \<Rightarrow> string list" where
  "cwe_ancestors ps cwe_id = parents_of (hierarchy ps) cwe_id"

definition packaged_parents :: "catalog_world \<Rightarrow> parents result" where
  "packaged_parents w = direct_parents (load_catalog w)"

section \<open>The walk computes the transitive closure\<close>

definition child_of :: "parents \<Rightarrow> (string \<times> string) set" where
  "child_of ps = {(c, p). p \<in> set (parents_of ps c)}"

lemma walk_Nil [simp]: "walk ps seen [] = seen"
  by (simp add: walk.simps)

lemma walk_snoc: "walk ps seen (rest @ [pid]) =
    (if pid \<in> set seen then walk ps seen rest else walk ps (pid # seen) (rest @ parents_of ps pid))"
  by (subst walk.simps) (simp add: Let_def)

text \<open>The walk on a stack taken apart at its end, with the two steps as cases.\<close>

lemma walk_induct [case_names empty seen new]:
  assumes "\<And>seen. P seen []"
    and "\<And>seen rest pid. pid \<in> set seen \<Longrightarrow> P seen rest \<Longrightarrow> P seen (rest @ [pid])"
    and "\<And>seen rest pid. pid \<notin> set seen \<Longrightarrow> P (pid # seen) (rest @ parents_of ps pid) \<Longrightarrow> P seen (rest @ [pid])"
  shows "P seen stack"
  using assms
proof (induction ps seen stack rule: walk.induct [case_names step])
  case (step ps seen stack)
  show ?case
  proof (cases "stack = []")
    case False
    then have stack: "stack = butlast stack @ [last stack]" by simp
    show ?thesis
    proof (cases "last stack \<in> set seen")
      case True
      then show ?thesis using step(1) [OF False refl refl True step(3-5)] step(4) stack by metis
    next
      case new: False
      then show ?thesis using step(2) [OF False refl refl new step(3-5)] step(5) stack by metis
    qed
  qed (simp add: step(3))
qed

lemma widen: "C \<subseteq> D \<Longrightarrow> p \<in> D \<Longrightarrow> insert p (S \<union> (B \<union> C)) \<subseteq> S \<union> (B \<union> D)"
  by blast

lemma walk_sound: "set (walk ps seen stack) \<subseteq> set seen \<union> (child_of ps)\<^sup>* `` set stack"
proof (induction seen stack rule: walk_induct [where ps = ps])
  case (seen seen rest pid)
  then show ?case by (auto simp: walk_snoc)
next
  case (new seen rest pid)
  let ?R = "(child_of ps)\<^sup>*"
  have up: "?R `` set (parents_of ps pid) \<subseteq> ?R `` {pid}" and self: "pid \<in> ?R `` {pid}"
    by (auto simp: child_of_def intro: converse_rtrancl_into_rtrancl)
  have "set (walk ps seen (rest @ [pid])) \<subseteq> insert pid (set seen \<union> (?R `` set rest \<union> ?R `` set (parents_of ps pid)))"
    using new by (simp add: walk_snoc Image_Un)
  also have "\<dots> \<subseteq> set seen \<union> (?R `` set rest \<union> ?R `` {pid})"
    by (rule widen [OF up self])
  also have "\<dots> = set seen \<union> ?R `` set (rest @ [pid])" by auto
  finally show ?case .
qed simp

definition closed_upto :: "parents \<Rightarrow> string list \<Rightarrow> string list \<Rightarrow> bool" where
  "closed_upto ps seen stack \<longleftrightarrow> child_of ps `` set seen \<subseteq> set seen \<union> set stack"

lemma walk_closed:
  "closed_upto ps seen stack \<Longrightarrow>
   set seen \<union> set stack \<subseteq> set (walk ps seen stack) \<and> child_of ps `` set (walk ps seen stack) \<subseteq> set (walk ps seen stack)"
proof (induction seen stack rule: walk_induct [where ps = ps])
  case (empty seen)
  then show ?case by (simp add: closed_upto_def)
next
  case (seen seen rest pid)
  then have "closed_upto ps seen rest" by (auto simp: closed_upto_def)
  then show ?case using seen by (auto simp: walk_snoc)
next
  case (new seen rest pid)
  then have "closed_upto ps (pid # seen) (rest @ parents_of ps pid)"
    by (auto simp: closed_upto_def child_of_def)
  then show ?case using new by (simp add: walk_snoc)
qed

lemma walk_complete: "(child_of ps)\<^sup>* `` set stack \<subseteq> set (walk ps [] stack)"
proof -
  have "closed_upto ps [] stack" by (simp add: closed_upto_def)
  from walk_closed [OF this] have *: "set stack \<subseteq> set (walk ps [] stack)"
    "child_of ps `` set (walk ps [] stack) \<subseteq> set (walk ps [] stack)" by auto
  show ?thesis
  proof
    fix a assume "a \<in> (child_of ps)\<^sup>* `` set stack"
    then obtain c where "(c, a) \<in> (child_of ps)\<^sup>*" "c \<in> set stack" by auto
    then show "a \<in> set (walk ps [] stack)"
      by (induction rule: rtrancl_induct) (use * in auto)
  qed
qed

lemma set_cwe_ancestors:
  "set (cwe_ancestors ps cid) = {a. (cid, a) \<in> (child_of ps)\<^sup>+}"
proof -
  have "set (cwe_ancestors ps cid) = (child_of ps)\<^sup>* `` set (parents_of ps cid)"
  proof (cases "map_of ps cid")
    case (Some direct)
    have "set (walk ps [] direct) = (child_of ps)\<^sup>* `` set direct"
      using walk_sound [of ps "[]" direct] walk_complete [of ps direct] by auto
    then show ?thesis using Some by (simp add: cwe_ancestors_def hierarchy_def parents_of_def map_of_map)
  qed (simp add: cwe_ancestors_def hierarchy_def parents_of_def map_of_map)
  also have "\<dots> = {a. (cid, a) \<in> (child_of ps)\<^sup>+}"
    by (auto simp: trancl_unfold_left child_of_def)
  finally show ?thesis .
qed

section \<open>One line of the source\<close>

definition cwe_id :: "pydict \<Rightarrow> string option" where
  "cwe_id finding =
     (let s = strip (py_str (get_or finding ''category'' (PStr []))); digits = drop 4 s in
      if lower (take 4 s) = ''cwe-'' \<and> digits \<noteq> [] \<and> list_all is_digit digits then Some digits else None)"

type_synonym row = "nat \<times> pydict"
type_synonym ancestors = "string \<Rightarrow> string list"

definition generalises_any :: "string \<Rightarrow> string list \<Rightarrow> ancestors \<Rightarrow> bool" where
  "generalises_any cid ids anc = list_ex (\<lambda>other. other \<noteq> cid \<and> cid \<in> set (anc other)) ids"

definition redundant_ids :: "string list \<Rightarrow> ancestors \<Rightarrow> string list" where
  "redundant_ids ids anc = filter (\<lambda>cid. generalises_any cid ids anc) ids"

definition group_ids :: "row list \<Rightarrow> string list" where
  "group_ids pairs = remdups (List.map_filter (\<lambda>(i, row). cwe_id row) pairs)"

definition in_ids :: "string option \<Rightarrow> string list \<Rightarrow> bool" where
  "in_ids c ids = (case c of None \<Rightarrow> False | Some cid \<Rightarrow> cid \<in> set ids)"

definition split_rows :: "row list \<Rightarrow> string list \<Rightarrow> row list \<times> row list" where
  "split_rows pairs redundant =
     (filter (\<lambda>(i, row). \<not> in_ids (cwe_id row) redundant) pairs, filter (\<lambda>(i, row). in_ids (cwe_id row) redundant) pairs)"

definition absorbed_rows :: "pydict \<Rightarrow> row list \<Rightarrow> ancestors \<Rightarrow> pydict list" where
  "absorbed_rows row dropped anc =
     (let above = anc (case cwe_id row of None \<Rightarrow> [] | Some cid \<Rightarrow> cid) in
      filter (\<lambda>d. in_ids (cwe_id d) above) (map snd dropped))"

definition EM_DASH :: string where "EM_DASH = [CHR 0x20, CHR 0xE2, CHR 0x80, CHR 0x94, CHR 0x20]"

definition absorbed_line :: "pydict \<Rightarrow> string" where
  "absorbed_line row =
     ''Also reported as '' @ py_str (get_or row ''category'' (PStr ''?'')) @ '': '' @
     join EM_DASH (filter (\<lambda>b. b \<noteq> []) (map (\<lambda>k. strip (text_field row k)) [''title'', ''recommendation'']))"

definition absorbed_note :: "pydict list \<Rightarrow> string" where
  "absorbed_note absorbed = join '' '' (map absorbed_line absorbed)"

definition appended_description :: "pydict \<Rightarrow> string \<Rightarrow> string" where
  "appended_description row note =
     (let existing = rstrip (text_field row ''description'') in
      if existing = [] then note else strip (existing @ '' '' @ note))"

definition collapsed_entry :: "pydict \<Rightarrow> pyval" where
  "collapsed_entry a = PDict (map (\<lambda>k. (k, get a k)) [''category'', ''title'', ''recommendation'', ''check_id''])"

definition merge_absorbed :: "pydict \<Rightarrow> pydict list \<Rightarrow> pydict" where
  "merge_absorbed row absorbed =
     (let merged = put ''collapsed_from'' (PList (map collapsed_entry absorbed)) row in
      put ''description'' (PStr (appended_description merged (absorbed_note absorbed))) merged)"

definition promote_row :: "pydict \<Rightarrow> row list \<Rightarrow> ancestors \<Rightarrow> pydict result" where
  "promote_row row dropped anc =
     (let absorbed = absorbed_rows row dropped anc in
      if absorbed = [] then Ret row
      else let merged = merge_absorbed row absorbed in
        bind_result (max_severity (get_or merged ''severity'' (PStr []) # map (\<lambda>a. get_or a ''severity'' (PStr [])) absorbed))
          (\<lambda>s. Ret (put ''severity'' s merged)))"

definition promote :: "row list \<Rightarrow> row list \<Rightarrow> ancestors \<Rightarrow> row list result" where
  "promote kept dropped anc =
     map_result (\<lambda>(i, row). bind_result (promote_row row dropped anc) (\<lambda>r. Ret (i, r))) kept"

definition collapse_group :: "row list \<Rightarrow> ancestors \<Rightarrow> row list result" where
  "collapse_group pairs anc =
     (let ids = group_ids pairs; redundant = redundant_ids ids anc in
      if redundant = [] \<or> set redundant = set ids then Ret pairs
      else case split_rows pairs redundant of (kept, dropped) \<Rightarrow> promote kept dropped anc)"

definition line_key :: "pydict \<Rightarrow> (string \<times> int) option" where
  "line_key finding =
     (let path = get finding ''file_path'' in
      if \<not> truthy path then None
      else case get finding ''line_start'' of
        PInt n \<Rightarrow> Some (py_str path, n) | PBool b \<Rightarrow> Some (py_str path, of_bool b) | _ \<Rightarrow> None)"

definition grouped :: "pydict list \<Rightarrow> ((string \<times> int) option \<times> row list) list" where
  "grouped findings =
     map (\<lambda>(k, is). (k, map (\<lambda>i. (i, findings ! i)) is)) (index_groups (map line_key findings))"

definition collapse_stack :: "ancestors \<Rightarrow> (string \<times> int) option \<times> row list \<Rightarrow> row list result" where
  "collapse_stack anc g = (case g of (key, pairs) \<Rightarrow>
     if key = None \<or> length pairs < 2 then Ret pairs else collapse_group pairs anc)"

definition collapse_line_stacks :: "pydict list \<Rightarrow> ancestors \<Rightarrow> (pydict list \<times> nat) result" where
  "collapse_line_stacks findings anc =
     bind_result (map_result (collapse_stack anc) (grouped findings)) (\<lambda>parts.
       let survivors = sort_key fst (concat parts) in
       Ret (map snd survivors, length findings - length survivors))"

definition collapse_skill_findings ::
  "env \<Rightarrow> catalog_world \<Rightarrow> pydict list \<Rightarrow> pydict list \<times> nat" where
  "collapse_skill_findings env w findings =
     (if lower (environ_get env ''VULTURE_DISABLE_LINE_COLLAPSE'') = ''true'' then (findings, 0)
      else case bind_result (packaged_parents w) (\<lambda>ps. collapse_line_stacks findings (cwe_ancestors ps)) of
        Inr r \<Rightarrow> r
      | Inl e \<Rightarrow> (findings, 0))"

section \<open>The order of the ids\<close>

text \<open>What the collapse relies on: the resolver it is handed is transitive. Under it, and without a cycle
  among the ids of a line, every id that generalises another has a leaf of the line below it.\<close>

locale ancestry =
  fixes anc :: ancestors
  assumes anc_trans: "a \<in> set (anc b) \<Longrightarrow> b \<in> set (anc c) \<Longrightarrow> a \<in> set (anc c)"
begin

lemma leaf_below:
  assumes acyc: "\<forall>c \<in> set ids. c \<notin> set (anc c)" and red: "cid \<in> set (redundant_ids ids anc)"
  obtains leaf where "leaf \<in> set ids" "leaf \<notin> set (redundant_ids ids anc)" "cid \<in> set (anc leaf)"
proof -
  let ?r = "{(x, y). x \<in> set ids \<and> y \<in> set ids \<and> y \<in> set (anc x)}"
  have "?r \<subseteq> set ids \<times> set ids" by auto
  then have "finite ?r" by (rule finite_subset) simp
  moreover have "trans ?r" by (auto intro!: transI elim: anc_trans)
  then have "acyclic ?r" using acyc by (auto simp: acyclic_def)
  ultimately have "wf ?r" by (rule finite_acyclic_wf)
  moreover have "{x \<in> set ids. cid \<in> set (anc x)} \<noteq> {}"
    using red by (auto simp: redundant_ids_def generalises_any_def list_ex_iff)
  ultimately obtain leaf where "leaf \<in> {x \<in> set ids. cid \<in> set (anc x)}"
    and least: "\<And>y. (y, leaf) \<in> ?r \<Longrightarrow> y \<notin> {x \<in> set ids. cid \<in> set (anc x)}"
    by (metis (no_types, lifting) wfE_min ex_in_conv)
  then have leaf: "leaf \<in> set ids" "cid \<in> set (anc leaf)" by auto
  have "leaf \<notin> set (redundant_ids ids anc)"
    using leaf least by (auto simp: redundant_ids_def generalises_any_def list_ex_iff dest: anc_trans)
  with leaf show thesis by (intro that)
qed

end

interpretation catalog: ancestry "cwe_ancestors ps" for ps
  by unfold_locales (auto simp: set_cwe_ancestors)

section \<open>What a collapse keeps of each row\<close>

definition carries :: "pydict \<Rightarrow> pydict \<Rightarrow> bool" where
  "carries f r \<longleftrightarrow> (\<forall>k. k \<notin> {''collapsed_from'', ''description'', ''severity''} \<longrightarrow> map_of r k = map_of f k)"

lemma carries_refl [simp]: "carries f f"
  by (simp add: carries_def)

lemma carries_merge [simp]: "carries f (merge_absorbed f absorbed)"
  by (simp add: carries_def merge_absorbed_def Let_def)

lemma carries_get: "carries f r \<Longrightarrow> k \<notin> {''collapsed_from'', ''description'', ''severity''} \<Longrightarrow> get_or r k d = get_or f k d"
  by (simp add: carries_def get_or_def)

lemma carries_ids: "carries f r \<Longrightarrow> cwe_id r = cwe_id f" "carries f r \<Longrightarrow> line_key r = line_key f"
  by (simp_all add: carries_get cwe_id_def line_key_def Let_def)

lemma carries_severity [simp]: "carries f (put ''severity'' s r) \<longleftrightarrow> carries f r"
  by (simp add: carries_def)

lemma promote_row_carries: "promote_row f dropped anc = Ret r \<Longrightarrow> carries f r"
  by (auto simp: promote_row_def Let_def bind_result_Ret split: if_splits)

definition stays :: "ancestors \<Rightarrow> row list \<Rightarrow> row \<Rightarrow> bool" where
  "stays anc pairs p \<longleftrightarrow> (let ids = group_ids pairs; redundant = redundant_ids ids anc in
     length pairs < 2 \<or> redundant = [] \<or> set redundant = set ids \<or> \<not> in_ids (cwe_id (snd p)) redundant)"

definition same_place :: "row \<Rightarrow> row \<Rightarrow> bool" where
  "same_place p q \<longleftrightarrow> fst q = fst p \<and> carries (snd p) (snd q)"

lemma promote_same_place: "promote kept dropped anc = Ret out \<Longrightarrow> list_all2 same_place kept out"
proof (induction kept arbitrary: out)
  case (Cons p kept)
  then show ?case
    by (cases p) (auto simp: promote_def bind_result_Ret same_place_def dest: promote_row_carries)
qed (simp add: promote_def)

lemma stack_same_place:
  assumes "collapse_stack anc (Some k, pairs) = Ret out"
  shows "list_all2 same_place (filter (stays anc pairs) pairs) out"
proof -
  let ?red = "redundant_ids (group_ids pairs) anc"
  have refl: "list_all2 same_place ps ps" for ps
    by (simp add: list_all2_same same_place_def)
  consider "length pairs < 2 \<or> ?red = [] \<or> set ?red = set (group_ids pairs)"
    | "\<not> (length pairs < 2 \<or> ?red = [] \<or> set ?red = set (group_ids pairs))" by blast
  then show ?thesis
  proof cases
    case 1
    then have "filter (stays anc pairs) pairs = pairs" by (auto simp: stays_def Let_def)
    moreover have "out = pairs"
      using assms 1 by (cases "length pairs < 2") (auto simp: collapse_stack_def collapse_group_def Let_def)
    ultimately have "out = pairs" "filter (stays anc pairs) pairs = pairs" by simp_all
    then show ?thesis using refl by simp
  next
    case 2
    then have "filter (stays anc pairs) pairs = fst (split_rows pairs ?red)"
      by (simp add: stays_def Let_def split_rows_def case_prod_unfold cong: filter_cong)
    moreover have "promote (fst (split_rows pairs ?red)) (snd (split_rows pairs ?red)) anc = Ret out"
      using assms 2 by (simp add: collapse_stack_def collapse_group_def Let_def case_prod_beta split: if_splits)
    ultimately show ?thesis by (auto dest: promote_same_place)
  qed
qed

section \<open>What a survivor says of the rows it absorbed\<close>

definition at_least :: "pydict \<Rightarrow> pydict \<Rightarrow> bool" where
  "at_least f r \<longleftrightarrow> (\<exists>a b. severity_rank (get_or f ''severity'' (PStr [])) = Ret a
     \<and> severity_rank (get_or r ''severity'' (PStr [])) = Ret b \<and> a \<le> b)"

lemma map_result_zip: "map_result f xs = Ret ys \<Longrightarrow> (y, x) \<in> set (zip ys xs) \<Longrightarrow> f x = Ret y"
  by (induction xs arbitrary: ys) (auto simp: bind_result_Ret)

lemma max_severity_top:
  assumes "max_severity sevs = Ret s" and "x \<in> set sevs"
  shows "\<exists>a b. severity_rank x = Ret a \<and> severity_rank s = Ret b \<and> a \<le> b"
proof -
  obtain t ts where sevs: "sevs = t # ts" using assms(2) by (cases sevs) auto
  then obtain ranks where ranks: "map_result severity_rank (t # ts) = Ret ranks"
    and s: "s = snd (max_key fst (hd ranks, t) (zip (tl ranks) ts))"
    using assms(1) by (auto simp: max_severity_def bind_result_Ret)
  let ?best = "max_key fst (hd ranks, t) (zip (tl ranks) ts)"
  obtain r rs where rs: "ranks = r # rs" using ranks by (auto simp: bind_result_Ret)
  have "?best \<in> set (zip ranks (t # ts))" using max_key_in [of fst "(r, t)" "zip rs ts"] rs by simp
  then have b: "severity_rank s = Ret (fst ?best)"
    using map_result_zip [OF ranks, of "fst ?best" "snd ?best"] s by simp
  obtain a where a: "severity_rank x = Ret a" "(a, x) \<in> set (zip ranks (t # ts))"
    using map_result_zip [OF ranks] map_result_length [OF ranks] assms(2) sevs
    by (metis in_set_impl_in_set_zip2)
  then have "a \<le> fst ?best" using max_key_ge [of "(a, x)" "(r, t)" "zip rs ts" fst] rs by simp
  with a b show ?thesis by blast
qed

definition absorbs :: "pydict \<Rightarrow> pydict \<Rightarrow> bool" where
  "absorbs r f \<longleftrightarrow> (\<exists>es. get r ''collapsed_from'' = PList es \<and> collapsed_entry f \<in> set es) \<and> at_least f r"

lemma merge_collapsed_from [simp]:
  "get (merge_absorbed row absorbed) ''collapsed_from'' = PList (map collapsed_entry absorbed)"
  by (simp add: merge_absorbed_def Let_def)

lemma promote_row_absorbs:
  assumes "promote_row row dropped anc = Ret r" and "f \<in> set (absorbed_rows row dropped anc)"
  shows "absorbs r f"
proof -
  let ?as = "absorbed_rows row dropped anc" and ?sev = "\<lambda>a. get_or a ''severity'' (PStr [])"
  have "?as \<noteq> []" using assms(2) by auto
  then obtain s where s: "max_severity (?sev (merge_absorbed row ?as) # map ?sev ?as) = Ret s"
    and r: "r = put ''severity'' s (merge_absorbed row ?as)"
    using assms(1) by (auto simp: promote_row_def Let_def bind_result_Ret)
  show ?thesis
    using max_severity_top [OF s, of "?sev f"] assms(2) by (simp add: absorbs_def at_least_def r)
qed

lemma promote_each:
  "promote kept dropped anc = Ret out \<Longrightarrow> (i, row) \<in> set kept \<Longrightarrow> \<exists>r. (i, r) \<in> set out \<and> promote_row row dropped anc = Ret r"
  unfolding promote_def by (drule (1) map_result_each) (auto simp: bind_result_Ret)

lemma in_group_ids: "cid \<in> set (group_ids pairs) \<longleftrightarrow> (\<exists>p \<in> set pairs. cwe_id (snd p) = Some cid)"
  by (auto simp: group_ids_def in_set_map_filter case_prod_beta)

context ancestry
begin

text \<open>A row that does not stay has a row of its line that does, below it in the hierarchy, and that row
  records it.\<close>

lemma dropped_is_absorbed:
  assumes out: "collapse_stack anc (Some k, pairs) = Ret out"
    and acyc: "\<forall>c. c \<notin> set (anc c)" and f: "(i, f) \<in> set pairs" and gone: "\<not> stays anc pairs (i, f)"
  obtains j g r cid leaf where "(j, g) \<in> set pairs" "(j, r) \<in> set out" "carries g r"
    "cwe_id f = Some cid" "cwe_id g = Some leaf" "cid \<in> set (anc leaf)" "absorbs r f"
proof -
  let ?red = "redundant_ids (group_ids pairs) anc"
  obtain cid where cid: "cwe_id f = Some cid" "cid \<in> set ?red"
    using gone by (auto simp: stays_def Let_def in_ids_def split: option.splits)
  have "\<forall>c \<in> set (group_ids pairs). c \<notin> set (anc c)" using acyc by simp
  from leaf_below [OF this cid(2)] obtain leaf
    where leaf: "leaf \<in> set (group_ids pairs)" "leaf \<notin> set ?red" "cid \<in> set (anc leaf)" by blast
  obtain j g where g: "(j, g) \<in> set pairs" "cwe_id g = Some leaf" using leaf(1) by (auto simp: in_group_ids)
  have split: "promote (fst (split_rows pairs ?red)) (snd (split_rows pairs ?red)) anc = Ret out"
    using out gone by (simp add: stays_def collapse_stack_def collapse_group_def Let_def case_prod_beta split: if_splits)
  have "(j, g) \<in> set (fst (split_rows pairs ?red))" using g leaf by (auto simp: split_rows_def in_ids_def)
  from promote_each [OF split this] obtain r
    where r: "(j, r) \<in> set out" "promote_row g (snd (split_rows pairs ?red)) anc = Ret r" by blast
  have "f \<in> set (absorbed_rows g (snd (split_rows pairs ?red)) anc)"
    using f cid g leaf by (force simp: absorbed_rows_def split_rows_def in_ids_def)
  then have "absorbs r f" by (rule promote_row_absorbs [OF r(2)])
  with g r cid leaf show thesis by (intro that) (auto dest: promote_row_carries)
qed

end

section \<open>The whole pass\<close>

lemma in_grouped:
  "(k, pairs) \<in> set (grouped fs) \<longleftrightarrow> k \<in> line_key ` set fs \<and>
     pairs = map (\<lambda>i. (i, fs ! i)) (filter (\<lambda>i. line_key (fs ! i) = k) [0..<length fs])"
proof -
  have same: "filter (\<lambda>i. map line_key fs ! i = k) [0..<length fs] = filter (\<lambda>i. line_key (fs ! i) = k) [0..<length fs]"
    by (rule filter_cong) simp_all
  have "(k, pairs) \<in> set (grouped fs) \<longleftrightarrow>
      (\<exists>is. (k, is) \<in> set (index_groups (map line_key fs)) \<and> pairs = map (\<lambda>i. (i, fs ! i)) is)"
    by (force simp: grouped_def image_iff)
  then show ?thesis by (auto simp: in_index_groups same)
qed

lemma own_group:
  assumes "i < length fs"
  obtains pairs where "(line_key (fs ! i), pairs) \<in> set (grouped fs)" "(i, fs ! i) \<in> set pairs"
proof
  let ?pairs = "map (\<lambda>j. (j, fs ! j)) (filter (\<lambda>j. line_key (fs ! j) = line_key (fs ! i)) [0..<length fs])"
  show "(line_key (fs ! i), ?pairs) \<in> set (grouped fs)" using assms by (auto simp: in_grouped)
  show "(i, fs ! i) \<in> set ?pairs" using assms by auto
qed

lemma grouped_row: "(k, pairs) \<in> set (grouped fs) \<Longrightarrow> (j, g) \<in> set pairs \<Longrightarrow> j < length fs \<and> g = fs ! j \<and> line_key g = k"
  by (auto simp: in_grouped)

definition kept_row :: "ancestors \<Rightarrow> (string \<times> int) option \<Rightarrow> row list \<Rightarrow> row \<Rightarrow> bool" where
  "kept_row anc k pairs p \<longleftrightarrow> k = None \<or> stays anc pairs p"

lemma stack_kept_rows:
  assumes "collapse_stack anc (k, pairs) = Ret out"
  shows "list_all2 same_place (filter (kept_row anc k pairs) pairs) out"
proof (cases k)
  case None
  have "list_all2 same_place pairs pairs" by (simp add: list_all2_same same_place_def)
  then show ?thesis using None assms by (simp add: collapse_stack_def kept_row_def)
next
  case (Some key)
  then have "kept_row anc k pairs = stays anc pairs" by (auto simp: kept_row_def)
  then show ?thesis using stack_same_place assms Some by simp
qed

lemma same_place_firsts: "list_all2 same_place ps qs \<Longrightarrow> map fst qs = map fst ps"
  by (induction rule: list_all2_induct) (auto simp: same_place_def)

lemma same_place_in: "list_all2 same_place ps qs \<Longrightarrow> (i, f) \<in> set ps \<Longrightarrow> \<exists>r. (i, r) \<in> set qs \<and> carries f r"
  by (induction rule: list_all2_induct) (auto simp: same_place_def)

lemma same_place_from: "list_all2 same_place ps qs \<Longrightarrow> (i, r) \<in> set qs \<Longrightarrow> \<exists>f. (i, f) \<in> set ps \<and> carries f r"
  by (induction rule: list_all2_induct) (auto simp: same_place_def)

definition survivors :: "pydict list \<Rightarrow> ancestors \<Rightarrow> row list \<Rightarrow> bool" where
  "survivors fs anc surv \<longleftrightarrow> (\<exists>parts. map_result (collapse_stack anc) (grouped fs) = Ret parts \<and> surv = sort_key fst (concat parts))"

lemma collapse_survivors:
  assumes "collapse_line_stacks fs anc = Ret (kept, n)"
  obtains surv where "survivors fs anc surv" "kept = map snd surv" "n = length fs - length surv"
  using assms by (auto simp: collapse_line_stacks_def bind_result_Ret Let_def survivors_def)

lemma survivors_from_group:
  assumes "survivors fs anc surv" and "(k, pairs) \<in> set (grouped fs)"
  obtains out where "collapse_stack anc (k, pairs) = Ret out" "set out \<subseteq> set surv"
  using assms map_result_each by (fastforce simp: survivors_def)

lemma survivor_origin:
  assumes "survivors fs anc surv" and "(i, r) \<in> set surv"
  shows "i < length fs \<and> carries (fs ! i) r"
proof -
  obtain k pairs out where g: "(k, pairs) \<in> set (grouped fs)" "collapse_stack anc (k, pairs) = Ret out" "(i, r) \<in> set out"
    using assms by (auto simp: survivors_def in_map_result)
  from same_place_from [OF stack_kept_rows [OF g(2)] g(3)] obtain f
    where "(i, f) \<in> set pairs" "carries f r" by auto
  with grouped_row [OF g(1)] show ?thesis by auto
qed

lemma distinct_concat_keyed:
  "list_all2 (\<lambda>k xs. distinct xs \<and> (\<forall>x \<in> set xs. h x = k)) ks xss \<Longrightarrow> distinct ks \<Longrightarrow> distinct (concat xss)"
proof (induction rule: list_all2_induct)
  case (Cons k ks xs xss)
  have "h x \<in> set ks" if "x \<in> set ys" "ys \<in> set xss" for x ys
    using Cons(2) that by (induction rule: list_all2_induct) auto
  moreover have "h x = k" "k \<notin> set ks" if "x \<in> set xs" for x using Cons that by auto
  ultimately have "set xs \<inter> set (concat xss) = {}" by auto
  then show ?case using Cons by simp
qed simp

lemma survivors_distinct:
  assumes "survivors fs anc surv"
  shows "distinct (map fst surv)"
proof -
  obtain parts where parts: "map_result (collapse_stack anc) (grouped fs) = Ret parts" and surv: "surv = sort_key fst (concat parts)"
    using assms by (auto simp: survivors_def)
  let ?keyed = "\<lambda>k xs. distinct xs \<and> (\<forall>i \<in> set xs. line_key (fs ! i) = k)"
  have key: "?keyed (fst g) (map fst out)" if g: "g \<in> set (grouped fs)" and out: "collapse_stack anc g = Ret out" for g out
  proof -
    obtain k pairs where kp: "g = (k, pairs)" by (cases g)
    have f: "map fst out = map fst (filter (kept_row anc k pairs) pairs)"
      by (rule same_place_firsts [OF stack_kept_rows]) (use out kp in simp)
    have p: "pairs = map (\<lambda>i. (i, fs ! i)) (filter (\<lambda>i. line_key (fs ! i) = k) [0..<length fs])"
      using g kp by (simp add: in_grouped)
    have "distinct (map fst pairs)" by (simp add: p o_def)
    then show ?thesis using grouped_row [of k pairs fs] g kp by (auto simp: f distinct_map_filter)
  qed
  have "list_all2 (\<lambda>g out. ?keyed (fst g) (map fst out)) (grouped fs) parts"
    by (rule list.rel_mono_strong [OF list_all2_map_result [OF parts]]) (use key in blast)
  then have "list_all2 ?keyed (map fst (grouped fs)) (map (map fst) parts)"
    by (simp add: list_all2_map1 list_all2_map2)
  moreover have "distinct (map fst (grouped fs))"
    by (simp add: grouped_def o_def case_prod_beta distinct_index_groups)
  ultimately have "distinct (concat (map (map fst) parts))" by (rule distinct_concat_keyed)
  then have "distinct (map fst (concat parts))" by (simp add: map_concat)
  then show ?thesis by (simp add: surv distinct_map)
qed

lemma survivors_ordered: "survivors fs anc surv \<Longrightarrow> sorted_wrt (<) (map fst surv)"
  using survivors_distinct [of fs anc surv] by (auto simp: survivors_def strict_sorted_iff)

lemma survivors_bound:
  assumes "survivors fs anc surv"
  shows "length surv \<le> length fs"
proof -
  have "set (map fst surv) \<subseteq> {..<length fs}" using survivor_origin [OF assms] by auto
  then have "card (set (map fst surv)) \<le> length fs" using card_mono [of "{..<length fs}"] by fastforce
  then show ?thesis using distinct_card [OF survivors_distinct [OF assms]] by simp
qed

lemma survivor_of:
  assumes "survivors fs anc surv" and "i < length fs" and "(line_key (fs ! i), pairs) \<in> set (grouped fs)"
    and "kept_row anc (line_key (fs ! i)) pairs (i, fs ! i)"
  shows "\<exists>r. (i, r) \<in> set surv \<and> carries (fs ! i) r"
proof -
  obtain out where out: "collapse_stack anc (line_key (fs ! i), pairs) = Ret out" "set out \<subseteq> set surv"
    using survivors_from_group assms(1,3) by blast
  have "(i, fs ! i) \<in> set (filter (kept_row anc (line_key (fs ! i)) pairs) pairs)"
    using assms by (auto simp: in_grouped)
  from same_place_in [OF stack_kept_rows [OF out(1)] this] out(2) show ?thesis by blast
qed

lemma group_has_key:
  assumes "(k, pairs) \<in> set (grouped fs)" and "(i, f) \<in> set pairs" and "\<not> kept_row anc k pairs (i, f)"
  shows "k \<noteq> None \<and> \<not> stays anc pairs (i, f)"
  using assms by (simp add: kept_row_def)

context ancestry
begin

lemma dropped_row_is_absorbed:
  assumes surv: "survivors fs anc surv" and acyc: "\<forall>c. c \<notin> set (anc c)" and i: "i < length fs"
    and pairs: "(line_key (fs ! i), pairs) \<in> set (grouped fs)" "(i, fs ! i) \<in> set pairs"
    and gone: "\<not> kept_row anc (line_key (fs ! i)) pairs (i, fs ! i)"
  shows "\<exists>j r cid leaf. (j, r) \<in> set surv \<and> line_key r = line_key (fs ! i) \<and> line_key r \<noteq> None \<and>
    cwe_id (fs ! i) = Some cid \<and> cwe_id r = Some leaf \<and> cid \<in> set (anc leaf) \<and> absorbs r (fs ! i)"
proof -
  obtain k where k: "line_key (fs ! i) = Some k" and out_of: "\<not> stays anc pairs (i, fs ! i)"
    using group_has_key [OF pairs gone] by auto
  obtain out where out: "collapse_stack anc (Some k, pairs) = Ret out" "set out \<subseteq> set surv"
    using survivors_from_group [OF surv] pairs(1) k by metis
  from dropped_is_absorbed [OF out(1) acyc pairs(2) out_of] obtain j g r cid leaf
    where g: "(j, g) \<in> set pairs" "(j, r) \<in> set out" "carries g r" and ids: "cwe_id (fs ! i) = Some cid"
      "cwe_id g = Some leaf" "cid \<in> set (anc leaf)" "absorbs r (fs ! i)" by blast
  have "(j, r) \<in> set surv" using g(2) out(2) by blast
  moreover have "line_key r = line_key (fs ! i)" "cwe_id r = Some leaf"
    using carries_ids [OF g(3)] grouped_row [OF pairs(1) g(1)] ids(2) by auto
  ultimately show ?thesis
    by (intro exI [of _ j] exI [of _ r] exI [of _ cid] exI [of _ leaf]) (use ids k in simp)
qed

end

section \<open>The promises of the pass\<close>

text \<open>C32. The ids the code calls the ancestors of an id are exactly those that a chain of one or more ChildOf edges
  of the catalog leads to: the walk ends and computes the transitive closure, on a catalog with cycles too.\<close>

theorem ancestors_are_the_closure: "set (cwe_ancestors ps cid) = {a. (cid, a) \<in> (child_of ps)\<^sup>+}"
  by (rule set_cwe_ancestors)

text \<open>Nothing is destroyed by the collapse of skill findings: on a catalog without cycles every finding is
  still there with all its fields (description, severity and the record of absorbed rows aside), or a
  survivor of the same file and line, whose CWE is a descendant of its own, lists it among the rows it
  absorbed and has a severity at least as high.\<close>

theorem collapse_loses_no_row:
  assumes call: "collapse_line_stacks fs (cwe_ancestors ps) = Ret (kept, n)" and acyc: "acyclic (child_of ps)"
    and f: "f \<in> set fs"
  shows "(\<exists>r \<in> set kept. carries f r) \<or>
    (\<exists>r \<in> set kept. \<exists>cid leaf. line_key r = line_key f \<and> line_key r \<noteq> None \<and> cwe_id f = Some cid \<and>
       cwe_id r = Some leaf \<and> (leaf, cid) \<in> (child_of ps)\<^sup>+ \<and> absorbs r f)"
proof -
  obtain surv where surv: "survivors fs (cwe_ancestors ps) surv" and kept: "kept = map snd surv"
    using collapse_survivors [OF call] by blast
  obtain i where i: "i < length fs" "f = fs ! i" using f by (auto simp: in_set_conv_nth)
  obtain pairs where pairs: "(line_key (fs ! i), pairs) \<in> set (grouped fs)" "(i, fs ! i) \<in> set pairs"
    using own_group [OF i(1)] by blast
  have no_cycle: "\<forall>c. c \<notin> set (cwe_ancestors ps c)" using acyc by (auto simp: set_cwe_ancestors acyclic_def)
  show ?thesis
  proof (cases "kept_row (cwe_ancestors ps) (line_key (fs ! i)) pairs (i, fs ! i)")
    case True
    then show ?thesis using survivor_of [OF surv i(1) pairs(1)] kept i(2) by force
  next
    case False
    from catalog.dropped_row_is_absorbed [OF surv no_cycle i(1) pairs False] obtain j r cid leaf
      where "(j, r) \<in> set surv" and r: "line_key r = line_key f" "line_key r \<noteq> None" "cwe_id f = Some cid"
        "cwe_id r = Some leaf" "(leaf, cid) \<in> (child_of ps)\<^sup>+" "absorbs r f"
      unfolding i(2) set_cwe_ancestors mem_Collect_eq by blast
    then have "r \<in> set kept" by (force simp: kept)
    with r show ?thesis by blast
  qed
qed

text \<open>Two CWEs neither of which is an ancestor of the other never collapse: a finding whose id is not above
  the id of another finding of its line is still there.\<close>

theorem siblings_survive:
  assumes call: "collapse_line_stacks fs (cwe_ancestors ps) = Ret (kept, n)" and f: "f \<in> set fs"
    and apart: "\<forall>g \<in> set fs. \<forall>cid leaf. line_key g = line_key f \<and> cwe_id f = Some cid \<and> cwe_id g = Some leaf
      \<and> leaf \<noteq> cid \<longrightarrow> (leaf, cid) \<notin> (child_of ps)\<^sup>+"
  shows "\<exists>r \<in> set kept. carries f r"
proof -
  obtain surv where surv: "survivors fs (cwe_ancestors ps) surv" and kept: "kept = map snd surv"
    using collapse_survivors [OF call] by blast
  obtain i where i: "i < length fs" "f = fs ! i" using f by (auto simp: in_set_conv_nth)
  obtain pairs where pairs: "(line_key (fs ! i), pairs) \<in> set (grouped fs)" "(i, fs ! i) \<in> set pairs"
    using own_group [OF i(1)] by blast
  have "\<not> in_ids (cwe_id f) (redundant_ids (group_ids pairs) (cwe_ancestors ps))"
    using apart grouped_row [OF pairs(1)] i(2)
    by (force simp: in_ids_def redundant_ids_def generalises_any_def list_ex_iff in_group_ids set_cwe_ancestors split: option.splits)
  then have "kept_row (cwe_ancestors ps) (line_key (fs ! i)) pairs (i, fs ! i)"
    by (simp add: kept_row_def stays_def Let_def i(2))
  from survivor_of [OF surv i(1) pairs(1) this] show ?thesis using kept i(2) by force
qed

text \<open>The survivors are rows of the input, none twice, in the order they came in, and the count the function
  reports is the number of rows that went.\<close>

theorem collapse_keeps_order:
  assumes "collapse_line_stacks fs anc = Ret (kept, n)"
  shows "\<exists>is. sorted_wrt (<) is \<and> list_all2 (\<lambda>i r. i < length fs \<and> carries (fs ! i) r) is kept \<and> length kept + n = length fs"
proof -
  obtain surv where surv: "survivors fs anc surv" and kept: "kept = map snd surv" "n = length fs - length surv"
    using collapse_survivors [OF assms] by blast
  have "list_all2 (\<lambda>i r. i < length fs \<and> carries (fs ! i) r) (map fst surv) kept"
    using survivor_origin [OF surv] by (auto simp: kept list_all2_conv_all_nth in_set_conv_nth) (metis nth_mem prod.collapse)+
  then show ?thesis using survivors_ordered [OF surv] survivors_bound [OF surv] kept by auto
qed

end
