(* ===== verification/Collapse_Examples.thy ===== *)
theory Collapse_Examples
  imports Collapse
begin

text \<open>
  The collapse on concrete rows: two levels of one weakness on a line, the hypotheses of its promises, and
  what a catalog with a cycle does.
\<close>

definition ex_parents :: parents where "ex_parents = [(''798'', [''287'']), (''287'', [''284''])]"

definition ex_row :: "string \<Rightarrow> string \<Rightarrow> pydict" where
  "ex_row category severity = [(''file_path'', PStr ''a.py''), (''line_start'', PInt 7), (''category'', PStr category),
     (''title'', PStr category), (''severity'', PStr severity)]"

definition ex_stack :: "pydict list" where
  "ex_stack = [ex_row ''CWE-284'' ''high'', ex_row ''CWE-798'' ''medium'', ex_row ''CWE-79'' ''low'']"

definition ex_height :: "string \<Rightarrow> nat" where
  "ex_height c = (if c = ''798'' then 2 else if c = ''287'' then 1 else 0)"

lemma ex_acyclic: "acyclic (child_of ex_parents)"
  by (rule acyclicI_order [where f = ex_height])
    (auto simp: child_of_def parents_of_def ex_parents_def ex_height_def split: if_splits)

definition ex_kept :: "pydict list" where
  "ex_kept = (case collapse_line_stacks ex_stack (cwe_ancestors ex_parents) of Inr (kept, n) \<Rightarrow> kept | Inl e \<Rightarrow> [])"

lemma ex_call: "collapse_line_stacks ex_stack (cwe_ancestors ex_parents) = Ret (ex_kept, 1)"
  by code_simp

lemma ex_rows: "map (\<lambda>r. (get r ''category'', get r ''severity'')) ex_kept
    = [(PStr ''CWE-798'', PStr ''high''), (PStr ''CWE-79'', PStr ''low'')]"
  by code_simp

lemma ex_not_kept: "\<not> (\<exists>r \<in> set ex_kept. carries (ex_row ''CWE-284'' ''high'') r)"
proof
  assume "\<exists>r \<in> set ex_kept. carries (ex_row ''CWE-284'' ''high'') r"
  then obtain r where r: "r \<in> set ex_kept" "carries (ex_row ''CWE-284'' ''high'') r" by blast
  have "get r ''category'' \<in> set (map fst (map (\<lambda>r. (get r ''category'', get r ''severity'')) ex_kept))"
    using r(1) by force
  then have "get r ''category'' \<in> {PStr ''CWE-798'', PStr ''CWE-79''}" unfolding ex_rows by simp
  moreover have "get r ''category'' = PStr ''CWE-284''"
    using carries_get [OF r(2), of "''category''" PNone] by (simp add: ex_row_def get_or_def)
  ultimately show False by simp
qed

text \<open>The general row of the stack is gone and the survivor that absorbed it has its severity.\<close>

theorem collapse_loses_no_row_witness:
  "\<exists>r \<in> set ex_kept. \<exists>cid leaf. cwe_id (ex_row ''CWE-284'' ''high'') = Some cid \<and> cwe_id r = Some leaf
     \<and> (leaf, cid) \<in> (child_of ex_parents)\<^sup>+ \<and> absorbs r (ex_row ''CWE-284'' ''high'')"
  using collapse_loses_no_row [OF ex_call ex_acyclic, of "ex_row ''CWE-284'' ''high''"] ex_not_kept
  by (auto simp: ex_stack_def)

theorem siblings_survive_witness: "\<exists>r \<in> set ex_kept. carries (ex_row ''CWE-79'' ''low'') r"
proof (rule siblings_survive [OF ex_call])
  have "cwe_id (ex_row ''CWE-79'' ''low'') = Some ''79''" by code_simp
  moreover have "(leaf, ''79'') \<notin> (child_of ex_parents)\<^sup>+" for leaf
    by (auto simp: trancl_unfold_right child_of_def parents_of_def ex_parents_def split: if_splits)
  ultimately show "\<forall>g \<in> set ex_stack. \<forall>cid leaf. line_key g = line_key (ex_row ''CWE-79'' ''low'') \<and>
      cwe_id (ex_row ''CWE-79'' ''low'') = Some cid \<and> cwe_id g = Some leaf \<and> leaf \<noteq> cid \<longrightarrow> (leaf, cid) \<notin> (child_of ex_parents)\<^sup>+"
    by auto
qed (simp add: ex_stack_def)

theorem collapse_keeps_order_witness: "length ex_kept + 1 = length ex_stack"
  using collapse_keeps_order [OF ex_call] by auto

text \<open>A catalog with a cycle: the guard compares the redundant ids with all ids of the line, so a third
  category on the line lets both rows of the cycle go with no survivor that mentions them.\<close>

theorem cycle_beside_a_sibling_loses_both:
  "collapse_line_stacks [ex_row ''CWE-1'' ''high'', ex_row ''CWE-2'' ''high'', ex_row ''CWE-3'' ''low'']
     (cwe_ancestors [(''1'', [''2'']), (''2'', [''1''])]) = Ret ([ex_row ''CWE-3'' ''low''], 2)"
  by code_simp

end
