(* ===== verification/Category.thy ===== *)
theory Category
  imports Py_Regex Lines_Env
begin

text \<open>
  The category of a finding kept inside the vocabulary its agent declares
  (\<open>shared/tools/category_enum.py\<close> and \<open>_conform_category\<close> of \<open>shared/audit_runner.py\<close>): the folding of
  separators, the reduction to the longest declared leading token, the fallbacks, and the rewriting of
  a finding with its tally. The declared set is a list, in the order Python iterates over it; what the
  theorems say holds for every order. The context variables (the vocabulary and the tally of the audit)
  are arguments and results.
\<close>

section \<open>Folding\<close>

definition sep_char :: "char \<Rightarrow> bool" where
  "sep_char c = (is_space c \<or> c = CHR ''-'' \<or> c = CHR ''_'' \<or> c = CHR ''.'')"

definition SEP :: re where "SEP = plus_re (Cls sep_char)"
definition JOINER :: re where "JOINER = plus_re (Cls (\<lambda>c. c = CHR '','' \<or> c = CHR ''/''))"

definition joiner_folding_enabled :: "env \<Rightarrow> bool" where
  "joiner_folding_enabled env = env_flag env ''VULTURE_CATEGORY_JOINER'' True"

definition fold_category :: "env \<Rightarrow> string \<Rightarrow> string" where
  "fold_category env value =
     (let s = lower (strip value);
          t = (if joiner_folding_enabled env then re_sub JOINER ''_'' s else s) in
      strip_by (\<lambda>c. c = CHR ''_'') (re_sub SEP ''_'' t))"

section \<open>Reduction to the vocabulary\<close>

definition claims :: "env \<Rightarrow> string \<Rightarrow> string \<Rightarrow> bool" where
  "claims env folded candidate =
     (let token = fold_category env candidate in
      token \<noteq> [] \<and> (folded = token \<or> starts_with folded (token @ ''_'')))"

fun best_claim :: "env \<Rightarrow> string \<Rightarrow> string option \<Rightarrow> string list \<Rightarrow> string option" where
  "best_claim env folded best [] = best"
| "best_claim env folded best (candidate # cs) =
     best_claim env folded
       (if claims env folded candidate \<and> (case best of None \<Rightarrow> True
            | Some b \<Rightarrow> length (fold_category env b) < length (fold_category env candidate))
        then Some candidate else best) cs"

definition ascii_letter :: "char \<Rightarrow> bool" where
  "ascii_letter c = (is_alpha_us c \<and> c \<noteq> CHR ''_'')"

definition TOKEN :: re where
  "TOKEN = Alt (Cat (plus_re (Cls ascii_letter)) (Star (Cls is_digit))) (plus_re (Cls is_digit))"

definition tokens_of :: "string \<Rightarrow> string list" where
  "tokens_of category = map (\<lambda>m. case group m 0 of None \<Rightarrow> [] | Some g \<Rightarrow> g) (finditer TOKEN category)"

definition same_fold :: "env \<Rightarrow> string \<Rightarrow> string \<Rightarrow> bool" where
  "same_fold env token candidate = (fold_category env token = fold_category env candidate)"

fun first_of :: "env \<Rightarrow> string list \<Rightarrow> string list \<Rightarrow> string option" where
  "first_of env [] allowed = None"
| "first_of env (t # ts) allowed =
     (case first_such (same_fold env t) allowed of Some c \<Rightarrow> Some c | None \<Rightarrow> first_of env ts allowed)"

definition lead_letters :: "string \<Rightarrow> string" where
  "lead_letters category = take 12 (takeWhile ascii_letter (strip category))"

definition fallback_token :: "env \<Rightarrow> string \<Rightarrow> string list \<Rightarrow> string" where
  "fallback_token env category allowed =
     (case first_of env (tokens_of category) allowed of
        Some c \<Rightarrow> c
      | None \<Rightarrow> let lead = lead_letters category in
          if lead = [] then category
          else case first_such (same_fold env lead) allowed of Some c \<Rightarrow> c | None \<Rightarrow> category)"

definition normalize_to_enum :: "env \<Rightarrow> string \<Rightarrow> string list \<Rightarrow> string" where
  "normalize_to_enum env category allowed =
     (if category = [] \<or> category \<in> set allowed then category
      else let folded = fold_category env category in
        if folded = [] then category
        else case best_claim env folded None allowed of
          Some b \<Rightarrow> b
        | None \<Rightarrow> fallback_token env category allowed)"

definition split_practice_detail :: "string \<Rightarrow> string \<Rightarrow> string option" where
  "split_practice_detail category normalized = (if category = normalized then None else Some category)"

section \<open>The rewriting of a finding\<close>

record conform_tally =
  ct_rewritten :: nat
  ct_unreducible :: nat
  ct_pairs :: "((string \<times> string) \<times> nat) list"

definition zero_tally :: conform_tally where
  "zero_tally = \<lparr>ct_rewritten = 0, ct_unreducible = 0, ct_pairs = []\<rparr>"

definition conform_stats :: "conform_tally option \<Rightarrow> conform_tally" where
  "conform_stats cur = (case cur of None \<Rightarrow> zero_tally | Some t \<Rightarrow> t)"

definition reset_conform_stats :: "conform_tally option \<Rightarrow> conform_tally option" where
  "reset_conform_stats cur = Some zero_tally"

definition record_conform :: "string list \<Rightarrow> string \<Rightarrow> string \<Rightarrow> conform_tally option \<Rightarrow> conform_tally option" where
  "record_conform allowed raw fixed cur =
     (let t = conform_stats cur in
      Some (if raw = fixed then
              (if allowed \<noteq> [] \<and> raw \<notin> set allowed then t\<lparr>ct_unreducible := ct_unreducible t + 1\<rparr> else t)
            else t\<lparr>ct_rewritten := ct_rewritten t + 1, ct_pairs := bump (raw, fixed) (ct_pairs t)\<rparr>))"

definition set_default :: "string \<Rightarrow> pyval \<Rightarrow> pydict \<Rightarrow> pydict" where
  "set_default k v d = (if has_key d k then d else put k v d)"

definition reported_as :: "string \<Rightarrow> pydict \<Rightarrow> pydict" where
  "reported_as raw finding = (case get finding ''description'' of
     PStr desc \<Rightarrow> if contains raw desc then finding
       else put ''description'' (PStr (rstrip desc @ '' (reported as: '' @ raw @ '')'')) finding
   | _ \<Rightarrow> finding)"

definition conform_category ::
  "env \<Rightarrow> string list \<Rightarrow> pydict \<Rightarrow> conform_tally option \<Rightarrow> pydict \<times> conform_tally option" where
  "conform_category env allowed finding st =
     (if allowed = [] then (finding, st)
      else case get finding ''category'' of
        PStr raw \<Rightarrow> let fixed = normalize_to_enum env raw allowed; st' = record_conform allowed raw fixed st in
          if fixed = raw then (finding, st')
          else (reported_as raw (set_default ''practice'' (PStr raw) (put ''category'' (PStr fixed) finding)), st')
      | _ \<Rightarrow> (finding, st))"

section \<open>What the reduction promises\<close>

lemma best_claim_Some:
  "best_claim env folded best cs = Some r \<Longrightarrow>
   (best = Some r \<or> (r \<in> set cs \<and> claims env folded r)) \<and>
   (\<forall>c \<in> set cs. claims env folded c \<longrightarrow> length (fold_category env c) \<le> length (fold_category env r)) \<and>
   (\<forall>b. best = Some b \<longrightarrow> length (fold_category env b) \<le> length (fold_category env r))"
proof (induction cs arbitrary: best)
  case (Cons c cs)
  let ?new = "if claims env folded c \<and> (case best of None \<Rightarrow> True
      | Some b \<Rightarrow> length (fold_category env b) < length (fold_category env c)) then Some c else best"
  have "best_claim env folded ?new cs = Some r" using Cons.prems by simp
  note ih = Cons.IH [OF this]
  show ?case
  proof (cases "?new = best")
    case True
    then show ?thesis using ih by (cases best) (auto split: if_splits)
  next
    case False
    then have "?new = Some c" "claims env folded c"
      "\<forall>b. best = Some b \<longrightarrow> length (fold_category env b) < length (fold_category env c)"
      by (auto split: if_splits option.splits)
    then show ?thesis using ih by auto
  qed
qed simp

lemma best_claim_None:
  "best_claim env folded best cs = None \<longleftrightarrow> best = None \<and> (\<forall>c \<in> set cs. \<not> claims env folded c)"
  by (induction cs arbitrary: best) auto

lemma first_of_in: "first_of env ts allowed = Some c \<Longrightarrow> c \<in> set allowed"
  by (induction ts) (auto split: option.splits dest: first_such_Some)

lemma fallback_declared: "fallback_token env category allowed \<in> insert category (set allowed)"
  by (auto simp: fallback_token_def Let_def split: option.splits dest: first_of_in first_such_Some)

lemma normalize_declared: "normalize_to_enum env category allowed \<in> insert category (set allowed)"
  using fallback_declared by (auto simp: normalize_to_enum_def Let_def split: option.splits dest: best_claim_Some)

lemma normalize_idem:
  "normalize_to_enum env (normalize_to_enum env category allowed) allowed = normalize_to_enum env category allowed"
proof (cases "normalize_to_enum env category allowed = category")
  case False
  then have "normalize_to_enum env category allowed \<in> set allowed" using normalize_declared by blast
  then show ?thesis by (simp add: normalize_to_enum_def [of env "normalize_to_enum env category allowed"])
qed simp

text \<open>The reduction never guesses: its result is a declared category or the value as it was; a declared value
  stays; and when a declared token leads the folded value, the result is one that leads it and no other
  declared token that leads it is longer.\<close>

theorem reduction_takes_longest_declared_lead:
  "normalize_to_enum env category allowed \<in> insert category (set allowed) \<and>
   (category \<in> set allowed \<longrightarrow> normalize_to_enum env category allowed = category) \<and>
   (category \<noteq> [] \<and> category \<notin> set allowed \<and> (\<exists>c \<in> set allowed. claims env (fold_category env category) c) \<longrightarrow>
      (\<exists>r \<in> set allowed. normalize_to_enum env category allowed = r \<and> claims env (fold_category env category) r \<and>
        (\<forall>c \<in> set allowed. claims env (fold_category env category) c \<longrightarrow>
           length (fold_category env c) \<le> length (fold_category env r))))"
proof (intro conjI impI)
  let ?folded = "fold_category env category"
  assume a: "category \<noteq> [] \<and> category \<notin> set allowed \<and> (\<exists>c \<in> set allowed. claims env ?folded c)"
  then have "best_claim env ?folded None allowed \<noteq> None" by (simp add: best_claim_None)
  then obtain r where r: "best_claim env ?folded None allowed = Some r" by blast
  have "?folded \<noteq> []" using a by (auto simp: claims_def Let_def starts_with_def)
  then have "normalize_to_enum env category allowed = r" using a r by (simp add: normalize_to_enum_def Let_def)
  then show "\<exists>r \<in> set allowed. normalize_to_enum env category allowed = r \<and> claims env ?folded r \<and>
      (\<forall>c \<in> set allowed. claims env ?folded c \<longrightarrow> length (fold_category env c) \<le> length (fold_category env r))"
    using best_claim_Some [OF r] by auto
qed (use normalize_declared in \<open>auto simp: normalize_to_enum_def\<close>)

lemma get_set_default [simp]: "k' \<noteq> k \<Longrightarrow> get (set_default k v d) k' = get d k'"
  by (simp add: set_default_def)

lemma has_key_set_default [simp]: "has_key (set_default k v d) k' \<longleftrightarrow> k' = k \<or> has_key d k'"
  by (auto simp: set_default_def)

lemma reported_as_category [simp]: "get (reported_as raw f) ''category'' = get f ''category''"
  by (simp add: reported_as_def split: pyval.splits)

lemma reported_as_key [simp]: "has_key (reported_as raw f) ''practice'' \<longleftrightarrow> has_key f ''practice''"
  by (simp add: reported_as_def split: pyval.splits)

lemma reported_as_says:
  assumes "get f ''description'' = PStr d"
  shows "\<exists>d'. get (reported_as raw f) ''description'' = PStr d' \<and> contains raw d'"
proof (cases "contains raw d")
  case False
  have "contains raw (rstrip d @ '' (reported as: '' @ raw @ '')'')"
    unfolding contains_iff by (intro exI [of _ "rstrip d @ '' (reported as: ''"] exI [of _ "'')''"]) simp
  then show ?thesis using False assms by (simp add: reported_as_def)
qed (use assms in \<open>simp add: reported_as_def\<close>)

text \<open>Conforming a finding moves its category to a declared one or not at all, leaves what the agent said in
  the practice field and in a description that is text, and a second pass changes nothing more.\<close>

theorem conform_keeps_what_was_said:
  assumes call: "conform_category env allowed f st = (f', st')"
  shows "(f' = f \<or> (\<exists>raw fixed. get f ''category'' = PStr raw \<and> get f' ''category'' = PStr fixed \<and> fixed \<in> set allowed
      \<and> has_key f' ''practice''
      \<and> (\<forall>d. get f ''description'' = PStr d \<longrightarrow> (\<exists>d'. get f' ''description'' = PStr d' \<and> contains raw d'))))
    \<and> (\<forall>st2. fst (conform_category env allowed f' st2) = f')"
proof (cases "f' = f")
  case True
  have "fst (conform_category env allowed f st2) = f" for st2
    using call True by (auto simp: conform_category_def Let_def split: pyval.splits if_splits)
  then show ?thesis using True by simp
next
  case False
  then obtain raw where raw: "get f ''category'' = PStr raw" "allowed \<noteq> []"
    using call by (auto simp: conform_category_def split: if_splits pyval.splits)
  let ?fixed = "normalize_to_enum env raw allowed"
  have fixed: "?fixed \<noteq> raw"
    and f': "f' = reported_as raw (set_default ''practice'' (PStr raw) (put ''category'' (PStr ?fixed) f))"
    using call raw False by (auto simp: conform_category_def Let_def split: if_splits)
  have c: "get f' ''category'' = PStr ?fixed" by (simp add: f')
  have "?fixed \<in> set allowed" using normalize_declared [of env raw allowed] fixed by blast
  moreover have "fst (conform_category env allowed f' st2) = f'" for st2
    using c by (simp add: conform_category_def Let_def normalize_idem)
  moreover have "\<exists>d'. get f' ''description'' = PStr d' \<and> contains raw d'" if "get f ''description'' = PStr d" for d
    using that reported_as_says by (simp add: f')
  moreover have "has_key f' ''practice''" by (simp add: f')
  ultimately show ?thesis using raw(1) c by blast
qed

definition ex_soc2 :: "string list" where "ex_soc2 = [''PO'', ''PS'', ''PW'', ''RV'']"

theorem conform_keeps_what_was_said_witness:
  "let f = [(''category'', PStr ''PW-3.3''), (''description'', PStr ''text'')];
       f' = fst (conform_category (\<lambda>_. None) ex_soc2 f None) in
   get f' ''category'' = PStr ''PW'' \<and> get f' ''description'' = PStr ''text (reported as: PW-3.3)'' \<and>
   fst (conform_category (\<lambda>_. None) ex_soc2 f' None) = f'"
proof -
  let ?f = "[(''category'', PStr ''PW-3.3''), (''description'', PStr ''text'')]"
  have "\<forall>st2. fst (conform_category (\<lambda>_. None) ex_soc2 (fst (conform_category (\<lambda>_. None) ex_soc2 ?f None)) st2)
      = fst (conform_category (\<lambda>_. None) ex_soc2 ?f None)"
    using conform_keeps_what_was_said [of "\<lambda>_. None" ex_soc2 ?f None, OF surjective_pairing] by blast
  moreover have "let f' = fst (conform_category (\<lambda>_. None) ex_soc2 ?f None) in
      get f' ''category'' = PStr ''PW'' \<and> get f' ''description'' = PStr ''text (reported as: PW-3.3)''"
    by code_simp
  ultimately show ?thesis by (simp add: Let_def)
qed

text \<open>Folding the joiners is what keeps a compound value at its leading token; without it the fallback scans the
  whole text and the later member wins.\<close>

theorem joiner_decides_the_member:
  "normalize_to_enum (\<lambda>_. None) ''circuit_breaker, retry'' [''retry'', ''circuit_breaker''] = ''circuit_breaker'' \<and>
   normalize_to_enum (\<lambda>k. if k = ''VULTURE_CATEGORY_JOINER'' then Some ''false'' else None)
     ''circuit_breaker, retry'' [''retry'', ''circuit_breaker''] = ''retry''"
  by code_simp

end
