(* ===== verification/Redaction.thy ===== *)
theory Redaction
  imports Line_Format Py_Regex Py_Order
begin

text \<open>
  The redaction of secrets in what leaves the process (\<open>shared/audit_runner.py\<close>): one line of code, one
  line of prose, a triple-quoted literal, a numbered window, the rows a secret-citing finding names, and
  the live view of a finding. The masking of secret-shaped values by \<open>shared/llm/errors.py\<close>
  (\<open>mask_secret_values\<close>) is the argument \<open>masker\<close>.

  The quoted-literal pattern has a back-reference to its opening quote; it is written as the
  alternative of the two quotes, which no text tells apart. A set of line numbers is the list of the
  spans whose union it is.
\<close>

definition PLACEHOLDER :: string where "PLACEHOLDER = ''***REDACTED***''"

definition SECRET_BEARING_CWES :: "string list" where
  "SECRET_BEARING_CWES = [''CWE-798'', ''CWE-319'', ''CWE-312'', ''CWE-256'', ''CWE-259'', ''CWE-321'',
     ''CWE-522'', ''CWE-523'', ''CWE-598'']"

section \<open>The patterns\<close>

definition SQUOTE :: char where "SQUOTE = CHR 0x27"
definition DQUOTE :: char where "DQUOTE = CHR 0x22"
definition BACKSLASH :: char where "BACKSLASH = CHR 0x5C"

definition is_quote_char :: "char \<Rightarrow> bool" where "is_quote_char c = (c = SQUOTE \<or> c = DQUOTE)"

definition literal_char :: "char \<Rightarrow> re" where
  "literal_char q = Alt (Cat (Cls (\<lambda>c. c = BACKSLASH)) (Cls (\<lambda>c. c \<noteq> NL))) (Cls (\<lambda>c. c \<noteq> q \<and> c \<noteq> BACKSLASH))"

definition literal_re :: "char \<Rightarrow> re" where
  "literal_re q = Cat (Cls (\<lambda>c. c = q)) (Cat (Star (literal_char q)) (Cls (\<lambda>c. c = q)))"

definition QUOTED_LITERAL :: re where
  "QUOTED_LITERAL = Alt (literal_re SQUOTE) (literal_re DQUOTE)"

text \<open>The classes \<open>_spelled\<close> writes out: Go's white space, and the word characters of Go's textutil.\<close>

definition go_space :: "char \<Rightarrow> bool" where "go_space c = (c \<in> set GO_SPACE)"

definition go_word :: "char \<Rightarrow> bool" where
  "go_word c = (is_alpha_us c \<or> is_digit c \<or> 128 \<le> (of_char c :: nat) \<and> \<not> go_space c)"

definition gs :: re where "gs = Star (Cls go_space)"
definition gs1 :: re where "gs1 = plus_re (Cls go_space)"
definition any_re :: re where "any_re = Cls (\<lambda>c. c \<noteq> NL)"

definition ASSIGN_RHS :: re where
  "ASSIGN_RHS = cats [
     Grp 1 (Cat gs (opt_re (Alt (Cat (lit ''export'') gs1) (Cat (lit ''set'') gs1)))),
     Grp 2 (cats [Cls is_alpha_us,
       Star (Cls (\<lambda>c. go_word c \<or> c \<in> {CHR ''.'', CHR ''['', CHR '']'', SQUOTE, DQUOTE, CHR ''-''})),
       gs, Cls (\<lambda>c. c = CHR '':'' \<or> c = CHR ''=''), gs]),
     Grp 3 (Cat (Cls (\<lambda>c. \<not> go_space c)) (Lazy any_re)),
     Grp 4 (Cat gs (opt_re (Cat (Cls (\<lambda>c. c = CHR ''#'')) (Star any_re)))), Eos]"

definition COMMENT_BODY :: re where
  "COMMENT_BODY = cats [Grp 1 (Alt (lit ''#'') (lit ''//'')), gs, Cls (\<lambda>c. \<not> go_space c), Star any_re, Eos]"

definition key_char :: "char \<Rightarrow> bool" where
  "key_char c = (is_alpha_us c \<or> is_digit c \<or> c = CHR ''-'')"

definition key_start :: re where "key_start = Alt Bos (Cls (\<lambda>c. \<not> key_char c))"
definition blanks :: re where "blanks = Star (Cls (\<lambda>c. c = CHR '' '' \<or> c = CHR 0x09))"
definition dash_opt :: re where "dash_opt = opt_re (Cls (\<lambda>c. c = CHR ''_'' \<or> c = CHR ''-''))"

definition PROSE_NAMED_SECRET :: re where
  "PROSE_NAMED_SECRET = cats [Grp 1 key_start,
     Grp 2 (cats [Star (Cls key_char),
       alts [ilit ''password'', ilit ''passwd'', ilit ''pwd'', ilit ''secret'', ilit ''token'',
         cats [ilit ''api'', dash_opt, ilit ''key''], cats [ilit ''access'', dash_opt, ilit ''key''],
         cats [ilit ''private'', dash_opt, ilit ''key'']],
       blanks, Cls (\<lambda>c. c = CHR '':'' \<or> c = CHR ''=''), blanks]),
     Grp 3 (plus_re (Cls (\<lambda>c. c \<noteq> CHR '' '' \<and> c \<noteq> CHR 0x09 \<and> \<not> is_quote_char c)))]"

definition upper_or_digit :: "char \<Rightarrow> bool" where
  "upper_or_digit c = (is_digit c \<or> is_alpha_us c \<and> c \<noteq> CHR ''_'' \<and> lower_char c \<noteq> c)"
definition alnum :: "char \<Rightarrow> bool" where
  "alnum c = (is_digit c \<or> is_alpha_us c \<and> c \<noteq> CHR ''_'')"
definition one_of :: "string \<Rightarrow> re" where "one_of cs = Cls (\<lambda>c. c \<in> set cs)"

definition PROSE_KEY_TOKEN :: re where
  "PROSE_KEY_TOKEN = Cat (Grp 1 key_start) (alts [
     cats [alts [lit ''sk'', lit ''pk'', lit ''rk''], one_of ''-_'', alts [lit ''live'', lit ''test'', lit ''proj''],
       one_of ''-_'', at_least_re 8 (Cls key_char)],
     Cat (lit ''sk-'') (at_least_re 20 (Cls key_char)),
     Cat (Alt (lit ''AKIA'') (lit ''ASIA'')) (at_least_re 12 (Cls upper_or_digit)),
     cats [lit ''gh'', one_of ''pousr'', lit ''_'', at_least_re 20 (Cls alnum)],
     cats [lit ''xox'', one_of ''abpr'', lit ''-'', at_least_re 10 (Cls (\<lambda>c. alnum c \<or> c = CHR ''-''))]])"

section \<open>One line of code\<close>

text \<open>The index of an opening quote that nothing closes, and the text up to and with it.\<close>

function dangling_from :: "nat \<Rightarrow> string \<Rightarrow> nat option" where
  "dangling_from i [] = None"
| "dangling_from i (c # cs) =
     (if is_quote_char c then
        (case find_sub [c] cs of None \<Rightarrow> Some i | Some k \<Rightarrow> dangling_from (i + k + 2) (drop (k + 1) cs))
      else dangling_from (i + 1) cs)"
  by pat_completeness auto
termination by (relation "measure (\<lambda>(i, s). length s)") auto

definition has_unterminated_quote :: "string \<Rightarrow> nat option" where
  "has_unterminated_quote s = dangling_from 0 s"

definition mask_literal :: "re_match \<Rightarrow> string \<Rightarrow> string \<Rightarrow> string" where
  "mask_literal m before after =
     (let w = (case group m 0 of None \<Rightarrow> [] | Some w \<Rightarrow> w) in
      if starts_with (dropWhile go_space after) '':'' then w
      else [hd w] @ PLACEHOLDER @ [hd w])"

definition group_text :: "re_match \<Rightarrow> nat \<Rightarrow> string" where
  "group_text m n = (case group m n of None \<Rightarrow> [] | Some w \<Rightarrow> w)"

definition rstrip_nl :: "string \<Rightarrow> string" where "rstrip_nl s = rev (dropWhile (\<lambda>c. c = NL) (rev s))"

definition redact_body :: "string \<Rightarrow> string option" where
  "redact_body body =
     (if re_search QUOTED_LITERAL body \<noteq> None then
        let masked = re_sub_with QUOTED_LITERAL mask_literal body in
        Some (case has_unterminated_quote masked of None \<Rightarrow> masked | Some i \<Rightarrow> take (i + 1) masked @ PLACEHOLDER)
      else case has_unterminated_quote body of
        Some i \<Rightarrow> Some (take (i + 1) body @ PLACEHOLDER)
      | None \<Rightarrow> (case re_match ASSIGN_RHS body of
          Some m \<Rightarrow> Some (group_text m 1 @ group_text m 2 @ PLACEHOLDER @ group_text m 4)
        | None \<Rightarrow> (case re_search COMMENT_BODY body of
            Some m \<Rightarrow> Some (take (m_start m) body @ group_text m 1 @ '' '' @ PLACEHOLDER)
          | None \<Rightarrow> None)))"

definition redact_secret_line :: "string \<Rightarrow> string" where
  "redact_secret_line line =
     (case redact_body (rstrip_nl line) of
        Some shown \<Rightarrow> shown @ (if ends_with line [NL] then [NL] else [])
      | None \<Rightarrow> line)"

section \<open>Prose\<close>

definition redact_prose :: "string \<Rightarrow> string" where
  "redact_prose line =
     re_sub_with PROSE_KEY_TOKEN (\<lambda>m b s. group_text m 1 @ PLACEHOLDER)
       (re_sub_with PROSE_NAMED_SECRET (\<lambda>m b s. group_text m 1 @ group_text m 2 @ PLACEHOLDER) line)"

definition redact_secret_text :: "string \<Rightarrow> string" where
  "redact_secret_text s = join_nl (map (\<lambda>line. redact_prose (redact_secret_line line)) (split_nl s))"

section \<open>Triple quotes\<close>

definition OPENS_VALUE :: "string list" where "OPENS_VALUE = [''='', '':'', ''('', '','', ''['', ''{'']"

fun find_triple :: "string \<Rightarrow> (string \<times> string \<times> string) option" where
  "find_triple [] = None"
| "find_triple (c # cs) =
     (if starts_with (c # cs) [DQUOTE, DQUOTE, DQUOTE] \<or> starts_with (c # cs) [SQUOTE, SQUOTE, SQUOTE]
      then Some ([], take 3 (c # cs), drop 3 (c # cs))
      else map_option (\<lambda>(h, q, r). (c # h, q, r)) (find_triple cs))"

lemma find_triple_text: "find_triple s = Some (h, q, r) \<Longrightarrow> s = h @ q @ r \<and> length q = 3"
proof (induction s arbitrary: h)
  case (Cons c cs)
  show ?case
  proof (cases "starts_with (c # cs) [DQUOTE, DQUOTE, DQUOTE] \<or> starts_with (c # cs) [SQUOTE, SQUOTE, SQUOTE]")
    case True
    then have "3 \<le> length (c # cs)" by (auto simp: starts_with_def dest!: arg_cong [where f = length])
    then show ?thesis using Cons.prems True by auto
  qed (use Cons in auto)
qed simp

definition opens_value :: "string \<Rightarrow> string \<Rightarrow> bool" where
  "opens_value head after =
     (list_ex (\<lambda>c. \<not> is_space c) after \<or> list_ex (ends_with (rstrip head)) OPENS_VALUE)"

text \<open>A literal that opens goes on after its closer, or takes the rest of the row; one that closes leaves what
  follows it.\<close>

function redact_code :: "string \<Rightarrow> string" where
  "redact_code body = (case find_triple body of
     None \<Rightarrow> redact_secret_line body
   | Some (head, q, after) \<Rightarrow>
       if opens_value head after then
         let shown = redact_secret_line head @ q @ PLACEHOLDER in
         (case find_sub q after of
            None \<Rightarrow> shown @ redact_secret_line []
          | Some k \<Rightarrow> shown @ q @ redact_code (drop (k + 3) after))
       else takeWhile is_space head @ PLACEHOLDER @ q @ after @ redact_secret_line [])"
  by pat_completeness auto
termination
  by (relation "measure length") (auto dest: find_triple_text)

declare redact_code.simps [simp del]

section \<open>Numbered windows\<close>

definition row_body :: "string \<Rightarrow> string" where "row_body raw = strip_line_number raw"
definition number_prefix :: "string \<Rightarrow> string" where
  "number_prefix raw = take (length raw - length (strip_line_number raw)) raw"

definition redact_numbered_line :: "string \<Rightarrow> string" where
  "redact_numbered_line raw = number_prefix raw @ redact_code (row_body raw)"

definition redact_snippet :: "string \<Rightarrow> string" where
  "redact_snippet snippet = (if snippet = [] then snippet else join_nl (map redact_numbered_line (split_nl snippet)))"

definition mask_whole_row :: "string \<Rightarrow> string" where
  "mask_whole_row raw = number_prefix raw @ PLACEHOLDER"

definition mask_cited_row :: "string \<Rightarrow> string" where
  "mask_cited_row raw =
     (let redacted = redact_numbered_line raw in
      if redacted \<noteq> raw \<or> contains PLACEHOLDER raw then redacted else mask_whole_row raw)"

type_synonym spans = "(int \<times> int) list"

definition in_spans :: "int \<Rightarrow> spans \<Rightarrow> bool" where
  "in_spans n ss = list_ex (\<lambda>(a, b). a \<le> n \<and> n \<le> b) ss"

definition redact_row :: "spans \<Rightarrow> string \<Rightarrow> string result" where
  "redact_row ss row = bind_result (read_line_number row) (\<lambda>n.
     Ret (case n of None \<Rightarrow> row | Some k \<Rightarrow> if in_spans (int k) ss then mask_cited_row row else row))"

definition redact_rows :: "string \<Rightarrow> spans \<Rightarrow> string result" where
  "redact_rows snippet ss = bind_result (map_result (redact_row ss) (split_nl snippet)) (\<lambda>rows. Ret (join_nl rows))"

section \<open>Findings\<close>

definition is_secret_bearing :: "pydict \<Rightarrow> bool" where
  "is_secret_bearing finding =
     (map upper_char (strip (py_str (get_or finding ''category'' (PStr [])))) \<in> set SECRET_BEARING_CWES)"

definition SECRET_SKILL_PREFIX :: string where "SECRET_SKILL_PREFIX = ''cwe.secret_scan.''"

definition cites_a_secret :: "pydict \<Rightarrow> bool" where
  "cites_a_secret finding = (is_secret_bearing finding \<or> starts_with (text_field finding ''check_id'') SECRET_SKILL_PREFIX)"

definition int_or_zero :: "pyval \<Rightarrow> int result" where
  "int_or_zero v = (case py_int (py_or v (PInt 0)) of
     Inl TypeError \<Rightarrow> Ret 0 | Inl ValueError \<Rightarrow> Ret 0 | r \<Rightarrow> r)"

definition secret_span :: "pydict \<Rightarrow> (int \<times> int) option result" where
  "secret_span finding = bind_result (int_or_zero (get finding ''line_start'')) (\<lambda>start.
     if start < 1 \<or> \<not> truthy (get finding ''file_path'') \<or> \<not> cites_a_secret finding then Ret None
     else bind_result (int_or_zero (get finding ''line_end'')) (\<lambda>e. Ret (Some (start, max start e))))"

definition add_span :: "string \<Rightarrow> int \<times> int \<Rightarrow> (string \<times> spans) list \<Rightarrow> (string \<times> spans) list" where
  "add_span path sp idx = AList.update path ((case map_of idx path of None \<Rightarrow> [] | Some ss \<Rightarrow> ss) @ [sp]) idx"

fun secret_line_index_from :: "(string \<times> spans) list \<Rightarrow> pydict list \<Rightarrow> (string \<times> spans) list result" where
  "secret_line_index_from idx [] = Ret idx"
| "secret_line_index_from idx (f # fs) = bind_result (secret_span f) (\<lambda>sp.
     secret_line_index_from (case sp of None \<Rightarrow> idx | Some s \<Rightarrow> add_span (py_str (get f ''file_path'')) s idx) fs)"

definition secret_line_index :: "pydict list \<Rightarrow> (string \<times> spans) list result" where
  "secret_line_index findings = secret_line_index_from [] findings"

definition redact_secret_lines :: "pydict \<Rightarrow> (string \<times> spans) list \<Rightarrow> pydict result" where
  "redact_secret_lines finding idx =
     (case (map_of idx (text_field finding ''file_path''), get finding ''code_snippet'') of
        (Some ss, PStr snippet) \<Rightarrow> if ss = [] then Ret finding
          else bind_result (redact_rows snippet ss) (\<lambda>s. Ret (put ''code_snippet'' (PStr s) finding))
      | _ \<Rightarrow> Ret finding)"

definition SHAPE_MASKED_FIELDS :: "string list" where "SHAPE_MASKED_FIELDS = [''code_snippet'', ''description'']"

definition mask_field :: "(string \<Rightarrow> string) \<Rightarrow> pydict \<Rightarrow> string \<Rightarrow> pydict" where
  "mask_field masker finding k = (case get finding k of
     PStr s \<Rightarrow> if s = [] then finding else put k (PStr (masker s)) finding | _ \<Rightarrow> finding)"

definition mask_secret_shapes :: "(string \<Rightarrow> string) \<Rightarrow> pydict \<Rightarrow> pydict" where
  "mask_secret_shapes masker finding = foldl (mask_field masker) finding SHAPE_MASKED_FIELDS"

text \<open>A snippet that is truthy and not text has no \<open>split\<close>.\<close>

definition redact_finding :: "(string \<Rightarrow> string) \<Rightarrow> pydict \<Rightarrow> pydict result" where
  "redact_finding masker finding =
     (let f = mask_secret_shapes masker finding in
      if \<not> is_secret_bearing f then Ret f
      else case get f ''code_snippet'' of
        PStr s \<Rightarrow> Ret (if s = [] then f else put ''code_snippet'' (PStr (redact_snippet s)) f)
      | v \<Rightarrow> if truthy v then Raise AttributeError else Ret f)"

definition row_in :: "int \<Rightarrow> int \<Rightarrow> string \<Rightarrow> bool result" where
  "row_in start e row = (if start \<le> 0 then Ret False
     else bind_result (read_line_number row) (\<lambda>n. let k = (case n of None \<Rightarrow> 0 | Some k \<Rightarrow> int k) in
       Ret (start \<le> k \<and> k \<le> e)))"

definition cited_rows :: "string \<Rightarrow> pydict \<Rightarrow> string result" where
  "cited_rows snippet finding =
     bind_result (int_or_zero (get finding ''line_start'')) (\<lambda>start.
     bind_result (int_or_zero (get finding ''line_end'')) (\<lambda>le.
     bind_result (map_result (row_in start (max start le)) (split_nl snippet)) (\<lambda>keep.
       let rows = map fst (filter snd (zip (split_nl snippet) keep)) in
       Ret (if rows = [] then snippet else join_nl rows))))"

definition public_view :: "pydict \<Rightarrow> pydict" where
  "public_view finding = filter (\<lambda>(k, v). \<not> starts_with k ''_'') finding"

definition live_view :: "pydict \<Rightarrow> pydict result" where
  "live_view finding =
     (let view = public_view finding in
      case get view ''code_snippet'' of
        PStr s \<Rightarrow> bind_result (cited_rows s finding) (\<lambda>rows. Ret (put ''code_snippet'' (PStr rows) view))
      | _ \<Rightarrow> Ret view)"

end
