(* ===== verification/Redaction_Examples.thy ===== *)
theory Redaction_Examples
  imports Redaction_Promises
begin


definition ex_window :: string where
  "ex_window = join_nl [''2: x = 1'', ''3: MIIEpAIB'', ''4: y'']"

definition ex_neighbour :: pydict where
  "ex_neighbour = [(''category'', PStr ''CWE-79''), (''file_path'', PStr ''a.py''), (''line_start'', PInt 2), (''line_end'', PInt 2),
     (''code_snippet'', PStr ex_window), (''_anchor_status'', PStr ''exact'')]"





definition ex_live :: pydict where
  "ex_live = (case live_view ex_neighbour of Inr v \<Rightarrow> v | Inl e \<Rightarrow> [])"

lemma ex_live: "live_view ex_neighbour = Ret ex_live" "get ex_live ''code_snippet'' = PStr ''2: x = 1''"
  by code_simp+

theorem live_window_is_cut_to_the_citation_witness:
  "filter (\<lambda>k. starts_with k ''_'') (map fst ex_live) = []"
proof -
  have "int_or_zero (get ex_neighbour ''line_start'') = Ret 2" "int_or_zero (get ex_neighbour ''line_end'') = Ret 2"
    by code_simp+
  moreover have "get ex_neighbour ''code_snippet'' = PStr ex_window" by (simp add: ex_neighbour_def get_or_def)
  ultimately show ?thesis using live_window_is_cut_to_the_citation [OF ex_live(1)] by (auto simp: filter_empty_conv)
qed


text \<open>A comment behind a masked value stays as it was written: the comment rule runs only on a line with no value.\<close>

lemma comment_behind_a_value_is_shown:
  "redact_secret_line ''pw = hunter2 # was swordfish'' = ''pw = ***REDACTED*** # was swordfish''"
  by code_simp

end
