(* ===== verification/Py_Path.thy ===== *)
theory Py_Path
  imports Lines_Env
begin

text \<open>
  POSIX paths as the standard library treats them: \<open>str.split(c)\<close> on a character and
  \<open>os.path.normpath\<close>, which drops empty and \<open>.\<close> segments and resolves \<open>..\<close> without asking the file
  system; and the canonical form of a path the audit runner compares by.
\<close>

fun split_on :: "char \<Rightarrow> string \<Rightarrow> string list" where
  "split_on c [] = [[]]"
| "split_on c (x # xs) = (if x = c then [] # split_on c xs
     else (case split_on c xs of [] \<Rightarrow> [[x]] | p # ps \<Rightarrow> (x # p) # ps))"

lemma split_on_ne [simp]: "split_on c s \<noteq> []"
  by (induction s) (auto split: list.splits)

lemma split_on_parts: "p \<in> set (split_on c s) \<Longrightarrow> c \<notin> set p"
  by (induction s arbitrary: p) (auto split: if_splits list.splits)

lemma split_on_free: "c \<notin> set s \<Longrightarrow> split_on c s = [s]"
  by (induction s) auto

lemma split_on_append: "c \<notin> set p \<Longrightarrow> split_on c (p @ c # s) = p # split_on c s"
  by (induction p) (auto split: list.splits)

lemma split_on_join:
  "ps \<noteq> [] \<Longrightarrow> \<forall>p \<in> set ps. c \<notin> set p \<Longrightarrow> split_on c (join [c] ps) = ps"
proof (induction ps)
  case (Cons p ps)
  show ?case
  proof (cases "ps = []")
    case True
    then show ?thesis using Cons.prems split_on_free by simp
  next
    case False
    then show ?thesis using Cons split_on_append [of c p] by (simp add: join_Cons)
  qed
qed simp

section \<open>normpath\<close>

definition SLASH :: char where "SLASH = CHR ''/''"

definition dotdot :: string where "dotdot = ''..''"

fun norm_parts :: "bool \<Rightarrow> string list \<Rightarrow> string list \<Rightarrow> string list" where
  "norm_parts rooted acc [] = rev acc"
| "norm_parts rooted acc (p # ps) =
     (if p = [] \<or> p = ''.'' then norm_parts rooted acc ps
      else if p \<noteq> dotdot \<or> (\<not> rooted \<and> acc = []) \<or> (acc \<noteq> [] \<and> hd acc = dotdot) then norm_parts rooted (p # acc) ps
      else norm_parts rooted (tl acc) ps)"

definition initial_slashes :: "string \<Rightarrow> nat" where
  "initial_slashes path =
     (if starts_with path ''//'' \<and> \<not> starts_with path ''///'' then 2 else if starts_with path ''/'' then 1 else 0)"

definition normpath :: "string \<Rightarrow> string" where
  "normpath path = (if path = [] then ''.''
     else let n = initial_slashes path;
              p = replicate n SLASH @ join [SLASH] (norm_parts (0 < n) [] (split_on SLASH path)) in
       if p = [] then ''.'' else p)"

definition isabs :: "string \<Rightarrow> bool" where "isabs path = starts_with path ''/''"

definition lstrip_slash :: "string \<Rightarrow> string" where "lstrip_slash s = dropWhile (\<lambda>c. c = SLASH) s"
definition rstrip_slash :: "string \<Rightarrow> string" where "rstrip_slash s = rev (dropWhile (\<lambda>c. c = SLASH) (rev s))"

text \<open>\<open>_canonical\<close> of the audit runner: the leading \<open>//\<close> that POSIX keeps folded to one slash.\<close>

definition canonical :: "string \<Rightarrow> string" where
  "canonical path = (let n = normpath path in if starts_with n ''/'' then SLASH # lstrip_slash n else n)"

text \<open>\<open>str(PurePosixPath(p))\<close>: empty and dot segments dropped, dot-dots kept; and \<open>root / p\<close>.\<close>

definition pure_path :: "string \<Rightarrow> string" where
  "pure_path p = (let n = initial_slashes p; ps = filter (\<lambda>q. q \<noteq> [] \<and> q \<noteq> ''.'') (split_on SLASH p);
     s = replicate n SLASH @ join [SLASH] ps in if s = [] then ''.'' else s)"

definition path_join :: "string \<Rightarrow> string \<Rightarrow> string" where
  "path_join base p = pure_path (if isabs p then p else base @ ''/'' @ p)"

section \<open>Normal forms\<close>

text \<open>The segments of a normalised path: no empty or dot segment, and dot-dots only in front of a relative one.\<close>

fun normal_parts :: "bool \<Rightarrow> string list \<Rightarrow> bool" where
  "normal_parts rooted [] = True"
| "normal_parts rooted (p # ps) =
     (p \<noteq> [] \<and> p \<noteq> ''.'' \<and> SLASH \<notin> set p \<and> (p = dotdot \<longrightarrow> \<not> rooted) \<and> normal_parts (rooted \<or> p \<noteq> dotdot) ps)"

lemma norm_parts_id:
  "normal_parts rooted' ps \<Longrightarrow>
   rooted' = (rooted \<or> (acc \<noteq> [] \<and> hd acc \<noteq> dotdot)) \<Longrightarrow> norm_parts rooted acc ps = rev acc @ ps"
proof (induction ps arbitrary: acc rooted')
  case (Cons p ps)
  then have p: "p \<noteq> []" "p \<noteq> ''.''" and rest: "normal_parts (rooted' \<or> p \<noteq> dotdot) ps" by simp_all
  have "norm_parts rooted acc (p # ps) = norm_parts rooted (p # acc) ps"
    using Cons.prems p by (cases "p = dotdot") auto
  also have "\<dots> = rev (p # acc) @ ps"
    by (rule Cons.IH [OF rest]) (use Cons.prems in \<open>cases "p = dotdot"; auto\<close>)
  finally show ?case by simp
qed simp

lemma normal_parts_snoc:
  "normal_parts rooted (ps @ [p]) \<longleftrightarrow> normal_parts rooted ps \<and> p \<noteq> [] \<and> p \<noteq> ''.'' \<and> SLASH \<notin> set p \<and>
    (p = dotdot \<longrightarrow> \<not> rooted \<and> (\<forall>q \<in> set ps. q = dotdot))"
  by (induction ps arbitrary: rooted) auto

lemma normal_parts_dotdot: "normal_parts rooted (ps @ [dotdot]) \<Longrightarrow> \<forall>q \<in> set ps. q = dotdot"
  by (simp add: normal_parts_snoc)

lemma norm_parts_normal:
  "normal_parts rooted (rev acc) \<Longrightarrow> \<forall>p \<in> set ps. SLASH \<notin> set p \<Longrightarrow> normal_parts rooted (norm_parts rooted acc ps)"
proof (induction ps arbitrary: acc)
  case (Cons p ps)
  have tl: "normal_parts rooted (rev (tl acc))"
    using Cons.prems(1) by (cases acc) (auto simp: normal_parts_snoc)
  consider "p = [] \<or> p = ''.''" | "p \<noteq> []" "p \<noteq> ''.''" "p \<noteq> dotdot \<or> (\<not> rooted \<and> acc = []) \<or> (acc \<noteq> [] \<and> hd acc = dotdot)"
    | "p \<noteq> []" "p \<noteq> ''.''" "\<not> (p \<noteq> dotdot \<or> (\<not> rooted \<and> acc = []) \<or> (acc \<noteq> [] \<and> hd acc = dotdot))" by blast
  then show ?case
  proof cases
    case 2
    have up: "\<not> rooted \<and> (\<forall>q \<in> set (rev acc). q = dotdot)" if "p = dotdot"
    proof (cases acc)
      case (Cons q qs)
      then have "q = dotdot" using 2(3) that by simp
      then show ?thesis using Cons.prems(1) Cons normal_parts_snoc [of rooted "rev qs" q] by simp
    qed (use 2(3) that in simp)
    have "normal_parts rooted (rev (p # acc))"
      using 2(1,2) Cons.prems up by (simp add: normal_parts_snoc)
    then have "normal_parts rooted (norm_parts rooted (p # acc) ps)" by (rule Cons.IH) (use Cons.prems in simp)
    then show ?thesis using 2 by simp
  next
    case 3
    then have "norm_parts rooted acc (p # ps) = norm_parts rooted (tl acc) ps" by auto
    then show ?thesis using Cons.IH [OF tl] Cons.prems by simp
  next
    case 1
    then show ?thesis using Cons by simp
  qed
qed simp

lemma join_slash_parts:
  assumes "normal_parts rooted ps" and "ps \<noteq> []"
  shows "split_on SLASH (join [SLASH] ps) = ps" "join [SLASH] ps \<noteq> []" "hd (join [SLASH] ps) \<noteq> SLASH"
proof -
  have all: "normal_parts rooted qs \<Longrightarrow> \<forall>p \<in> set qs. SLASH \<notin> set p \<and> p \<noteq> []" for qs rooted
    by (induction rooted qs rule: normal_parts.induct) auto
  show "split_on SLASH (join [SLASH] ps) = ps" by (rule split_on_join) (use assms all in auto)
  obtain p qs where "ps = p # qs" using assms(2) by (cases ps) auto
  then show "join [SLASH] ps \<noteq> []" "hd (join [SLASH] ps) \<noteq> SLASH"
    using all [OF assms(1)] by (cases qs; cases p; auto)+
qed

text \<open>The canonical form of a path, taken apart: a slash and the segments of a rooted one, or the segments,
  or a dot.\<close>

definition path_of :: "bool \<Rightarrow> string list \<Rightarrow> string" where
  "path_of rooted ps = (if rooted then SLASH # join [SLASH] ps else if ps = [] then ''.'' else join [SLASH] ps)"

lemma lstrip_slash_free: "s = [] \<or> hd s \<noteq> SLASH \<Longrightarrow> lstrip_slash (replicate n SLASH @ s) = s"
  by (induction n) (auto simp: lstrip_slash_def dropWhile_eq_self_iff)

lemma join_slash_start: "normal_parts rooted ps \<Longrightarrow> join [SLASH] ps = [] \<or> hd (join [SLASH] ps) \<noteq> SLASH"
  by (cases "ps = []") (use join_slash_parts in auto)

lemma starts_with_slash: "starts_with s ''/'' \<longleftrightarrow> s \<noteq> [] \<and> hd s = SLASH"
  by (cases s) (auto simp: starts_with_def SLASH_def)

lemma initial_slashes_rooted: "0 < initial_slashes path \<longleftrightarrow> starts_with path ''/''"
  by (cases "path"; cases "tl path") (auto simp: initial_slashes_def starts_with_def)

lemma canonical_path_of:
  obtains ps where "normal_parts (starts_with path ''/'') ps" "canonical path = path_of (starts_with path ''/'') ps"
proof -
  let ?r = "starts_with path ''/''" and ?ps = "norm_parts (starts_with path ''/'') [] (split_on SLASH path)"
  have normal: "normal_parts ?r ?ps" by (rule norm_parts_normal) (auto dest: split_on_parts)
  note start = join_slash_start [OF normal]
  have "canonical path = path_of ?r ?ps"
  proof (cases ?r)
    case True
    then obtain n where n: "initial_slashes path = Suc n" using initial_slashes_rooted by (metis gr0_implies_Suc)
    then have "normpath path = SLASH # replicate n SLASH @ join [SLASH] ?ps"
      using True by (auto simp: normpath_def starts_with_def)
    then show ?thesis
      using True lstrip_slash_free [OF start, of "Suc n"] by (simp add: canonical_def path_of_def starts_with_slash)
  next
    case False
    then have "initial_slashes path = 0" using initial_slashes_rooted [of path] by (metis neq0_conv)
    then have "normpath path = path_of False ?ps"
      using False join_slash_parts [OF normal] by (auto simp: normpath_def path_of_def starts_with_def split_on.simps)
    moreover have "\<not> starts_with (path_of False ?ps) ''/''"
      using start join_slash_parts [OF normal] by (auto simp: path_of_def starts_with_slash SLASH_def)
    ultimately show ?thesis using False by (simp add: canonical_def)
  qed
  with normal show thesis by (rule that)
qed

lemma canonical_of_path_of:
  assumes "normal_parts rooted ps"
  shows "canonical (path_of rooted ps) = path_of rooted ps" "starts_with (path_of rooted ps) ''/'' = rooted"
proof -
  show r: "starts_with (path_of rooted ps) ''/'' = rooted"
    using join_slash_start [OF assms] join_slash_parts [OF assms] by (auto simp: path_of_def starts_with_slash SLASH_def)
  let ?path = "path_of rooted ps"
  have "norm_parts rooted [] (split_on SLASH ?path) = ps"
  proof (cases "ps = []")
    case True
    then show ?thesis by (simp add: path_of_def SLASH_def)
  next
    case False
    then have "split_on SLASH ?path = (if rooted then [] # ps else ps)"
      using join_slash_parts [OF assms] by (simp add: path_of_def)
    then show ?thesis using norm_parts_id [OF assms, of rooted "[]"] by (cases rooted) simp_all
  qed
  then show "canonical ?path = ?path"
  proof (cases rooted)
    case True
    then obtain n where n: "initial_slashes ?path = Suc n" using initial_slashes_rooted r by (metis gr0_implies_Suc)
    then have "normpath ?path = SLASH # replicate n SLASH @ join [SLASH] ps"
      using True \<open>norm_parts rooted [] (split_on SLASH ?path) = ps\<close> by (auto simp: normpath_def path_of_def)
    then show ?thesis
      using True lstrip_slash_free [OF join_slash_start [OF assms], of "Suc n"]
      by (simp add: canonical_def path_of_def starts_with_slash)
  next
    case False
    then have "initial_slashes ?path = 0" using initial_slashes_rooted [of ?path] r by (metis neq0_conv)
    then have "normpath ?path = ?path"
      using False \<open>norm_parts rooted [] (split_on SLASH ?path) = ps\<close> join_slash_parts [OF assms]
      by (auto simp: normpath_def path_of_def)
    then show ?thesis using False r by (simp add: canonical_def)
  qed
qed

lemma canonical_idem [simp]: "canonical (canonical path) = canonical path"
  using canonical_of_path_of by (metis canonical_path_of)

end
