(* ===== verification/Finding_Merge.thy ===== *)
theory Finding_Merge
  imports Redaction Py_Path Request_Cap Window
begin

text \<open>
  The agent's own dedup of findings (\<open>shared/audit_runner.py\<close>, \<open>_normalize_dedup_path\<close> to
  \<open>_LLMDedupTally\<close>): the key of a row, the survivor that adopts the better anchor of the rows collapsing
  onto it, the ledger of the model's descriptions a deterministic survivor swallowed, and the counters.
  \<open>_normalize_title\<close> of \<open>shared/tools/memory_client.py\<close> is the title half of a key.

  A row is mutated in place through the survivor that holds it; here the base rows and the unique rows
  are lists, a survivor is an index into one of them, and the updated lists are returned. \<open>os.path.realpath\<close>
  is the argument \<open>realpath\<close> and the masking of secret shapes the argument \<open>masker\<close>.
\<close>

section \<open>The path of a key\<close>

definition same_real_dir :: "(string \<Rightarrow> string) \<Rightarrow> string \<Rightarrow> string \<Rightarrow> bool" where
  "same_real_dir realpath fp source_path =
     (isabs fp \<and> \<not> starts_with (canonical fp) (rstrip_slash (canonical source_path) @ ''/'') \<and>
      realpath fp = realpath source_path)"

definition is_scan_root :: "(string \<Rightarrow> string) \<Rightarrow> string \<Rightarrow> string \<Rightarrow> bool" where
  "is_scan_root realpath fp source_path =
     (fp \<noteq> [] \<and> source_path \<noteq> [] \<and>
      (canonical fp = canonical source_path \<or> same_real_dir realpath fp source_path))"

definition root_relative :: "string \<Rightarrow> string \<Rightarrow> string" where
  "root_relative fp base =
     (if starts_with fp (base @ ''/'') then normpath (lstrip_slash (drop (length base) fp))
      else let cleaned = lstrip_slash fp in if cleaned = [] then [] else normpath cleaned)"

definition normalize_dedup_path :: "(string \<Rightarrow> string) \<Rightarrow> pyval \<Rightarrow> string \<Rightarrow> pyval result" where
  "normalize_dedup_path realpath fp source_path =
     (if source_path = [] then Ret (py_or fp (PStr []))
      else if \<not> truthy fp then Ret (PStr REPO_ROOT_PATH)
      else case fp of
        PStr p \<Rightarrow> Ret (PStr (if is_scan_root realpath p source_path then REPO_ROOT_PATH
          else root_relative (canonical p) (rstrip_slash (canonical source_path))))
      | _ \<Rightarrow> Raise TypeError)"

section \<open>The key\<close>

definition space1 :: re where "space1 = plus_re (Cls is_space)"
definition non_space1 :: re where "non_space1 = plus_re (Cls (\<lambda>c. \<not> is_space c))"

definition LINE_REFERENCE :: re where
  "LINE_REFERENCE = cats [Star (Cls is_space), opt_re (Cat (lit ''at'') space1), lit ''line'', space1, plus_re (Cls is_digit)]"
definition IN_PHRASE :: re where
  "IN_PHRASE = cats [space1, lit ''in'', space1, non_space1, opt_re (Cat space1 non_space1)]"

definition memory_title :: "string \<Rightarrow> string" where
  "memory_title title =
     strip (re_sub space1 '' '' (re_sub IN_PHRASE '' '' (re_sub LINE_REFERENCE [] (lower (strip title)))))"

type_synonym dedup_key = "pyval \<times> pyval"

definition dedup_key :: "(string \<Rightarrow> string) \<Rightarrow> string \<Rightarrow> pydict \<Rightarrow> dedup_key result" where
  "dedup_key realpath source_path f =
     (let cid = py_or (get_or f ''check_id'' (PStr [])) (get_or f ''_model_check_id'' (PStr [])) in
      bind_result (normalize_dedup_path realpath (get_or f ''file_path'' (PStr [])) source_path) (\<lambda>fp.
      bind_result (if truthy cid then Ret cid
        else case get_or f ''title'' (PStr []) of PStr t \<Rightarrow> Ret (PStr (memory_title t)) | _ \<Rightarrow> Raise AttributeError) (\<lambda>name.
      bind_result (py_key name) (\<lambda>k. bind_result (py_key fp) (\<lambda>p. Ret (k, p))))))"

section \<open>The better anchor\<close>

definition QUOTE_MODES :: "string list" where "QUOTE_MODES = [''off'', ''observe'', ''enforce'']"

definition quote_mode :: "env \<Rightarrow> string" where
  "quote_mode env = env_mode env ''VULTURE_LLM_QUOTE_VERIFY'' QUOTE_MODES ''enforce''"

definition reanchor_switch :: "env \<Rightarrow> bool" where
  "reanchor_switch env = env_flag env ''VULTURE_LLM_QUOTE_REANCHOR'' True"

definition reanchor_enabled :: "env \<Rightarrow> bool" where
  "reanchor_enabled env = (quote_mode env = ''enforce'' \<and> reanchor_switch env)"

definition ANCHOR_QUALITY :: "(string \<times> int) list" where
  "ANCHOR_QUALITY = [(''exact'', 6), (''reanchored'', 5), (''near_miss'', 4), (''found_elsewhere'', 3),
     (''ambiguous'', 2), (''unquoted'', 1), (''oversize'', 1), (''unreadable'', 0), (''absent'', 0)]"

definition ADOPTED_ANCHOR_FIELDS :: "string list" where
  "ADOPTED_ANCHOR_FIELDS = [''_anchor_status'', ''_anchor_delta'', ''_anchor_candidates'', ''_anchor_other_path'']"

definition anchor_rank :: "pydict \<Rightarrow> int" where
  "anchor_rank finding = (case map_of ANCHOR_QUALITY (text_field finding ''_anchor_status'') of None \<Rightarrow> -1 | Some n \<Rightarrow> n)"

definition adopt_line :: "env \<Rightarrow> pydict \<Rightarrow> pydict \<Rightarrow> pydict" where
  "adopt_line env survivor other =
     (if \<not> reanchor_enabled env then survivor
      else let s = put ''line_start'' (get_or other ''line_start'' (get survivor ''line_start'')) survivor in
        put ''line_end'' (get_or other ''line_end'' (get s ''line_end'')) s)"

definition adopt_anchor :: "env \<Rightarrow> pydict \<Rightarrow> pydict \<Rightarrow> pydict" where
  "adopt_anchor env survivor other =
     (if anchor_rank other \<le> anchor_rank survivor then survivor
      else adopt_line env (foldl (\<lambda>s name. put name (get other name) s) survivor ADOPTED_ANCHOR_FIELDS) other)"

section \<open>The descriptions a survivor swallowed\<close>

definition MERGED_LLM_MAX_ENTRIES :: nat where "MERGED_LLM_MAX_ENTRIES = 8"
definition MERGED_LLM_MAX_BYTES :: nat where "MERGED_LLM_MAX_BYTES = 2048"
definition MERGED_LLM_MARKER :: string where "MERGED_LLM_MARKER = [CHR 0xE2, CHR 0x80, CHR 0xA6]"

definition dedup_tier :: "pydict \<Rightarrow> string" where
  "dedup_tier row = py_str (py_or (get row ''provenance'') (PStr ''llm''))"

definition is_tier_merge :: "pydict \<Rightarrow> string \<Rightarrow> bool" where
  "is_tier_merge survivor dropped_tier =
     (is_llm_provenance (PStr dropped_tier) \<and> \<not> is_llm_provenance (PStr (dedup_tier survivor)))"

definition redact_merged_description :: "(string \<Rightarrow> string) \<Rightarrow> string \<Rightarrow> bool \<Rightarrow> string" where
  "redact_merged_description masker description secret_bearing =
     masker (if secret_bearing then redact_secret_text description
             else join_nl (map redact_prose (split_nl description)))"

text \<open>\<open>_truncate_utf8\<close>: the longest start of whole characters within the bytes.\<close>

definition truncate_utf8 :: "string \<Rightarrow> nat \<Rightarrow> string" where
  "truncate_utf8 s max_bytes = (if length (utf8 s) \<le> max_bytes then s else fitting max_bytes s)"

definition merged_llm_entry :: "string \<Rightarrow> string \<Rightarrow> pydict" where
  "merged_llm_entry tier description =
     (let entry = [(''provenance'', PStr tier), (''description'', PStr description)] in
      if MERGED_LLM_MAX_BYTES < length (utf8 description)
      then put ''truncated'' (PBool True)
        (put ''description'' (PStr (truncate_utf8 description (MERGED_LLM_MAX_BYTES - 3) @ MERGED_LLM_MARKER)) entry)
      else entry)"

record merged_ledger =
  ml_descs :: "string list"
  ml_tiers :: "pyval list"
  ml_described :: nat
  ml_tier_only :: "(pyval \<times> nat) list"

text \<open>\<open>note\<close>: an entry already stored at an index of the list.\<close>

definition entry_field :: "pyval \<Rightarrow> string \<Rightarrow> pyval result" where
  "entry_field entry k = (case entry of
     PDict d \<Rightarrow> (case map_of d k of None \<Rightarrow> Raise KeyError | Some v \<Rightarrow> Ret v) | _ \<Rightarrow> Raise TypeError)"

definition entry_text :: "pyval \<Rightarrow> string result" where
  "entry_text entry = bind_result (entry_field entry ''description'') (\<lambda>v.
     case v of PStr s \<Rightarrow> Ret (trim_go_space s) | _ \<Rightarrow> Raise AttributeError)"

definition ledger_note :: "pyval \<Rightarrow> nat \<Rightarrow> merged_ledger \<Rightarrow> merged_ledger result" where
  "ledger_note entry i lg =
     bind_result (entry_field entry ''provenance'') (\<lambda>tier.
     bind_result (entry_text entry) (\<lambda>t.
     bind_result (py_key tier) (\<lambda>tier.
       let lg' = lg\<lparr>ml_descs := List.insert t (ml_descs lg), ml_tiers := List.insert tier (ml_tiers lg)\<rparr> in
       Ret (if t \<noteq> [] then lg'\<lparr>ml_described := ml_described lg + 1, ml_tier_only := AList.delete tier (ml_tier_only lg)\<rparr>
            else lg'\<lparr>ml_tier_only := AList.update tier i (ml_tier_only lg)\<rparr>))))"

fun ledger_note_all :: "nat \<Rightarrow> pyval list \<Rightarrow> merged_ledger \<Rightarrow> merged_ledger result" where
  "ledger_note_all i [] lg = Ret lg"
| "ledger_note_all i (e # es) lg = bind_result (ledger_note e i lg) (ledger_note_all (i + 1) es)"

definition ledger_of :: "pydict \<Rightarrow> merged_ledger result" where
  "ledger_of survivor =
     bind_result (py_iter (get_or survivor ''merged_llm'' (PList []))) (\<lambda>entries.
       ledger_note_all 0 entries \<lparr>ml_descs = remdups [[], trim_go_space (text_field survivor ''description'')], ml_tiers = [],
         ml_described = 0, ml_tier_only = []\<rparr>)"

definition add_one :: "pyval \<Rightarrow> pyval result" where
  "add_one v = (case v of PInt i \<Rightarrow> Ret (PInt (i + 1)) | PBool b \<Rightarrow> Ret (PInt (of_bool b + 1)) | _ \<Rightarrow> Raise TypeError)"

type_synonym ledger_step = "pydict option \<times> pydict \<times> merged_ledger"

text \<open>The survivor counts a description it refuses at the cap.\<close>

definition admit_description ::
  "(string \<Rightarrow> string) \<Rightarrow> pydict \<Rightarrow> pydict \<Rightarrow> string \<Rightarrow> merged_ledger \<Rightarrow> ledger_step result" where
  "admit_description masker survivor dropped tier lg =
     (let raw = text_field dropped ''description''; key = trim_go_space raw in
      if key \<in> set (ml_descs lg) then Ret (None, survivor, lg)
      else let lg' = lg\<lparr>ml_descs := key # ml_descs lg\<rparr> in
        if MERGED_LLM_MAX_ENTRIES \<le> ml_described lg then
          bind_result (add_one (get_or survivor ''merged_llm_dropped'' (PInt 0))) (\<lambda>n.
            Ret (None, put ''merged_llm_dropped'' n survivor, lg'))
        else let entry = merged_llm_entry tier (redact_merged_description masker raw
                   (is_secret_bearing survivor \<or> is_secret_bearing dropped));
                 stored = trim_go_space (text_field entry ''description'') in
          Ret (if stored = key \<or> stored \<notin> set (ml_descs lg') then Some entry else None, survivor, lg'))"

definition admit_tier :: "string \<Rightarrow> merged_ledger \<Rightarrow> pydict option" where
  "admit_tier tier lg =
     (if PStr tier \<in> set (ml_tiers lg) \<or> MERGED_LLM_MAX_ENTRIES \<le> length (ml_tier_only lg) then None
      else Some [(''provenance'', PStr tier), (''description'', PStr [])])"

definition store_entry :: "pydict \<Rightarrow> pydict \<Rightarrow> merged_ledger \<Rightarrow> (pydict \<times> merged_ledger) result" where
  "store_entry survivor entry lg =
     (case get_or survivor ''merged_llm'' (PList []) of
        PList rows \<Rightarrow>
          let i = (if truthy (get entry ''description'') then
                     (case map_of (ml_tier_only lg) (get entry ''provenance'') of None \<Rightarrow> length rows | Some k \<Rightarrow> k)
                   else length rows) in
          bind_result (ledger_note (PDict entry) i lg) (\<lambda>lg'.
            Ret (put ''merged_llm'' (PList (take i rows @ PDict entry # drop (i + 1) rows)) survivor, lg'))
      | _ \<Rightarrow> Raise TypeError)"

definition record_merged_llm ::
  "(string \<Rightarrow> string) \<Rightarrow> pydict \<Rightarrow> pydict \<Rightarrow> merged_ledger \<Rightarrow> (pydict \<times> merged_ledger) result" where
  "record_merged_llm masker survivor dropped lg =
     (let tier = dedup_tier dropped in
      if \<not> is_tier_merge survivor tier then Ret (survivor, lg)
      else bind_result (admit_description masker survivor dropped tier lg) (\<lambda>(entry, survivor', lg').
        case (case entry of Some e \<Rightarrow> Some e | None \<Rightarrow> admit_tier tier lg') of
          None \<Rightarrow> Ret (survivor', lg')
        | Some e \<Rightarrow> store_entry survivor' e lg'))"

section \<open>The dedup\<close>

record dedup_state =
  ds_base :: "pydict list"
  ds_unique :: "pydict list"
  ds_seen :: "(dedup_key \<times> (bool \<times> nat)) list"
  ds_ledgers :: "(nat \<times> merged_ledger) list"

definition absorb :: "env \<Rightarrow> (string \<Rightarrow> string) \<Rightarrow> bool \<times> nat \<Rightarrow> pydict \<Rightarrow> dedup_state \<Rightarrow> dedup_state result" where
  "absorb env masker survivor dropped st = (case survivor of (from_base, i) \<Rightarrow>
     if \<not> from_base then Ret (st\<lparr>ds_unique := (ds_unique st)[i := adopt_anchor env (ds_unique st ! i) dropped]\<rparr>)
     else bind_result (case map_of (ds_ledgers st) i of Some lg \<Rightarrow> Ret lg | None \<Rightarrow> ledger_of (ds_base st ! i)) (\<lambda>lg.
       bind_result (record_merged_llm masker (ds_base st ! i) dropped lg) (\<lambda>(row, lg').
         Ret (st\<lparr>ds_base := (ds_base st)[i := row], ds_ledgers := AList.update i lg' (ds_ledgers st)\<rparr>))))"

definition dedup_row :: "env \<Rightarrow> (string \<Rightarrow> string) \<Rightarrow> (string \<Rightarrow> string) \<Rightarrow> string \<Rightarrow> pydict \<Rightarrow> dedup_state \<Rightarrow> dedup_state result" where
  "dedup_row env masker realpath source_path f st =
     bind_result (dedup_key realpath source_path f) (\<lambda>key.
       case map_of (ds_seen st) key of
         Some s \<Rightarrow> absorb env masker s f st
       | None \<Rightarrow> Ret (st\<lparr>ds_seen := AList.update key (False, length (ds_unique st)) (ds_seen st), ds_unique := ds_unique st @ [f]\<rparr>))"

fun dedup_rows :: "env \<Rightarrow> (string \<Rightarrow> string) \<Rightarrow> (string \<Rightarrow> string) \<Rightarrow> string \<Rightarrow> pydict list \<Rightarrow> dedup_state \<Rightarrow> dedup_state result" where
  "dedup_rows env masker realpath source_path [] st = Ret st"
| "dedup_rows env masker realpath source_path (f # fs) st =
     bind_result (dedup_row env masker realpath source_path f st) (dedup_rows env masker realpath source_path fs)"

definition base_seen :: "dedup_key list \<Rightarrow> (dedup_key \<times> (bool \<times> nat)) list" where
  "base_seen keys = foldl (\<lambda>seen (i, k). AList.update k (True, i) seen) [] (enum_from 0 keys)"

definition deduplicate_findings ::
  "env \<Rightarrow> (string \<Rightarrow> string) \<Rightarrow> (string \<Rightarrow> string) \<Rightarrow> string \<Rightarrow> pydict list \<Rightarrow> pydict list \<Rightarrow> (pydict list \<times> pydict list) result" where
  "deduplicate_findings env masker realpath source_path base new =
     bind_result (map_result (dedup_key realpath source_path) base) (\<lambda>keys.
     bind_result (dedup_rows env masker realpath source_path new
         \<lparr>ds_base = base, ds_unique = [], ds_seen = base_seen keys, ds_ledgers = []\<rparr>) (\<lambda>st.
       Ret (ds_base st, ds_unique st)))"

section \<open>The counters\<close>

record dedup_tally =
  dt_emitted :: int
  dt_collapsed :: int
  dt_available :: bool

definition new_tally :: dedup_tally where
  "new_tally = \<lparr>dt_emitted = 0, dt_collapsed = 0, dt_available = True\<rparr>"

definition tally_collapse where
  "tally_collapse env masker realpath source_path base rows t =
     bind_result (deduplicate_findings env masker realpath source_path base rows) (\<lambda>(base', kept).
       Ret (base', kept, t\<lparr>dt_collapsed := dt_collapsed t + (int (length rows) - int (length kept))\<rparr>))"

definition tally_dedup where
  "tally_dedup env masker realpath source_path base rows t =
     tally_collapse env masker realpath source_path base rows (t\<lparr>dt_emitted := dt_emitted t + int (length rows)\<rparr>)"

definition as_result :: "dedup_tally \<Rightarrow> pydict" where
  "as_result t = (if \<not> dt_available t then []
     else [(''llm_emitted'', PInt (dt_emitted t)), (''llm_collapsed_agent'', PInt (dt_collapsed t))])"

end
