(* ===== verification/Merge_Promises.thy ===== *)
theory Merge_Promises
  imports Finding_Merge
begin

text \<open>
  What the dedup of \<open>Finding_Merge\<close> promises: one surviving row per key, carrying the best anchor of all
  rows that collapsed onto it, and base rows that change in nothing but the record of what they swallowed.
\<close>

section \<open>Adopting an anchor\<close>

definition same_but :: "string list \<Rightarrow> pydict \<Rightarrow> pydict \<Rightarrow> bool" where
  "same_but ks f g \<longleftrightarrow> (\<forall>k. k \<notin> set ks \<longrightarrow> map_of g k = map_of f k)"

lemma same_but_refl [simp]: "same_but ks f f"
  by (simp add: same_but_def)

lemma same_but_trans: "same_but ks f g \<Longrightarrow> same_but ks g h \<Longrightarrow> same_but ks f h"
  by (simp add: same_but_def)

lemma same_but_put: "k \<in> set ks \<Longrightarrow> same_but ks f g \<Longrightarrow> same_but ks f (put k v g)"
  by (auto simp: same_but_def)

lemma same_but_get: "same_but ks f g \<Longrightarrow> k \<notin> set ks \<Longrightarrow> get_or g k d = get_or f k d"
  by (simp add: same_but_def get_or_def)

definition ADOPTED :: "string list" where
  "ADOPTED = ADOPTED_ANCHOR_FIELDS @ [''line_start'', ''line_end'']"

lemma same_but_puts: "set names \<subseteq> set ks \<Longrightarrow> same_but ks f s \<Longrightarrow> same_but ks f (foldl (\<lambda>s name. put name (v name) s) s names)"
  by (induction names arbitrary: s) (auto intro: same_but_put)

lemma adopt_same_but: "same_but ADOPTED s (adopt_anchor env s other)"
  unfolding adopt_anchor_def adopt_line_def Let_def
  by (auto intro!: same_but_put same_but_puts simp: ADOPTED_def)

lemma adopt_status:
  "\<not> anchor_rank other \<le> anchor_rank s \<Longrightarrow> get (adopt_anchor env s other) ''_anchor_status'' = get other ''_anchor_status''"
  by (simp add: adopt_anchor_def adopt_line_def ADOPTED_ANCHOR_FIELDS_def Let_def)

lemma rank_adopt: "anchor_rank (adopt_anchor env s other) = max (anchor_rank s) (anchor_rank other)"
proof (cases "anchor_rank other \<le> anchor_rank s")
  case False
  from adopt_status [OF this] show ?thesis using False by (simp add: anchor_rank_def text_field_def)
qed (simp add: adopt_anchor_def)

lemma dedup_key_same: "same_but ADOPTED f g \<Longrightarrow> dedup_key realpath src g = dedup_key realpath src f"
  by (simp add: dedup_key_def Let_def same_but_get ADOPTED_def ADOPTED_ANCHOR_FIELDS_def)

section \<open>The ledger touches two fields\<close>

definition LEDGER_FIELDS :: "string list" where "LEDGER_FIELDS = [''merged_llm'', ''merged_llm_dropped'']"

lemma store_same: "store_entry s e lg = Ret (s', lg') \<Longrightarrow> same_but LEDGER_FIELDS s s'"
  by (auto simp: store_entry_def Let_def bind_result_Ret LEDGER_FIELDS_def intro: same_but_put split: pyval.splits)

lemma admit_same: "admit_description masker s d tier lg = Ret (e, s', lg') \<Longrightarrow> same_but LEDGER_FIELDS s s'"
  by (auto simp: admit_description_def Let_def bind_result_Ret LEDGER_FIELDS_def intro: same_but_put split: if_splits)

lemma record_same: "record_merged_llm masker s d lg = Ret (s', lg') \<Longrightarrow> same_but LEDGER_FIELDS s s'"
  by (auto simp: record_merged_llm_def Let_def bind_result_Ret dest!: admit_same store_same
      intro: same_but_trans split: if_splits option.splits)

section \<open>The loop\<close>

lemma map_of_base_seen: "map_of (base_seen keys) k \<noteq> None \<longleftrightarrow> k \<in> set keys"
  "map_of (base_seen keys) k = Some (b, i) \<Longrightarrow> b \<and> i < length keys"
proof (induction keys rule: rev_induct)
  case (snoc x keys)
  {
    case 1
    then show ?case using snoc by (auto simp: base_seen_def enum_from_append)
  next
    case 2
    then show ?case using snoc by (fastforce simp: base_seen_def enum_from_append split: if_splits)
  }
qed (simp_all add: base_seen_def)

definition key_rows :: "(string \<Rightarrow> string) \<Rightarrow> string \<Rightarrow> pydict list \<Rightarrow> dedup_key \<Rightarrow> pydict set" where
  "key_rows realpath src fs k = {f \<in> set fs. dedup_key realpath src f = Ret k}"

definition best_rank :: "(string \<Rightarrow> string) \<Rightarrow> string \<Rightarrow> pydict list \<Rightarrow> dedup_key \<Rightarrow> int" where
  "best_rank realpath src fs k = Max (anchor_rank ` key_rows realpath src fs k)"

text \<open>What holds after the rows \<open>ns\<close>: the keys of the unique rows, where each key is kept, and which rank
  each survivor has.\<close>

definition dedup_inv where
  "dedup_inv realpath src base bks ns st us \<longleftrightarrow>
     map (dedup_key realpath src) (ds_unique st) = map Ret us \<and> distinct us \<and> set us \<inter> set bks = {} \<and>
     (\<forall>f \<in> set ns. \<exists>k. dedup_key realpath src f = Ret k \<and> k \<in> set us \<union> set bks) \<and>
     (\<forall>k i. map_of (ds_seen st) k = Some (True, i) \<longrightarrow> k \<in> set bks \<and> i < length base) \<and>
     (\<forall>k. k \<in> set bks \<longrightarrow> (\<exists>i. map_of (ds_seen st) k = Some (True, i))) \<and>
     (\<forall>k j. map_of (ds_seen st) k = Some (False, j) \<longleftrightarrow> j < length us \<and> us ! j = k) \<and>
     (\<forall>j < length us. anchor_rank (ds_unique st ! j) = best_rank realpath src ns (us ! j) \<and>
        (\<exists>f \<in> key_rows realpath src ns (us ! j). same_but ADOPTED f (ds_unique st ! j))) \<and>
     list_all2 (same_but LEDGER_FIELDS) base (ds_base st)"

lemma key_rows_snoc: "key_rows realpath src (ns @ [f]) k =
    (if dedup_key realpath src f = Ret k then insert f (key_rows realpath src ns k) else key_rows realpath src ns k)"
  by (auto simp: key_rows_def)

lemma best_rank_other: "dedup_key realpath src f \<noteq> Ret k \<Longrightarrow> best_rank realpath src (ns @ [f]) k = best_rank realpath src ns k"
  by (simp add: best_rank_def key_rows_snoc)

lemma best_rank_same: "dedup_key realpath src f = Ret k \<Longrightarrow> key_rows realpath src ns k \<noteq> {} \<Longrightarrow>
    best_rank realpath src (ns @ [f]) k = max (best_rank realpath src ns k) (anchor_rank f)"
  by (simp add: best_rank_def key_rows_snoc max.commute) (simp add: key_rows_def)

lemma best_rank_first: "dedup_key realpath src f = Ret k \<Longrightarrow> key_rows realpath src ns k = {} \<Longrightarrow>
    best_rank realpath src (ns @ [f]) k = anchor_rank f"
  by (simp add: best_rank_def key_rows_snoc)

text \<open>The parts of the invariant, under their names.\<close>

lemma dedup_invD:
  assumes "dedup_inv realpath src base bks ns st us"
  shows inv_unique: "map (dedup_key realpath src) (ds_unique st) = map Ret us" and inv_distinct: "distinct us"
    and inv_apart: "set us \<inter> set bks = {}"
    and inv_keys: "f \<in> set ns \<Longrightarrow> \<exists>k. dedup_key realpath src f = Ret k \<and> k \<in> set us \<union> set bks"
    and inv_base: "map_of (ds_seen st) k = Some (True, i) \<Longrightarrow> k \<in> set bks \<and> i < length base"
    and inv_base_keys: "k \<in> set bks \<Longrightarrow> \<exists>i. map_of (ds_seen st) k = Some (True, i)"
    and inv_slot: "map_of (ds_seen st) k = Some (False, j) \<longleftrightarrow> j < length us \<and> us ! j = k"
    and inv_rank: "j < length us \<Longrightarrow> anchor_rank (ds_unique st ! j) = best_rank realpath src ns (us ! j)"
    and inv_origin: "j < length us \<Longrightarrow> \<exists>f \<in> key_rows realpath src ns (us ! j). same_but ADOPTED f (ds_unique st ! j)"
    and inv_rows: "list_all2 (same_but LEDGER_FIELDS) base (ds_base st)"
  using assms unfolding dedup_inv_def by blast+

lemma dedup_invI:
  assumes "map (dedup_key realpath src) (ds_unique st) = map Ret us" and "distinct us" and "set us \<inter> set bks = {}"
    and "\<And>f. f \<in> set ns \<Longrightarrow> \<exists>k. dedup_key realpath src f = Ret k \<and> k \<in> set us \<union> set bks"
    and "\<And>k i. map_of (ds_seen st) k = Some (True, i) \<Longrightarrow> k \<in> set bks \<and> i < length base"
    and "\<And>k. k \<in> set bks \<Longrightarrow> \<exists>i. map_of (ds_seen st) k = Some (True, i)"
    and "\<And>k j. map_of (ds_seen st) k = Some (False, j) \<longleftrightarrow> j < length us \<and> us ! j = k"
    and "\<And>j. j < length us \<Longrightarrow> anchor_rank (ds_unique st ! j) = best_rank realpath src ns (us ! j)"
    and "\<And>j. j < length us \<Longrightarrow> \<exists>f \<in> key_rows realpath src ns (us ! j). same_but ADOPTED f (ds_unique st ! j)"
    and "list_all2 (same_but LEDGER_FIELDS) base (ds_base st)"
  shows "dedup_inv realpath src base bks ns st us"
  unfolding dedup_inv_def using assms by blast

lemma keys_grow:
  assumes "dedup_inv realpath src base bks ns st us" and "dedup_key realpath src f = Ret k" and "k \<in> set us' \<union> set bks"
    and "set us \<subseteq> set us'" and "g \<in> set (ns @ [f])"
  shows "\<exists>k. dedup_key realpath src g = Ret k \<and> k \<in> set us' \<union> set bks"
proof (cases "g = f")
  case False
  then have "g \<in> set ns" using assms(5) by simp
  from inv_keys [OF assms(1) this] show ?thesis using assms(4) by blast
qed (use assms in blast)

lemma key_rows_us: "dedup_inv realpath src base bks ns st us \<Longrightarrow> j < length us \<Longrightarrow> key_rows realpath src ns (us ! j) \<noteq> {}"
  using inv_origin by blast

lemma unseen:
  assumes "dedup_inv realpath src base bks ns st us" and "map_of (ds_seen st) k = None"
  shows "k \<notin> set us" and "k \<notin> set bks" and "key_rows realpath src ns k = {}"
proof -
  show us: "k \<notin> set us" using inv_slot [OF assms(1), of k] assms(2) by (auto simp: in_set_conv_nth)
  show bks: "k \<notin> set bks" using inv_base_keys [OF assms(1), of k] assms(2) by auto
  show "key_rows realpath src ns k = {}" using inv_keys [OF assms(1)] us bks by (fastforce simp: key_rows_def)
qed

lemma step_new:
  assumes inv: "dedup_inv realpath src base bks ns st us" and k: "dedup_key realpath src f = Ret k"
    and none: "map_of (ds_seen st) k = None"
  shows "dedup_inv realpath src base bks (ns @ [f])
    (st\<lparr>ds_seen := AList.update k (False, length (ds_unique st)) (ds_seen st), ds_unique := ds_unique st @ [f]\<rparr>) (us @ [k])"
proof -
  have len: "length (ds_unique st) = length us" using inv_unique [OF inv] by (metis length_map)
  have rank: "anchor_rank ((ds_unique st @ [f]) ! j) = best_rank realpath src (ns @ [f]) ((us @ [k]) ! j)" if "j < length (us @ [k])" for j
  proof (cases "j < length us")
    case True
    then have "us ! j \<noteq> k" using unseen(1) [OF inv none] by auto
    then show ?thesis using True len inv_rank [OF inv True] best_rank_other [of realpath src f "us ! j" ns] k by (simp add: nth_append)
  next
    case False
    then have "j = length us" using that by simp
    then show ?thesis using len best_rank_first [OF k unseen(3) [OF inv none]] by (simp add: nth_append)
  qed
  have origin: "\<exists>g \<in> key_rows realpath src (ns @ [f]) ((us @ [k]) ! j). same_but ADOPTED g ((ds_unique st @ [f]) ! j)"
    if "j < length (us @ [k])" for j
  proof (cases "j < length us")
    case True
    then show ?thesis using len inv_origin [OF inv True] by (auto simp: nth_append key_rows_snoc)
  next
    case False
    then show ?thesis using that len k by (auto simp: nth_append key_rows_snoc)
  qed
  have slot: "map_of (AList.update k (False, length (ds_unique st)) (ds_seen st)) k' = Some (False, j) \<longleftrightarrow>
      j < length (us @ [k]) \<and> (us @ [k]) ! j = k'" for k' j
    using inv_slot [OF inv, of k' j] unseen(1) [OF inv none] len by (auto simp: nth_append)
  note fresh = unseen [OF inv none]
  show ?thesis
  proof (rule dedup_invI)
    show "\<exists>k'. dedup_key realpath src g = Ret k' \<and> k' \<in> set (us @ [k]) \<union> set bks" if "g \<in> set (ns @ [f])" for g
      by (rule keys_grow [OF inv k _ _ that]) auto
  qed (use inv_unique [OF inv] inv_distinct [OF inv] inv_apart [OF inv] inv_base [OF inv] inv_base_keys [OF inv]
      inv_rows [OF inv] fresh k rank origin slot in \<open>auto split: if_splits\<close>)
qed

lemma step_adopt:
  assumes inv: "dedup_inv realpath src base bks ns st us" and k: "dedup_key realpath src f = Ret k"
    and j: "map_of (ds_seen st) k = Some (False, j)"
  shows "dedup_inv realpath src base bks (ns @ [f]) (st\<lparr>ds_unique := (ds_unique st)[j := adopt_anchor env (ds_unique st ! j) f]\<rparr>) us"
proof -
  have len: "length (ds_unique st) = length us" using inv_unique [OF inv] by (metis length_map)
  have jk: "j < length us" "us ! j = k" using inv_slot [OF inv] j by auto
  let ?u = "adopt_anchor env (ds_unique st ! j) f"
  have "dedup_key realpath src ?u = Ret k"
    using dedup_key_same [OF adopt_same_but] jk inv_unique [OF inv] len by (metis nth_map)
  then have unique: "map (dedup_key realpath src) ((ds_unique st)[j := ?u]) = map Ret us"
    using inv_unique [OF inv] jk len by (simp add: map_update list_update_same_conv)
  have rank: "anchor_rank ((ds_unique st)[j := ?u] ! i) = best_rank realpath src (ns @ [f]) (us ! i)" if i: "i < length us" for i
  proof (cases "i = j")
    case True
    then show ?thesis using jk len i inv_rank [OF inv i] best_rank_same [OF k] key_rows_us [OF inv i] by (simp add: rank_adopt)
  next
    case False
    then have "us ! i \<noteq> k" using inv_distinct [OF inv] jk i nth_eq_iff_index_eq by metis
    then show ?thesis using False i inv_rank [OF inv i] best_rank_other [of realpath src f "us ! i" ns] k by simp
  qed
  have origin: "\<exists>g \<in> key_rows realpath src (ns @ [f]) (us ! i). same_but ADOPTED g ((ds_unique st)[j := ?u] ! i)" if i: "i < length us" for i
  proof -
    obtain g where g: "g \<in> key_rows realpath src ns (us ! i)" "same_but ADOPTED g (ds_unique st ! i)"
      using inv_origin [OF inv i] by blast
    have "same_but ADOPTED g ((ds_unique st)[j := ?u] ! i)"
      using g(2) same_but_trans [OF g(2) adopt_same_but] i len by (cases "i = j") auto
    then show ?thesis using g(1) by (auto simp: key_rows_snoc)
  qed
  show ?thesis
  proof (rule dedup_invI)
    show "\<exists>k'. dedup_key realpath src g = Ret k' \<and> k' \<in> set us \<union> set bks" if "g \<in> set (ns @ [f])" for g
      by (rule keys_grow [OF inv k _ _ that]) (use jk in auto)
  qed (use inv_distinct [OF inv] inv_apart [OF inv] inv_base [OF inv] inv_base_keys [OF inv]
      inv_slot [OF inv] inv_rows [OF inv] unique rank origin in \<open>auto\<close>)
qed

lemma step_swallow:
  assumes inv: "dedup_inv realpath src base bks ns st us" and k: "dedup_key realpath src f = Ret k"
    and i: "map_of (ds_seen st) k = Some (True, i)" and row: "same_but LEDGER_FIELDS (ds_base st ! i) row"
  shows "dedup_inv realpath src base bks (ns @ [f]) (st\<lparr>ds_base := (ds_base st)[i := row], ds_ledgers := ls\<rparr>) us"
proof -
  have ik: "k \<in> set bks" "i < length base" using inv_base [OF inv i] by auto
  have len: "length (ds_base st) = length base" using inv_rows [OF inv] by (simp add: list_all2_lengthD)
  have rows: "list_all2 (same_but LEDGER_FIELDS) base ((ds_base st)[i := row])"
    using inv_rows [OF inv] row ik len same_but_trans
    by (auto simp: list_all2_conv_all_nth nth_list_update)
  have other: "us ! j \<noteq> k" if "j < length us" for j using inv_apart [OF inv] ik(1) nth_mem [OF that] by blast
  have rank: "anchor_rank (ds_unique st ! j) = best_rank realpath src (ns @ [f]) (us ! j)" if "j < length us" for j
    using inv_rank [OF inv that] best_rank_other [of realpath src f "us ! j" ns] k other [OF that] by simp
  have origin: "\<exists>g \<in> key_rows realpath src (ns @ [f]) (us ! j). same_but ADOPTED g (ds_unique st ! j)" if "j < length us" for j
    using inv_origin [OF inv that] by (auto simp: key_rows_snoc)
  show ?thesis
  proof (rule dedup_invI)
    show "\<exists>k'. dedup_key realpath src g = Ret k' \<and> k' \<in> set us \<union> set bks" if "g \<in> set (ns @ [f])" for g
      by (rule keys_grow [OF inv k _ _ that]) (use ik in auto)
  qed (use inv_unique [OF inv] inv_distinct [OF inv] inv_apart [OF inv] inv_base [OF inv]
      inv_base_keys [OF inv] inv_slot [OF inv] rows rank origin in \<open>auto\<close>)
qed

lemma dedup_row_inv:
  assumes inv: "dedup_inv realpath src base bks ns st us" and row: "dedup_row env masker realpath src f st = Ret st'"
  shows "\<exists>us'. dedup_inv realpath src base bks (ns @ [f]) st' us'"
proof -
  obtain k where k: "dedup_key realpath src f = Ret k" using row by (auto simp: dedup_row_def bind_result_Ret)
  show ?thesis
  proof (cases "map_of (ds_seen st) k")
    case None
    then show ?thesis using step_new [OF inv k None] row k by (auto simp: dedup_row_def)
  next
    case (Some slot)
    obtain b i where slot: "slot = (b, i)" by (cases slot)
    have st': "absorb env masker (b, i) f st = Ret st'" using row k Some slot by (simp add: dedup_row_def)
    show ?thesis
    proof (cases b)
      case False
      then show ?thesis using step_adopt [OF inv k, of i env] Some slot st' by (auto simp: absorb_def)
    next
      case True
      then obtain lg row' lg' where "record_merged_llm masker (ds_base st ! i) f lg = Ret (row', lg')"
        "st' = st\<lparr>ds_base := (ds_base st)[i := row'], ds_ledgers := AList.update i lg' (ds_ledgers st)\<rparr>"
        using st' by (auto simp: absorb_def bind_result_Ret)
      then show ?thesis using step_swallow [OF inv k] record_same Some slot True by metis
    qed
  qed
qed

lemma dedup_rows_inv:
  "dedup_inv realpath src base bks ns st us \<Longrightarrow> dedup_rows env masker realpath src fs st = Ret st' \<Longrightarrow>
   \<exists>us'. dedup_inv realpath src base bks (ns @ fs) st' us'"
proof (induction fs arbitrary: ns st us)
  case (Cons f fs)
  then obtain st1 where st1: "dedup_row env masker realpath src f st = Ret st1" "dedup_rows env masker realpath src fs st1 = Ret st'"
    by (auto simp: bind_result_Ret)
  obtain us1 where "dedup_inv realpath src base bks (ns @ [f]) st1 us1" using dedup_row_inv [OF Cons.prems(1) st1(1)] by blast
  from Cons.IH [OF this st1(2)] show ?case by simp
qed auto

lemma dedup_start:
  assumes "map_result (dedup_key realpath src) base = Ret keys"
  shows "dedup_inv realpath src base keys [] \<lparr>ds_base = base, ds_unique = [], ds_seen = base_seen keys, ds_ledgers = []\<rparr> []"
proof (rule dedup_invI)
  fix k i assume "map_of (ds_seen \<lparr>ds_base = base, ds_unique = [], ds_seen = base_seen keys, ds_ledgers = []\<rparr>) k = Some (True, i)"
  then have "map_of (base_seen keys) k = Some (True, i)" by simp
  then show "k \<in> set keys \<and> i < length base"
    using map_of_base_seen(1) [of keys k] map_of_base_seen(2) [of keys k True i] map_result_length [OF assms] by auto
next
  fix k assume "k \<in> set keys"
  then obtain b i where "map_of (base_seen keys) k = Some (b, i)" using map_of_base_seen(1) [of keys k] by auto
  then show "\<exists>i. map_of (ds_seen \<lparr>ds_base = base, ds_unique = [], ds_seen = base_seen keys, ds_ledgers = []\<rparr>) k = Some (True, i)"
    using map_of_base_seen(2) [of keys k b i] by simp
next
  show "map_of (ds_seen \<lparr>ds_base = base, ds_unique = [], ds_seen = base_seen keys, ds_ledgers = []\<rparr>) k = Some (False, j)
      \<longleftrightarrow> j < length [] \<and> [] ! j = k" for k j
    using map_of_base_seen(2) [of keys k False j] by auto
qed (simp_all add: list_all2_same)

text \<open>C33. The dedup leaves one row for each key that only new rows have: a new row with that key, changed at most in
  its anchor and its line, and carrying the best anchor status of all the rows that collapsed onto it. The
  base rows stay, with at most the record of what they swallowed.\<close>

theorem one_best_row_per_key:
  assumes call: "deduplicate_findings env masker realpath src base new = Ret (base', unique)"
  shows "\<exists>us. map (dedup_key realpath src) unique = map Ret us \<and> distinct us \<and>
    set us = {k. \<exists>f \<in> set new. dedup_key realpath src f = Ret k} - {k. \<exists>b \<in> set base. dedup_key realpath src b = Ret k} \<and>
    (\<forall>j < length us. anchor_rank (unique ! j) = Max (anchor_rank ` {f \<in> set new. dedup_key realpath src f = Ret (us ! j)}) \<and>
       (\<exists>f \<in> set new. dedup_key realpath src f = Ret (us ! j) \<and> same_but ADOPTED f (unique ! j))) \<and>
    list_all2 (same_but LEDGER_FIELDS) base base'"
proof -
  obtain keys st where keys: "map_result (dedup_key realpath src) base = Ret keys"
    and st: "dedup_rows env masker realpath src new \<lparr>ds_base = base, ds_unique = [], ds_seen = base_seen keys, ds_ledgers = []\<rparr> = Ret st"
    and out: "base' = ds_base st" "unique = ds_unique st"
    using call by (auto simp: deduplicate_findings_def bind_result_Ret)
  obtain us where inv: "dedup_inv realpath src base keys new st us"
    using dedup_rows_inv [OF dedup_start [OF keys] st] by auto
  have bks: "set keys = {k. \<exists>b \<in> set base. dedup_key realpath src b = Ret k}"
    using in_map_result [OF keys] by auto
  have "set us = {k. \<exists>f \<in> set new. dedup_key realpath src f = Ret k} - set keys"
  proof (intro equalityI subsetI)
    fix k assume "k \<in> set us"
    then obtain j where "j < length us" "us ! j = k" by (auto simp: in_set_conv_nth)
    then show "k \<in> {k. \<exists>f \<in> set new. dedup_key realpath src f = Ret k} - set keys"
      using key_rows_us [OF inv] inv_apart [OF inv] nth_mem by (fastforce simp: key_rows_def)
  next
    fix k assume "k \<in> {k. \<exists>f \<in> set new. dedup_key realpath src f = Ret k} - set keys"
    then show "k \<in> set us" using inv_keys [OF inv] by fastforce
  qed
  moreover have "\<forall>j < length us. anchor_rank (unique ! j) = Max (anchor_rank ` {f \<in> set new. dedup_key realpath src f = Ret (us ! j)}) \<and>
       (\<exists>f \<in> set new. dedup_key realpath src f = Ret (us ! j) \<and> same_but ADOPTED f (unique ! j))"
    using inv_rank [OF inv] inv_origin [OF inv] out by (auto simp: best_rank_def key_rows_def)
  ultimately show ?thesis using inv_unique [OF inv] inv_distinct [OF inv] inv_rows [OF inv] out bks by (intro exI [of _ us]) simp
qed

text \<open>The counters account for every row of a batch: what was emitted is what was collapsed and what is kept.\<close>

lemma tally_balances:
  assumes "tally_dedup env masker realpath src base rows t = Ret (base', kept, t')"
  shows "dt_emitted t' - dt_collapsed t' = dt_emitted t - dt_collapsed t + int (length kept)"
  using assms by (auto simp: tally_dedup_def tally_collapse_def bind_result_Ret)

end
