(* ===== verification/Merge_Ledger.thy ===== *)
theory Merge_Ledger
  imports Merge_Promises
begin

text \<open>
  The bounds of the record a deterministic survivor keeps of the model's rows it swallowed: how many
  entries, and how long each description is.
\<close>

section \<open>Entries\<close>

definition described :: "pyval \<Rightarrow> bool" where
  "described e = (case entry_text e of Inr t \<Rightarrow> t \<noteq> [] | Inl _ \<Rightarrow> False)"

definition fits :: "string \<Rightarrow> bool" where
  "fits s \<longleftrightarrow> length (utf8 s) \<le> MERGED_LLM_MAX_BYTES \<or>
     (\<exists>kept. s = kept @ MERGED_LLM_MARKER \<and> length (utf8 kept) \<le> MERGED_LLM_MAX_BYTES - 3)"

definition entry_ok :: "pyval \<Rightarrow> bool" where
  "entry_ok e \<longleftrightarrow> (\<exists>d t s. e = PDict d \<and> map_of d ''provenance'' = Some (PStr t) \<and> map_of d ''description'' = Some (PStr s) \<and> fits s)"

lemma fitting_bytes: "length (utf8 (fitting k s)) \<le> k"
  by (induction k s rule: fitting.induct) (auto simp: utf8_def)

lemma merged_entry_fields:
  "\<exists>s. map_of (merged_llm_entry tier desc) ''provenance'' = Some (PStr tier) \<and>
       map_of (merged_llm_entry tier desc) ''description'' = Some (PStr s) \<and> fits s"
proof (cases "MERGED_LLM_MAX_BYTES < length (utf8 desc)")
  case True
  let ?kept = "truncate_utf8 desc (MERGED_LLM_MAX_BYTES - 3)"
  have "length (utf8 ?kept) \<le> MERGED_LLM_MAX_BYTES - 3" by (simp add: truncate_utf8_def fitting_bytes)
  then have "fits (?kept @ MERGED_LLM_MARKER)" by (auto simp: fits_def)
  then show ?thesis using True by (simp add: merged_llm_entry_def Let_def)
qed (simp add: merged_llm_entry_def Let_def fits_def)

lemma merged_entry_ok: "entry_ok (PDict (merged_llm_entry tier desc))"
  using merged_entry_fields [of tier desc] by (auto simp: entry_ok_def)

lemma entry_ok_text: "entry_ok (PDict d) \<Longrightarrow> entry_text (PDict d) = Ret (trim_go_space (text_field d ''description''))"
  by (auto simp: entry_ok_def entry_text_def entry_field_def text_field_def get_or_def py_or_def)

section \<open>The ledger and the rows\<close>

definition slots_ok :: "pyval list \<Rightarrow> merged_ledger \<Rightarrow> bool" where
  "slots_ok rows lg \<longleftrightarrow> distinct (map fst (ml_tier_only lg)) \<and> distinct (map snd (ml_tier_only lg)) \<and>
     (\<forall>(t, i) \<in> set (ml_tier_only lg). t \<in> set (ml_tiers lg) \<and> i < length rows \<and> \<not> described (rows ! i))"

definition ledger_ok :: "pydict \<Rightarrow> merged_ledger \<Rightarrow> bool" where
  "ledger_ok row lg \<longleftrightarrow> (\<exists>rows. get_or row ''merged_llm'' (PList []) = PList rows \<and> (\<forall>e \<in> set rows. entry_ok e) \<and>
     ml_described lg = length (filter described rows) \<and> ml_described lg \<le> MERGED_LLM_MAX_ENTRIES \<and>
     length (ml_tier_only lg) + ml_described lg = length rows \<and> length (ml_tier_only lg) \<le> MERGED_LLM_MAX_ENTRIES \<and>
     slots_ok rows lg \<and> [] \<in> set (ml_descs lg))"

lemma filter_update_hit:
  "i < length xs \<Longrightarrow> \<not> P (xs ! i) \<Longrightarrow> P x \<Longrightarrow> length (filter P (xs[i := x])) = Suc (length (filter P xs))"
  by (induction xs arbitrary: i) (auto split: nat.splits)

lemma length_delete_key: "distinct (map fst ps) \<Longrightarrow> map_of ps k = Some v \<Longrightarrow> Suc (length (AList.delete k ps)) = length ps"
proof (induction ps)
  case (Cons p ps)
  show ?case
  proof (cases "fst p = k")
    case True
    then have "AList.delete k ps = ps" using Cons.prems(1) by (auto simp: AList.delete_eq filter_id_conv image_iff)
    then show ?thesis using True by (cases p) simp
  next
    case False
    then show ?thesis using Cons by (cases p) auto
  qed
qed simp

lemma delete_absent: "map_of ps k = None \<Longrightarrow> AList.delete k ps = ps"
  by (auto simp: AList.delete_eq filter_id_conv map_of_eq_None_iff image_iff)

lemma update_absent: "map_of ps k = None \<Longrightarrow> AList.update k v ps = ps @ [(k, v)]"
  by (induction ps) (auto split: if_splits)

lemma distinct_snd_delete: "distinct (map snd ps) \<Longrightarrow> distinct (map snd (AList.delete k ps))"
  by (simp add: AList.delete_eq distinct_map_filter)

lemma note_stored:
  assumes "entry_ok (PDict d)" and "get d ''provenance'' = PStr tier"
  shows "ledger_note (PDict d) i lg = Ret (let t = trim_go_space (text_field d ''description'');
      lg' = lg\<lparr>ml_descs := List.insert t (ml_descs lg), ml_tiers := List.insert (PStr tier) (ml_tiers lg)\<rparr> in
    if t \<noteq> [] then lg'\<lparr>ml_described := ml_described lg + 1, ml_tier_only := AList.delete (PStr tier) (ml_tier_only lg)\<rparr>
    else lg'\<lparr>ml_tier_only := AList.update (PStr tier) i (ml_tier_only lg)\<rparr>)"
proof -
  have "entry_field (PDict d) ''provenance'' = Ret (PStr tier)"
    using assms by (auto simp: entry_ok_def entry_field_def get_or_def)
  then show ?thesis using entry_ok_text [OF assms(1)] by (simp add: ledger_note_def Let_def)
qed

section \<open>Storing an entry keeps the ledger\<close>

lemma ledger_okD:
  assumes "ledger_ok row lg"
  obtains rows where "get_or row ''merged_llm'' (PList []) = PList rows" "\<forall>e \<in> set rows. entry_ok e"
    "ml_described lg = length (filter described rows)" "ml_described lg \<le> MERGED_LLM_MAX_ENTRIES"
    "length (ml_tier_only lg) + ml_described lg = length rows" "length (ml_tier_only lg) \<le> MERGED_LLM_MAX_ENTRIES"
    "slots_ok rows lg" "[] \<in> set (ml_descs lg)"
  using assms by (auto simp: ledger_ok_def)

lemma slots_grow:
  assumes "slots_ok rows lg" and "set (ml_tiers lg) \<subseteq> set (ml_tiers lg')" and "ml_tier_only lg' = ml_tier_only lg"
  shows "slots_ok (rows @ [e]) lg'"
  using assms by (fastforce simp: slots_ok_def nth_append)

lemma slots_replace:
  assumes ok: "slots_ok rows lg" and hit: "map_of (ml_tier_only lg) t = Some i"
    and lg': "set (ml_tiers lg) \<subseteq> set (ml_tiers lg')" "ml_tier_only lg' = AList.delete t (ml_tier_only lg)"
  shows "slots_ok (rows[i := e]) lg'"
proof -
  have "j \<noteq> i" if "(t', j) \<in> set (AList.delete t (ml_tier_only lg))" for t' j
  proof
    assume "j = i"
    have "t' \<noteq> t" "(t', j) \<in> set (ml_tier_only lg)" using that by (auto simp: AList.delete_eq)
    have "inj_on snd (set (ml_tier_only lg))" using ok by (simp add: slots_ok_def distinct_map)
    from inj_onD [OF this, of "(t', j)" "(t, i)"] have "(t', j) = (t, i)"
      using \<open>j = i\<close> \<open>(t', j) \<in> set (ml_tier_only lg)\<close> map_of_SomeD [OF hit] by simp
    then show False using \<open>t' \<noteq> t\<close> by simp
  qed
  moreover have "set (AList.delete t (ml_tier_only lg)) \<subseteq> set (ml_tier_only lg)" by (auto simp: AList.delete_eq)
  ultimately show ?thesis using ok lg' by (fastforce simp: slots_ok_def distinct_snd_delete distinct_delete)
qed

lemma slots_new_tier:
  assumes ok: "slots_ok rows lg" and new: "t \<notin> set (ml_tiers lg)" and undescribed: "\<not> described e"
    and lg': "ml_tiers lg' = List.insert t (ml_tiers lg)" "ml_tier_only lg' = AList.update t (length rows) (ml_tier_only lg)"
  shows "slots_ok (rows @ [e]) lg'" and "length (ml_tier_only lg') = Suc (length (ml_tier_only lg))"
proof -
  have none: "map_of (ml_tier_only lg) t = None"
    using ok new by (fastforce simp: slots_ok_def map_of_eq_None_iff)
  then have only: "ml_tier_only lg' = ml_tier_only lg @ [(t, length rows)]" using lg'(2) by (simp add: update_absent)
  then show "length (ml_tier_only lg') = Suc (length (ml_tier_only lg))" by simp
  have "length rows \<notin> set (map snd (ml_tier_only lg))" using ok by (fastforce simp: slots_ok_def)
  moreover have "t \<notin> set (map fst (ml_tier_only lg))" using none by (simp add: map_of_eq_None_iff)
  ultimately show "slots_ok (rows @ [e]) lg'"
    using ok undescribed by (fastforce simp: slots_ok_def only lg'(1) nth_append)
qed

lemma described_text: "entry_ok (PDict d) \<Longrightarrow> described (PDict d) \<longleftrightarrow> trim_go_space (text_field d ''description'') \<noteq> []"
  by (simp add: described_def entry_ok_text)

lemma described_truthy: "entry_ok (PDict d) \<Longrightarrow> described (PDict d) \<Longrightarrow> truthy (get d ''description'')"
  by (auto simp: described_text) (auto simp: entry_ok_def text_field_def py_or_def get_or_def trim_go_space_def strip_by_def)

lemma store_described:
  assumes ok: "ledger_ok row lg" and e: "entry_ok (PDict d)" "described (PDict d)" and tier: "get d ''provenance'' = PStr tier"
    and room: "ml_described lg < MERGED_LLM_MAX_ENTRIES" and store: "store_entry row d lg = Ret (row', lg')"
  shows "ledger_ok row' lg'"
proof -
  from ok obtain rows where rows: "get_or row ''merged_llm'' (PList []) = PList rows" "\<forall>e \<in> set rows. entry_ok e"
    "ml_described lg = length (filter described rows)" "length (ml_tier_only lg) + ml_described lg = length rows"
    "length (ml_tier_only lg) \<le> MERGED_LLM_MAX_ENTRIES" "slots_ok rows lg" "[] \<in> set (ml_descs lg)"
    by (auto elim: ledger_okD)
  let ?t = "trim_go_space (text_field d ''description'')"
  define lg1 where "lg1 = lg\<lparr>ml_descs := List.insert ?t (ml_descs lg), ml_tiers := List.insert (PStr tier) (ml_tiers lg),
    ml_described := ml_described lg + 1, ml_tier_only := AList.delete (PStr tier) (ml_tier_only lg)\<rparr>"
  have "ledger_note (PDict d) i lg = Ret lg1" for i
    using note_stored [OF e(1) tier] described_text [OF e(1)] e(2) by (simp add: lg1_def Let_def)
  note stored = store [unfolded store_entry_def, simplified rows(1) tier this, simplified described_truthy [OF e], simplified]
  show ?thesis
  proof (cases "map_of (ml_tier_only lg) (PStr tier)")
    case None
    then have "row' = put ''merged_llm'' (PList (rows @ [PDict d])) row" "lg' = lg1" using stored by (simp_all add: Let_def)
    moreover have "ml_tier_only lg1 = ml_tier_only lg" using None by (simp add: lg1_def delete_absent)
    moreover have "slots_ok (rows @ [PDict d]) lg1" by (rule slots_grow [OF rows(6)]) (use calculation in \<open>auto simp: lg1_def\<close>)
    ultimately show ?thesis using rows e room by (auto simp: ledger_ok_def lg1_def)
  next
    case (Some i)
    then have i: "i < length rows" "\<not> described (rows ! i)" using rows(6) map_of_SomeD [OF Some] by (auto simp: slots_ok_def)
    then have "row' = put ''merged_llm'' (PList (rows[i := PDict d])) row" "lg' = lg1"
      using stored Some by (simp_all add: Let_def upd_conv_take_nth_drop)
    moreover have "slots_ok (rows[i := PDict d]) lg1" by (rule slots_replace [OF rows(6) Some]) (auto simp: lg1_def)
    moreover have "Suc (length (ml_tier_only lg1)) = length (ml_tier_only lg)"
      using length_delete_key [OF _ Some] rows(6) by (simp add: lg1_def slots_ok_def)
    moreover have "length (filter described (rows[i := PDict d])) = Suc (length (filter described rows))"
      using filter_update_hit [OF i(1)] i(2) e(2) by blast
    moreover have "\<forall>e \<in> set (rows[i := PDict d]). entry_ok e" using rows(2) e(1) set_update_subset_insert [of rows i "PDict d"] by blast
    ultimately show ?thesis using rows room by (auto simp: ledger_ok_def lg1_def)
  qed
qed

lemma store_tier:
  assumes ok: "ledger_ok row lg" and new: "PStr tier \<notin> set (ml_tiers lg)" and room: "length (ml_tier_only lg) < MERGED_LLM_MAX_ENTRIES"
    and store: "store_entry row [(''provenance'', PStr tier), (''description'', PStr [])] lg = Ret (row', lg')"
  shows "ledger_ok row' lg'"
proof -
  let ?d = "[(''provenance'', PStr tier), (''description'', PStr [])]"
  from ok obtain rows where rows: "get_or row ''merged_llm'' (PList []) = PList rows" "\<forall>e \<in> set rows. entry_ok e"
    "ml_described lg = length (filter described rows)" "ml_described lg \<le> MERGED_LLM_MAX_ENTRIES"
    "length (ml_tier_only lg) + ml_described lg = length rows" "slots_ok rows lg" "[] \<in> set (ml_descs lg)"
    by (auto elim: ledger_okD)
  have e: "entry_ok (PDict ?d)" by (simp add: entry_ok_def fits_def utf8_def)
  have blank: "trim_go_space (text_field ?d ''description'') = []" by (simp add: text_field_def py_or_def get_or_def trim_go_space_def strip_by_def)
  then have undescribed: "\<not> described (PDict ?d)" using described_text [OF e] by simp
  define lg1 where "lg1 = lg\<lparr>ml_descs := List.insert [] (ml_descs lg), ml_tiers := List.insert (PStr tier) (ml_tiers lg),
    ml_tier_only := AList.update (PStr tier) (length rows) (ml_tier_only lg)\<rparr>"
  have fields: "get ?d ''description'' = PStr []" "get ?d ''provenance'' = PStr tier" by (simp_all add: get_or_def)
  have noted: "ledger_note (PDict ?d) (length rows) lg = Ret lg1"
    using note_stored [OF e, of tier "length rows" lg] blank by (simp add: lg1_def get_or_def Let_def)
  have "row' = put ''merged_llm'' (PList (rows @ [PDict ?d])) row" "lg' = lg1"
    using store noted fields by (simp_all add: store_entry_def rows(1) Let_def)
  moreover have "slots_ok (rows @ [PDict ?d]) lg1" "length (ml_tier_only lg1) = Suc (length (ml_tier_only lg))"
    using slots_new_tier [OF rows(6) new undescribed, of lg1] by (simp_all add: lg1_def)
  ultimately show ?thesis using rows e undescribed room by (auto simp: ledger_ok_def) (auto simp: lg1_def)
qed

section \<open>Recording keeps the ledger\<close>

lemma ledger_ok_other: "ledger_ok row lg \<Longrightarrow> k \<noteq> ''merged_llm'' \<Longrightarrow> ledger_ok (put k v row) lg"
  by (simp add: ledger_ok_def)

lemma ledger_ok_descs: "ledger_ok row lg \<Longrightarrow> ledger_ok row (lg\<lparr>ml_descs := t # ml_descs lg\<rparr>)"
  by (auto simp: ledger_ok_def slots_ok_def)

lemma admitted:
  assumes ok: "ledger_ok row lg" and admit: "admit_description masker row d tier lg = Ret (e, row', lg')"
  shows "ledger_ok row' lg' \<and> ml_tiers lg' = ml_tiers lg \<and> ml_tier_only lg' = ml_tier_only lg \<and>
    (\<forall>x. e = Some x \<longrightarrow> entry_ok (PDict x) \<and> described (PDict x) \<and> get x ''provenance'' = PStr tier
       \<and> ml_described lg' < MERGED_LLM_MAX_ENTRIES)"
proof -
  let ?raw = "text_field d ''description''"
  let ?lg = "lg\<lparr>ml_descs := trim_go_space ?raw # ml_descs lg\<rparr>"
  let ?entry = "merged_llm_entry tier (redact_merged_description masker ?raw (is_secret_bearing row \<or> is_secret_bearing d))"
  have blank: "[] \<in> set (ml_descs lg)" using ok by (auto elim: ledger_okD)
  consider "trim_go_space ?raw \<in> set (ml_descs lg)" | "trim_go_space ?raw \<notin> set (ml_descs lg)" "MERGED_LLM_MAX_ENTRIES \<le> ml_described lg"
    | "trim_go_space ?raw \<notin> set (ml_descs lg)" "ml_described lg < MERGED_LLM_MAX_ENTRIES" by linarith
  then show ?thesis
  proof cases
    case 1
    then show ?thesis using admit ok by (simp add: admit_description_def Let_def)
  next
    case 2
    then show ?thesis using admit ledger_ok_other [OF ledger_ok_descs [OF ok]]
      by (auto simp: admit_description_def Let_def bind_result_Ret)
  next
    case 3
    have e: "row' = row" "lg' = ?lg" "e = (if trim_go_space (text_field ?entry ''description'') = trim_go_space ?raw \<or>
        trim_go_space (text_field ?entry ''description'') \<notin> set (ml_descs ?lg) then Some ?entry else None)"
      using admit 3 by (auto simp: admit_description_def Let_def split del: if_split)
    have "described (PDict ?entry)" if "e \<noteq> None"
    proof -
      have "trim_go_space (text_field ?entry ''description'') \<noteq> []"
        using that e(3) 3(1) blank by (auto split: if_splits)
      then show ?thesis using described_text [OF merged_entry_ok] by simp
    qed
    moreover have "get ?entry ''provenance'' = PStr tier" using merged_entry_fields by (metis get_or_def option.case(2))
    ultimately show ?thesis using e 3 ledger_ok_descs [OF ok] merged_entry_ok by (auto split: if_splits)
  qed
qed

lemma record_keeps:
  assumes ok: "ledger_ok row lg" and rec: "record_merged_llm masker row d lg = Ret (row', lg')"
  shows "ledger_ok row' lg'"
proof (cases "is_tier_merge row (dedup_tier d)")
  case True
  let ?tier = "dedup_tier d"
  obtain e row1 lg1 where admit: "admit_description masker row d ?tier lg = Ret (e, row1, lg1)"
    and rest: "(case (case e of Some x \<Rightarrow> Some x | None \<Rightarrow> admit_tier ?tier lg1) of None \<Rightarrow> Ret (row1, lg1)
      | Some x \<Rightarrow> store_entry row1 x lg1) = Ret (row', lg')"
    using rec True by (auto simp: record_merged_llm_def Let_def bind_result_Ret)
  note a = admitted [OF ok admit]
  show ?thesis
  proof (cases e)
    case (Some x)
    then show ?thesis using a rest store_described by auto
  next
    case None
    show ?thesis
    proof (cases "admit_tier ?tier lg1")
      case (Some x)
      then have "x = [(''provenance'', PStr ?tier), (''description'', PStr [])]" "PStr ?tier \<notin> set (ml_tiers lg1)"
        "length (ml_tier_only lg1) < MERGED_LLM_MAX_ENTRIES" by (auto simp: admit_tier_def split: if_splits)
      then show ?thesis using a rest None Some store_tier by auto
    qed (use a rest None in auto)
  qed
qed (use rec ok in \<open>simp add: record_merged_llm_def\<close>)

lemma fresh_ledger:
  assumes "\<not> has_key row ''merged_llm''"
  shows "\<exists>lg. ledger_of row = Ret lg \<and> ledger_ok row lg"
proof -
  have "get_or row ''merged_llm'' (PList []) = PList []" using assms by (simp add: has_key_def get_or_def)
  then show ?thesis by (simp add: ledger_of_def ledger_ok_def slots_ok_def)
qed

section \<open>The bound\<close>

definition ledgers_inv :: "dedup_state \<Rightarrow> bool" where
  "ledgers_inv st \<longleftrightarrow> (\<forall>i < length (ds_base st). case map_of (ds_ledgers st) i of
     Some lg \<Rightarrow> ledger_ok (ds_base st ! i) lg | None \<Rightarrow> \<not> has_key (ds_base st ! i) ''merged_llm'')"

lemma ledgers_inv_same: "ds_base st' = ds_base st \<Longrightarrow> ds_ledgers st' = ds_ledgers st \<Longrightarrow> ledgers_inv st' = ledgers_inv st"
  by (simp only: ledgers_inv_def)

lemma absorb_ledgers:
  assumes inv: "ledgers_inv st" and a: "absorb env masker (b, i) f st = Ret st'" and i: "b \<Longrightarrow> i < length (ds_base st)"
  shows "ledgers_inv st' \<and> length (ds_base st') = length (ds_base st)"
proof (cases b)
  case True
  obtain lg row lg' where lg: "(case map_of (ds_ledgers st) i of Some lg \<Rightarrow> Ret lg | None \<Rightarrow> ledger_of (ds_base st ! i)) = Ret lg"
    and r: "record_merged_llm masker (ds_base st ! i) f lg = Ret (row, lg')"
    and st': "st' = st\<lparr>ds_base := (ds_base st)[i := row], ds_ledgers := AList.update i lg' (ds_ledgers st)\<rparr>"
    using a True by (auto simp: absorb_def bind_result_Ret)
  have "ledger_ok (ds_base st ! i) lg"
    using inv i [OF True] lg fresh_ledger [of "ds_base st ! i"] by (auto simp: ledgers_inv_def split: option.splits)
  then have "ledger_ok row lg'" by (rule record_keeps [OF _ r])
  then show ?thesis using inv by (auto simp: ledgers_inv_def st' nth_list_update split: option.splits)
next
  case False
  then have "st' = st\<lparr>ds_unique := (ds_unique st)[i := adopt_anchor env (ds_unique st ! i) f]\<rparr>"
    using a by (simp add: absorb_def)
  then show ?thesis using inv ledgers_inv_same [of st' st] by simp
qed

definition seen_inv :: "dedup_state \<Rightarrow> bool" where
  "seen_inv st \<longleftrightarrow> (\<forall>k i. map_of (ds_seen st) k = Some (True, i) \<longrightarrow> i < length (ds_base st))"

lemma absorb_seen: "absorb env masker s f st = Ret st' \<Longrightarrow> ds_seen st' = ds_seen st"
  by (auto simp: absorb_def bind_result_Ret split: prod.splits if_splits)

lemma dedup_row_ledgers:
  assumes "ledgers_inv st" and "seen_inv st" and "dedup_row env masker realpath src f st = Ret st'"
  shows "ledgers_inv st' \<and> seen_inv st'"
proof -
  obtain k where k: "(case map_of (ds_seen st) k of Some s \<Rightarrow> absorb env masker s f st
      | None \<Rightarrow> Ret (st\<lparr>ds_seen := AList.update k (False, length (ds_unique st)) (ds_seen st), ds_unique := ds_unique st @ [f]\<rparr>)) = Ret st'"
    using assms(3) by (auto simp: dedup_row_def bind_result_Ret)
  show ?thesis
  proof (cases "map_of (ds_seen st) k")
    case None
    then have "st' = st\<lparr>ds_seen := AList.update k (False, length (ds_unique st)) (ds_seen st), ds_unique := ds_unique st @ [f]\<rparr>"
      using k by simp
    moreover have "seen_inv st'" using calculation assms(2) by (simp add: seen_inv_def)
    ultimately show ?thesis using assms(1) ledgers_inv_same [of st' st] by simp
  next
    case (Some s)
    obtain b i where s: "s = (b, i)" by (cases s)
    have a: "absorb env masker (b, i) f st = Ret st'" using k Some s by simp
    have "b \<Longrightarrow> i < length (ds_base st)" using assms(2) Some s unfolding seen_inv_def by metis
    from absorb_ledgers [OF assms(1) a this] show ?thesis using absorb_seen [OF a] assms(2) by (simp add: seen_inv_def)
  qed
qed

lemma dedup_rows_ledgers:
  "ledgers_inv st \<Longrightarrow> seen_inv st \<Longrightarrow> dedup_rows env masker realpath src fs st = Ret st' \<Longrightarrow> ledgers_inv st'"
proof (induction fs arbitrary: st)
  case (Cons f fs)
  then obtain st1 where "dedup_row env masker realpath src f st = Ret st1" "dedup_rows env masker realpath src fs st1 = Ret st'"
    by (auto simp: bind_result_Ret)
  then show ?case using Cons dedup_row_ledgers by blast
qed simp

definition bounded_record :: "pydict \<Rightarrow> bool" where
  "bounded_record row \<longleftrightarrow> (\<exists>rows. get_or row ''merged_llm'' (PList []) = PList rows \<and> (\<forall>e \<in> set rows. entry_ok e) \<and>
     length (filter described rows) \<le> MERGED_LLM_MAX_ENTRIES \<and> length rows \<le> 2 * MERGED_LLM_MAX_ENTRIES)"

lemma ledger_ok_bounded: "ledger_ok row lg \<Longrightarrow> bounded_record row"
  by (auto simp: bounded_record_def elim!: ledger_okD)

text \<open>However many rows the model sends, the record on a base row stays small: at most eight descriptions and
  eight tiers without one, every description within 2048 bytes, its cut marker included.\<close>

theorem merged_record_is_bounded:
  assumes call: "deduplicate_findings env masker realpath src base new = Ret (base', unique)"
    and clean: "\<forall>b \<in> set base. \<not> has_key b ''merged_llm''"
  shows "\<forall>row \<in> set base'. bounded_record row"
proof -
  let ?st = "\<lambda>keys. \<lparr>ds_base = base, ds_unique = [], ds_seen = base_seen keys, ds_ledgers = []\<rparr>"
  obtain keys st where keys: "map_result (dedup_key realpath src) base = Ret keys"
    and st: "dedup_rows env masker realpath src new (?st keys) = Ret st" and out: "base' = ds_base st"
    using call by (auto simp: deduplicate_findings_def bind_result_Ret)
  have "ledgers_inv (?st keys)" using clean by (simp add: ledgers_inv_def)
  moreover have "seen_inv (?st keys)"
    using map_of_base_seen(2) map_result_length [OF keys] by (fastforce simp: seen_inv_def)
  ultimately have "ledgers_inv st" by (rule dedup_rows_ledgers [OF _ _ st])
  then show ?thesis
    using ledger_ok_bounded by (fastforce simp: out in_set_conv_nth ledgers_inv_def bounded_record_def has_key_def get_or_def split: option.splits)
qed

end
