(* ===== verification/Merge_Examples.thy ===== *)
theory Merge_Examples
  imports Merge_Ledger
begin

text \<open>
  The dedup on concrete rows: a skill row that swallows a model row, two model rows of which the second is
  better anchored, and the hypotheses of the promises.
\<close>

definition ex_root :: string where "ex_root = ''/x''"

definition ex_skill :: pydict where
  "ex_skill = [(''check_id'', PStr ''c1''), (''file_path'', PStr ''/x/a.py''), (''provenance'', PStr ''skill''), (''description'', PStr ''own'')]"

definition ex_model :: "string \<Rightarrow> string \<Rightarrow> string \<Rightarrow> pydict" where
  "ex_model cid status description = [(''check_id'', PStr cid), (''file_path'', PStr ''./a.py''), (''description'', PStr description),
     (''_anchor_status'', PStr status), (''line_start'', PInt 1)]"

definition ex_new :: "pydict list" where
  "ex_new = [ex_model ''c1'' ''exact'' ''seen'', ex_model ''c2'' ''absent'' ''x'', ex_model ''c2'' ''exact'' ''y'']"

definition ex_dedup :: "pydict list \<times> pydict list" where
  "ex_dedup = (case deduplicate_findings (\<lambda>_. None) (\<lambda>s. s) (\<lambda>s. s) ex_root [ex_skill] ex_new of Inr r \<Rightarrow> r | Inl _ \<Rightarrow> ([], []))"

lemma ex_merge_call: "deduplicate_findings (\<lambda>_. None) (\<lambda>s. s) (\<lambda>s. s) ex_root [ex_skill] ex_new = Ret (fst ex_dedup, snd ex_dedup)"
  by code_simp

text \<open>Two rows of one key leave one, with the better status of the two.\<close>

theorem one_best_row_per_key_witness:
  "\<exists>us. map (dedup_key (\<lambda>s. s) ex_root) (snd ex_dedup) = map Ret us \<and> distinct us \<and>
     set us = {k. \<exists>f \<in> set ex_new. dedup_key (\<lambda>s. s) ex_root f = Ret k} - {k. \<exists>b \<in> set [ex_skill]. dedup_key (\<lambda>s. s) ex_root b = Ret k}"
  using one_best_row_per_key [OF ex_merge_call] by blast

lemma ex_statuses: "map (\<lambda>f. get f ''_anchor_status'') (snd ex_dedup) = [PStr ''exact'']"
  by code_simp

theorem merged_record_is_bounded_witness:
  "list_all bounded_record (fst ex_dedup) \<and> length (fst ex_dedup) = 1"
proof
  have "\<forall>b \<in> set [ex_skill]. \<not> has_key b ''merged_llm''" by (simp add: ex_skill_def has_key_def)
  then show "list_all bounded_record (fst ex_dedup)" using merged_record_is_bounded [OF ex_merge_call] by (simp add: list_all_iff)
  show "length (fst ex_dedup) = 1" by code_simp
qed

end
