(* ===== verification/Choke_Point.thy ===== *)
theory Choke_Point
  imports Finding_Merge Validate_Stage Layer1
begin

text \<open>
  The choke point every parsed model finding passes (\<open>shared/audit_runner.py\<close>, \<open>_verify_and_strip\<close> and
  what it calls): the path of a finding confined to the source root, the verdict of the anchor verifier
  stamped as private fields, the line moved to the verified place, the dedup identity restored and the
  model-copied fields deleted. The file system, the quote store and the environment are the record
  \<open>choke_world\<close>; a path that cannot be resolved is \<open>None\<close>.
\<close>

record choke_world =
  cw_env :: env
  cw_reader :: reader
  cw_is_file :: "string \<Rightarrow> bool"
  cw_resolve :: "string \<Rightarrow> string option"
  cw_store :: "string \<Rightarrow> string option"

section \<open>The path of a finding\<close>

definition is_within_root :: "choke_world \<Rightarrow> string \<Rightarrow> string \<Rightarrow> bool" where
  "is_within_root w candidate base = (case cw_resolve w candidate of None \<Rightarrow> False | Some c \<Rightarrow> in_root base c)"

definition resolve_finding_path :: "choke_world \<Rightarrow> pyval \<Rightarrow> string \<Rightarrow> path option result" where
  "resolve_finding_path w file_path source_path =
     (if \<not> truthy file_path then Ret None
      else case file_path of
        PStr fp \<Rightarrow>
          if source_path = [] then Ret (if cw_is_file w (pure_path fp) then Some (pure_path fp) else None)
          else (case cw_resolve w source_path of
              None \<Rightarrow> Raise OSError
            | Some base \<Rightarrow> let candidate = path_join source_path fp in
                Ret (if cw_is_file w candidate \<and> is_within_root w candidate base then Some candidate else None))
      | _ \<Rightarrow> Raise TypeError)"

definition batch_paths :: "choke_world \<Rightarrow> pydict list \<Rightarrow> string \<Rightarrow> path option list result" where
  "batch_paths w findings source_path =
     map_result (\<lambda>f. resolve_finding_path w (get_or f ''file_path'' (PStr [])) source_path) findings"

definition resolved_only :: "path option list \<Rightarrow> path list" where
  "resolved_only paths = rev (remdups (rev (List.map_filter (\<lambda>p. p) paths)))"

section \<open>The line actuator\<close>

definition within_delta_ceiling :: "env \<Rightarrow> anchor_result \<Rightarrow> bool" where
  "within_delta_ceiling env outcome = (case (ar_new_line outcome, ar_delta outcome) of
     (Some l, Some d) \<Rightarrow> \<bar>d\<bar> \<le> max_delta env | _ \<Rightarrow> False)"

definition may_reanchor :: "env \<Rightarrow> anchor_result \<Rightarrow> bool" where
  "may_reanchor env outcome =
     (ar_status outcome = ''reanchored'' \<and> reanchor_enabled env \<and> within_delta_ceiling env outcome)"

definition apply_reanchor :: "env \<Rightarrow> pydict \<Rightarrow> anchor_result \<Rightarrow> pydict" where
  "apply_reanchor env finding outcome =
     (if \<not> may_reanchor env outcome then finding
      else case ar_new_line outcome of
        None \<Rightarrow> finding
      | Some l \<Rightarrow> let width = max 0 (int_field finding ''line_end'' - int_field finding ''line_start'') in
          put ''line_end'' (PInt (l + width)) (put ''line_start'' (PInt l) finding))"

section \<open>The stamp\<close>

definition opt_int :: "int option \<Rightarrow> pyval" where "opt_int v = (case v of None \<Rightarrow> PNone | Some i \<Rightarrow> PInt i)"
definition opt_text :: "string option \<Rightarrow> pyval" where "opt_text v = (case v of None \<Rightarrow> PNone | Some s \<Rightarrow> PStr s)"

definition anchor_stamps :: "anchor_result \<Rightarrow> pyval \<Rightarrow> string option \<Rightarrow> pydict" where
  "anchor_stamps outcome claimed claim_range =
     [(''_anchor_status'', PStr (ar_status outcome)), (''_anchor_reason'', PStr (ar_reason outcome)),
      (''_claimed_line'', claimed), (''_claimed_line_range'', opt_text claim_range),
      (''_anchor_delta'', opt_int (ar_delta outcome)), (''_anchor_candidates'', PInt (int (ar_candidates outcome))),
      (''_anchor_other_path'', opt_text (ar_other_path outcome)),
      (''_anchor_quote_chars'', PInt (int (ar_quote_chars outcome))),
      (''_anchor_quote_tokens'', PInt (int (ar_quote_tokens outcome)))]"

definition stamp_anchor :: "choke_world \<Rightarrow> pydict \<Rightarrow> path option \<Rightarrow> string \<Rightarrow> path list \<Rightarrow> pydict" where
  "stamp_anchor w finding p mode sibs =
     (if mode = ''off'' then finding
      else let outcome = verify_anchor (cw_env w) (cw_reader w) finding p (Some sibs);
               claimed = get_or finding ''line_start'' (PInt 0);
               claim_range = claimed_line_range (cw_reader w) finding p in
        foldl (\<lambda>f (k, v). put k v f) (apply_reanchor (cw_env w) finding outcome)
          (anchor_stamps outcome claimed claim_range))"

section \<open>Identity and strip\<close>

definition restore_dedup_identity :: "pydict \<Rightarrow> pydict" where
  "restore_dedup_identity finding =
     (let cid = get finding ''_model_check_id'' in
      if truthy cid \<and> \<not> truthy (get finding ''check_id'') then put ''check_id'' cid finding else finding)"

definition PARSE_PRIVATE_FIELDS :: "string list" where
  "PARSE_PRIVATE_FIELDS = [''evidence_quote'', ''_model_check_id'']"

definition pass_row :: "choke_world \<Rightarrow> pydict \<Rightarrow> pydict" where
  "pass_row w finding = strip_private_fields (cw_store w) PARSE_PRIVATE_FIELDS (restore_dedup_identity finding)"

definition verify_and_strip :: "choke_world \<Rightarrow> pydict list \<Rightarrow> string \<Rightarrow> pydict list result" where
  "verify_and_strip w findings source_path =
     (let mode = quote_mode (cw_env w) in
      if mode = ''off'' then Ret (map (pass_row w) findings)
      else bind_result (batch_paths w findings source_path) (\<lambda>paths.
        let sibs = resolved_only paths in
        Ret (map (\<lambda>(f, p). pass_row w (stamp_anchor w f p mode sibs)) (zip findings paths))))"

section \<open>What the choke point promises\<close>

lemma get_pops [simp]: "get_or (foldl (\<lambda>f name. pop name f) f names) k d = (if k \<in> set names then d else get_or f k d)"
  by (induction names arbitrary: f) auto

lemma has_key_pops [simp]: "has_key (foldl (\<lambda>f name. pop name f) f names) k \<longleftrightarrow> k \<notin> set names \<and> has_key f k"
  by (induction names arbitrary: f) (auto simp: has_key_def)

lemma get_persist [simp]: "k \<noteq> ''quote_hash'' \<Longrightarrow> get_or (persist_evidence_quote store f) k d = get_or f k d"
  by (cases "store (text_field f ''evidence_quote'')") (simp_all add: persist_evidence_quote_def Let_def)

lemma get_restore: "get_or (restore_dedup_identity f) k d =
    (if k = ''check_id'' \<and> truthy (get f ''_model_check_id'') \<and> \<not> truthy (get f ''check_id'') then get f ''_model_check_id'' else get_or f k d)"
  by (simp add: restore_dedup_identity_def Let_def)

lemma pass_row_get:
  "k \<notin> {''evidence_quote'', ''_model_check_id'', ''check_id'', ''quote_hash''} \<Longrightarrow> get_or (pass_row w f) k d = get_or f k d"
  by (simp add: pass_row_def strip_private_fields_def PARSE_PRIVATE_FIELDS_def get_restore del: foldl.simps)

lemma pass_row_clean: "\<not> has_key (pass_row w f) ''evidence_quote''" "\<not> has_key (pass_row w f) ''_model_check_id''"
  by (simp_all add: pass_row_def strip_private_fields_def PARSE_PRIVATE_FIELDS_def del: foldl.simps)

lemma pass_row_id: "get_or (pass_row w f) ''check_id'' d = get_or (restore_dedup_identity f) ''check_id'' d"
  by (simp add: pass_row_def strip_private_fields_def PARSE_PRIVATE_FIELDS_def del: foldl.simps)

lemma pass_row_check_id:
  "truthy (get (pass_row w f) ''check_id'') = truthy (py_or (get f ''check_id'') (get f ''_model_check_id''))
   \<and> (truthy (get (pass_row w f) ''check_id'') \<longrightarrow>
      get (pass_row w f) ''check_id'' = py_or (get f ''check_id'') (get f ''_model_check_id''))"
  by (simp add: pass_row_id get_restore py_or_def)

lemma truthy_default: "truthy (get_or f k (PStr [])) = truthy (get f k)" "truthy (get f k) \<Longrightarrow> get_or f k (PStr []) = get f k"
  by (auto simp: get_or_def split: option.splits)

definition key_id :: "pydict \<Rightarrow> pyval" where
  "key_id f = py_or (get_or f ''check_id'' (PStr [])) (get_or f ''_model_check_id'' (PStr []))"

lemma key_id_truthy: "truthy (key_id f) = truthy (py_or (get f ''check_id'') (get f ''_model_check_id''))"
  "truthy (key_id f) \<Longrightarrow> key_id f = py_or (get f ''check_id'') (get f ''_model_check_id'')"
  by (auto simp: key_id_def py_or_def truthy_default)

lemma pass_row_key_id: "truthy (key_id (pass_row w f)) = truthy (key_id f)" "truthy (key_id f) \<Longrightarrow> key_id (pass_row w f) = key_id f"
proof -
  have none: "\<not> truthy (get (pass_row w f) ''_model_check_id'')"
    using pass_row_clean(2) [of w f] by (simp add: has_key_def get_or_def)
  then show t: "truthy (key_id (pass_row w f)) = truthy (key_id f)"
    using pass_row_check_id [of w f] by (simp add: key_id_truthy) (simp add: py_or_def)
  show "truthy (key_id f) \<Longrightarrow> key_id (pass_row w f) = key_id f"
    using none pass_row_check_id [of w f] t key_id_truthy by (metis py_or_def)
qed

lemma dedup_key_id: "key_id g = key_id f \<or> \<not> truthy (key_id g) \<and> \<not> truthy (key_id f) \<Longrightarrow>
    get_or g ''file_path'' (PStr []) = get_or f ''file_path'' (PStr []) \<Longrightarrow> get_or g ''title'' (PStr []) = get_or f ''title'' (PStr []) \<Longrightarrow>
    dedup_key realpath src g = dedup_key realpath src f"
  unfolding dedup_key_def key_id_def [symmetric] Let_def by auto

lemma pass_row_key: "dedup_key realpath src (pass_row w f) = dedup_key realpath src f"
  by (rule dedup_key_id) (use pass_row_key_id [where w = w and f = f] in \<open>auto simp: pass_row_get\<close>)

lemma stamps_get: "k \<notin> fst ` set kvs \<Longrightarrow> get_or (foldl (\<lambda>f (k, v). put k v f) f kvs) k d = get_or f k d"
  by (induction kvs arbitrary: f) auto

lemma apply_reanchor_get: "k \<notin> {''line_start'', ''line_end''} \<Longrightarrow> get_or (apply_reanchor env f outcome) k d = get_or f k d"
  by (simp add: apply_reanchor_def Let_def split: option.split)

definition STAMPS :: "string list" where
  "STAMPS = [''_anchor_status'', ''_anchor_reason'', ''_claimed_line'', ''_claimed_line_range'', ''_anchor_delta'',
     ''_anchor_candidates'', ''_anchor_other_path'', ''_anchor_quote_chars'', ''_anchor_quote_tokens'']"

lemma anchor_stamps_keys: "fst ` set (anchor_stamps outcome claimed claim_range) = set STAMPS"
  by (simp add: anchor_stamps_def STAMPS_def)

lemma stamps_private: "k \<in> set STAMPS \<Longrightarrow> starts_with k ''_''"
  by (auto simp: STAMPS_def starts_with_def)

lemma stamp_anchor_other: "k \<notin> set STAMPS \<Longrightarrow> k \<notin> {''line_start'', ''line_end''} \<Longrightarrow> get_or (stamp_anchor w f p mode sib) k d = get_or f k d"
  by (simp add: stamp_anchor_def Let_def stamps_get anchor_stamps_keys apply_reanchor_get)

lemma stamp_anchor_get:
  "\<not> starts_with k ''_'' \<Longrightarrow> k \<notin> {''line_start'', ''line_end''} \<Longrightarrow> get_or (stamp_anchor w f p mode sib) k d = get_or f k d"
  using stamps_private stamp_anchor_other by blast

lemma stamp_anchor_model_id: "get_or (stamp_anchor w f p mode sib) ''_model_check_id'' d = get_or f ''_model_check_id'' d"
  by (rule stamp_anchor_other) (simp_all add: STAMPS_def)

lemma stamp_anchor_key: "dedup_key realpath src (stamp_anchor w f p mode sib) = dedup_key realpath src f"
  by (rule dedup_key_id) (simp_all add: key_id_def stamp_anchor_get stamp_anchor_model_id starts_with_def)

text \<open>Whatever path the model names, the file it leads to lies under the source root once symbolic links are
  resolved, when a root is known.\<close>

lemma resolved_path_is_inside_root:
  assumes "resolve_finding_path w file_path src = Ret (Some p)" and "src \<noteq> []"
  shows "\<exists>base c. cw_resolve w src = Some base \<and> cw_resolve w p = Some c \<and> in_root base c \<and> cw_is_file w p"
  using assms by (auto simp: resolve_finding_path_def Let_def is_within_root_def split: if_splits pyval.splits option.splits)

lemma verify_and_strip_rows:
  assumes "verify_and_strip w fs src = Ret out"
  shows "length out = length fs \<and> (\<forall>i < length fs. \<exists>p mode sibs. out ! i = pass_row w (stamp_anchor w (fs ! i) p mode sibs) \<and>
    (mode \<noteq> ''off'' \<longrightarrow> resolve_finding_path w (get_or (fs ! i) ''file_path'' (PStr [])) src = Ret p))"
proof (cases "quote_mode (cw_env w) = ''off''")
  case True
  then have "out = map (pass_row w) fs" using assms by (simp add: verify_and_strip_def)
  moreover have "stamp_anchor w f None ''off'' [] = f" for f by (simp add: stamp_anchor_def)
  ultimately show ?thesis by (intro conjI allI impI exI [of _ None] exI [of _ "''off''"] exI [of _ "[]"]) simp_all
next
  case False
  then obtain paths where paths: "batch_paths w fs src = Ret paths"
    and out: "out = map (\<lambda>(f, p). pass_row w (stamp_anchor w f p (quote_mode (cw_env w)) (resolved_only paths))) (zip fs paths)"
    using assms by (auto simp: verify_and_strip_def bind_result_Ret Let_def)
  have len: "length paths = length fs" using paths by (simp add: batch_paths_def map_result_length)
  have "resolve_finding_path w (get_or (fs ! i) ''file_path'' (PStr [])) src = Ret (paths ! i)" if "i < length fs" for i
    using list_all2_nthD [OF list_all2_map_result [OF paths [unfolded batch_paths_def]] that] .
  moreover have "out ! i = pass_row w (stamp_anchor w (fs ! i) (paths ! i) (quote_mode (cw_env w)) (resolved_only paths))"
    if "i < length fs" for i using that len by (simp add: out)
  moreover have "length out = length fs" using len by (simp add: out)
  ultimately show ?thesis by blast
qed

text \<open>The choke point takes nothing away from the dedup and lets nothing private through: as many rows come out
  as went in, none carries the copied quote or the model's own id, and each has the dedup key it had.\<close>

theorem choke_point_is_count_neutral:
  assumes "verify_and_strip w fs src = Ret out"
  shows "length out = length fs \<and> (\<forall>i < length fs. \<not> has_key (out ! i) ''evidence_quote'' \<and> \<not> has_key (out ! i) ''_model_check_id''
    \<and> dedup_key realpath src (out ! i) = dedup_key realpath src (fs ! i))"
  using verify_and_strip_rows [OF assms] pass_row_clean by (metis pass_row_key stamp_anchor_key)

lemma stamped_line:
  assumes "get (pass_row w (stamp_anchor w f p mode sibs)) ''line_start'' \<noteq> get f ''line_start''"
  shows "\<exists>l. mode \<noteq> ''off'' \<and> get (pass_row w (stamp_anchor w f p mode sibs)) ''line_start'' = PInt l \<and>
    may_reanchor (cw_env w) (verify_anchor (cw_env w) (cw_reader w) f p (Some sibs)) \<and>
    ar_new_line (verify_anchor (cw_env w) (cw_reader w) f p (Some sibs)) = Some l"
proof -
  let ?o = "verify_anchor (cw_env w) (cw_reader w) f p (Some sibs)"
  have moved: "get (stamp_anchor w f p mode sibs) ''line_start'' \<noteq> get f ''line_start''"
    using assms by (simp add: pass_row_get)
  then have on: "mode \<noteq> ''off''" by (auto simp: stamp_anchor_def)
  have line: "get (stamp_anchor w f p mode sibs) ''line_start'' = get (apply_reanchor (cw_env w) f ?o) ''line_start''"
    using on by (simp add: stamp_anchor_def Let_def stamps_get anchor_stamps_keys STAMPS_def)
  have may: "may_reanchor (cw_env w) ?o"
  proof (rule ccontr)
    assume "\<not> may_reanchor (cw_env w) ?o"
    then have "apply_reanchor (cw_env w) f ?o = f" by (simp add: apply_reanchor_def)
    then show False using moved line by simp
  qed
  then obtain l where l: "ar_new_line ?o = Some l" by (auto simp: may_reanchor_def within_delta_ceiling_def split: option.splits)
  then have "get (apply_reanchor (cw_env w) f ?o) ''line_start'' = PInt l" using may by (simp add: apply_reanchor_def Let_def)
  then show ?thesis using on line may l by (simp add: pass_row_get)
qed

text \<open>C29. A model finding's line moves only to where its own quote stands: when the line a row leaves with is not the
  line it came with, both switches allow it, the row's path is a file under the root, the (possibly
  shortened) quote is the window starting at the new line of that file, and the move is within the
  operator's bound.\<close>

theorem moved_line_carries_the_quote:
  assumes run: "verify_and_strip w fs src = Ret out" and i: "i < length fs"
    and moved: "get (out ! i) ''line_start'' \<noteq> get (fs ! i) ''line_start''"
  shows "\<exists>l p fls kept. get (out ! i) ''line_start'' = PInt l \<and> reanchor_enabled (cw_env w) \<and>
    resolve_finding_path w (get_or (fs ! i) ''file_path'' (PStr [])) src = Ret (Some p) \<and> cw_reader w p = Some fls \<and>
    prefix kept (quoted_lines (fs ! i)) \<and> 0 < l \<and> (nat l, join_nl kept) \<in> set (windows fls (length kept)) \<and>
    \<bar>l - int_field (fs ! i) ''line_start''\<bar> \<le> max_delta (cw_env w)"
proof -
  obtain p mode sibs where row: "out ! i = pass_row w (stamp_anchor w (fs ! i) p mode sibs)"
    and path: "mode \<noteq> ''off'' \<longrightarrow> resolve_finding_path w (get_or (fs ! i) ''file_path'' (PStr [])) src = Ret p"
    using verify_and_strip_rows [OF run] i by blast
  from stamped_line [OF moved [unfolded row]] obtain l where l: "mode \<noteq> ''off''" "get (out ! i) ''line_start'' = PInt l"
    "may_reanchor (cw_env w) (verify_anchor (cw_env w) (cw_reader w) (fs ! i) p (Some sibs))"
    "ar_new_line (verify_anchor (cw_env w) (cw_reader w) (fs ! i) p (Some sibs)) = Some l"
    unfolding row by blast
  from reported_line_carries_the_quote [OF l(4)] obtain q fls kept where "p = Some q" "cw_reader w q = Some fls"
    "prefix kept (quoted_lines (fs ! i))" "0 < l" "(nat l, join_nl kept) \<in> set (windows fls (length kept))"
    "\<bar>l - int_field (fs ! i) ''line_start''\<bar> \<le> max_delta (cw_env w)" by blast
  then show ?thesis using l path by (auto simp: may_reanchor_def)
qed

end
