(* ===== verification/Choke_Examples.thy ===== *)
theory Choke_Examples
  imports Choke_Point Anchor_Examples
begin

text \<open>
  The choke point on one finding: the small file of the anchor examples under a root \<open>src\<close>, quoted with
  the wrong line, leaves with the line its quote stands on and without the quote.
\<close>

definition ex_world :: choke_world where
  "ex_world = \<lparr>cw_env = (\<lambda>_. None), cw_reader = (\<lambda>p. if p = ''src/app.py'' then Some ex_lines else None),
     cw_is_file = (\<lambda>p. p = ''src/app.py''), cw_resolve = (\<lambda>p. Some (''/r/'' @ p)), cw_store = (\<lambda>_. None)\<rparr>"

definition ex_claimed :: pydict where
  "ex_claimed = (''file_path'', PStr ''app.py'') # ex_finding"

lemma ex_claimed_path: "resolve_finding_path ex_world (PStr ''app.py'') ''src'' = Ret (Some ''src/app.py'')"
  by code_simp

lemma ex_mode: "quote_mode (\<lambda>_. None) = ''enforce''" "reanchor_enabled (\<lambda>_. None)"
  by code_simp+

lemma ex_claimed_parts: "quoted_lines ex_claimed = [''return eval(data, globals())'']" "int_field ex_claimed ''line_start'' = 2"
  "int_field ex_claimed ''line_end'' = 0" "get ex_claimed ''line_start'' = PInt 2" "get_or ex_claimed ''file_path'' (PStr []) = PStr ''app.py''"
  by code_simp+

lemma ex_world_parts: "cw_env ex_world = (\<lambda>_. None)" "cw_reader ex_world ''src/app.py'' = Some ex_lines"
  by (simp_all add: ex_world_def)

lemma ex_reanchored:
  "verify_anchor (\<lambda>_. None) (cw_reader ex_world) ex_claimed (Some ''src/app.py'') (Some sibs) =
    verify_anchor (\<lambda>_. None) (cw_reader ex_world) ex_claimed (Some ''src/app.py'') None"
  "ar_new_line (verify_anchor (\<lambda>_. None) (cw_reader ex_world) ex_claimed (Some ''src/app.py'') None) = Some 4"
  "may_reanchor (\<lambda>_. None) (verify_anchor (\<lambda>_. None) (cw_reader ex_world) ex_claimed (Some ''src/app.py'') None)"
  by (simp_all add: verify_anchor_def ex_claimed_parts ex_classify locate_def ex_passes read_lines_def ex_world_parts
      select_hit_def ex_candidates reanchor_def may_move_def knob_ints anchor_outcome_def may_reanchor_def ex_mode
      within_delta_ceiling_def max_delta_def Let_def)

definition ex_out :: "pydict list" where
  "ex_out = [pass_row ex_world (stamp_anchor ex_world ex_claimed (Some ''src/app.py'') ''enforce'' [''src/app.py''])]"

lemma ex_choke_run: "verify_and_strip ex_world [ex_claimed] ''src'' = Ret ex_out"
proof -
  have paths: "batch_paths ex_world [ex_claimed] ''src'' = Ret [Some ''src/app.py'']"
    by (simp only: batch_paths_def map_result.simps ex_claimed_parts ex_claimed_path bind_result_simps)
  have mode: "quote_mode (cw_env ex_world) = ''enforce''" by (simp only: ex_world_parts ex_mode)
  have sibs: "resolved_only [Some ''src/app.py''] = [''src/app.py'']" by code_simp
  show ?thesis by (simp add: verify_and_strip_def paths mode sibs ex_out_def)
qed

lemma ex_stamped_line: "get (stamp_anchor ex_world ex_claimed (Some ''src/app.py'') ''enforce'' sibs) ''line_start'' = PInt 4"
proof -
  let ?o = "verify_anchor (\<lambda>_. None) (cw_reader ex_world) ex_claimed (Some ''src/app.py'') None"
  have "get (apply_reanchor (\<lambda>_. None) ex_claimed ?o) ''line_start'' = PInt 4"
    using ex_reanchored(2,3) by (simp add: apply_reanchor_def Let_def)
  then show ?thesis
    unfolding stamp_anchor_def Let_def ex_world_parts ex_reanchored(1)
    by (simp add: stamps_get anchor_stamps_keys STAMPS_def)
qed

lemma ex_out_line: "get (ex_out ! 0) ''line_start'' = PInt 4"
  by (simp add: ex_out_def pass_row_get ex_stamped_line)

theorem choke_point_is_count_neutral_witness:
  "length ex_out = 1 \<and> \<not> has_key (ex_out ! 0) ''evidence_quote'' \<and>
    dedup_key (\<lambda>s. s) ''src'' (ex_out ! 0) = dedup_key (\<lambda>s. s) ''src'' ex_claimed"
  using choke_point_is_count_neutral [OF ex_choke_run] by simp

theorem moved_line_carries_the_quote_witness:
  "\<exists>kept. prefix kept [''return eval(data, globals())''] \<and> (4, join_nl kept) \<in> set (windows ex_lines (length kept))"
  using moved_line_carries_the_quote [OF ex_choke_run, of 0] by (auto simp: ex_out_line ex_claimed_parts ex_claimed_path ex_world_parts)

end
