(* ===== verification/Scan_Names.thy ===== *)
theory Scan_Names
  imports Py_Path Py_Regex Py_Order
begin

text \<open>
  What the scanner concludes from the name of a file (\<open>shared/tools/file_scanner.py\<close>): the file a backup
  copy shadows, the extension sets of the scan and of the prompt, minified, test, generated, prose and
  entry-point names, and the globs of the autorun files and of the default ignore file. A \<open>frozenset\<close> is
  a list; a path is its string, taken apart the way \<open>pathlib\<close> does.

  The lemmas: stripping the backup markers ends in a name without one and sees through every copy.
\<close>

section \<open>Names of paths\<close>

definition segments :: "string \<Rightarrow> string list" where
  "segments p = filter (\<lambda>q. q \<noteq> [] \<and> q \<noteq> ''.'') (split_on SLASH p)"

definition path_parts :: "string \<Rightarrow> string list" where
  "path_parts p = (if 0 < initial_slashes p then [replicate (initial_slashes p) SLASH] else []) @ segments p"

definition name_of :: "string \<Rightarrow> string" where
  "name_of p = (if segments p = [] then [] else last (segments p))"

definition rdot :: "string \<Rightarrow> (string \<times> string) option" where
  "rdot s = (if CHR ''.'' \<in> set s
     then Some (rev (tl (dropWhile (\<lambda>c. c \<noteq> CHR ''.'') (rev s))), rev (takeWhile (\<lambda>c. c \<noteq> CHR ''.'') (rev s))) else None)"

definition name_suffix :: "string \<Rightarrow> string" where
  "name_suffix name = (case rdot name of None \<Rightarrow> [] | Some (before, after) \<Rightarrow>
     if before = [] \<or> after = [] then [] else CHR ''.'' # after)"

definition name_stem :: "string \<Rightarrow> string" where
  "name_stem name = (case rdot name of None \<Rightarrow> name | Some (before, after) \<Rightarrow>
     if before = [] \<or> after = [] then name else before)"

section \<open>Backup copies\<close>

definition BACKUP_MARKERS :: "string list" where
  "BACKUP_MARKERS = [''bak'', ''bak1'', ''backup'', ''bk'', ''old'', ''orig'', ''save'', ''saved'', ''copy'',
     ''tmp'', ''temp'', ''swp'', ''swo'', ''rej'', ''disabled'', ''unused'', ''deprecated'', ''prev'', ''previous'']"

definition BACKUP_TILDE :: char where "BACKUP_TILDE = CHR ''~''"

definition is_backup_marker :: "string \<Rightarrow> bool" where
  "is_backup_marker part = (lower part \<in> set BACKUP_MARKERS)"

text \<open>One round of the loop: the shorter name, or nothing when the loop ends.\<close>

definition strip_round :: "string \<Rightarrow> string option" where
  "strip_round base =
     (if ends_with base [BACKUP_TILDE] \<and> 1 < length base then Some (butlast base)
      else case rdot base of None \<Rightarrow> None | Some (before, after) \<Rightarrow>
        if is_backup_marker after then Some before
        else if py_isdigit after then
          (case rdot before of None \<Rightarrow> None | Some (probe_stem, probe_last) \<Rightarrow>
             if is_backup_marker probe_last then Some probe_stem else None)
        else None)"

lemma rdot_app: "CHR ''.'' \<notin> set a \<Longrightarrow> rdot (b @ CHR ''.'' # a) = Some (b, a)"
  by (auto simp: rdot_def takeWhile_append dropWhile_append takeWhile_eq_all_conv)

lemma rdot_Some: "rdot s = Some (b, a) \<longleftrightarrow> s = b @ CHR ''.'' # a \<and> CHR ''.'' \<notin> set a"
proof
  assume r: "rdot s = Some (b, a)"
  then have "CHR ''.'' \<in> set s" by (simp add: rdot_def split: if_splits)
  then obtain b' a' where s: "s = b' @ CHR ''.'' # a'" "CHR ''.'' \<notin> set a'" by (meson split_list_last)
  then show "s = b @ CHR ''.'' # a \<and> CHR ''.'' \<notin> set a" using r rdot_app [OF s(2), of b'] by simp
next
  assume "s = b @ CHR ''.'' # a \<and> CHR ''.'' \<notin> set a"
  then show "rdot s = Some (b, a)" using rdot_app by blast
qed

lemma rdot_prefix: "rdot s = Some (b, a) \<Longrightarrow> strict_prefix b s"
  by (auto simp: rdot_Some strict_prefix_def)

lemma strip_round_prefix: "strip_round base = Some b \<Longrightarrow> strict_prefix b base"
proof -
  assume r: "strip_round base = Some b"
  show "strict_prefix b base"
  proof (cases "ends_with base [BACKUP_TILDE] \<and> 1 < length base")
    case True
    then have "b = butlast base" "base \<noteq> []" using r by (auto simp: strip_round_def)
    then show ?thesis by (simp add: strict_prefix_def prefixeq_butlast) (metis append_butlast_last_id not_Cons_self2 append_self_conv)
  next
    case False
    then obtain before after where d: "rdot base = Some (before, after)"
      using r by (auto simp: strip_round_def split: option.splits)
    then consider "b = before" | q where "rdot before = Some (b, q)"
      using r False by (auto simp: strip_round_def split: if_splits option.splits)
    then show ?thesis using rdot_prefix [OF d] rdot_prefix prefix_order.less_trans by cases blast+
  qed
qed

function strip_loop :: "string \<Rightarrow> bool \<Rightarrow> string \<times> bool" where
  "strip_loop base found = (case strip_round base of None \<Rightarrow> (base, found) | Some b \<Rightarrow> strip_loop b True)"
  by pat_completeness auto
termination
  by (relation "measure (\<lambda>(base, _). length base)") (auto dest!: strip_round_prefix prefix_length_less)

declare strip_loop.simps [simp del]

definition strip_backup_markers :: "string \<Rightarrow> string \<times> bool" where
  "strip_backup_markers name = strip_loop name False"

definition is_backup_name :: "string \<Rightarrow> bool" where
  "is_backup_name name = snd (strip_backup_markers name)"

definition effective_name :: "string \<Rightarrow> string" where
  "effective_name name = fst (strip_backup_markers name)"

definition effective_suffix :: "string \<Rightarrow> string" where
  "effective_suffix name = lower (name_suffix (name_of (fst (strip_backup_markers name))))"

section \<open>Extension sets\<close>

definition CODE_EXTENSIONS :: "string list" where
  "CODE_EXTENSIONS = [''.py'', ''.pyw'', ''.go'', ''.js'', ''.ts'', ''.jsx'', ''.tsx'', ''.mjs'', ''.cjs'', ''.mts'',
     ''.cts'', ''.java'', ''.rs'', ''.rb'', ''.rake'', ''.erb'', ''.php'', ''.phtml'', ''.cs'', ''.cpp'',
     ''.cc'', ''.cxx'', ''.hpp'', ''.hh'', ''.hxx'', ''.kts'', ''.c'', ''.h'', ''.m'', ''.mm'',
     ''.swift'', ''.kt'', ''.scala'', ''.yaml'', ''.yml'', ''.toml'', ''.json'', ''.xml'', ''.sh'',
     ''.bash'', ''.dockerfile'']"

definition WHITELIST_EXTENSIONS :: "string list" where
  "WHITELIST_EXTENSIONS = [''.html'', ''.htm'', ''.hbs'', ''.handlebars'', ''.pug'', ''.jade'', ''.ejs'', ''.mustache'',
     ''.twig'', ''.liquid'', ''.njk'', ''.vue'', ''.svelte'', ''.astro'', ''.md'', ''.markdown'',
     ''.rst'', ''.adoc'', ''.txt'', ''.csv'', ''.tsv'', ''.sql'', ''.tf'', ''.tfvars'', ''.hcl'',
     ''.proto'', ''.graphql'', ''.gql'', ''.properties'', ''.ini'', ''.cfg'', ''.conf'', ''.env'',
     ''.envrc'', ''.zsh'', ''.fish'', ''.ps1'', ''.bat'', ''.cmd'', ''.mk'', ''.gradle'', ''.lua'',
     ''.pl'', ''.pm'', ''.dart'', ''.groovy'', ''.clj'', ''.ex'', ''.exs'', ''.r'', ''.j2'', ''.jinja'',
     ''.jinja2'', ''.jsp'', ''.jspx'', ''.config'', ''.csproj'']"

definition WELL_KNOWN_FILENAMES :: "string list" where
  "WELL_KNOWN_FILENAMES = [''Dockerfile'', ''Containerfile'', ''Makefile'', ''GNUmakefile'', ''Vagrantfile'', ''Jenkinsfile'',
     ''Procfile'', ''Rakefile'', ''Gemfile'', ''Brewfile'', ''Justfile'', ''CMakeLists.txt'', ''.npmrc'',
     ''.yarnrc'', ''.dockerignore'', ''.htaccess'', ''.netrc'', ''.pypirc'', ''.curlrc'', ''.gitconfig'',
     ''sudoers'']"

definition SKIP_FILES :: "string list" where
  "SKIP_FILES = [''package-lock.json'', ''yarn.lock'', ''pnpm-lock.yaml'', ''Pipfile.lock'', ''poetry.lock'',
     ''go.sum'', ''Cargo.lock'', ''composer.lock'', ''Gemfile.lock'', ''shrinkwrap.json'', ''.DS_Store'',
     ''Thumbs.db'']"

definition LLM_PROSE_EXTENSIONS :: "string list" where
  "LLM_PROSE_EXTENSIONS = [''.md'', ''.markdown'', ''.rst'', ''.txt'', ''.adoc'', ''.csv'', ''.tsv'']"

definition os_getenv :: "env \<Rightarrow> string \<Rightarrow> string \<Rightarrow> string" where
  "os_getenv env name dflt = (case env name of None \<Rightarrow> dflt | Some v \<Rightarrow> v)"

definition dotted_ext :: "string \<Rightarrow> string" where
  "dotted_ext piece = (if starts_with piece ''.'' then piece else CHR ''.'' # piece)"

definition env_extensions :: "env \<Rightarrow> string \<Rightarrow> string list" where
  "env_extensions env name = map dotted_ext (filter (\<lambda>p. p \<noteq> [])
     (map (\<lambda>p. lower (strip p)) (split_on (CHR '','') (os_getenv env name []))))"

definition default_extensions :: "env \<Rightarrow> string list" where
  "default_extensions env =
     (if lower (os_getenv env ''VULTURE_DISABLE_EXTENSION_WHITELIST'' []) = ''true'' then CODE_EXTENSIONS
      else CODE_EXTENSIONS @ WHITELIST_EXTENSIONS @ env_extensions env ''VULTURE_EXTRA_EXTENSIONS'')"

definition LLM_INELIGIBLE_EXTENSIONS :: "string list" where "LLM_INELIGIBLE_EXTENSIONS = []"

definition llm_feed_prose :: "env \<Rightarrow> bool" where
  "llm_feed_prose env = (lower (strip (os_getenv env ''VULTURE_LLM_FEED_PROSE'' [])) \<in> {''1'', ''true'', ''yes'', ''on''})"

definition llm_ineligible_extensions :: "env \<Rightarrow> string list" where
  "llm_ineligible_extensions env = (case env ''VULTURE_LLM_INELIGIBLE_EXTENSIONS'' of
     None \<Rightarrow> LLM_INELIGIBLE_EXTENSIONS
   | Some raw \<Rightarrow> map (\<lambda>e. dotted_ext (lower (strip e))) (filter (\<lambda>e. strip e \<noteq> []) (split_on (CHR '','') raw)))"

definition llm_feed_unified :: "env \<Rightarrow> bool" where
  "llm_feed_unified env = (lower (strip (os_getenv env ''VULTURE_LLM_FEED_UNIFY'' ''true'')) \<notin> {''0'', ''false'', ''no'', ''off''})"

definition llm_feed_extensions :: "env \<Rightarrow> bool \<Rightarrow> string list option" where
  "llm_feed_extensions env single_shot =
     (if \<not> llm_feed_unified env then (if single_shot then Some CODE_EXTENSIONS else None)
      else let excluded = llm_ineligible_extensions env @ (if llm_feed_prose env then [] else LLM_PROSE_EXTENSIONS) in
        Some (filter (\<lambda>e. e \<notin> set excluded) (default_extensions env)))"

section \<open>The gate of the code scan\<close>

definition matches_extra :: "string \<Rightarrow> string list \<Rightarrow> bool" where
  "matches_extra name extras = (name \<in> set extras \<or> list_ex (\<lambda>e. starts_with name (e @ ''.'')) extras)"

definition matches_extras_any :: "string \<Rightarrow> string \<Rightarrow> string list \<Rightarrow> bool" where
  "matches_extras_any name eff_name extras =
     (if extras = [] then False else matches_extra name extras \<or> matches_extra eff_name extras)"

definition wanted_by_name :: "string \<Rightarrow> string \<Rightarrow> string \<Rightarrow> string list \<Rightarrow> string list \<Rightarrow> bool" where
  "wanted_by_name name eff_suffix eff_name exts extras =
     (if eff_suffix \<in> set exts \<and> eff_name \<notin> set SKIP_FILES then True else matches_extras_any name eff_name extras)"

definition MINIFIED :: re where
  "MINIFIED = cats [Alt (cats [Cls (\<lambda>c. c = CHR ''.'' \<or> c = CHR ''-''), ilit ''min'']) (ilit ''.bundle''),
     lit ''.'', alts [ilit ''js'', ilit ''mjs'', ilit ''cjs'', ilit ''css''], Eos]"

definition is_minified_name :: "string \<Rightarrow> bool" where
  "is_minified_name name = (re_search MINIFIED name \<noteq> None)"

definition MINIFIED_LINE_CHARS :: nat where "MINIFIED_LINE_CHARS = 2000"
definition MINIFIED_CHAR_FRACTION :: rat where "MINIFIED_CHAR_FRACTION = 1 / 2"

definition MINIFIABLE_SUFFIXES :: "string list" where
  "MINIFIABLE_SUFFIXES = [''.js'', ''.mjs'', ''.cjs'', ''.jsx'', ''.ts'', ''.tsx'', ''.css'', ''.scss'', ''.less'']"

definition long_line_chars :: "string list \<Rightarrow> nat \<times> nat" where
  "long_line_chars lines =
     (sum_list (map length (filter (\<lambda>l. MINIFIED_LINE_CHARS < length l) lines)), sum_list (map length lines))"

text \<open>The lines of the file are what the cached reader returns; \<open>None\<close> when it is unreadable or too large.\<close>

definition is_minified_content :: "(string \<Rightarrow> string list option) \<Rightarrow> string \<Rightarrow> bool" where
  "is_minified_content read_lines path =
     (if effective_suffix (name_of path) \<notin> set MINIFIABLE_SUFFIXES then False
      else case read_lines path of None \<Rightarrow> False | Some lines \<Rightarrow>
        if lines = [] then False
        else let (long_chars, all_chars) = long_line_chars lines in
          if long_chars = 0 then False else of_nat all_chars * MINIFIED_CHAR_FRACTION \<le> of_nat long_chars)"

definition minified_exclusion :: "(string \<Rightarrow> string list option) \<Rightarrow> string \<Rightarrow> string \<Rightarrow> bool \<Rightarrow> string" where
  "minified_exclusion read_lines path eff_name scan_minified =
     (if scan_minified \<or> \<not> (is_minified_name eff_name \<or> is_minified_content read_lines path) then []
      else ''minified or bundled artefact'')"

definition exclusion :: "(string \<Rightarrow> string list option) \<Rightarrow> string \<Rightarrow> string list \<Rightarrow> string list \<Rightarrow> bool \<Rightarrow> string" where
  "exclusion read_lines path exts extras scan_minified =
     (let eff_name = effective_name (name_of path) in
      if \<not> wanted_by_name (name_of path) (effective_suffix (name_of path)) eff_name exts extras
        then ''extension outside the scan set''
      else minified_exclusion read_lines path eff_name scan_minified)"

definition include_file :: "(string \<Rightarrow> string list option) \<Rightarrow> string \<Rightarrow> string list \<Rightarrow> string list \<Rightarrow> bool \<Rightarrow> bool" where
  "include_file read_lines path exts extras scan_minified = (exclusion read_lines path exts extras scan_minified = [])"

definition scan_minified_env :: "env \<Rightarrow> bool" where
  "scan_minified_env env = (lower (os_getenv env ''VULTURE_SCAN_MINIFIED'' []) = ''true'')"

definition scan_set_exclusion :: "env \<Rightarrow> (string \<Rightarrow> string list option) \<Rightarrow> string \<Rightarrow> (string list \<times> string list) list \<Rightarrow> string" where
  "scan_set_exclusion env read_lines path readers =
     (let reasons = map (\<lambda>(exts, extras). exclusion read_lines path exts extras (scan_minified_env env))
            ((default_extensions env, WELL_KNOWN_FILENAMES) # readers) in
      if [] \<in> set reasons then [] else hd reasons)"

section \<open>Kinds of files\<close>

definition TEST_SUFFIXES :: "string list" where
  "TEST_SUFFIXES = [''.test.ts'', ''.test.tsx'', ''.test.js'', ''.test.jsx'', ''.spec.ts'', ''.spec.tsx'', ''.spec.js'',
     ''.spec.jsx'']"

definition TEST_DIRS :: "string list" where
  "TEST_DIRS = [''e2e'', ''tests'', ''__tests__'', ''test-utils'']"

definition replace_char :: "char \<Rightarrow> char \<Rightarrow> string \<Rightarrow> string" where
  "replace_char a b s = map (\<lambda>c. if c = a then b else c) s"

definition parts_lower :: "string \<Rightarrow> string list" where "parts_lower path = map lower (path_parts path)"

definition meets :: "string list \<Rightarrow> string list \<Rightarrow> bool" where
  "meets xs ys = list_ex (\<lambda>x. x \<in> set ys) xs"

definition is_test_file :: "string \<Rightarrow> bool" where
  "is_test_file path = (let name = lower (name_of path); stem = lower (name_stem (name_of path)) in
     if starts_with stem ''test_'' \<or> ends_with stem ''_test'' then True
     else if starts_with name ''jest.'' then True
     else if list_ex (\<lambda>sfx. ends_with name sfx) TEST_SUFFIXES then True
     else if meets [''test'', ''tests''] (split_on (CHR ''-'') (replace_char (CHR ''_'') (CHR ''-'') stem)) then True
     else meets (parts_lower path) TEST_DIRS)"

definition LOCALE_DIRS :: "string list" where
  "LOCALE_DIRS = [''locales'', ''i18n'', ''translations'', ''messages'']"

definition DATA_DIRS :: "string list" where
  "DATA_DIRS = [''data'', ''fixtures'', ''testdata'']"

definition SKILL_SOURCE_DIRS :: "string list" where
  "SKILL_SOURCE_DIRS = [''skills'', ''validate'']"

definition PATTERN_HELPER_BASENAMES :: "string list" where
  "PATTERN_HELPER_BASENAMES = [''obfuscation.py'', ''_var_reference.py'', ''pattern_matcher.py'']"

definition is_skill_source_file :: "string \<Rightarrow> bool" where
  "is_skill_source_file path =
     (if meets (parts_lower path) SKILL_SOURCE_DIRS then True else name_of path \<in> set PATTERN_HELPER_BASENAMES)"

definition GENERATED_JSON_KEYWORDS :: "string list" where
  "GENERATED_JSON_KEYWORDS = [''catalog'', ''_data'', ''fixture'', ''snapshot'']"

definition is_generated_json :: "string \<Rightarrow> string list \<Rightarrow> bool" where
  "is_generated_json name parts =
     (if list_ex (\<lambda>kw. contains kw name) GENERATED_JSON_KEYWORDS then True
      else if starts_with name ''tsconfig'' \<or> name = ''package.json'' then True
      else meets parts DATA_DIRS)"

definition is_generated_file :: "string \<Rightarrow> bool" where
  "is_generated_file path = (let name = lower (name_of path); suffix = lower (name_suffix (name_of path)); parts = parts_lower path in
     if name \<in> set SKIP_FILES then True
     else if suffix = ''.json'' \<and> (meets parts LOCALE_DIRS \<or> is_generated_json name parts) then True
     else ''skills'' \<in> set parts \<and> ends_with name ''_check.py'')"

definition PROSE_SUFFIXES :: "string list" where
  "PROSE_SUFFIXES = [''.md'', ''.markdown'', ''.rst'', ''.adoc'', ''.txt'']"

definition is_prose_file :: "string \<Rightarrow> bool" where
  "is_prose_file path = (effective_suffix (name_of path) \<in> set PROSE_SUFFIXES)"

definition is_type_declaration_file :: "string \<Rightarrow> bool" where
  "is_type_declaration_file path =
     list_ex (\<lambda>ext. ends_with (lower (name_of path)) ext) [''.d.ts'', ''.d.mts'', ''.d.cts'']"

definition is_story_file :: "string \<Rightarrow> bool" where
  "is_story_file path = (let name = lower (name_of path) in
     if list_ex (\<lambda>part. lower part = ''stories'') (path_parts path) then True
     else list_ex (\<lambda>kind. list_ex (\<lambda>ext. contains (''.'' @ kind @ ''.'' @ ext) name)
       [''ts'', ''tsx'', ''js'', ''jsx'', ''mdx'']) [''stories'', ''story''])"

definition ENTRY_POINT_NAMES :: "string list" where
  "ENTRY_POINT_NAMES = [''main.py'', ''app.py'', ''index.ts'', ''index.js'', ''index.tsx'', ''index.jsx'', ''server.py'',
     ''server.ts'', ''server.js'', ''config.py'', ''config.ts'', ''config.js'', ''settings.py'',
     ''manage.py'', ''wsgi.py'', ''asgi.py'', ''Dockerfile'', ''docker-compose.yml'',
     ''docker-compose.yaml'', ''main.go'', ''main.rs'', ''main.java'', ''Program.cs'']"

definition ENTRY_POINT_STEMS :: "string list" where
  "ENTRY_POINT_STEMS = [''main'', ''app'', ''index'', ''server'', ''config'', ''settings'', ''manage'', ''wsgi'', ''asgi'']"

definition ENTRY_POINT_STEM_TOKENS :: "string list" where
  "ENTRY_POINT_STEM_TOKENS = [''handler'', ''handlers'', ''route'', ''routes'', ''router'', ''controller'', ''controllers'',
     ''endpoint'', ''endpoints'', ''webhook'', ''webhooks'', ''middleware'', ''resolver'', ''resolvers'',
     ''lambda'', ''view'', ''views'', ''urls'', ''api'', ''serializer'', ''serializers'']"

definition ENTRY_POINT_DIRS :: "string list" where
  "ENTRY_POINT_DIRS = [''cmd'', ''api'', ''routes'', ''controllers'', ''handlers'', ''endpoints'', ''functions'',
     ''webhooks'', ''resolvers'', ''middleware'', ''views'']"

definition is_entry_or_config :: "string \<Rightarrow> bool" where
  "is_entry_or_config path = (let stem = lower (name_stem (name_of path)) in
     if name_of path \<in> set ENTRY_POINT_NAMES then True
     else if stem \<in> set ENTRY_POINT_STEMS then True
     else if meets (split_on (CHR ''_'') (replace_char (CHR ''.'') (CHR ''_'') (replace_char (CHR ''-'') (CHR ''_'') stem)))
       ENTRY_POINT_STEM_TOKENS then True
     else meets (map lower (butlast (path_parts path))) ENTRY_POINT_DIRS)"

section \<open>Lines a skill skips\<close>

definition SCANNER_DEF_LINE :: re where
  "SCANNER_DEF_LINE = Alt (ilit ''re.compile('') (cats [lit ''='', ws_re, opt_re (lit ''[''), ws_re, ilit ''re.''])"

definition COMMENT_INDICATORS :: re where
  "COMMENT_INDICATORS = cats [Bos, ws_re, Grp 1 (alts [lit ''#'', lit ''//'', cats [opt_re (lit ''/''), lit ''*''], lit ''*'', lit ''<!--''])]"

definition opens_pattern_definition :: "string \<Rightarrow> bool" where
  "opens_pattern_definition line =
     (re_search SCANNER_DEF_LINE line \<noteq> None \<and>
      length (filter (\<lambda>c. c = CHR '')'') line) < length (filter (\<lambda>c. c = CHR ''('') line))"

definition is_non_code_line :: "string \<Rightarrow> re \<Rightarrow> bool" where
  "is_non_code_line line imports_re =
     (re_match COMMENT_INDICATORS line \<noteq> None \<or> re_match imports_re line \<noteq> None \<or> re_search SCANNER_DEF_LINE line \<noteq> None)"

section \<open>Globs\<close>

text \<open>\<open>fnmatch.fnmatchcase\<close>: a star, a question mark, a bracket class with ranges and negation, a literal.
  A class is the text up to the first closing bracket that is not its first character; without one the
  bracket is literal.\<close>

fun class_has :: "string \<Rightarrow> char \<Rightarrow> bool" where
  "class_has (a # m # b # cs) c =
     (if m = CHR ''-'' then (of_char a \<le> (of_char c :: nat) \<and> of_char c \<le> (of_char b :: nat)) \<or> class_has cs c
      else a = c \<or> class_has (m # b # cs) c)"
| "class_has cs c = (c \<in> set cs)"

definition class_of :: "string \<Rightarrow> (bool \<times> string \<times> string) option" where
  "class_of p = (let neg = starts_with p ''!''; q = (if neg then tl p else p);
       lead = (if starts_with q '']'' then [CHR '']''] else []); r = drop (length lead) q in
     if CHR '']'' \<in> set r
       then Some (neg, lead @ takeWhile (\<lambda>c. c \<noteq> CHR '']'') r, tl (dropWhile (\<lambda>c. c \<noteq> CHR '']'') r)) else None)"

lemma class_of_shorter: "class_of p = Some (neg, cls, rest) \<Longrightarrow> length rest < length p"
proof -
  assume c: "class_of p = Some (neg, cls, rest)"
  obtain r where r: "rest = tl (dropWhile (\<lambda>c. c \<noteq> CHR '']'') r)" "CHR '']'' \<in> set r" "length r \<le> length p"
    using c by (auto simp: class_of_def Let_def split: if_splits)
  have "dropWhile (\<lambda>c. c \<noteq> CHR '']'') r \<noteq> []" using r(2) by simp
  then have "length rest < length (dropWhile (\<lambda>c. c \<noteq> CHR '']'') r)" by (simp add: r(1))
  also have "\<dots> \<le> length r" by (rule length_dropWhile_le)
  finally show ?thesis using r(3) by simp
qed

function glob :: "string \<Rightarrow> string \<Rightarrow> bool" where
  "glob [] s = (s = [])"
| "glob (c # p) s =
     (if c = CHR ''*'' then glob p s \<or> (case s of [] \<Rightarrow> False | _ # cs \<Rightarrow> glob (c # p) cs)
      else case s of [] \<Rightarrow> False
      | d # ds \<Rightarrow>
          if c = CHR ''?'' then glob p ds
          else (case (if c = CHR ''['' then class_of p else None) of
            None \<Rightarrow> d = c \<and> glob p ds
          | Some (neg, cls, rest) \<Rightarrow> (class_has cls d \<noteq> neg) \<and> glob rest ds))"
  by pat_completeness auto
termination
proof (relation "measure (\<lambda>(p, s). length p + length s)", goal_cases)
  case (6 c p s d ds x neg y cls rest)
  then have "length rest < length p" using class_of_shorter by (auto split: if_splits)
  then show ?case using 6 by simp
qed auto

section \<open>A copy is what it shadows\<close>

lemma strip_loop_None: "strip_round base = None \<Longrightarrow> strip_loop base found = (base, found)"
  by (simp add: strip_loop.simps)

lemma strip_loop_Some: "strip_round base = Some b \<Longrightarrow> strip_loop base found = strip_loop b True"
  by (subst strip_loop.simps) simp

lemma strip_loop_result:
  "strip_round (fst (strip_loop base found)) = None \<and> prefix (fst (strip_loop base found)) base \<and>
    (snd (strip_loop base found) \<longleftrightarrow> found \<or> fst (strip_loop base found) \<noteq> base)"
proof (induction base found rule: strip_loop.induct)
  case (1 base found)
  show ?case
  proof (cases "strip_round base")
    case None
    then show ?thesis by (simp add: strip_loop_None)
  next
    case (Some b)
    then have "strict_prefix b base" by (rule strip_round_prefix)
    moreover from 1 [OF Some] have ih: "strip_round (fst (strip_loop b True)) = None" "prefix (fst (strip_loop b True)) b"
      "snd (strip_loop b True)" by auto
    ultimately have "strict_prefix (fst (strip_loop b True)) base" using prefix_order.le_less_trans by blast
    then show ?thesis using ih by (auto simp: strip_loop_Some [OF Some])
  qed
qed

lemma strip_loop_name: "fst (strip_loop base found) = fst (strip_loop base found')"
  by (cases "strip_round base") (simp_all add: strip_loop_None strip_loop_Some)

text \<open>The loop ends in a name no marker is left on, a leading part of the name, and says whether it took
  anything off.\<close>

theorem backup_markers_are_gone:
  "strip_round (effective_name name) = None \<and> prefix (effective_name name) name \<and>
    (is_backup_name name \<longleftrightarrow> effective_name name \<noteq> name)"
  using strip_loop_result [of name False] by (simp add: effective_name_def is_backup_name_def strip_backup_markers_def)

lemma ends_with_last: "ends_with s [c] \<Longrightarrow> last s = c"
proof -
  assume "ends_with s [c]"
  then have "drop (length s - 1) s = [c]" "s \<noteq> []" by (auto simp: ends_with_def)
  then show "last s = c" by (metis append_take_drop_id last_snoc)
qed

lemma marker_plain:
  assumes "is_backup_marker m"
  shows "CHR ''.'' \<notin> set m" and "m \<noteq> []" and "\<not> ends_with (n @ CHR ''.'' # m) [BACKUP_TILDE]"
proof -
  have low: "list_all (\<lambda>k. k \<noteq> [] \<and> CHR ''.'' \<notin> set k \<and> CHR ''~'' \<notin> set k) BACKUP_MARKERS" by code_simp
  have kept: "lower_char (CHR ''.'') = CHR ''.''" "lower_char (CHR ''~'') = CHR ''~''" by code_simp+
  have l: "lower m \<noteq> []" "CHR ''.'' \<notin> set (lower m)" "CHR ''~'' \<notin> set (lower m)"
    using assms low by (auto simp: is_backup_marker_def list_all_iff)
  then have m: "m \<noteq> []" "CHR ''.'' \<notin> set m" "CHR ''~'' \<notin> set m"
    using kept by (auto simp: lower_def image_iff)
  then show "CHR ''.'' \<notin> set m" "m \<noteq> []" by simp_all
  have "last (n @ CHR ''.'' # m) = last m" using m by simp
  moreover have "last m \<noteq> BACKUP_TILDE" using m last_in_set [OF m(1)] by (metis BACKUP_TILDE_def)
  ultimately show "\<not> ends_with (n @ CHR ''.'' # m) [BACKUP_TILDE]"
    using ends_with_last by metis
qed

lemma strip_round_marker: "is_backup_marker m \<Longrightarrow> strip_round (n @ CHR ''.'' # m) = Some n"
  using marker_plain(1) [of m] marker_plain(3) [of m n] by (simp add: strip_round_def rdot_app)

text \<open>A copy is what it shadows: its effective name and extension are those of the file without the marker,
  and it is recognised as a copy.\<close>

theorem copy_is_what_it_shadows:
  assumes "is_backup_marker m"
  shows "effective_name (n @ CHR ''.'' # m) = effective_name n \<and> effective_suffix (n @ CHR ''.'' # m) = effective_suffix n \<and>
    is_backup_name (n @ CHR ''.'' # m)"
proof -
  have e: "strip_loop (n @ CHR ''.'' # m) False = strip_loop n True" using strip_loop_Some [OF strip_round_marker [OF assms]] .
  then have "effective_name (n @ CHR ''.'' # m) = effective_name n"
    by (simp add: effective_name_def strip_backup_markers_def strip_loop_name [of n True False])
  then show ?thesis using e strip_loop_result [of n True]
    by (simp add: effective_suffix_def effective_name_def is_backup_name_def strip_backup_markers_def)
qed

theorem copy_is_what_it_shadows_witness:
  "effective_name (''package.json'' @ CHR ''.'' # ''BAK'') = effective_name ''package.json''"
proof -
  have "is_backup_marker ''BAK''" by code_simp
  from copy_is_what_it_shadows [OF this] show ?thesis by blast
qed

text \<open>Lock files listed in mixed case are never generated: the name is lowered before it is looked up.\<close>

lemma cargo_lock_is_not_generated: "\<not> is_generated_file ''Cargo.lock''" "is_generated_file ''yarn.lock''" "''Cargo.lock'' \<in> set SKIP_FILES"
  by code_simp+

end
