(* ===== verification/Scan_Walk.thy ===== *)
theory Scan_Walk
  imports Scan_Names Loop_Detector "HOL-Library.List_Lexorder"
begin

text \<open>
  The walk of a scanned tree (\<open>shared/tools/file_scanner.py\<close>): the autorun allowlist, the ignore rules in
  force in each directory, the classification of one entry, the walk with the prefixes it reports as
  pruned, and the probes \<open>walk_reaches\<close> and \<open>walk_excludes\<close> that answer for one path without walking.

  A directory on disk is a \<open>node\<close>; \<open>pathspec\<close> is the parameter that compiles the lines of an ignore file
  to its verdict on a path, and the name comparison of the file system is a parameter too. A path below
  the scan root is the list of its names.
\<close>

section \<open>The tree on disk\<close>

datatype link_target = ToFile | ToDir | Dangling

datatype node = FileN "string option" | DirN bool "(string \<times> node) list" | LinkN link_target | OtherN

type_synonym segs = "string list"
type_synonym spec = "string \<Rightarrow> bool option"

record walk_world =
  ww_env :: env
  ww_same :: "string \<Rightarrow> string \<Rightarrow> bool"
  ww_pathspec :: bool
  ww_compile :: "string list \<Rightarrow> spec"
  ww_globs :: "string list"
  ww_above :: segs

definition posix :: "segs \<Rightarrow> string" where "posix ps = join [SLASH] ps"

text \<open>Opening a name in a directory, as the file system compares names; a symbolic link is followed by
  \<open>is_file\<close> and \<open>is_dir\<close>.\<close>

definition open_child :: "walk_world \<Rightarrow> node option \<Rightarrow> string \<Rightarrow> node option" where
  "open_child w d n = (case d of Some (DirN _ cs) \<Rightarrow> map_option snd (find (\<lambda>(m, _). ww_same w n m) cs) | _ \<Rightarrow> None)"

fun node_is_file :: "node option \<Rightarrow> bool" where
  "node_is_file (Some (FileN _)) = True"
| "node_is_file (Some (LinkN ToFile)) = True"
| "node_is_file _ = False"

fun node_is_dir :: "node option \<Rightarrow> bool" where
  "node_is_dir (Some (DirN _ _)) = True"
| "node_is_dir (Some (LinkN ToDir)) = True"
| "node_is_dir _ = False"

fun node_is_link :: "node option \<Rightarrow> bool" where
  "node_is_link (Some (LinkN _)) = True"
| "node_is_link _ = False"

definition sorted_entries :: "node \<Rightarrow> (string \<times> node) list" where
  "sorted_entries d = (case d of DirN readable cs \<Rightarrow>
     if readable then sort_key (\<lambda>(n, _). map (of_char :: char \<Rightarrow> nat) n) cs else [] | _ \<Rightarrow> [])"

section \<open>The autorun allowlist\<close>

definition WELL_KNOWN_AUTORUN_FILES :: "string list" where
  "WELL_KNOWN_AUTORUN_FILES = [''.vscode/tasks.json'', ''.vscode/launch.json'', ''.vscode/settings.json'',
     ''.idea/runConfigurations/*.xml'', ''.idea/workspace.xml'', ''.claude/settings.json'',
     ''.claude/settings.local.json'', ''.claude/hooks/*'', ''.devcontainer/devcontainer.json'', ''.devcontainer/*.sh'']"

definition ancestor_prefixes :: "string list \<Rightarrow> string list" where
  "ancestor_prefixes patterns = concat (map (\<lambda>p. let parts = split_on SLASH p in
     map (\<lambda>i. join [SLASH] (take i parts)) [1..<length parts]) patterns)"

definition AUTORUN_DIR_PREFIXES :: "string list" where
  "AUTORUN_DIR_PREFIXES = ancestor_prefixes WELL_KNOWN_AUTORUN_FILES"

definition match_rel_pattern :: "string \<Rightarrow> string \<Rightarrow> bool" where
  "match_rel_pattern rel_path pattern = (let parts = split_on SLASH rel_path; pattern_parts = split_on SLASH pattern in
     if length parts \<noteq> length pattern_parts then False
     else list_all (\<lambda>(a, b). glob b a) (zip parts pattern_parts))"

definition is_autorun_path :: "string \<Rightarrow> bool" where
  "is_autorun_path rel_path = list_ex (match_rel_pattern rel_path) WELL_KNOWN_AUTORUN_FILES"

definition AUTORUN_MAX_DEPTH :: nat where
  "AUTORUN_MAX_DEPTH = Max (set (map (\<lambda>p. length (split_on SLASH p)) WELL_KNOWN_AUTORUN_FILES))"

text \<open>The climb re-anchors the path at each ancestor of the scan root, nearest first.\<close>

fun climb :: "nat \<Rightarrow> segs \<Rightarrow> segs \<Rightarrow> string" where
  "climb 0 up rel = []"
| "climb (Suc n) up rel =
     (if up = [] then []
      else let candidate = posix (last up # rel) in
        if candidate \<noteq> [] \<and> is_autorun_path candidate then candidate
        else climb n (butlast up) (last up # rel))"

definition autorun_rel_path :: "walk_world \<Rightarrow> segs \<Rightarrow> string" where
  "autorun_rel_path w rel =
     (if is_autorun_path (posix rel) then posix rel else climb (AUTORUN_MAX_DEPTH - 1) (ww_above w) rel)"

definition is_autorun_entry :: "walk_world \<Rightarrow> segs \<Rightarrow> bool" where
  "is_autorun_entry w rel = (autorun_rel_path w rel \<noteq> [])"

definition is_autorun_dir :: "string \<Rightarrow> bool" where
  "is_autorun_dir rel_path = list_ex (match_rel_pattern rel_path) AUTORUN_DIR_PREFIXES"

section \<open>The ignore rules\<close>

definition VCS_DIRS :: "string list" where "VCS_DIRS = [''.git'', ''.svn'', ''.hg'', ''.bzr'']"
definition VIRTUALENV_MARKER :: string where "VIRTUALENV_MARKER = ''pyvenv.cfg''"

definition ignored_by_default :: "walk_world \<Rightarrow> string \<Rightarrow> bool" where
  "ignored_by_default w name = (name \<in> set VCS_DIRS \<or> list_ex (\<lambda>g. glob g name) (ww_globs w))"

definition compile_ignore_lines :: "walk_world \<Rightarrow> string list \<Rightarrow> spec option" where
  "compile_ignore_lines w lines = (if lines = [] then None else Some (ww_compile w lines))"

definition read_ignore_lines :: "node option \<Rightarrow> string list" where
  "read_ignore_lines f = (case f of Some (FileN (Some text)) \<Rightarrow> splitlines text | _ \<Rightarrow> [])"

definition gitignore_spec :: "walk_world \<Rightarrow> node option \<Rightarrow> spec option" where
  "gitignore_spec w d = compile_ignore_lines w (read_ignore_lines (open_child w d ''.gitignore''))"

definition verdict :: "spec option \<Rightarrow> string \<Rightarrow> bool option" where
  "verdict spec rel = (case spec of None \<Rightarrow> None | Some f \<Rightarrow> f rel)"

definition below :: "string \<Rightarrow> string \<Rightarrow> string" where
  "below base rel = (if base \<noteq> [] then drop (length base + 1) rel else rel)"

record ignore_rules =
  ir_gitignores :: "(string \<times> spec) list"
  ir_vultureignore :: "spec option"
  ir_read_gitignore :: bool

definition rules_descend :: "walk_world \<Rightarrow> string \<Rightarrow> node option \<Rightarrow> ignore_rules \<Rightarrow> ignore_rules" where
  "rules_descend w rel_dir d rules =
     (case (if ir_read_gitignore rules then gitignore_spec w d else None) of
        None \<Rightarrow> rules
      | Some spec \<Rightarrow> rules\<lparr>ir_gitignores := ir_gitignores rules @ [(rel_dir, spec)]\<rparr>)"

fun first_verdict :: "string \<Rightarrow> (string \<times> spec option) list \<Rightarrow> bool" where
  "first_verdict key [] = False"
| "first_verdict key ((base, spec) # rest) =
     (case verdict spec (below base key) of Some v \<Rightarrow> v | None \<Rightarrow> first_verdict key rest)"

definition rules_ignored :: "ignore_rules \<Rightarrow> string \<Rightarrow> bool \<Rightarrow> bool" where
  "rules_ignored rules rel is_dir =
     first_verdict (if is_dir then rel @ ''/'' else rel)
       (([], ir_vultureignore rules) # rev (map (\<lambda>(b, s). (b, Some s)) (ir_gitignores rules)))"

definition brings_back :: "ignore_rules \<Rightarrow> string \<Rightarrow> bool" where
  "brings_back rules rel_dir = (verdict (ir_vultureignore rules) (rel_dir @ ''/'') = Some False)"

definition load_ignore_spec :: "walk_world \<Rightarrow> node option \<Rightarrow> ignore_rules option" where
  "load_ignore_spec w tree =
     (if \<not> ww_pathspec w then None
      else Some (rules_descend w [] tree
        \<lparr>ir_gitignores = [], ir_vultureignore = compile_ignore_lines w (read_ignore_lines (open_child w tree ''.vultureignore'')),
          ir_read_gitignore = (lower (os_getenv (ww_env w) ''VULTURE_IGNORE_GITIGNORE'' []) \<noteq> ''true'')\<rparr>))"

definition descend :: "walk_world \<Rightarrow> segs \<Rightarrow> node option \<Rightarrow> ignore_rules option \<Rightarrow> ignore_rules option" where
  "descend w rel d rules = map_option (rules_descend w (posix rel) d) rules"

section \<open>The classification of one entry\<close>

datatype kind = KFile | KDir | KRestricted | KPruned | KSkip

definition prune :: "node option \<Rightarrow> kind" where
  "prune entry = (if node_is_dir entry then KPruned else KSkip)"

definition brought_back :: "ignore_rules option \<Rightarrow> string \<Rightarrow> bool" where
  "brought_back spec rel = (case spec of None \<Rightarrow> False | Some rules \<Rightarrow> brings_back rules rel)"

definition pruned_dir :: "walk_world \<Rightarrow> node option \<Rightarrow> segs \<Rightarrow> ignore_rules option \<Rightarrow> bool" where
  "pruned_dir w entry rel spec =
     (if last rel \<in> set VCS_DIRS \<or> node_is_file (open_child w entry VIRTUALENV_MARKER) then True
      else ignored_by_default w (last rel) \<and> \<not> brought_back spec (posix rel))"

definition classify_file :: "walk_world \<Rightarrow> segs \<Rightarrow> bool \<Rightarrow> kind" where
  "classify_file w rel restricted =
     (if \<not> restricted then KFile else if is_autorun_entry w rel then KFile else KPruned)"

definition classify_pruned_dir :: "node option \<Rightarrow> segs \<Rightarrow> kind" where
  "classify_pruned_dir entry rel = (if is_autorun_dir (posix rel) then KRestricted else prune entry)"

definition classify_dir :: "walk_world \<Rightarrow> node option \<Rightarrow> segs \<Rightarrow> ignore_rules option \<Rightarrow> bool \<Rightarrow> kind" where
  "classify_dir w entry rel spec restricted =
     (if restricted then (if is_autorun_dir (posix rel) then KRestricted else prune entry)
      else if \<not> pruned_dir w entry rel spec then KDir
      else classify_pruned_dir entry rel)"

definition ignored_as :: "ignore_rules option \<Rightarrow> segs \<Rightarrow> bool \<Rightarrow> bool" where
  "ignored_as spec rel as_dir = (case spec of None \<Rightarrow> False | Some rules \<Rightarrow> rules_ignored rules (posix rel) as_dir)"

definition classify_as :: "walk_world \<Rightarrow> node option \<Rightarrow> segs \<Rightarrow> ignore_rules option \<Rightarrow> bool \<Rightarrow> bool \<Rightarrow> kind" where
  "classify_as w entry rel spec restricted as_dir =
     (if ignored_as spec rel as_dir then (if as_dir then KPruned else KSkip)
      else if as_dir then classify_dir w entry rel spec restricted
      else classify_file w rel restricted)"

definition classify_entry :: "walk_world \<Rightarrow> node option \<Rightarrow> segs \<Rightarrow> ignore_rules option \<Rightarrow> bool \<Rightarrow> kind" where
  "classify_entry w entry rel spec restricted =
     (if node_is_link entry then prune entry
      else if node_is_file entry then classify_as w entry rel spec restricted False
      else if \<not> node_is_dir entry then KSkip
      else classify_as w entry rel spec restricted True)"

section \<open>The walk\<close>

text \<open>The entries of a directory with their kinds; the walk yields what it keeps, as paths below the
  directory, and reports the pruned ones.\<close>

definition children_kinds :: "walk_world \<Rightarrow> ignore_rules option \<Rightarrow> bool \<Rightarrow> segs \<Rightarrow> node \<Rightarrow> (string \<times> node \<times> kind) list" where
  "children_kinds w spec restricted rel d =
     map (\<lambda>(n, c). (n, c, classify_entry w (Some c) (rel @ [n]) spec restricted)) (sorted_entries d)"

lemma child_smaller: "(n, c, k) \<in> set (children_kinds w spec restricted rel d) \<Longrightarrow> size c < size d"
proof -
  assume "(n, c, k) \<in> set (children_kinds w spec restricted rel d)"
  then obtain r cs where d: "d = DirN r cs" "(n, c) \<in> set cs"
    by (auto simp: children_kinds_def sorted_entries_def split: node.splits if_splits)
  from d(2) have "size c < size_list (size_prod (\<lambda>x. 0) size) cs" by (induction cs) auto
  then show ?thesis using d(1) by simp
qed

function walk_tree :: "walk_world \<Rightarrow> ignore_rules option \<Rightarrow> bool \<Rightarrow> segs \<Rightarrow> node \<Rightarrow> (segs \<times> bool) list" where
  "walk_tree w spec restricted rel d =
     (let kinds = children_kinds w spec restricted rel d in
      map (\<lambda>(n, _, _). ([n], False)) (filter (\<lambda>(_, _, k). k = KFile) kinds) @
      concat (map (\<lambda>(n, c, k). if k \<in> {KDir, KRestricted}
          then ([n], True) # map (\<lambda>(q, b). (n # q, b)) (walk_tree w (descend w (rel @ [n]) (Some c) spec) (k = KRestricted) (rel @ [n]) c)
          else []) kinds))"
  by pat_completeness auto
termination
  by (relation "measure (\<lambda>(_, _, _, _, d). size d)") (auto dest: child_smaller)

function pruned_below :: "walk_world \<Rightarrow> ignore_rules option \<Rightarrow> bool \<Rightarrow> segs \<Rightarrow> node \<Rightarrow> segs list" where
  "pruned_below w spec restricted rel d =
     (let kinds = children_kinds w spec restricted rel d in
      map (\<lambda>(n, _, _). [n]) (filter (\<lambda>(_, _, k). k = KPruned) kinds) @
      concat (map (\<lambda>(n, c, k). if k \<in> {KDir, KRestricted}
          then map ((#) n) (pruned_below w (descend w (rel @ [n]) (Some c) spec) (k = KRestricted) (rel @ [n]) c)
          else []) kinds))"
  by pat_completeness auto
termination
  by (relation "measure (\<lambda>(_, _, _, _, d). size d)") (auto dest: child_smaller)

declare walk_tree.simps [simp del] pruned_below.simps [simp del]

end
