(* ===== verification/Scan_Probe.thy ===== *)
theory Scan_Probe
  imports Scan_Walk "HOL-Library.Sublist"
begin

text \<open>
  The probes of the walk (\<open>shared/tools/file_scanner.py\<close>) and what the walk promises: a probe answers for one
  path what the walk would have done with it, the reported prefixes account for every file that was not
  read, and no file that was read lies below one of them.
\<close>

type_synonym walk_state = "segs \<times> node option \<times> ignore_rules option \<times> bool"
type_synonym classifier = "walk_world \<Rightarrow> node option \<Rightarrow> segs \<Rightarrow> ignore_rules option \<Rightarrow> bool \<Rightarrow> bool \<Rightarrow> kind"

definition spelled_on_disk :: "node option \<Rightarrow> string \<Rightarrow> bool" where
  "spelled_on_disk d n = (case d of Some (DirN readable cs) \<Rightarrow> readable \<and> n \<in> set (map fst cs) | _ \<Rightarrow> False)"

definition classify_on_disk :: classifier where
  "classify_on_disk w d rel spec restricted as_dir =
     (if \<not> spelled_on_disk d (last rel) then KSkip else classify_entry w (open_child w d (last rel)) rel spec restricted)"

definition classify_unseen :: classifier where
  "classify_unseen w d rel spec restricted as_dir = classify_as w (open_child w d (last rel)) rel spec restricted as_dir"

fun entered :: "classifier \<Rightarrow> walk_world \<Rightarrow> walk_state \<Rightarrow> segs \<Rightarrow> walk_state option" where
  "entered classify w s [] = Some s"
| "entered classify w (rel, d, spec, restricted) (p # ps) =
     (let k = classify w d (rel @ [p]) spec restricted True; e = open_child w d p in
      if k \<notin> {KDir, KRestricted} then None
      else entered classify w (rel @ [p], e, descend w (rel @ [p]) e spec, k = KRestricted) ps)"

definition start :: "walk_world \<Rightarrow> node \<Rightarrow> walk_state" where
  "start w tree = ([], Some tree, load_ignore_spec w (Some tree), False)"

definition reaches_along :: "walk_world \<Rightarrow> walk_state \<Rightarrow> segs \<Rightarrow> bool" where
  "reaches_along w s parts = (case entered classify_on_disk w s (butlast parts) of
     None \<Rightarrow> False
   | Some (rel, d, spec, restricted) \<Rightarrow>
       classify_on_disk w d (rel @ [last parts]) spec restricted False \<in> {KFile, KDir, KRestricted})"

text \<open>The relative path is nothing for a path outside the root, and no name for the root itself.\<close>

definition walk_reaches :: "walk_world \<Rightarrow> node \<Rightarrow> segs option \<Rightarrow> bool" where
  "walk_reaches w tree target = (case target of None \<Rightarrow> False
     | Some [] \<Rightarrow> node_is_dir (Some tree)
     | Some parts \<Rightarrow> ''..'' \<notin> set parts \<and> reaches_along w (start w tree) parts)"

text \<open>The location a probe names is relative to the root.\<close>

definition present :: "walk_world \<Rightarrow> node \<Rightarrow> string \<Rightarrow> bool" where
  "present w tree rel = walk_reaches w tree (Some (segments rel))"

definition walk_excludes :: "walk_world \<Rightarrow> node \<Rightarrow> segs option \<Rightarrow> bool" where
  "walk_excludes w tree target = (case target of None \<Rightarrow> False
     | Some [] \<Rightarrow> False
     | Some parts \<Rightarrow> (case entered classify_unseen w (start w tree) (butlast parts) of
         None \<Rightarrow> True
       | Some (rel, d, spec, restricted) \<Rightarrow> classify_unseen w d (rel @ [last parts]) spec restricted False \<noteq> KFile))"

fun ignored_along :: "walk_world \<Rightarrow> ignore_rules \<Rightarrow> segs \<Rightarrow> node option \<Rightarrow> segs \<Rightarrow> bool" where
  "ignored_along w rules rel d [] = False"
| "ignored_along w rules rel d (p # ps) = (let e = open_child w d p in
     rules_ignored rules (posix (rel @ [p])) (node_is_dir e) \<or>
     (ps \<noteq> [] \<and> ignored_along w (rules_descend w (posix (rel @ [p])) e rules) (rel @ [p]) e ps))"

definition path_ignored :: "walk_world \<Rightarrow> node \<Rightarrow> ignore_rules option \<Rightarrow> segs option \<Rightarrow> bool" where
  "path_ignored w tree rules target =
     (let rs = (case rules of None \<Rightarrow> load_ignore_spec w (Some tree) | Some _ \<Rightarrow> rules) in
      case (rs, target) of (Some r, Some (p # ps)) \<Rightarrow> ignored_along w r [] (Some tree) (p # ps) | _ \<Rightarrow> False)"

definition walk_filtered :: "walk_world \<Rightarrow> node \<Rightarrow> segs list" where
  "walk_filtered w tree = (if node_is_dir (Some tree)
     then map fst (filter (\<lambda>(_, is_dir). \<not> is_dir) (walk_tree w (load_ignore_spec w (Some tree)) False [] tree)) else [])"

definition pruned_dirs :: "walk_world \<Rightarrow> node \<Rightarrow> string list" where
  "pruned_dirs w tree = sort_key (map (of_char :: char \<Rightarrow> nat))
     (remdups (map posix (pruned_below w (load_ignore_spec w (Some tree)) False [] tree)))"

section \<open>The scans\<close>

text \<open>A list of files is cut after the first entry that reaches the cap. The caches of the scans are the
  functions they memoise; paths are relative to the root.\<close>

definition collect_capped :: "segs list \<Rightarrow> int \<Rightarrow> segs list" where
  "collect_capped paths max_files = take (nat (max 1 max_files)) paths"

definition scan_code_files :: "walk_world \<Rightarrow> (string \<Rightarrow> string list option) \<Rightarrow> node \<Rightarrow> string list option \<Rightarrow> int \<Rightarrow> string list \<Rightarrow> segs list" where
  "scan_code_files w read_lines tree extensions max_files extra_filenames =
     (let exts = (case extensions of None \<Rightarrow> default_extensions (ww_env w) | Some e \<Rightarrow> if e = [] then default_extensions (ww_env w) else e);
          extras = extra_filenames @ WELL_KNOWN_FILENAMES in
      collect_capped (filter (\<lambda>p. include_file read_lines (posix p) exts extras (scan_minified_env (ww_env w))) (walk_filtered w tree)) max_files)"

definition scan_backup_files :: "walk_world \<Rightarrow> node \<Rightarrow> int \<Rightarrow> segs list" where
  "scan_backup_files w tree max_files = collect_capped (filter (\<lambda>p. is_backup_name (last p)) (walk_filtered w tree)) max_files"

definition scan_all_files :: "walk_world \<Rightarrow> node \<Rightarrow> int \<Rightarrow> segs list" where
  "scan_all_files w tree max_files = collect_capped (walk_filtered w tree) max_files"

definition scan_autorun_files :: "walk_world \<Rightarrow> node \<Rightarrow> segs list" where
  "scan_autorun_files w tree = filter (is_autorun_entry w) (walk_filtered w tree)"

text \<open>A query over the listing: below a directory, within a depth, with a name test.\<close>

definition strip_slashes :: "string \<Rightarrow> string" where "strip_slashes s = strip_by (\<lambda>c. c = SLASH) s"

definition under_prefix :: "string \<Rightarrow> string" where
  "under_prefix dir = (let base = strip_slashes dir in if base = [] \<or> base = ''.'' then [] else base @ ''/'')"

definition in_scope :: "string \<Rightarrow> string \<Rightarrow> nat option \<Rightarrow> bool" where
  "in_scope rel pre depth = (starts_with rel pre \<and>
     (case depth of None \<Rightarrow> True | Some n \<Rightarrow> length (filter (\<lambda>c. c = SLASH) (drop (length pre) rel)) < n))"

definition basename_test :: "string list \<Rightarrow> string list \<Rightarrow> string \<Rightarrow> bool" where
  "basename_test names globs name = (if names = [] \<and> globs = [] then True else name \<in> set names \<or> list_ex (\<lambda>g. glob g name) globs)"

definition select_entries :: "segs list \<Rightarrow> string \<Rightarrow> nat option \<Rightarrow> (string \<Rightarrow> bool) \<Rightarrow> segs list" where
  "select_entries entries dir depth wanted =
     filter (\<lambda>p. in_scope (posix p) (under_prefix dir) depth \<and> wanted (last p)) entries"

section \<open>Well-formed trees\<close>

text \<open>No two names of a directory are the same to the file system, and none is dot-dot.\<close>

definition clash_free :: "walk_world \<Rightarrow> (string \<times> node) list \<Rightarrow> bool" where
  "clash_free w cs = (distinct (map fst cs) \<and> list_all (\<lambda>x. fst x \<noteq> ''..'' \<and> list_all (\<lambda>y. ww_same w (fst x) (fst y) \<longrightarrow> fst x = fst y) cs) cs)"

fun wf_node :: "walk_world \<Rightarrow> node \<Rightarrow> bool" where
  "wf_node w (DirN _ cs) = (clash_free w cs \<and> list_all (\<lambda>(_, c). wf_node w c) cs)"
| "wf_node w _ = True"

lemma open_listed:
  assumes "clash_free w cs" and "\<And>n. ww_same w n n" and "(n, c) \<in> set cs"
  shows "open_child w (Some (DirN r cs)) n = Some c"
proof -
  have "find (\<lambda>(m, _). ww_same w n m) cs \<noteq> None"
    using assms(2,3) by (auto simp: find_None_iff)
  then obtain m e where f: "find (\<lambda>(m, _). ww_same w n m) cs = Some (m, e)" by auto
  then have "(m, e) \<in> set cs" "ww_same w n m" by (auto simp: find_Some_iff in_set_conv_nth)
  moreover from this have "n = m" using assms(1,3) by (fastforce simp: clash_free_def list_all_iff)
  ultimately have "e = c" using assms(1,3) by (auto simp: clash_free_def intro: map_of_eqI dest: eq_key_imp_eq_value)
  then show ?thesis using f by (simp add: open_child_def)
qed

lemma in_kinds: "(n, c, k) \<in> set (children_kinds w spec restricted rel d) \<longleftrightarrow>
    (\<exists>cs. d = DirN True cs \<and> (n, c) \<in> set cs) \<and> k = classify_entry w (Some c) (rel @ [n]) spec restricted"
proof (cases "\<exists>cs. d = DirN True cs")
  case True
  then obtain cs where d: "d = DirN True cs" by blast
  have "set (children_kinds w spec restricted rel d) =
      (\<lambda>(n, c). (n, c, classify_entry w (Some c) (rel @ [n]) spec restricted)) ` set cs"
    by (simp add: children_kinds_def sorted_entries_def d)
  then show ?thesis by (auto simp: d)
next
  case False
  then show ?thesis by (auto simp: children_kinds_def sorted_entries_def split: node.splits)
qed

lemma on_disk_kind:
  assumes "wf_node w d" and "\<And>n. ww_same w n n"
  shows "classify_on_disk w (Some d) (rel @ [p]) spec restricted x = k \<and> k \<noteq> KSkip \<longleftrightarrow>
    (\<exists>c. (p, c, k) \<in> set (children_kinds w spec restricted rel d)) \<and> k \<noteq> KSkip"
    and "(p, c, k) \<in> set (children_kinds w spec restricted rel d) \<Longrightarrow> open_child w (Some d) p = Some c \<and> wf_node w c"
proof -
  have opened: "open_child w (Some d) p = Some c \<and> wf_node w c" if "d = DirN True cs" "(p, c) \<in> set cs" for cs c
    using that assms open_listed [of w cs p c True] by (fastforce simp: list_all_iff)
  then show "(p, c, k) \<in> set (children_kinds w spec restricted rel d) \<Longrightarrow> open_child w (Some d) p = Some c \<and> wf_node w c"
    by (auto simp: in_kinds)
  show "classify_on_disk w (Some d) (rel @ [p]) spec restricted x = k \<and> k \<noteq> KSkip \<longleftrightarrow>
    (\<exists>c. (p, c, k) \<in> set (children_kinds w spec restricted rel d)) \<and> k \<noteq> KSkip"
  proof (cases "spelled_on_disk (Some d) p")
    case True
    then obtain cs c where "d = DirN True cs" "(p, c) \<in> set cs"
      by (auto simp: spelled_on_disk_def split: node.splits)
    moreover have "open_child w (Some d) p = Some c" using opened calculation by blast
    ultimately show ?thesis using True assms(1) by (auto simp: classify_on_disk_def in_kinds clash_free_def dest: eq_key_imp_eq_value)
  next
    case False
    then show ?thesis by (force simp: classify_on_disk_def in_kinds spelled_on_disk_def)
  qed
qed

section \<open>The probe agrees with the walk\<close>

lemma walk_nonempty: "(q, b) \<in> set (walk_tree w spec restricted rel d) \<Longrightarrow> q \<noteq> []"
  by (subst (asm) walk_tree.simps) (auto simp: Let_def split: if_splits)

lemma walk_single: "([p], b) \<in> set (walk_tree w spec restricted rel d) \<longleftrightarrow>
    (\<exists>c k. (p, c, k) \<in> set (children_kinds w spec restricted rel d) \<and> k = KFile \<and> \<not> b \<or>
      (p, c, k) \<in> set (children_kinds w spec restricted rel d) \<and> k \<in> {KDir, KRestricted} \<and> b)"
  by (subst walk_tree.simps) (force simp: Let_def dest: walk_nonempty split: if_splits)

lemma walk_deep: "(p # q # qs, b) \<in> set (walk_tree w spec restricted rel d) \<longleftrightarrow>
    (\<exists>c k. (p, c, k) \<in> set (children_kinds w spec restricted rel d) \<and> k \<in> {KDir, KRestricted} \<and>
      (q # qs, b) \<in> set (walk_tree w (descend w (rel @ [p]) (Some c) spec) (k = KRestricted) (rel @ [p]) c))"
  by (subst walk_tree.simps) (force simp: Let_def split: if_splits)

lemma pruned_nonempty: "q \<in> set (pruned_below w spec restricted rel d) \<Longrightarrow> q \<noteq> []"
  by (subst (asm) pruned_below.simps) (auto simp: Let_def split: if_splits)

lemma pruned_single: "[p] \<in> set (pruned_below w spec restricted rel d) \<longleftrightarrow>
    (\<exists>c. (p, c, KPruned) \<in> set (children_kinds w spec restricted rel d))"
  by (subst pruned_below.simps) (force simp: Let_def dest: pruned_nonempty split: if_splits)

lemma pruned_deep: "p # q # qs \<in> set (pruned_below w spec restricted rel d) \<longleftrightarrow>
    (\<exists>c k. (p, c, k) \<in> set (children_kinds w spec restricted rel d) \<and> k \<in> {KDir, KRestricted} \<and>
      q # qs \<in> set (pruned_below w (descend w (rel @ [p]) (Some c) spec) (k = KRestricted) (rel @ [p]) c))"
  by (subst pruned_below.simps) (force simp: Let_def split: if_splits)

lemma reaches_single: "reaches_along w (rel, d, spec, restricted) [p] =
    (classify_on_disk w d (rel @ [p]) spec restricted False \<in> {KFile, KDir, KRestricted})"
  by (simp add: reaches_along_def)

lemma on_disk_as_dir: "classify_on_disk w d rel spec restricted x = classify_on_disk w d rel spec restricted y"
  by (simp add: classify_on_disk_def)

lemma reaches_deep: "ps \<noteq> [] \<Longrightarrow> reaches_along w (rel, d, spec, restricted) (p # ps) =
    (let k = classify_on_disk w d (rel @ [p]) spec restricted True; e = open_child w d p in
      k \<in> {KDir, KRestricted} \<and> reaches_along w (rel @ [p], e, descend w (rel @ [p]) e spec, k = KRestricted) ps)"
  unfolding reaches_along_def Let_def by (simp only: butlast.simps last.simps if_False entered.simps Let_def) simp

lemma on_disk_in:
  assumes "wf_node w d" and "\<And>n. ww_same w n n" and "KSkip \<notin> K"
  shows "classify_on_disk w (Some d) (rel @ [p]) spec restricted x \<in> K \<longleftrightarrow>
    (\<exists>c k. (p, c, k) \<in> set (children_kinds w spec restricted rel d) \<and> k \<in> K)"
  using on_disk_kind(1) [OF assms(1,2), of rel p spec restricted x] assms(3) by metis

lemma reaches_iff_walked:
  assumes "\<And>n. ww_same w n n" and "wf_node w d" and "parts \<noteq> []"
  shows "reaches_along w (rel, Some d, spec, restricted) parts \<longleftrightarrow> parts \<in> fst ` set (walk_tree w spec restricted rel d)"
  using assms(2,3)
proof (induction parts arbitrary: d rel spec restricted)
  case (Cons p ps)
  note kind = on_disk_kind(1) [OF Cons.prems(1) assms(1), of rel p spec restricted]
  note child = on_disk_kind(2) [OF Cons.prems(1) assms(1)]
  show ?case
  proof (cases ps)
    case Nil
    have "reaches_along w (rel, Some d, spec, restricted) [p] \<longleftrightarrow>
        (\<exists>c k. (p, c, k) \<in> set (children_kinds w spec restricted rel d) \<and> k \<in> {KFile, KDir, KRestricted})"
      unfolding reaches_single by (rule on_disk_in [OF Cons.prems(1) assms(1)]) simp
    also have "\<dots> \<longleftrightarrow> [p] \<in> fst ` set (walk_tree w spec restricted rel d)"
      by (auto simp: image_iff walk_single Bex_def)
    finally show ?thesis using Nil by simp
  next
    case (Cons q qs)
    have sub: "reaches_along w (rel @ [p], Some c, descend w (rel @ [p]) (Some c) spec, k = KRestricted) (q # qs) \<longleftrightarrow>
        q # qs \<in> fst ` set (walk_tree w (descend w (rel @ [p]) (Some c) spec) (k = KRestricted) (rel @ [p]) c)"
      if "wf_node w c" for c k using Cons.IH [OF that] Cons by simp
    have "reaches_along w (rel, Some d, spec, restricted) (p # q # qs) \<longleftrightarrow>
        (\<exists>c k. (p, c, k) \<in> set (children_kinds w spec restricted rel d) \<and> k \<in> {KDir, KRestricted} \<and>
          reaches_along w (rel @ [p], Some c, descend w (rel @ [p]) (Some c) spec, k = KRestricted) (q # qs))"
    proof -
      let ?k = "classify_on_disk w (Some d) (rel @ [p]) spec restricted True"
      have known: "?k = k \<and> open_child w (Some d) p = Some c"
        if "(p, c, k) \<in> set (children_kinds w spec restricted rel d)" "k \<noteq> KSkip" for c k
        using that kind [of True k] child by blast
      let ?sub = "\<lambda>c k. reaches_along w (rel @ [p], c, descend w (rel @ [p]) c spec, k = KRestricted) (q # qs)"
      have "?k \<in> {KDir, KRestricted} \<and> ?sub (open_child w (Some d) p) ?k \<longleftrightarrow>
          (\<exists>c k. (p, c, k) \<in> set (children_kinds w spec restricted rel d) \<and> k \<in> {KDir, KRestricted} \<and> ?sub (Some c) k)"
      proof
        assume l: "?k \<in> {KDir, KRestricted} \<and> ?sub (open_child w (Some d) p) ?k"
        then have "?k \<noteq> KSkip" by auto
        then obtain c where c: "(p, c, ?k) \<in> set (children_kinds w spec restricted rel d)" using kind [of True ?k] by blast
        then show "\<exists>c k. (p, c, k) \<in> set (children_kinds w spec restricted rel d) \<and> k \<in> {KDir, KRestricted} \<and> ?sub (Some c) k"
          using l known [OF c \<open>?k \<noteq> KSkip\<close>] by (intro exI [of _ c] exI [of _ ?k]) simp
      next
        assume "\<exists>c k. (p, c, k) \<in> set (children_kinds w spec restricted rel d) \<and> k \<in> {KDir, KRestricted} \<and> ?sub (Some c) k"
        then obtain c k where r: "(p, c, k) \<in> set (children_kinds w spec restricted rel d)" "k \<in> {KDir, KRestricted}" "?sub (Some c) k"
          by blast
        moreover have "k \<noteq> KSkip" using r(2) by auto
        ultimately show "?k \<in> {KDir, KRestricted} \<and> ?sub (open_child w (Some d) p) ?k" using known by auto
      qed
      then show ?thesis unfolding reaches_deep [OF list.distinct(2)] Let_def .
    qed
    also have "\<dots> \<longleftrightarrow> p # q # qs \<in> fst ` set (walk_tree w spec restricted rel d)"
      using sub child by (fastforce simp: image_iff walk_deep Bex_def)
    finally show ?thesis using Cons by simp
  qed
qed simp

end
