(* ===== verification/Scan_Promises.thy ===== *)
theory Scan_Promises
  imports Scan_Probe
begin

text \<open>
  The promises of the walk: the probes agree with it, every file it does not read is accounted for by a
  reported prefix or an ignore rule, no file it reads lies below a reported prefix, and a directory it
  enters only for the autorun files gives it nothing else.
\<close>

lemma walk_wf_names: "wf_node w d \<Longrightarrow> (\<And>n. ww_same w n n) \<Longrightarrow> (q, b) \<in> set (walk_tree w spec restricted rel d) \<Longrightarrow> ''..'' \<notin> set q"
proof (induction q arbitrary: d spec restricted rel)
  case (Cons p ps)
  have dots: "p \<noteq> ''..'' \<and> wf_node w c" if "(p, c, k) \<in> set (children_kinds w spec restricted rel d)" for c k
    using that Cons.prems(1) on_disk_kind(2) [OF Cons.prems(1,2) that]
    by (fastforce simp: in_kinds clash_free_def list_all_iff)
  show ?case
  proof (cases ps)
    case Nil
    then show ?thesis using Cons.prems(3) dots by (auto simp: walk_single)
  next
    case (Cons q qs)
    then show ?thesis using Cons.prems(3) dots Cons.IH [OF _ Cons.prems(2)] by (fastforce simp: walk_deep)
  qed
qed simp

text \<open>C17. The probe of one path answers exactly what the walk of the whole tree would have listed, on file
  systems that fold the case of names too.\<close>

theorem probe_agrees_with_walk:
  assumes "\<And>n. ww_same w n n" and "wf_node w tree" and "parts \<noteq> []"
  shows "walk_reaches w tree (Some parts) \<longleftrightarrow> parts \<in> fst ` set (walk_tree w (load_ignore_spec w (Some tree)) False [] tree)"
proof -
  have "walk_reaches w tree (Some parts) \<longleftrightarrow> ''..'' \<notin> set parts \<and> reaches_along w (start w tree) parts"
    using assms(3) by (cases parts) (simp_all add: walk_reaches_def)
  then show ?thesis
    using reaches_iff_walked [OF assms, of "[]"] walk_wf_names [OF assms(2,1)] by (auto simp: start_def)
qed

section \<open>What is not read is accounted for\<close>

text \<open>The node a path leads to through readable directories.\<close>

fun listed :: "node \<Rightarrow> segs \<Rightarrow> node option" where
  "listed d [] = Some d"
| "listed (DirN True cs) (p # ps) = (case map_of cs p of None \<Rightarrow> None | Some c \<Rightarrow> listed c ps)"
| "listed _ (p # ps) = None"

lemma listed_Cons: "listed d (p # ps) = Some n \<Longrightarrow> \<exists>cs c. d = DirN True cs \<and> (p, c) \<in> set cs \<and> listed c ps = Some n"
proof (cases d)
  case (DirN r cs)
  assume "listed d (p # ps) = Some n"
  then show ?thesis using DirN by (cases r) (auto split: option.splits dest: map_of_SomeD)
qed auto

definition ignored_on_the_way :: "walk_world \<Rightarrow> ignore_rules option \<Rightarrow> segs \<Rightarrow> node \<Rightarrow> segs \<Rightarrow> bool" where
  "ignored_on_the_way w spec rel d parts =
     (case spec of None \<Rightarrow> False | Some rules \<Rightarrow> ignored_along w rules rel (Some d) parts)"




lemma kinds_unique:
  "wf_node w d \<Longrightarrow> (p, c, k) \<in> set (children_kinds w spec restricted rel d) \<Longrightarrow>
    (p, c', k') \<in> set (children_kinds w spec restricted rel d) \<Longrightarrow> c = c' \<and> k = k'"
  by (auto simp: in_kinds clash_free_def dest: eq_key_imp_eq_value)

lemma read_not_pruned:
  assumes "\<And>n. ww_same w n n"
  shows "wf_node w d \<Longrightarrow> (parts, b) \<in> set (walk_tree w spec restricted rel d) \<Longrightarrow>
    q \<in> set (pruned_below w spec restricted rel d) \<Longrightarrow> \<not> prefix q parts"
proof (induction parts arbitrary: d spec restricted rel q)
  case Nil
  then show ?case using walk_nonempty by blast
next
  case (Cons p ps)
  show ?case
  proof
    assume pre: "prefix q (p # ps)"
    moreover have "q \<noteq> []" using pruned_nonempty Cons.prems(3) by blast
    ultimately obtain qs where q: "q = p # qs" "prefix qs ps" by (cases q) auto
    obtain c k where ck: "(p, c, k) \<in> set (children_kinds w spec restricted rel d)" "k \<noteq> KPruned"
      using Cons.prems(2) by (cases ps) (auto simp: walk_single walk_deep)
    show False
    proof (cases qs)
      case Nil
      then obtain c' where "(p, c', KPruned) \<in> set (children_kinds w spec restricted rel d)"
        using Cons.prems(3) q by (auto simp: pruned_single)
      then show ?thesis using kinds_unique [OF Cons.prems(1) ck(1)] ck(2) by blast
    next
      case (Cons r rs)
      then obtain y ys where ps: "ps = y # ys" using q(2) by (cases ps) auto
      let ?sub = "\<lambda>c k. walk_tree w (descend w (rel @ [p]) (Some c) spec) (k = KRestricted) (rel @ [p]) c"
      obtain c1 k1 where 1: "(p, c1, k1) \<in> set (children_kinds w spec restricted rel d)" "(ps, b) \<in> set (?sub c1 k1)"
        using Cons.prems(2) ps by (auto simp: walk_deep)
      obtain c2 k2 where 2: "(p, c2, k2) \<in> set (children_kinds w spec restricted rel d)"
        "qs \<in> set (pruned_below w (descend w (rel @ [p]) (Some c2) spec) (k2 = KRestricted) (rel @ [p]) c2)"
        using Cons.prems(3) q(1) Cons by (auto simp: pruned_deep)
      have "c1 = c2" "k1 = k2" using kinds_unique [OF Cons.prems(1) 1(1) 2(1)] by auto
      moreover have "wf_node w c1" using on_disk_kind(2) [OF Cons.prems(1) assms 1(1)] by simp
      ultimately show ?thesis using Cons.IH [OF _ 1(2), of qs] 2(2) q(2) by blast
    qed
  qed
qed

text \<open>C19. What was read stays in scope: no file the walk reads, and no directory it enters, lies at or below a
  prefix it reports as pruned.\<close>

theorem read_files_are_never_under_a_pruned_prefix:
  assumes "\<And>n. ww_same w n n" and "wf_node w tree"
    and "(parts, b) \<in> set (walk_tree w (load_ignore_spec w (Some tree)) False [] tree)"
    and "q \<in> set (pruned_below w (load_ignore_spec w (Some tree)) False [] tree)"
  shows "\<not> prefix q parts"
  using read_not_pruned [OF assms] .

text \<open>A directory entered only for the autorun files yields only them.\<close>

theorem restricted_walk_reads_only_autorun_files:
  "(parts, False) \<in> set (walk_tree w spec True rel d) \<Longrightarrow> is_autorun_entry w (rel @ parts)"
proof (induction parts arbitrary: d spec rel)
  case Nil
  then show ?case using walk_nonempty by blast
next
  case (Cons p ps)
  show ?case
  proof (cases ps)
    case Nil
    then obtain c where "classify_entry w (Some c) (rel @ [p]) spec True = KFile"
      using Cons.prems by (auto simp: walk_single in_kinds)
    then show ?thesis using Nil
      by (auto simp: classify_entry_def classify_as_def classify_dir_def classify_file_def prune_def split: if_splits)
  next
    case (Cons q qs)
    then obtain c k where ck: "k = classify_entry w (Some c) (rel @ [p]) spec True" "k \<in> {KDir, KRestricted}"
      and sub: "(ps, False) \<in> set (walk_tree w (descend w (rel @ [p]) (Some c) spec) (k = KRestricted) (rel @ [p]) c)"
      using Cons.prems by (auto simp: walk_deep in_kinds)
    have "k = KRestricted" using ck
      by (auto simp: classify_entry_def classify_as_def classify_dir_def classify_file_def prune_def split: if_splits)
    then show ?thesis using Cons.IH sub by fastforce
  qed
qed

section \<open>The other probes\<close>

definition unseen_along :: "walk_world \<Rightarrow> walk_state \<Rightarrow> segs \<Rightarrow> bool" where
  "unseen_along w s parts = (case entered classify_unseen w s (butlast parts) of
     None \<Rightarrow> False
   | Some (rel, d, spec, restricted) \<Rightarrow> classify_unseen w d (rel @ [last parts]) spec restricted False = KFile)"

lemma unseen_deep: "ps \<noteq> [] \<Longrightarrow> unseen_along w (rel, d, spec, restricted) (p # ps) =
    (let k = classify_unseen w d (rel @ [p]) spec restricted True; e = open_child w d p in
      k \<in> {KDir, KRestricted} \<and> unseen_along w (rel @ [p], e, descend w (rel @ [p]) e spec, k = KRestricted) ps)"
  unfolding unseen_along_def Let_def by (simp only: butlast.simps last.simps if_False entered.simps Let_def) simp

lemma unseen_iff_reached:
  assumes "\<And>n. ww_same w n n"
  shows "wf_node w d \<Longrightarrow> parts \<noteq> [] \<Longrightarrow> listed d parts = Some (FileN t) \<Longrightarrow>
    unseen_along w (rel, Some d, spec, restricted) parts \<longleftrightarrow> reaches_along w (rel, Some d, spec, restricted) parts"
proof (induction parts arbitrary: d rel spec restricted)
  case (Cons p ps)
  obtain cs c where d: "d = DirN True cs" "(p, c) \<in> set cs" "listed c ps = Some (FileN t)"
    using listed_Cons [OF Cons.prems(3)] by blast
  have wf: "clash_free w cs" "wf_node w c" using Cons.prems(1) d by (auto simp: list_all_iff)
  have opened: "open_child w (Some d) p = Some c" using open_listed [OF wf(1) assms d(2)] d(1) by simp
  have spelled: "spelled_on_disk (Some d) p" using d by (force simp: spelled_on_disk_def)
  show ?case
  proof (cases "ps = []")
    case True
    then show ?thesis using d(3) opened spelled
      by (auto simp: unseen_along_def reaches_along_def classify_unseen_def classify_on_disk_def classify_entry_def
          classify_as_def classify_file_def)
  next
    case False
    then obtain cs' where c: "c = DirN True cs'" using listed_Cons d(3) by (metis neq_Nil_conv)
    have "classify_unseen w (Some d) (rel @ [p]) spec restricted True = classify_on_disk w (Some d) (rel @ [p]) spec restricted True"
      using opened spelled c by (simp add: classify_unseen_def classify_on_disk_def classify_entry_def)
    then show ?thesis unfolding unseen_deep [OF False] reaches_deep [OF False] Let_def
      using Cons.IH [OF wf(2) False d(3)] opened by simp
  qed
qed simp

text \<open>The probe by name and rules alone gives a path the answer its file gets: for a file on disk it excludes
  exactly what the walk does not reach.\<close>

theorem excluded_iff_not_reached:
  assumes "\<And>n. ww_same w n n" and "wf_node w tree" and "parts \<noteq> []" and "listed tree parts = Some (FileN t)"
    and "''..'' \<notin> set parts"
  shows "walk_excludes w tree (Some parts) \<longleftrightarrow> \<not> walk_reaches w tree (Some parts)"
proof -
  have "walk_excludes w tree (Some parts) \<longleftrightarrow> \<not> unseen_along w (start w tree) parts"
    using assms(3) by (cases parts) (auto simp: walk_excludes_def unseen_along_def split: option.splits prod.splits)
  moreover have "walk_reaches w tree (Some parts) \<longleftrightarrow> reaches_along w (start w tree) parts"
    using assms(3,5) by (cases parts) (auto simp: walk_reaches_def)
  ultimately show ?thesis using unseen_iff_reached [OF assms(1-4)] by (simp add: start_def)
qed

lemma walked_not_ignored:
  assumes "\<And>n. ww_same w n n"
  shows "wf_node w d \<Longrightarrow> (parts, b) \<in> set (walk_tree w spec restricted rel d) \<Longrightarrow> \<not> ignored_on_the_way w spec rel d parts"
proof (induction parts arbitrary: d spec restricted rel)
  case Nil
  then show ?case using walk_nonempty by blast
next
  case (Cons p ps)
  obtain c k where mem: "(p, c, k) \<in> set (children_kinds w spec restricted rel d)" "k \<in> {KFile, KDir, KRestricted}"
    and sub: "ps \<noteq> [] \<longrightarrow> (ps, b) \<in> set (walk_tree w (descend w (rel @ [p]) (Some c) spec) (k = KRestricted) (rel @ [p]) c)"
    using Cons.prems(2) by (cases ps) (auto simp: walk_single walk_deep)
  note child = on_disk_kind(2) [OF Cons.prems(1) assms mem(1)]
  have not_self: "\<not> ignored_as spec (rel @ [p]) (node_is_dir (Some c))"
    using mem by (cases c) (auto simp: in_kinds classify_entry_def classify_as_def prune_def split: if_splits)
  have not_below: "ps \<noteq> [] \<longrightarrow> \<not> ignored_on_the_way w (descend w (rel @ [p]) (Some c) spec) (rel @ [p]) c ps"
    using Cons.IH sub child by blast
  then show ?case using not_self child
    by (auto simp: ignored_on_the_way_def ignored_as_def descend_def split: option.splits)
qed

end
