(* ===== verification/Scan_Examples.thy ===== *)
theory Scan_Examples
  imports Scan_Promises
begin

text \<open>
  A small tree on a file system that folds case: a source file, a version-control store, an editor folder
  with one autorun file, and a folder whose ignore file names one of its files.
\<close>

definition disk_world :: walk_world where
  "disk_world = \<lparr>ww_env = (\<lambda>_. None), ww_same = (\<lambda>a b. lower a = lower b), ww_pathspec = True,
     ww_compile = (\<lambda>lines path. if path \<in> set lines then Some True else None), ww_globs = [''.claude'', ''*-backup''],
     ww_above = [''home'', ''repo'']\<rparr>"

definition disk :: node where
  "disk = DirN True [(''app.py'', FileN (Some ''x'')), (''.git'', DirN True [(''config'', FileN None)]),
     (''.claude'', DirN True [(''settings.json'', FileN None), (''notes.md'', FileN None)]),
     (''sub'', DirN True [(''.gitignore'', FileN (Some ''key.pem'')), (''key.pem'', FileN None), (''b.py'', FileN None)])]"

lemma disk_ok: "ww_same disk_world n n" "wf_node disk_world disk"
  by (simp add: disk_world_def) code_simp


lemma disk_probes: "walk_reaches disk_world disk (Some [''sub'', ''b.py''])" "\<not> walk_reaches disk_world disk (Some [''SUB'', ''b.py''])"
  "\<not> walk_reaches disk_world disk (Some [''sub'', ''key.pem''])" "\<not> path_ignored disk_world disk None (Some [''.claude'', ''notes.md''])"
  by code_simp+

theorem probe_agrees_with_walk_witness:
  "[''sub'', ''b.py''] \<in> fst ` set (walk_tree disk_world (load_ignore_spec disk_world (Some disk)) False [] disk)"
  using probe_agrees_with_walk [OF disk_ok, of "[''sub'', ''b.py'']"] disk_probes(1) by blast


theorem read_files_are_never_under_a_pruned_prefix_witness: "\<not> prefix [''.git''] [''app.py'']"
proof (rule read_files_are_never_under_a_pruned_prefix [OF disk_ok])
  show "([''app.py''], False) \<in> set (walk_tree disk_world (load_ignore_spec disk_world (Some disk)) False [] disk)" by code_simp
  show "[''.git''] \<in> set (pruned_below disk_world (load_ignore_spec disk_world (Some disk)) False [] disk)" by code_simp
qed

theorem restricted_walk_reads_only_autorun_files_witness: "is_autorun_entry disk_world ([''.claude''] @ [''settings.json''])"
proof (rule restricted_walk_reads_only_autorun_files)
  show "([''settings.json''], False) \<in> set (walk_tree disk_world None True [''.claude'']
      (DirN True [(''settings.json'', FileN None), (''notes.md'', FileN None)]))" by code_simp
qed

theorem excluded_iff_not_reached_witness: "walk_excludes disk_world disk (Some [''sub'', ''key.pem''])"
proof -
  have "listed disk [''sub'', ''key.pem''] = Some (FileN None)" by code_simp
  then show ?thesis using excluded_iff_not_reached [OF disk_ok, of "[''sub'', ''key.pem'']"] disk_probes(3) by simp
qed

end
