(* ===== verification/Feed_Windows.thy ===== *)
theory Feed_Windows
  imports Line_Format Loop_Detector Py_Value "HOL-Library.Product_Lexorder"
begin

text \<open>
  What the model is shown of one file (\<open>shared/audit_runner.py\<close>, source packing): the windows around the
  findings that name the file, the lines a windowed rendering leaves out and the block header that names
  them. Lines of findings are integers here, as every skill writes them; another type raises.

  The lemmas: merging keeps the union of the windows, the header is exact about what is shown, and a wider
  context never shows less.
\<close>

type_synonym span = "int \<times> int"

section \<open>Merging of windows\<close>

fun merge_from :: "span \<Rightarrow> span list \<Rightarrow> span list" where
  "merge_from (a, b) [] = [(a, b)]"
| "merge_from (a, b) ((s, e) # rs) = (if s \<le> b then merge_from (a, max b e) rs else (a, b) # merge_from (s, e) rs)"

definition merge_ranges :: "span list \<Rightarrow> span list" where
  "merge_ranges ranges = (case sort ranges of [] \<Rightarrow> [] | r # rs \<Rightarrow> merge_from r rs)"

section \<open>Switches and lines\<close>

definition LINE1_HEAD_LINES :: int where "LINE1_HEAD_LINES = 30"
definition DEFAULT_SNIPPET_CONTEXT :: int where "DEFAULT_SNIPPET_CONTEXT = 10"

definition snippet_context_lines :: "env \<Rightarrow> int" where
  "snippet_context_lines env = safe_int_env env ''VULTURE_LLM_SNIPPET_CONTEXT'' DEFAULT_SNIPPET_CONTEXT"

definition whole_file_max_lines :: "env \<Rightarrow> int" where
  "whole_file_max_lines env = safe_int_env env ''VULTURE_LLM_WHOLE_FILE_MAX_LINES'' 0"

definition line_numbers_enabled :: "env \<Rightarrow> bool" where
  "line_numbers_enabled env = env_flag env ''VULTURE_LLM_LINE_NUMBERS'' True"

definition split_content_lines :: "string \<Rightarrow> string list" where
  "split_content_lines content = (let ls = split_nl content in if ls \<noteq> [] \<and> last ls = [] then butlast ls else ls)"

definition present_source :: "env \<Rightarrow> string \<Rightarrow> string" where
  "present_source env content =
     (if \<not> line_numbers_enabled env then content else number_lines (split_content_lines content) 0 None)"

section \<open>The windows of a file\<close>

definition line_number :: "pyval \<Rightarrow> int result" where
  "line_number v = (case v of PInt i \<Rightarrow> Ret i | PBool b \<Rightarrow> Ret (of_bool b) | _ \<Rightarrow> Raise TypeError)"

definition names_file :: "string \<Rightarrow> pydict \<Rightarrow> bool result" where
  "names_file rel_path f = (case get_or f ''file_path'' (PStr []) of
     PStr fp \<Rightarrow> Ret (ends_with fp rel_path \<or> contains rel_path fp) | _ \<Rightarrow> Raise AttributeError)"

definition snippet_range :: "string \<Rightarrow> int \<Rightarrow> int \<Rightarrow> pydict \<Rightarrow> span option result" where
  "snippet_range rel_path line_count context_lines f =
     bind_result (names_file rel_path f) (\<lambda>named.
       if \<not> named then Ret None
       else let ls = get_or f ''line_start'' (PInt 0); le = py_or (get_or f ''line_end'' (PInt 0)) ls in
         bind_result (line_number ls) (\<lambda>ls.
           if ls \<le> 0 then Ret None
           else bind_result (line_number le) (\<lambda>le.
             Ret (Some (max 0 (ls - 1 - context_lines), min line_count (le + context_lines))))))"

definition snippet_ranges :: "pydict list \<Rightarrow> string \<Rightarrow> int \<Rightarrow> int \<Rightarrow> span list result" where
  "snippet_ranges findings rel_path line_count context_lines =
     bind_result (map_result (snippet_range rel_path line_count context_lines) findings) (\<lambda>rs.
       Ret (List.map_filter (\<lambda>r. r) rs))"

definition at_head :: "span list \<Rightarrow> bool" where
  "at_head ranges = list_all (\<lambda>(s, _). s = 0) ranges"

definition head_of :: "span list \<Rightarrow> int \<Rightarrow> int" where
  "head_of ranges line_count = min (max LINE1_HEAD_LINES (Max (snd ` set ranges))) line_count"

definition render_windows :: "string list \<Rightarrow> span list \<Rightarrow> string" where
  "render_windows lines ranges =
     (if at_head ranges then number_lines lines 0 (Some (nat (head_of ranges (int (length lines)))))
      else join ([NL] @ ''...'' @ [NL]) (map (\<lambda>(s, e). number_lines lines (nat s) (Some (nat e))) (merge_ranges ranges)))"

definition present_findings_snippet :: "env \<Rightarrow> string \<Rightarrow> pydict list \<Rightarrow> string \<Rightarrow> int option \<Rightarrow> string result" where
  "present_findings_snippet env content findings rel_path context_lines =
     (let ctx = (case context_lines of None \<Rightarrow> snippet_context_lines env | Some c \<Rightarrow> c);
          lines = split_content_lines content; whole = whole_file_max_lines env in
      if 0 < whole \<and> int (length lines) \<le> whole then Ret (number_lines lines 0 None)
      else bind_result (snippet_ranges findings rel_path (int (length lines)) ctx) (\<lambda>ranges.
        if ranges = [] then Ret (present_source env content) else Ret (render_windows lines ranges)))"

definition extract_file_snippet :: "env \<Rightarrow> string \<Rightarrow> pydict list \<Rightarrow> string \<Rightarrow> int option \<Rightarrow> string result" where
  "extract_file_snippet env content findings rel_path context_lines =
     present_findings_snippet env content findings rel_path context_lines"

section \<open>The lines left out\<close>

fun gaps_from :: "int \<Rightarrow> span list \<Rightarrow> int \<Rightarrow> span list" where
  "gaps_from cursor [] line_count = (if cursor < line_count then [(cursor + 1, line_count)] else [])"
| "gaps_from cursor ((s, e) # rs) line_count =
     (if cursor < s then [(cursor + 1, s)] else []) @ gaps_from (max cursor e) rs line_count"

definition omitted_of :: "span list \<Rightarrow> int \<Rightarrow> span list" where
  "omitted_of ranges line_count =
     (if ranges = [] then []
      else if at_head ranges
        then (let head = head_of ranges line_count in if head < line_count then [(head + 1, line_count)] else [])
      else gaps_from 0 (merge_ranges ranges) line_count)"

definition omitted_ranges :: "env \<Rightarrow> pydict list \<Rightarrow> string \<Rightarrow> int \<Rightarrow> int option \<Rightarrow> span list result" where
  "omitted_ranges env findings rel_path line_count context_lines =
     (let ctx = (case context_lines of None \<Rightarrow> snippet_context_lines env | Some c \<Rightarrow> c) in
      bind_result (snippet_ranges findings rel_path line_count ctx) (\<lambda>ranges. Ret (omitted_of ranges line_count)))"

definition span_text :: "span \<Rightarrow> string" where
  "span_text = (\<lambda>(a, b). if a \<noteq> b then str_int a @ ''-'' @ str_int b else str_int a)"

definition block_header :: "string \<Rightarrow> span list \<Rightarrow> string" where
  "block_header rel omitted =
     (if omitted = [] then ''--- '' @ rel @ '' ---''
      else ''--- '' @ rel @ '' (lines '' @ join '', '' (map span_text omitted) @ '' omitted) ---'')"

section \<open>What is shown and what is named as left out\<close>

text \<open>A half-open window \<open>(a, b)\<close> renders the lines \<open>a + 1 .. b\<close>; an inclusive gap names \<open>a .. b\<close>.\<close>

definition covered :: "span list \<Rightarrow> int set" where
  "covered ws = (\<Union>(a, b) \<in> set ws. {a<..b})"

definition gap_lines :: "span list \<Rightarrow> int set" where
  "gap_lines gs = (\<Union>(a, b) \<in> set gs. {a..b})"

definition shown_lines :: "span list \<Rightarrow> int \<Rightarrow> int set" where
  "shown_lines ranges line_count =
     (if at_head ranges then {0<..head_of ranges line_count} else covered (merge_ranges ranges)) \<inter> {..line_count}"

text \<open>The spans a merge is given in order and the ones it leaves: no window starts before an earlier one,
  and two windows of the result do not touch.\<close>

fun apart :: "span list \<Rightarrow> bool" where
  "apart [] = True"
| "apart ((a, b) # rs) = ((\<forall>(s, _) \<in> set rs. a \<le> s \<and> b < s) \<and> apart rs)"

lemma covered_Cons: "covered ((a, b) # ws) = {a<..b} \<union> covered ws"
  by (simp add: covered_def)

lemma covered_Nil [simp]: "covered [] = {}"
  by (simp add: covered_def)

lemma sorted_widen: "sorted ((a, b) # (s, e) # rs) \<Longrightarrow> sorted ((a :: int, max b e :: int) # rs)"
  by (auto simp: less_eq_prod_def)

lemma covered_merge_from:
  "sorted ((a, b) # rs) \<Longrightarrow> covered (merge_from (a, b) rs) = covered ((a, b) # rs)"
proof (induction "(a, b)" rs arbitrary: a b rule: merge_from.induct)
  case (2 a b s e rs)
  from 2(3) have as: "a \<le> s" by auto
  have tl: "sorted ((s, e) # rs)" "\<forall>r \<in> set rs. (s, e) \<le> r" using 2(3) by auto
  show ?case
  proof (cases "s \<le> b")
    case True
    have "sorted ((a, max b e) # rs)" using 2(3) by (rule sorted_widen)
    then have "covered (merge_from (a, max b e) rs) = covered ((a, max b e) # rs)" using 2(1) True by simp
    moreover have "{a<..max b e} = {a<..b} \<union> {s<..e}" using True as by auto
    ultimately show ?thesis using True by (simp add: covered_Cons Un_assoc)
  next
    case False
    then show ?thesis using 2(2) tl by (simp add: covered_Cons)
  qed
qed simp

lemma covered_set: "set ws = set vs \<Longrightarrow> covered ws = covered vs"
  by (simp add: covered_def)

lemma sort_cases:
  obtains "ranges = []" "merge_ranges ranges = []"
  | a b rs where "sort ranges = (a, b) # rs" "sorted ((a, b) # rs)" "merge_ranges ranges = merge_from (a, b) rs"
      "set ((a, b) # rs) = set ranges"
proof (cases "sort ranges")
  case Nil
  then have "ranges = []" by (metis set_empty set_sort)
  then show ?thesis using that(1) by (simp add: merge_ranges_def)
next
  case (Cons r rs)
  then show ?thesis using that(2) [of "fst r" "snd r" rs] by (simp add: merge_ranges_def) (metis list.set(2) set_sort sorted_simps(2) sorted_sort)
qed

lemma covered_merge: "covered (merge_ranges ranges) = covered ranges"
proof (cases ranges rule: sort_cases)
  case 1
  then show ?thesis by simp
next
  case (2 a b rs)
  then show ?thesis using covered_merge_from [OF 2(2)] covered_set [OF 2(4)] by simp
qed

lemma merge_from_starts: "sorted ((a, b) # rs) \<Longrightarrow> r \<in> set (merge_from (a, b) rs) \<Longrightarrow> a \<le> fst r"
proof (induction "(a, b)" rs arbitrary: a b rule: merge_from.induct)
  case (2 a b s e rs)
  then have sub: "sorted ((s, e) # rs)" "a \<le> s" by auto
  show ?case
  proof (cases "s \<le> b")
    case True
    have "sorted ((a, max b e) # rs)" using 2(3) by (rule sorted_widen)
    then show ?thesis using 2 True by auto
  next
    case False
    then show ?thesis using 2(2) [OF False sub(1)] 2(4) sub(2) by fastforce
  qed
qed simp

lemma apart_merge_from: "sorted ((a, b) # rs) \<Longrightarrow> apart (merge_from (a, b) rs)"
proof (induction "(a, b)" rs arbitrary: a b rule: merge_from.induct)
  case (2 a b s e rs)
  then have sub: "sorted ((s, e) # rs)" "a \<le> s" by auto
  show ?case
  proof (cases "s \<le> b")
    case True
    have "sorted ((a, max b e) # rs)" using 2(3) by (rule sorted_widen)
    then show ?thesis using 2(1) True by simp
  next
    case False
    then show ?thesis using 2(2) sub merge_from_starts [OF sub(1)] by fastforce
  qed
qed simp

lemma apart_merge: "apart (merge_ranges ranges)"
  by (cases ranges rule: sort_cases) (simp_all add: apart_merge_from)

lemma gaps_after: "i \<in> gap_lines (gaps_from c ws n) \<Longrightarrow> c < i"
  by (induction c ws n rule: gaps_from.induct) (auto simp: gap_lines_def split: if_splits)

lemma gaps_exact:
  "apart ws \<Longrightarrow> c < i \<Longrightarrow> i \<le> n \<Longrightarrow> i \<in> gap_lines (gaps_from c ws n) \<longleftrightarrow> i \<notin> covered ws"
proof (induction c ws n rule: gaps_from.induct)
  case (2 c a b rs n)
  have split: "i \<in> gap_lines (gaps_from c ((a, b) # rs) n) \<longleftrightarrow> i \<le> a \<or> i \<in> gap_lines (gaps_from (max c b) rs n)"
    using 2(3) by (auto simp: gap_lines_def)
  have later: "i \<notin> covered rs" if "i \<le> a \<or> i \<le> b" using 2(2) that by (fastforce simp: covered_def)
  show ?case
  proof (cases "i \<le> b")
    case True
    then show ?thesis using split later gaps_after [of i "max c b" rs n] by (auto simp: covered_Cons)
  next
    case False
    then have "i \<in> gap_lines (gaps_from (max c b) rs n) \<longleftrightarrow> i \<notin> covered rs" using 2 by simp
    then show ?thesis using split later False by (auto simp: covered_Cons)
  qed
qed (auto simp: gap_lines_def covered_def)

text \<open>The header is exact: of the lines a file has, those it names as omitted are those the windows below
  it do not show.\<close>

lemma omitted_is_the_rest:
  assumes "ranges \<noteq> []" and "0 < i" and "i \<le> n"
  shows "i \<in> gap_lines (omitted_of ranges n) \<longleftrightarrow> i \<notin> shown_lines ranges n"
proof (cases "at_head ranges")
  case True
  then show ?thesis using assms by (auto simp: omitted_of_def shown_lines_def Let_def gap_lines_def)
next
  case False
  then show ?thesis using assms gaps_exact [OF apart_merge assms(2,3)] by (simp add: omitted_of_def shown_lines_def)
qed

section \<open>The rows of a rendering\<close>

lemma split_nl_join2: "split_nl (x @ NL # s) = split_nl x @ split_nl s"
proof (induction x rule: split_nl.induct)
  case (1 x)
  show ?case
  proof (cases "NL \<in> set x")
    case False
    then show ?thesis by (simp add: split_nl_append split_nl_no_nl)
  next
    case True
    then obtain a b where x: "x = a @ NL # b" "NL \<notin> set a" by (meson split_list_first)
    then have "dropWhile (\<lambda>c. c \<noteq> NL) x = NL # b" by (simp add: dropWhile_append)
    then have "split_nl (b @ NL # s) = split_nl b @ split_nl s" using 1 by simp
    then show ?thesis using x split_nl_append [of a] by simp
  qed
qed

definition code_rows :: "string \<Rightarrow> string set" where
  "code_rows text = {r \<in> set (split_nl text). r \<noteq> [] \<and> r \<noteq> ''...''}"

definition row_at :: "string list \<Rightarrow> int \<Rightarrow> string" where
  "row_at lines i = number_row (nat i) (lines ! nat (i - 1))"

lemma number_row_ne: "number_row n line \<noteq> []" "number_row n line \<noteq> ''...''"
proof -
  show "number_row n line \<noteq> []" by (simp add: number_row_def)
  obtain c cs where "str_nat n = c # cs" "is_digit c" using str_nat_digits [of _ n] by (cases "str_nat n") auto
  then show "number_row n line \<noteq> ''...''" by (auto simp: number_row_def is_digit_def)
qed

lemma number_row_inj: "number_row m x = number_row n y \<Longrightarrow> m = n"
  using number_match_row [of m x] number_match_row [of n y] by (metis nat_of_digits_str_nat Pair_inject option.inject)

lemma code_rows_Nil [simp]: "code_rows [] = {}"
  by (simp add: code_rows_def split_nl_no_nl)

lemma code_rows_append: "code_rows (x @ NL # s) = code_rows x \<union> code_rows s"
  by (auto simp: code_rows_def split_nl_join2)

lemma code_rows_join: "\<forall>r \<in> set rs. NL \<notin> set r \<and> r \<noteq> [] \<and> r \<noteq> ''...'' \<Longrightarrow> code_rows (join_nl rs) = set rs"
proof (cases "rs = []")
  case False
  assume "\<forall>r \<in> set rs. NL \<notin> set r \<and> r \<noteq> [] \<and> r \<noteq> ''...''"
  then show ?thesis using split_join_nl [OF False] by (auto simp: code_rows_def)
qed simp

lemma code_rows_parts: "code_rows (join ([NL] @ ''...'' @ [NL]) xs) = \<Union> (code_rows ` set xs)"
proof (induction "[NL] @ ''...'' @ [NL]" xs rule: join.induct)
  case (3 x y zs)
  have "code_rows ''...'' = {}" by (simp add: code_rows_def split_nl_no_nl)
  then show ?case using 3 code_rows_append [of x "''...'' @ NL # join ([NL] @ ''...'' @ [NL]) (y # zs)"]
      code_rows_append [of "''...''"] by simp
qed simp_all

lemma rows_of_window:
  assumes "\<forall>l \<in> set lines. NL \<notin> set l" and "0 \<le> a"
  shows "code_rows (number_lines lines (nat a) (Some (nat b))) = row_at lines ` ({a<..b} \<inter> {..int (length lines)})"
proof -
  let ?rows = "map (\<lambda>i. number_row (i + 1) (lines ! i)) [nat a..<min (nat b) (length lines)]"
  have num: "number_lines lines (nat a) (Some (nat b)) = join_nl ?rows" by (simp add: number_lines_def)
  have img: "set ?rows = row_at lines ` ({a<..b} \<inter> {..int (length lines)})"
  proof -
    have "x \<in> row_at lines ` ({a<..b} \<inter> {..int (length lines)})" if "x \<in> set ?rows" for x
    proof -
      from that obtain i where i: "nat a \<le> i" "i < nat b" "i < length lines" "x = number_row (i + 1) (lines ! i)" by auto
      then have "x = row_at lines (int i + 1)" by (simp add: row_at_def nat_add_distrib)
      moreover have "int i + 1 \<in> {a<..b} \<inter> {..int (length lines)}" using i assms(2) by auto
      ultimately show ?thesis by blast
    qed
    moreover have "row_at lines i \<in> set ?rows" if "i \<in> {a<..b} \<inter> {..int (length lines)}" for i
    proof -
      have "nat (i - 1) \<in> set [nat a..<min (nat b) (length lines)]" "Suc (nat (i - 1)) = nat i" using that assms(2) by auto
      then show ?thesis by (force simp: row_at_def)
    qed
    ultimately show ?thesis by blast
  qed
  have free: "\<forall>r \<in> set ?rows. NL \<notin> set r" using assms(1) by (auto intro!: number_row_no_nl)
  have "code_rows (join_nl ?rows) = set ?rows" by (rule code_rows_join) (use free number_row_ne in auto)
  then show ?thesis unfolding num img .
qed

lemma merge_from_nonneg: "sorted ((a, b) # rs) \<Longrightarrow> 0 \<le> a \<Longrightarrow> r \<in> set (merge_from (a, b) rs) \<Longrightarrow> 0 \<le> fst r"
  using merge_from_starts by fastforce

lemma merge_nonneg: "\<forall>(s, _) \<in> set ranges. 0 \<le> s \<Longrightarrow> (a, b) \<in> set (merge_ranges ranges) \<Longrightarrow> 0 \<le> a"
proof (cases ranges rule: sort_cases)
  case (2 c d rs)
  assume "\<forall>(s, _) \<in> set ranges. 0 \<le> s" and ab: "(a, b) \<in> set (merge_ranges ranges)"
  then have "0 \<le> c" using 2(4) by (metis (no_types, lifting) case_prodD list.set_intros(1))
  then show ?thesis using merge_from_nonneg [OF 2(2)] ab 2(3) by fastforce
qed simp

lemma render_rows:
  assumes "\<forall>l \<in> set lines. NL \<notin> set l" and "\<forall>(s, _) \<in> set ranges. 0 \<le> s"
  shows "code_rows (render_windows lines ranges) = row_at lines ` shown_lines ranges (int (length lines))"
proof (cases "at_head ranges")
  case True
  then show ?thesis using rows_of_window [OF assms(1), of 0] by (simp add: render_windows_def shown_lines_def)
next
  case False
  have "code_rows (render_windows lines ranges) =
      (\<Union>(a, b) \<in> set (merge_ranges ranges). row_at lines ` ({a<..b} \<inter> {..int (length lines)}))"
    unfolding render_windows_def using False code_rows_parts
    by (auto simp: rows_of_window [OF assms(1) merge_nonneg [OF assms(2)]] simp del: append.simps)
  then show ?thesis using False by (auto simp: shown_lines_def covered_def)
qed

lemma split_nl_parts: "r \<in> set (split_nl s) \<Longrightarrow> NL \<notin> set r"
proof (induction s rule: split_nl.induct)
  case (1 s)
  show ?case
  proof (cases "NL \<in> set s")
    case False
    then show ?thesis using 1(2) by (simp add: split_nl_no_nl)
  next
    case True
    then obtain a b where s: "s = a @ NL # b" "NL \<notin> set a" by (meson split_list_first)
    then have "dropWhile (\<lambda>c. c \<noteq> NL) s = NL # b" by (simp add: dropWhile_append)
    then show ?thesis using 1 s split_nl_append [of a b] by auto
  qed
qed

lemma content_lines_free: "\<forall>l \<in> set (split_content_lines content). NL \<notin> set l"
  using split_nl_parts by (auto simp: split_content_lines_def Let_def dest: in_set_butlastD)

lemma whole_rows:
  assumes "\<forall>l \<in> set lines. NL \<notin> set l"
  shows "code_rows (number_lines lines 0 None) = row_at lines ` {0<..int (length lines)}"
proof -
  have "number_lines lines 0 None = number_lines lines (nat 0) (Some (nat (int (length lines))))"
    by (simp add: number_lines_def)
  moreover have "{0<..int (length lines)} \<inter> {..int (length lines)} = {0<..int (length lines)}" by auto
  ultimately show ?thesis using rows_of_window [OF assms, of 0 "int (length lines)"] by simp
qed

lemma row_at_inj: "row_at lines i = row_at lines j \<Longrightarrow> 0 < i \<Longrightarrow> 0 < j \<Longrightarrow> i = j"
  unfolding row_at_def by (drule number_row_inj) simp

lemma row_at_in: "A \<subseteq> {0<..} \<Longrightarrow> 0 < i \<Longrightarrow> row_at lines i \<in> row_at lines ` A \<longleftrightarrow> i \<in> A"
  using row_at_inj by fastforce

lemma snippet_range_nonneg: "snippet_range rel n c f = Ret (Some (s, e)) \<Longrightarrow> 0 \<le> s"
  by (auto simp: snippet_range_def bind_result_Ret Let_def split: if_splits)

lemma map_result_member: "map_result f xs = Ret ys \<Longrightarrow> y \<in> set ys \<Longrightarrow> \<exists>x \<in> set xs. f x = Ret y"
  by (induction xs arbitrary: ys) (auto simp: bind_result_Ret)

lemma snippet_ranges_member:
  "snippet_ranges fs rel n c = Ret ranges \<Longrightarrow> r \<in> set ranges \<longleftrightarrow> (\<exists>f \<in> set fs. snippet_range rel n c f = Ret (Some r))"
proof -
  assume "snippet_ranges fs rel n c = Ret ranges"
  then obtain rs where rs: "map_result (snippet_range rel n c) fs = Ret rs" "ranges = List.map_filter (\<lambda>r. r) rs"
    by (auto simp: snippet_ranges_def bind_result_Ret)
  have eq: "r \<in> set ranges \<longleftrightarrow> Some r \<in> set rs" by (force simp: rs(2) List.map_filter_def)
  have "\<exists>f \<in> set fs. snippet_range rel n c f = Ret (Some r)" if "Some r \<in> set rs" using map_result_member [OF rs(1) that] .
  moreover have "Some r \<in> set rs" if "f \<in> set fs" "snippet_range rel n c f = Ret (Some r)" for f
    using list_all2_map_result [OF rs(1)] that by (auto simp: list_all2_conv_all_nth in_set_conv_nth)
  ultimately show ?thesis using eq by blast
qed

lemma snippet_ranges_nonneg: "snippet_ranges fs rel n c = Ret ranges \<Longrightarrow> \<forall>(s, _) \<in> set ranges. 0 \<le> s"
  using snippet_ranges_member snippet_range_nonneg by fastforce

lemma shown_pos: "\<forall>(s, _) \<in> set ranges. 0 \<le> s \<Longrightarrow> shown_lines ranges n \<subseteq> {0<..}"
proof
  fix i assume nonneg: "\<forall>(s, _) \<in> set ranges. 0 \<le> s" and i: "i \<in> shown_lines ranges n"
  show "i \<in> {0<..}"
  proof (cases "at_head ranges")
    case True
    then show ?thesis using i by (simp add: shown_lines_def)
  next
    case False
    then obtain a b where "(a, b) \<in> set (merge_ranges ranges)" "a < i" using i by (auto simp: shown_lines_def covered_def)
    then show ?thesis using merge_nonneg [OF nonneg] by fastforce
  qed
qed

section \<open>What the packing promises\<close>

text \<open>C20. A file block never misstates its window: when numbering is on and whole-file mode is off, line \<open>i\<close> of
  the file stands in the block exactly when the header does not name it as omitted.\<close>

theorem header_names_exactly_the_hidden_lines:
  assumes snippet: "present_findings_snippet env content fs rel ctx = Ret text"
    and named: "omitted_ranges env fs rel (int (length (split_content_lines content))) ctx = Ret gaps"
    and numbered: "line_numbers_enabled env" and windowed: "whole_file_max_lines env \<le> 0"
    and i: "0 < i" "i \<le> int (length (split_content_lines content))"
  shows "row_at (split_content_lines content) i \<in> code_rows text \<longleftrightarrow> i \<notin> gap_lines gaps"
proof -
  let ?lines = "split_content_lines content" and ?c = "case ctx of None \<Rightarrow> snippet_context_lines env | Some c \<Rightarrow> c"
  obtain ranges where r: "snippet_ranges fs rel (int (length ?lines)) ?c = Ret ranges" "gaps = omitted_of ranges (int (length ?lines))"
    and out: "text = (if ranges = [] then present_source env content else render_windows ?lines ranges)"
    using assms by (auto simp: present_findings_snippet_def omitted_ranges_def Let_def bind_result_Ret split: if_splits)
  show ?thesis
  proof (cases "ranges = []")
    case True
    then show ?thesis using whole_rows [OF content_lines_free] numbered i r(2)
      by (simp add: out present_source_def omitted_of_def gap_lines_def)
  next
    case False
    have "code_rows text = row_at ?lines ` shown_lines ranges (int (length ?lines))"
      using False render_rows [OF content_lines_free snippet_ranges_nonneg [OF r(1)]] by (simp add: out)
    then show ?thesis using omitted_is_the_rest [OF False i] r(2) row_at_in [OF shown_pos [OF snippet_ranges_nonneg [OF r(1)]] i(1)] by simp
  qed
qed

text \<open>Where two contexts put the window of one finding.\<close>

lemma snippet_range_Some: "snippet_range rel n c f = Ret (Some r) \<longleftrightarrow> names_file rel f = Ret True \<and>
    (\<exists>l e. line_number (get_or f ''line_start'' (PInt 0)) = Ret l \<and> 0 < l \<and>
       line_number (py_or (get_or f ''line_end'' (PInt 0)) (get_or f ''line_start'' (PInt 0))) = Ret e \<and>
       r = (max 0 (l - 1 - c), min n (e + c)))"
proof (cases "names_file rel f = Ret True")
  case True
  show ?thesis
  proof (cases "line_number (get_or f ''line_start'' (PInt 0))")
    case (Inr l)
    then show ?thesis using True
      by (cases "line_number (py_or (get_or f ''line_end'' (PInt 0)) (get_or f ''line_start'' (PInt 0)))")
        (auto simp: snippet_range_def Let_def)
  qed (use True in \<open>simp add: snippet_range_def Let_def\<close>)
next
  case False
  then show ?thesis by (cases "names_file rel f") (auto simp: snippet_range_def)
qed

lemma snippet_range_wider:
  assumes "snippet_range rel n c f = Ret (Some (a, b))" and "c \<le> c'"
  shows "\<exists>a' b'. snippet_range rel n c' f = Ret (Some (a', b')) \<and> a' \<le> a \<and> b \<le> b'"
  using assms by (fastforce simp: snippet_range_Some)

lemma snippet_range_any: "snippet_range rel n c f = Ret (Some r) \<Longrightarrow> \<exists>r'. snippet_range rel n c' f = Ret (Some r')"
  unfolding snippet_range_Some by blast

lemma head_of_ge: "(s, e) \<in> set ranges \<Longrightarrow> i \<le> e \<Longrightarrow> i \<le> n \<Longrightarrow> i \<le> head_of ranges n"
proof -
  assume "(s, e) \<in> set ranges" and "i \<le> e" "i \<le> n"
  then have "e \<le> Max (snd ` set ranges)" by (intro Max_ge) force+
  then show ?thesis using \<open>i \<le> e\<close> \<open>i \<le> n\<close> by (auto simp: head_of_def)
qed

lemma shown_of_range:
  assumes "(s, e) \<in> set ranges" and "s < i" "i \<le> e" "0 < i" "i \<le> n"
  shows "i \<in> shown_lines ranges n"
proof (cases "at_head ranges")
  case True
  then show ?thesis using head_of_ge [OF assms(1,3,5)] assms by (simp add: shown_lines_def)
next
  case False
  have "i \<in> covered ranges" using assms by (force simp: covered_def)
  then show ?thesis using assms False by (simp add: shown_lines_def covered_merge)
qed

lemma shown_cases:
  assumes "i \<in> shown_lines ranges n"
  obtains s e where "(s, e) \<in> set ranges" "s < i" "i \<le> e" | "at_head ranges" "i \<le> LINE1_HEAD_LINES" "0 < i" "i \<le> n"
    | "ranges = []"
proof (cases "at_head ranges")
  case True
  show ?thesis
  proof (cases "ranges = [] \<or> i \<le> LINE1_HEAD_LINES")
    case False
    then have "Max (snd ` set ranges) \<in> snd ` set ranges" by (intro Max_in) auto
    then obtain s where "(s, Max (snd ` set ranges)) \<in> set ranges" by auto
    moreover have "s = 0" using True calculation by (auto simp: at_head_def list_all_iff)
    ultimately show ?thesis using True False assms that(1) [of s] by (auto simp: shown_lines_def head_of_def)
  qed (use True assms that in \<open>auto simp: shown_lines_def\<close>)
next
  case False
  then have "i \<in> covered ranges" using assms by (simp add: shown_lines_def covered_merge)
  then show ?thesis using that(1) by (auto simp: covered_def)
qed

lemma shown_wider:
  assumes small: "snippet_ranges fs rel n c = Ret ranges" and wide: "snippet_ranges fs rel n c' = Ret ranges'"
    and c: "c \<le> c'" and ne: "ranges \<noteq> []"
  shows "shown_lines ranges n \<subseteq> shown_lines ranges' n"
proof
  fix i assume i: "i \<in> shown_lines ranges n"
  then have pos: "0 < i" "i \<le> n" using shown_pos [OF snippet_ranges_nonneg [OF small]] by (auto simp: shown_lines_def)
  from i show "i \<in> shown_lines ranges' n"
  proof (cases rule: shown_cases)
    case (1 s e)
    then obtain f where "f \<in> set fs" "snippet_range rel n c f = Ret (Some (s, e))" using snippet_ranges_member [OF small] by blast
    with snippet_range_wider [OF this(2) c] obtain a b where "(a, b) \<in> set ranges'" "a \<le> s" "e \<le> b"
      using snippet_ranges_member [OF wide] by blast
    then show ?thesis using shown_of_range [of a b ranges' i n] 1 pos by simp
  next
    case 2
    have "s' = 0" if "(s', e') \<in> set ranges'" for s' e'
    proof -
      from that obtain f where f: "f \<in> set fs" "snippet_range rel n c' f = Ret (Some (s', e'))" using snippet_ranges_member [OF wide] by blast
      then obtain a b where ab: "snippet_range rel n c f = Ret (Some (a, b))" using snippet_range_any [OF f(2), of c] by auto
      then have "(a, b) \<in> set ranges" using snippet_ranges_member [OF small] f(1) by blast
      then have "a = 0" using 2 by (auto simp: at_head_def list_all_iff)
      then show ?thesis using snippet_range_wider [OF ab c] f(2) snippet_range_nonneg [OF f(2)] by auto
    qed
    then have "at_head ranges'" by (auto simp: at_head_def list_all_iff)
    then show ?thesis using 2 by (auto simp: shown_lines_def head_of_def)
  next
    case 3
    then show ?thesis using ne by simp
  qed
qed

lemma ranges_empty:
  assumes "snippet_ranges fs rel n c = Ret ranges" and "snippet_ranges fs rel n c' = Ret ranges'" and "ranges = []"
  shows "ranges' = []"
proof (rule ccontr)
  assume "ranges' \<noteq> []"
  then have "hd ranges' \<in> set ranges'" by simp
  then obtain f r where "f \<in> set fs" "snippet_range rel n c f = Ret (Some r)"
    using snippet_ranges_member [OF assms(2)] snippet_range_any by metis
  then have "r \<in> set ranges" using snippet_ranges_member [OF assms(1)] by blast
  then show False using assms(3) by simp
qed

text \<open>Widening the context is a superset: every numbered line the model sees with a context of \<open>c\<close> lines it
  also sees with a wider one, the switch to a head block included.\<close>

theorem wider_context_shows_more:
  assumes small: "present_findings_snippet env content fs rel (Some c) = Ret few"
    and wide: "present_findings_snippet env content fs rel (Some c') = Ret many" and c: "c \<le> c'"
  shows "code_rows few \<subseteq> code_rows many"
proof (cases "0 < whole_file_max_lines env \<and> int (length (split_content_lines content)) \<le> whole_file_max_lines env")
  case True
  then show ?thesis using assms by (simp add: present_findings_snippet_def Let_def)
next
  case False
  let ?lines = "split_content_lines content"
  obtain rs rs' where r: "snippet_ranges fs rel (int (length ?lines)) c = Ret rs" "snippet_ranges fs rel (int (length ?lines)) c' = Ret rs'"
    and few: "few = (if rs = [] then present_source env content else render_windows ?lines rs)"
    and many: "many = (if rs' = [] then present_source env content else render_windows ?lines rs')"
    using False small wide by (auto simp: present_findings_snippet_def Let_def bind_result_Ret split: if_splits)
  show ?thesis
  proof (cases "rs = []")
    case True
    then show ?thesis using ranges_empty [OF r] few many by simp
  next
    case False
    then have "rs' \<noteq> []" using ranges_empty [OF r(2,1)] by blast
    then show ?thesis using False few many shown_wider [OF r c False]
      by (simp add: render_rows content_lines_free snippet_ranges_nonneg [OF r(1)] snippet_ranges_nonneg [OF r(2)] image_mono)
  qed
qed

text \<open>Every line a located finding cites is shown, when the context is not negative.\<close>

theorem cited_lines_are_shown:
  assumes snippet: "present_findings_snippet env content fs rel (Some c) = Ret shown" and c: "0 \<le> c"
    and f: "f \<in> set fs" "names_file rel f = Ret True"
    and lines: "get_or f ''line_start'' (PInt 0) = PInt l" "get_or f ''line_end'' (PInt 0) = PInt e"
    and i: "0 < l" "l \<le> i" "i \<le> (if e = 0 then l else e)" "i \<le> int (length (split_content_lines content))"
  shows "row_at (split_content_lines content) i \<in> code_rows shown"
proof (cases "0 < whole_file_max_lines env \<and> int (length (split_content_lines content)) \<le> whole_file_max_lines env")
  case True
  then have "shown = number_lines (split_content_lines content) 0 None"
    using snippet by (simp add: present_findings_snippet_def Let_def)
  then show ?thesis using whole_rows [OF content_lines_free] i by simp
next
  case False
  let ?lines = "split_content_lines content"
  obtain rs where r: "snippet_ranges fs rel (int (length ?lines)) c = Ret rs"
    and shown: "shown = (if rs = [] then present_source env content else render_windows ?lines rs)"
    using False snippet by (auto simp: present_findings_snippet_def Let_def bind_result_Ret split: if_splits)
  have "snippet_range rel (int (length ?lines)) c f =
      Ret (Some (max 0 (l - 1 - c), min (int (length ?lines)) ((if e = 0 then l else e) + c)))"
    unfolding snippet_range_Some using f lines i(1) by (auto simp: line_number_def py_or_def)
  then have "(max 0 (l - 1 - c), min (int (length ?lines)) ((if e = 0 then l else e) + c)) \<in> set rs"
    using snippet_ranges_member [OF r] f(1) by blast
  from shown_of_range [OF this, of i "int (length ?lines)"] this show ?thesis
    using i c by (auto simp: shown render_rows content_lines_free snippet_ranges_nonneg [OF r])
qed

section \<open>Where the header and the block part\<close>

definition whole_env :: env where
  "whole_env = (\<lambda>k. if k = ''VULTURE_LLM_WHOLE_FILE_MAX_LINES'' then Some ''9''
     else if k = ''VULTURE_LLM_SNIPPET_CONTEXT'' then Some ''0'' else None)"

definition three_lines :: string where "three_lines = ''a'' @ [NL] @ ''b'' @ [NL] @ ''c'' @ [NL]"

text \<open>Whole-file mode shows every line, and the header still names the lines a window would have left out.\<close>

lemma whole_file_header_is_wrong:
  "present_findings_snippet whole_env three_lines [[(''file_path'', PStr ''x.py''), (''line_start'', PInt 3)]] ''x.py'' None
     = Ret (''1: a'' @ [NL] @ ''2: b'' @ [NL] @ ''3: c'')"
  "omitted_ranges whole_env [[(''file_path'', PStr ''x.py''), (''line_start'', PInt 3)]] ''x.py'' 3 None = Ret [(1, 2)]"
  by code_simp+

text \<open>A finding whose line is past the end of the file blanks the block: no line is shown, and the header
  names lines that do not exist.\<close>

lemma stale_line_blanks_the_file:
  "present_findings_snippet (\<lambda>_. None) three_lines [[(''file_path'', PStr ''x.py''), (''line_start'', PInt 50)]] ''x.py'' None = Ret []"
  "omitted_ranges (\<lambda>_. None) [[(''file_path'', PStr ''x.py''), (''line_start'', PInt 50)]] ''x.py'' 3 None = Ret [(1, 39)]"
  by code_simp+

end
