(* ===== verification/Feed_Packing.thy ===== *)
theory Feed_Packing
  imports Feed_Windows Scan_Names "HOL-Library.Multiset"
begin

text \<open>
  Which files the model is fed, in which order and in which batches (\<open>shared/audit_runner.py\<close>, source
  packing): the tiers of the prioritiser, the block of one file, the single context packed within a
  character budget and the batches that sweep the whole list. Reading a file and its size on disk are
  fields of \<open>feed_world\<close>.

  The lemmas: ordering loses no file, a packed text stays within its budget, and the batches hold every
  readable file once, in order, within both limits unless one file alone exceeds the budget.
\<close>

record feed_world =
  fw_env :: env
  fw_read :: "string \<Rightarrow> string option"
  fw_size :: "string \<Rightarrow> int option"

section \<open>Paths\<close>

definition safe_stat_size :: "feed_world \<Rightarrow> string \<Rightarrow> int" where
  "safe_stat_size w p = (case fw_size w p of None \<Rightarrow> 0 | Some n \<Rightarrow> n)"

text \<open>\<open>relative_to\<close> compares the parts of the two paths; a path outside the root stays itself.\<close>

definition safe_rel :: "string \<Rightarrow> string \<Rightarrow> string" where
  "safe_rel fpath source_path =
     (let ps = path_parts fpath; bs = path_parts source_path in
      if take (length bs) ps = bs \<and> (bs = [] \<longrightarrow> initial_slashes fpath = 0)
        then (let r = drop (length bs) ps in if r = [] then ''.'' else join [SLASH] r)
      else pure_path fpath)"

definition path_forms :: "pyval \<Rightarrow> string \<Rightarrow> string list result" where
  "path_forms fp source_path =
     (if \<not> truthy fp then Ret []
      else case fp of PStr s \<Rightarrow> Ret (if starts_with s source_path then [s, lstrip_slash (drop (length source_path) s)] else [s])
      | _ \<Rightarrow> Raise AttributeError)"

definition finding_path_set :: "pydict list \<Rightarrow> string \<Rightarrow> string list result" where
  "finding_path_set findings source_path =
     bind_result (map_result (\<lambda>f. path_forms (get_or f ''file_path'' (PStr [])) source_path) findings) (\<lambda>ps. Ret (concat ps))"

section \<open>Tiers\<close>

definition is_flagged :: "string \<Rightarrow> string \<Rightarrow> string list \<Rightarrow> bool" where
  "is_flagged fpath source_path finding_paths =
     (pure_path fpath \<in> set finding_paths \<or> safe_rel fpath source_path \<in> set finding_paths)"

definition file_tier :: "string \<Rightarrow> string \<Rightarrow> string list \<Rightarrow> nat" where
  "file_tier fpath source_path finding_paths =
     (if is_flagged fpath source_path finding_paths then 1 else if is_entry_or_config fpath then 2 else 3)"

definition tier_files :: "string list \<Rightarrow> string \<Rightarrow> pydict list \<Rightarrow> (string list \<times> string list \<times> string list) result" where
  "tier_files files source_path findings =
     bind_result (finding_path_set findings source_path) (\<lambda>paths.
       let tier = (\<lambda>n. filter (\<lambda>f. file_tier f source_path paths = n) files) in Ret (tier 1, tier 2, tier 3))"

definition order_tiers :: "feed_world \<Rightarrow> string list \<times> string list \<times> string list \<Rightarrow> bool \<Rightarrow> string list" where
  "order_tiers w tiers include_tier3 = (case tiers of (tier1, tier2, tier3) \<Rightarrow>
     if \<not> include_tier3 then tier1 @ tier2 else tier1 @ tier2 @ sort_key (safe_stat_size w) tier3)"

definition prioritize_files :: "feed_world \<Rightarrow> string list \<Rightarrow> string \<Rightarrow> pydict list \<Rightarrow> bool \<Rightarrow> string list result" where
  "prioritize_files w files source_path findings include_tier3 =
     bind_result (tier_files files source_path findings) (\<lambda>tiers. Ret (order_tiers w tiers include_tier3))"

definition llm_eligible_files :: "string list \<Rightarrow> string list" where
  "llm_eligible_files files = filter (\<lambda>f. \<not> is_test_file f \<and> \<not> is_generated_file f) files"

section \<open>The block of one file\<close>

fun append_at :: "pyval \<Rightarrow> pydict \<Rightarrow> (pyval \<times> pydict list) list \<Rightarrow> (pyval \<times> pydict list) list" where
  "append_at k f [] = [(k, [f])]"
| "append_at k f ((k', fs) # rest) = (if k' = k then (k', fs @ [f]) # rest else (k', fs) # append_at k f rest)"

fun group_from :: "(pyval \<times> pydict list) list \<Rightarrow> pydict list \<Rightarrow> (pyval \<times> pydict list) list result" where
  "group_from acc [] = Ret acc"
| "group_from acc (f # fs) = (let fp = get_or f ''file_path'' (PStr []) in
     if truthy fp then bind_result (py_key fp) (\<lambda>k. group_from (append_at k f acc) fs) else group_from acc fs)"

definition group_findings_by_path :: "pydict list \<Rightarrow> (pyval \<times> pydict list) list result" where
  "group_findings_by_path findings = group_from [] findings"

definition findings_under :: "string \<Rightarrow> pyval \<times> pydict list \<Rightarrow> pydict list result" where
  "findings_under rel = (\<lambda>(k, fs). case k of PStr key \<Rightarrow> Ret (if ends_with key rel then fs else []) | _ \<Rightarrow> Raise AttributeError)"

definition file_findings :: "string \<Rightarrow> (pyval \<times> pydict list) list \<Rightarrow> pydict list result" where
  "file_findings rel by_path = (case map_of by_path (PStr rel) of
     Some fs \<Rightarrow> Ret fs
   | None \<Rightarrow> bind_result (map_result (findings_under rel) by_path) (\<lambda>fss. Ret (concat fss)))"

definition format_file_block ::
    "feed_world \<Rightarrow> string \<Rightarrow> string \<Rightarrow> (pyval \<times> pydict list) list \<Rightarrow> (string \<times> string) option result" where
  "format_file_block w fpath source_path by_path = (case fw_read w fpath of
     None \<Rightarrow> Ret None
   | Some content \<Rightarrow>
       if strip content = [] then Ret None
       else let rel = safe_rel fpath source_path;
                plain = Ret (Some (rel, block_header rel [] @ [NL] @ present_source (fw_env w) content)) in
         if by_path = [] then plain
         else bind_result (file_findings rel by_path) (\<lambda>fs.
           if fs = [] then plain
           else bind_result (omitted_ranges (fw_env w) fs rel (int (length (split_content_lines content))) None) (\<lambda>omitted.
             bind_result (extract_file_snippet (fw_env w) content fs rel None) (\<lambda>body.
               Ret (Some (rel, block_header rel omitted @ [NL] @ body))))))"

definition file_blocks :: "feed_world \<Rightarrow> string list \<Rightarrow> string \<Rightarrow> pydict list \<Rightarrow> (string \<times> string) list result" where
  "file_blocks w files source_path findings =
     bind_result (group_findings_by_path findings) (\<lambda>by_path.
       bind_result (map_result (\<lambda>f. format_file_block w f source_path by_path) files) (\<lambda>bs.
         Ret (List.map_filter (\<lambda>b. b) bs)))"

section \<open>One context\<close>

definition entry_len :: "string \<times> string \<Rightarrow> int" where "entry_len = (\<lambda>(_, block). int (length block) + 2)"

fun pack_from :: "int \<Rightarrow> int \<Rightarrow> (string \<times> string) list \<Rightarrow> (string \<times> string) list" where
  "pack_from max_chars used [] = []"
| "pack_from max_chars used (b # bs) =
     (if max_chars < used + entry_len b then pack_from max_chars used bs
      else b # pack_from max_chars (used + entry_len b) bs)"

definition BLOCK_SEP :: string where "BLOCK_SEP = [NL, NL]"

definition pack_files :: "feed_world \<Rightarrow> string list \<Rightarrow> string \<Rightarrow> int \<Rightarrow> pydict list \<Rightarrow> (string \<times> string list) result" where
  "pack_files w files source_path max_chars findings =
     bind_result (file_blocks w files source_path findings) (\<lambda>bs.
       let kept = pack_from max_chars 0 bs in Ret (join BLOCK_SEP (map snd kept), map fst kept))"

section \<open>Batches\<close>

text \<open>The state of the loop: the batches closed so far, and the blocks of the open one.\<close>

definition opens_new :: "int \<Rightarrow> int \<Rightarrow> (string \<times> string) list \<Rightarrow> string \<times> string \<Rightarrow> bool" where
  "opens_new max_chars files_per_batch cur b =
     (cur \<noteq> [] \<and> (max_chars < sum_list (map entry_len cur) + entry_len b \<or> files_per_batch \<le> int (length cur)))"

fun batch_from :: "int \<Rightarrow> int \<Rightarrow> (string \<times> string) list \<Rightarrow> (string \<times> string) list \<Rightarrow> (string \<times> string) list list" where
  "batch_from max_chars per cur [] = (if cur = [] then [] else [cur])"
| "batch_from max_chars per cur (b # bs) =
     (if opens_new max_chars per cur b then cur # batch_from max_chars per [b] bs
      else batch_from max_chars per (cur @ [b]) bs)"

definition build_source_batches ::
    "feed_world \<Rightarrow> string list \<Rightarrow> string \<Rightarrow> int \<Rightarrow> pydict list \<Rightarrow> int \<Rightarrow> (string \<times> string list) list result" where
  "build_source_batches w files source_path max_chars findings files_per_batch =
     bind_result (file_blocks w files source_path findings) (\<lambda>bs.
       Ret (map (\<lambda>batch. (join BLOCK_SEP (map snd batch), map fst batch)) (batch_from max_chars files_per_batch [] bs)))"

section \<open>What the packing promises\<close>

lemma tiers_permute: "tier_files files src fs = Ret (t1, t2, t3) \<Longrightarrow> mset (t1 @ t2 @ t3) = mset files"
proof -
  assume "tier_files files src fs = Ret (t1, t2, t3)"
  then obtain paths where t: "t1 = filter (\<lambda>f. file_tier f src paths = 1) files" "t2 = filter (\<lambda>f. file_tier f src paths = 2) files"
    "t3 = filter (\<lambda>f. file_tier f src paths = 3) files" by (auto simp: tier_files_def bind_result_Ret Let_def)
  have tier: "file_tier f src paths \<in> {1, 2, 3}" for f by (auto simp: file_tier_def)
  show ?thesis unfolding t mset_append
  proof (induction files)
    case (Cons a files)
    then show ?case using tier [of a] by auto
  qed simp
qed

lemma sorted_map_const: "\<forall>x \<in> set xs. f x = c \<Longrightarrow> sorted (map f xs)"
  by (induction xs) auto

text \<open>The prioritiser only reorders: with tier three every file is fed, once, flagged files first.\<close>

theorem prioritising_loses_no_file:
  assumes "prioritize_files w files src fs True = Ret out"
  shows "mset out = mset files \<and>
    (\<exists>paths. finding_path_set fs src = Ret paths \<and> sorted (map (\<lambda>f. file_tier f src paths) out))"
proof -
  obtain t1 t2 t3 where t: "tier_files files src fs = Ret (t1, t2, t3)" and out: "out = t1 @ t2 @ sort_key (safe_stat_size w) t3"
    using assms by (auto simp: prioritize_files_def bind_result_Ret order_tiers_def)
  then obtain paths where p: "finding_path_set fs src = Ret paths" "t1 = filter (\<lambda>f. file_tier f src paths = 1) files"
    "t2 = filter (\<lambda>f. file_tier f src paths = 2) files" "t3 = filter (\<lambda>f. file_tier f src paths = 3) files"
    by (auto simp: tier_files_def bind_result_Ret Let_def)
  have "sorted (map (\<lambda>f. file_tier f src paths) out)"
    unfolding out p map_append sorted_append
    by (auto intro: sorted_map_const [of _ _ 1] sorted_map_const [of _ _ 2] sorted_map_const [of _ _ 3])
  then show ?thesis using tiers_permute [OF t] p(1) by (auto simp: out)
qed

lemma length_join: "xs \<noteq> [] \<Longrightarrow> length (join sep xs) + length sep = sum_list (map (\<lambda>x. length x + length sep) xs)"
proof (induction xs)
  case (Cons x xs)
  then show ?case by (cases "xs = []") (simp_all add: join_Cons)
qed simp

lemma text_length: "bs \<noteq> [] \<Longrightarrow> int (length (join BLOCK_SEP (map snd bs))) + 2 = sum_list (map entry_len bs)"
proof -
  assume "bs \<noteq> []"
  then have "length (join BLOCK_SEP (map snd bs)) + 2 = sum_list (map (\<lambda>b. length (snd b) + 2) bs)"
    using length_join [of "map snd bs" BLOCK_SEP] by (simp add: BLOCK_SEP_def comp_def)
  moreover have "int (sum_list (map (\<lambda>b. length (snd b) + 2) bs)) = sum_list (map entry_len bs)"
    by (induction bs) (auto simp: entry_len_def)
  ultimately show ?thesis by linarith
qed

lemma entry_len_pos: "0 < entry_len b"
  by (cases b) (simp add: entry_len_def)

lemma pack_from_fits: "used \<le> max_chars \<Longrightarrow> used + sum_list (map entry_len (pack_from max_chars used bs)) \<le> max_chars"
  by (induction max_chars used bs rule: pack_from.induct) (auto simp: algebra_simps)

lemma pack_from_subseq: "subseq (pack_from max_chars used bs) bs"
  by (induction max_chars used bs rule: pack_from.induct) auto

text \<open>The single context is a subsequence of the readable files in feed order, within the character budget;
  a file is left out only when it no longer fitted behind the files packed before it.\<close>

lemma pack_from_greedy:
  assumes "bs = pre @ b # post" and "b \<notin> set (pack_from max_chars used bs)"
  shows "max_chars < used + sum_list (map entry_len (pack_from max_chars used pre)) + entry_len b"
  using assms
proof (induction pre arbitrary: used bs)
  case (Cons c pre)
  then show ?case by (force simp: algebra_simps split: if_splits)
qed (simp split: if_splits)

theorem packed_context_fits:
  assumes "pack_files w files src max_chars fs = Ret (packed, paths)" and "0 \<le> max_chars"
  shows "int (length packed) \<le> max_chars \<and>
    (\<exists>bs kept. file_blocks w files src fs = Ret bs \<and> subseq kept bs \<and> packed = join BLOCK_SEP (map snd kept) \<and> paths = map fst kept)"
proof -
  obtain bs where bs: "file_blocks w files src fs = Ret bs" "packed = join BLOCK_SEP (map snd (pack_from max_chars 0 bs))"
    "paths = map fst (pack_from max_chars 0 bs)" using assms(1) by (auto simp: pack_files_def bind_result_Ret Let_def)
  have "int (length packed) \<le> max_chars"
  proof (cases "pack_from max_chars 0 bs = []")
    case False
    then show ?thesis using text_length [OF False] pack_from_fits [of 0 max_chars bs] assms(2) bs(2) by simp
  qed (use assms(2) bs(2) in simp)
  then show ?thesis using bs pack_from_subseq by blast
qed

definition batch_ok :: "int \<Rightarrow> int \<Rightarrow> (string \<times> string) list \<Rightarrow> bool" where
  "batch_ok max_chars per cur = (cur \<noteq> [] \<and>
     (length cur = 1 \<or> sum_list (map entry_len cur) \<le> max_chars \<and> int (length cur) \<le> per))"

lemma batch_from_concat: "concat (batch_from max_chars per cur bs) = cur @ bs"
  by (induction max_chars per cur bs rule: batch_from.induct) auto

lemma batch_ok_snoc: "cur = [] \<or> batch_ok max_chars per cur \<Longrightarrow> \<not> opens_new max_chars per cur b \<Longrightarrow> batch_ok max_chars per (cur @ [b])"
  by (cases cur) (auto simp: batch_ok_def opens_new_def)

lemma batch_from_ok: "cur = [] \<or> batch_ok max_chars per cur \<Longrightarrow> \<forall>c \<in> set (batch_from max_chars per cur bs). batch_ok max_chars per c"
proof (induction max_chars per cur bs rule: batch_from.induct)
  case (2 max_chars per cur b bs)
  show ?case
  proof (cases "opens_new max_chars per cur b")
    case True
    then have "cur \<noteq> []" by (simp add: opens_new_def)
    moreover have "batch_ok max_chars per [b]" by (simp add: batch_ok_def)
    ultimately show ?thesis using 2 True by auto
  next
    case False
    then show ?thesis using 2 batch_ok_snoc by auto
  qed
qed auto

text \<open>C21. The sweep covers every readable file exactly once, in feed order: the paths of the batches, one after
  the other, are those of the blocks. No batch is empty, and one with more than a single file is within the
  character budget and the file cap.\<close>

theorem batches_cover_every_file:
  assumes "build_source_batches w files src max_chars fs per = Ret batches"
  shows "\<exists>bs. file_blocks w files src fs = Ret bs \<and> concat (map snd batches) = map fst bs \<and>
    (\<forall>(body, paths) \<in> set batches. paths \<noteq> [] \<and> (length paths = 1 \<or> int (length body) \<le> max_chars \<and> int (length paths) \<le> per))"
proof -
  obtain bs where bs: "file_blocks w files src fs = Ret bs"
    and out: "batches = map (\<lambda>batch. (join BLOCK_SEP (map snd batch), map fst batch)) (batch_from max_chars per [] bs)"
    using assms by (auto simp: build_source_batches_def bind_result_Ret)
  have "concat (map snd batches) = map fst (concat (batch_from max_chars per [] bs))"
    by (simp add: out comp_def map_concat)
  moreover have "paths \<noteq> [] \<and> (length paths = 1 \<or> int (length body) \<le> max_chars \<and> int (length paths) \<le> per)"
    if in_batches: "(body, paths) \<in> set batches" for body paths
  proof -
    obtain c where c: "c \<in> set (batch_from max_chars per [] bs)" "body = join BLOCK_SEP (map snd c)" "paths = map fst c"
      using in_batches by (auto simp: out)
    then have ok: "batch_ok max_chars per c" using batch_from_ok [of "[]"] by blast
    then show ?thesis using c text_length [of c] by (auto simp: batch_ok_def)
  qed
  ultimately show ?thesis using bs by (auto simp: batch_from_concat)
qed

end
