(* ===== verification/Body_Cap.thy ===== *)
theory Body_Cap
  imports Finding_Merge Feed_Windows
begin

text \<open>
  The ceilings of a request (\<open>shared/audit_runner.py\<close>): the encoded-byte cap that drops whole trailing file
  blocks, the one-shot halving after a size rejection, and the truncation of a prompt to four fifths of
  the context window by whole file blocks. The token estimator is a parameter; the count of cut bodies is
  the state of the run, absent outside one.

  The lemmas: a capped body fits the cap, the retry at least halves it, a cut is always counted, and a
  truncated prompt is the front of the prompt, cut between files.
\<close>

section \<open>Blocks of a packed text\<close>

definition is_block_header :: "string \<Rightarrow> bool" where
  "is_block_header line = (starts_with line ''--- '' \<and> ends_with line '' ---'' \<and> 9 \<le> length line)"

fun group_blocks :: "string list \<Rightarrow> string list \<times> string list list" where
  "group_blocks [] = ([], [])"
| "group_blocks (l # ls) = (case group_blocks ls of (h, bs) \<Rightarrow>
     if is_block_header l then ([], (l # h) # bs) else (l # h, bs))"

definition strip_nl :: "string \<Rightarrow> string" where "strip_nl s = strip_by (\<lambda>c. c = NL) s"

definition split_source_blocks :: "string \<Rightarrow> string list" where
  "split_source_blocks body = (case group_blocks (split_nl body) of (h, bs) \<Rightarrow>
     if bs = [] then [body]
     else (if strip_nl (join_nl h) = [] then [] else [strip_nl (join_nl h)]) @ map (\<lambda>b. strip_nl (join_nl b)) bs)"

section \<open>The byte cap\<close>

definition DEFAULT_MAX_BODY_BYTES :: int where "DEFAULT_MAX_BODY_BYTES = 131072"
definition BODY_TRUNCATION_NOTICE_BYTES :: int where "BODY_TRUNCATION_NOTICE_BYTES = 128"

definition get_max_body_bytes :: "env \<Rightarrow> int" where
  "get_max_body_bytes env = safe_int_env env ''VULTURE_LLM_MAX_BODY_BYTES'' DEFAULT_MAX_BODY_BYTES"

abbreviation bytes :: "string \<Rightarrow> int" where "bytes s \<equiv> int (length (utf8 s))"

definition over_body_cap :: "string \<Rightarrow> int \<Rightarrow> bool" where
  "over_body_cap body max_bytes = (0 < max_bytes \<and> max_bytes < bytes body)"

definition count_body_truncation :: "nat option \<Rightarrow> nat option" where
  "count_body_truncation cuts = map_option Suc cuts"

fun keep_blocks :: "int \<Rightarrow> int \<Rightarrow> bool \<Rightarrow> string list \<Rightarrow> string list" where
  "keep_blocks budget used any_kept [] = []"
| "keep_blocks budget used any_kept (b # bs) =
     (let cost = bytes b + (if any_kept then 2 else 0) in
      if budget < used + cost then [] else b # keep_blocks budget (used + cost) True bs)"

definition drop_notice :: "int \<Rightarrow> int \<Rightarrow> string" where
  "drop_notice dropped max_bytes = [NL, NL] @ ''[... '' @ str_int dropped @ '' file(s) dropped: request body cap '' @
     str_int max_bytes @ '' bytes ...]''"

definition enforce_body_byte_cap :: "env \<Rightarrow> string \<Rightarrow> int \<Rightarrow> nat option \<Rightarrow> string \<times> nat option" where
  "enforce_body_byte_cap env body max_bytes cuts =
     (if body = [] then (body, cuts)
      else let cap = (if max_bytes \<le> 0 then get_max_body_bytes env else max_bytes) in
        if \<not> over_body_cap body cap then (body, cuts)
        else let budget = max 0 (cap - BODY_TRUNCATION_NOTICE_BYTES);
                 blocks = split_source_blocks body;
                 fit = keep_blocks budget 0 False blocks;
                 kept = (if fit = [] then [truncate_utf8 (hd blocks) (nat budget)] else fit);
                 dropped = int (length blocks) - int (length kept);
                 out = join [NL, NL] kept in
          (if 0 < dropped then out @ drop_notice dropped cap else out, count_body_truncation cuts))"

definition halve_source_context :: "env \<Rightarrow> string \<Rightarrow> nat option \<Rightarrow> string \<times> nat option" where
  "halve_source_context env source_context cuts =
     (if source_context = [] then ([], cuts)
      else let target = bytes source_context div 2 in
        if target < 512 then ([], cuts)
        else (case enforce_body_byte_cap env source_context target cuts of (smaller, cuts') \<Rightarrow>
          if smaller = [] \<or> smaller = source_context then ([], cuts') else (smaller, cuts')))"

section \<open>The prompt budget\<close>

definition FILE_MARKER :: string where "FILE_MARKER = [NL, NL] @ ''--- ''"
definition TRUNCATED_NOTICE :: string where "TRUNCATED_NOTICE = [NL, NL] @ ''[... truncated to fit context window ...]''"

function split_marker :: "string \<Rightarrow> string list" where
  "split_marker s = (case find_sub FILE_MARKER s of None \<Rightarrow> [s]
     | Some i \<Rightarrow> take i s # split_marker (drop (i + length FILE_MARKER) s))"
  by pat_completeness auto
termination
proof (relation "measure length", goal_cases)
  case (2 s i)
  then obtain u v where s: "s = u @ FILE_MARKER @ v" using find_sub_Some by metis
  then have "s \<noteq> []" by (simp add: FILE_MARKER_def)
  then show ?case by (simp add: FILE_MARKER_def)
qed simp

declare split_marker.simps [simp del]

definition target_tokens :: "int \<Rightarrow> int" where
  "target_tokens ctx_tokens = trunc (fl64 (fl64 (of_int ctx_tokens) * fl64 (8 / 10)))"

definition cut_chars :: "string \<Rightarrow> int \<Rightarrow> int \<Rightarrow> string" where
  "cut_chars s target estimated =
     (let ratio = fl64 (of_nat (length s) / of_int (max estimated 1));
          n = trunc (fl64 (fl64 (of_int target) * ratio)) in
      (if 0 \<le> n then take (nat n) s else take (length s - nat (- n)) s) @ TRUNCATED_NOTICE)"

text \<open>\<open>trim_blocks\<close> pops from the end, so it runs on the reversed list of the token counts and answers how many
  blocks stay.\<close>

fun trim_blocks :: "int \<Rightarrow> int \<Rightarrow> int \<Rightarrow> int list \<Rightarrow> nat" where
  "trim_blocks target sep amount [] = 0"
| "trim_blocks target sep amount (t # ts) =
     (if target < amount then trim_blocks target sep (amount - (t + sep)) ts else Suc (length ts))"

definition removed_notice :: "int \<Rightarrow> string" where
  "removed_notice n = [NL, NL] @ ''[... '' @ str_int n @ '' file(s) removed to fit context window ...]''"

definition drop_trailing :: "(string \<Rightarrow> int) \<Rightarrow> int \<Rightarrow> int \<Rightarrow> string \<Rightarrow> string list \<Rightarrow> string" where
  "drop_trailing tok target amount preamble blocks =
     (let n = trim_blocks target (tok [NL, NL]) amount (rev (map tok blocks)); kept = take n blocks;
          out = preamble @ (if kept = [] then [] else [NL, NL] @ join [NL, NL] kept) in
      if n < length blocks then out @ removed_notice (int (length blocks) - int n) else out)"

definition truncate_prompt_to_budget :: "(string \<Rightarrow> int) \<Rightarrow> int \<Rightarrow> string \<Rightarrow> int option \<Rightarrow> string" where
  "truncate_prompt_to_budget tok ctx_tokens prompt_text estimated =
     (let target = target_tokens ctx_tokens in
      if (case estimated of Some e \<Rightarrow> e \<le> target | None \<Rightarrow> False) then prompt_text
      else case split_marker prompt_text of
        [] \<Rightarrow> prompt_text
      | [_] \<Rightarrow> (let e = (case estimated of Some e \<Rightarrow> e | None \<Rightarrow> tok prompt_text) in
          if e \<le> target then prompt_text else cut_chars prompt_text target e)
      | preamble # rest \<Rightarrow>
          (let blocks = map (\<lambda>p. ''--- '' @ p) rest; counts = map tok blocks; sep = tok [NL, NL];
               amount = tok preamble + sum_list counts + sep * int (length counts) in
           if amount \<le> target then prompt_text
           else if target < tok preamble then cut_chars preamble target (tok preamble)
           else drop_trailing tok target amount preamble blocks))"

section \<open>A capped body fits\<close>

lemma utf8_append [simp]: "utf8 (s @ t) = utf8 s @ utf8 t"
  by (simp add: utf8_def)

lemma utf8_Nil [simp]: "utf8 [] = []"
  by (simp add: utf8_def)

lemma utf8_ascii: "\<forall>c \<in> set s. (of_char c :: nat) < 128 \<Longrightarrow> utf8 s = s"
  by (induction s) (auto simp: utf8_def utf8_char_def)

lemma utf8_NL [simp]: "utf8 (NL # s) = NL # utf8 s"
  by (simp add: utf8_def utf8_char_def)

lemma utf8_length_ge: "length s \<le> length (utf8 s)"
proof (induction s)
  case (Cons c s)
  have "1 \<le> length (utf8_char c)" by (simp add: utf8_char_def Let_def)
  then show ?case using Cons by (simp add: utf8_def)
qed simp

lemma bytes_join2: "xs \<noteq> [] \<Longrightarrow> bytes (join [NL, NL] xs) + 2 = sum_list (map (\<lambda>x. bytes x + 2) xs)"
proof (induction xs)
  case (Cons x xs)
  then show ?case using Cons by (cases "xs = []") (simp_all add: join_Cons)
qed simp

lemma keep_blocks_used:
  "used \<le> budget \<Longrightarrow> used + sum_list (map (\<lambda>x. bytes x + 2) (keep_blocks budget used any_kept bs)) \<le> budget + (if any_kept then 0 else 2)"
proof (induction budget used any_kept bs rule: keep_blocks.induct)
  case (2 budget used any_kept b bs)
  then show ?case by (cases any_kept) (auto simp: Let_def)
qed simp

lemma keep_blocks_fit: "0 \<le> budget \<Longrightarrow> bytes (join [NL, NL] (keep_blocks budget 0 False bs)) \<le> budget"
proof (cases "keep_blocks budget 0 False bs = []")
  case False
  assume "0 \<le> budget"
  then show ?thesis using bytes_join2 [OF False] keep_blocks_used [of 0 budget False bs] by simp
qed simp

lemma truncate_fits: "0 \<le> budget \<Longrightarrow> bytes (truncate_utf8 s (nat budget)) \<le> budget"
proof -
  assume b: "0 \<le> budget"
  have "length (utf8 (fitting k s)) \<le> k" for k by (induction k s rule: fitting.induct) (auto simp: utf8_def)
  from this [of "nat budget"] show ?thesis using b by (auto simp: truncate_utf8_def nat_le_iff le_nat_iff)
qed

lemma str_nat_length: "n < 10 ^ Suc k \<Longrightarrow> length (str_nat n) \<le> Suc k"
proof (induction k arbitrary: n)
  case 0
  then show ?case by (simp add: str_nat.simps)
next
  case (Suc k)
  have "n div 10 < 10 ^ Suc k" using Suc.prems by (simp add: less_mult_imp_div_less)
  then show ?case using Suc.IH [of "n div 10"] by (subst str_nat.simps) simp
qed

lemma str_int_length: "0 \<le> i \<Longrightarrow> i < 10 ^ Suc k \<Longrightarrow> length (str_int i) \<le> Suc k"
  using str_nat_length [of "nat i" k] by (simp add: str_int_def nat_less_iff)

lemma str_int_ascii: "c \<in> set (str_int i) \<Longrightarrow> (of_char c :: nat) < 128"
  using str_nat_digits [of c "nat i"] str_nat_digits [of c "nat (- i)"]
  by (auto simp: str_int_def is_digit_def split: if_splits)

lemma drop_notice_bytes: "0 \<le> d \<Longrightarrow> d < 10 ^ 31 \<Longrightarrow> 0 \<le> m \<Longrightarrow> m < 10 ^ 31 \<Longrightarrow> bytes (drop_notice d m) \<le> BODY_TRUNCATION_NOTICE_BYTES"
proof -
  assume d: "0 \<le> d" "d < 10 ^ 31" "0 \<le> m" "m < 10 ^ 31"
  have "utf8 (drop_notice d m) = drop_notice d m"
    by (rule utf8_ascii) (auto simp: drop_notice_def dest: str_int_ascii)
  moreover have "length (str_int d) \<le> 31" "length (str_int m) \<le> 31" using str_int_length [of _ 30] d by simp_all
  ultimately show ?thesis by (simp add: drop_notice_def BODY_TRUNCATION_NOTICE_BYTES_def)
qed

lemma group_blocks_length: "length (snd (group_blocks ls)) \<le> length ls"
  by (induction ls) (auto split: prod.splits)

lemma split_nl_length: "length (split_nl s) \<le> Suc (length s)"
proof (induction s rule: split_nl.induct)
  case (1 s)
  show ?case
  proof (cases "NL \<in> set s")
    case False
    then show ?thesis by (simp add: split_nl_no_nl)
  next
    case True
    then obtain a b where s: "s = a @ NL # b" "NL \<notin> set a" by (meson split_list_first)
    then have "dropWhile (\<lambda>c. c \<noteq> NL) s = NL # b" by (simp add: dropWhile_append)
    from 1 [OF this] show ?thesis using s split_nl_append [of a b] by simp
  qed
qed

lemma blocks_length: "length (split_source_blocks body) \<le> length body + 2"
  using group_blocks_length [of "split_nl body"] split_nl_length [of body]
  by (auto simp: split_source_blocks_def split: prod.splits)

text \<open>C22. A body over the cap leaves with at most as many bytes as the cap, notice included, for every cap that
  has room for the notice (and fewer than \<open>10\<^sup>30\<close> bytes of input).\<close>

theorem capped_body_fits:
  assumes "0 < max_bytes" and "BODY_TRUNCATION_NOTICE_BYTES \<le> max_bytes" and "bytes body < 10 ^ 30"
  shows "bytes (fst (enforce_body_byte_cap env body max_bytes cuts)) \<le> max_bytes"
proof (cases "body = [] \<or> \<not> over_body_cap body max_bytes")
  case True
  then show ?thesis using assms by (auto simp: enforce_body_byte_cap_def over_body_cap_def)
next
  case False
  define budget where "budget = max 0 (max_bytes - BODY_TRUNCATION_NOTICE_BYTES)"
  define blocks where "blocks = split_source_blocks body"
  define fit where "fit = keep_blocks budget 0 False blocks"
  define kept where "kept = (if fit = [] then [truncate_utf8 (hd blocks) (nat budget)] else fit)"
  define dropped where "dropped = int (length blocks) - int (length kept)"
  have out: "fst (enforce_body_byte_cap env body max_bytes cuts) =
      (if 0 < dropped then join [NL, NL] kept @ drop_notice dropped max_bytes else join [NL, NL] kept)"
    using False assms(1) unfolding enforce_body_byte_cap_def Let_def budget_def blocks_def fit_def kept_def dropped_def by simp
  have "0 \<le> budget" by (simp add: budget_def)
  then have b: "bytes (join [NL, NL] kept) \<le> budget"
    using keep_blocks_fit [of budget blocks] truncate_fits [of budget "hd blocks"] by (simp add: kept_def fit_def)
  have "int (length body) \<le> bytes body" using utf8_length_ge by simp
  then have "dropped < 10 ^ 31" using blocks_length [of body] assms(3) by (simp add: dropped_def blocks_def)
  moreover have "max_bytes < 10 ^ 31" using False assms(3) by (simp add: over_body_cap_def)
  ultimately have "0 < dropped \<Longrightarrow> bytes (drop_notice dropped max_bytes) \<le> BODY_TRUNCATION_NOTICE_BYTES"
    using drop_notice_bytes [of dropped max_bytes] assms(1) by simp
  moreover have "0 \<le> BODY_TRUNCATION_NOTICE_BYTES" by (simp add: BODY_TRUNCATION_NOTICE_BYTES_def)
  ultimately show ?thesis using b assms(2) by (auto simp: out budget_def max_def split: if_splits)
qed

text \<open>The one-shot retry sends at most half of what the provider refused, or nothing at all.\<close>

theorem size_retry_halves:
  assumes "bytes source_context < 10 ^ 30"
  shows "2 * bytes (fst (halve_source_context env source_context cuts)) \<le> bytes source_context"
proof (cases "source_context = [] \<or> bytes source_context div 2 < 512")
  case True
  then show ?thesis by (auto simp: halve_source_context_def Let_def)
next
  case False
  then have "bytes (fst (enforce_body_byte_cap env source_context (bytes source_context div 2) cuts)) \<le> bytes source_context div 2"
    using assms by (intro capped_body_fits) (auto simp: BODY_TRUNCATION_NOTICE_BYTES_def)
  then show ?thesis using False by (auto simp: halve_source_context_def Let_def split: prod.splits)
qed

text \<open>A cut is counted, and nothing else is.\<close>

theorem every_cut_is_counted:
  assumes "0 < max_bytes"
  shows "snd (enforce_body_byte_cap env body max_bytes (Some n)) =
    (if max_bytes < bytes body then Some (Suc n) else Some n)"
  using assms by (auto simp: enforce_body_byte_cap_def over_body_cap_def count_body_truncation_def Let_def)

text \<open>A cap below the size of the notice is exceeded by the notice itself.\<close>

lemma tiny_cap_is_exceeded:
  "20 < bytes (fst (enforce_body_byte_cap (\<lambda>_. None) (''--- a ---'' @ [NL] @ ''x'' @ [NL, NL] @ ''--- b ---'' @ [NL] @ ''y'') 20 None))"
  by code_simp

section \<open>A truncated prompt is the front of the prompt\<close>

lemma split_marker_ne: "split_marker s \<noteq> []"
  by (subst split_marker.simps) (simp split: option.split)

lemma join_split_marker: "join FILE_MARKER (split_marker s) = s"
proof (induction s rule: split_marker.induct)
  case (1 s)
  show ?case
  proof (cases "find_sub FILE_MARKER s")
    case None
    then show ?thesis by (simp add: split_marker.simps)
  next
    case (Some i)
    then obtain u v where s: "s = u @ FILE_MARKER @ v" "length u = i" using find_sub_Some by metis
    then have "join FILE_MARKER (split_marker v) = v" using 1 [OF Some] by simp
    moreover have "split_marker s = u # split_marker v" using s Some by (subst split_marker.simps) simp
    ultimately show ?thesis using split_marker_ne [of v] s(1) by (simp add: join_Cons)
  qed
qed

lemma join_take_prefix: "xs \<noteq> [] \<Longrightarrow> prefix (join sep (x # take n xs)) (join sep (x # xs))"
proof (induction xs arbitrary: x n)
  case (Cons y ys)
  show ?case
  proof (cases n)
    case (Suc m)
    have "prefix (join sep (y # take m ys)) (join sep (y # ys))" using Cons.IH by (cases ys) auto
    then show ?thesis using Suc by (simp add: join_Cons)
  qed (simp add: join_Cons)
qed simp

lemma join_blocks: "ps \<noteq> [] \<Longrightarrow> [NL, NL] @ join [NL, NL] (map (\<lambda>p. ''--- '' @ p) ps) = FILE_MARKER @ join FILE_MARKER ps"
proof (induction ps)
  case (Cons p ps)
  then show ?case by (cases "ps = []") (simp_all add: join_Cons FILE_MARKER_def)
qed simp

lemma trim_blocks_spec:
  "trim_blocks target sep amount ts \<le> length ts \<and>
    (trim_blocks target sep amount ts = 0 \<or>
      amount - sum_list (map (\<lambda>t. t + sep) (take (length ts - trim_blocks target sep amount ts) ts)) \<le> target)"
proof (induction ts arbitrary: amount)
  case (Cons t ts)
  show ?case
  proof (cases "target < amount")
    case True
    let ?n = "trim_blocks target sep (amount - (t + sep)) ts"
    have "?n \<le> length ts" using Cons.IH [of "amount - (t + sep)"] by blast
    then have "take (Suc (length ts) - ?n) (t # ts) = t # take (length ts - ?n) ts" by (simp add: Suc_diff_le)
    then show ?thesis using Cons.IH [of "amount - (t + sep)"] True by (auto simp: algebra_simps)
  qed simp
qed simp

definition prompt_front :: "string list \<Rightarrow> nat \<Rightarrow> string" where
  "prompt_front parts n = join FILE_MARKER (take (Suc n) parts)"

text \<open>Truncation by blocks returns the first files of the prompt whole: the text up to the notice is a front
  of the prompt that ends where a file ends, and unless no file is left, the tokens counted for it fit the
  target.\<close>

theorem truncated_prompt_is_a_front:
  assumes parts: "split_marker prompt = pre # rest" "rest \<noteq> []"
    and estimate: "\<forall>e. estimated = Some e \<longrightarrow> target_tokens ctx < e"
    and over: "target_tokens ctx < tok pre + sum_list (map (\<lambda>p. tok (''--- '' @ p)) rest) + tok [NL, NL] * int (length rest)"
    and pre: "tok pre \<le> target_tokens ctx"
  shows "\<exists>n \<le> length rest. prefix (prompt_front (pre # rest) n) prompt \<and>
    truncate_prompt_to_budget tok ctx prompt estimated =
      prompt_front (pre # rest) n @ (if n < length rest then removed_notice (int (length rest - n)) else []) \<and>
    (n = 0 \<or> tok pre + sum_list (map (\<lambda>p. tok (''--- '' @ p) + tok [NL, NL]) (take n rest)) \<le> target_tokens ctx)"
proof -
  let ?counts = "map (\<lambda>p. tok (''--- '' @ p)) rest" and ?sep = "tok [NL, NL]" and ?target = "target_tokens ctx"
  let ?amount = "tok pre + sum_list ?counts + ?sep * int (length rest)"
  define n where "n = trim_blocks ?target ?sep ?amount (rev ?counts)"
  have n: "n \<le> length rest" "n = 0 \<or> ?amount - sum_list (map (\<lambda>t. t + ?sep) (take (length rest - n) (rev ?counts))) \<le> ?target"
    using trim_blocks_spec [of ?target ?sep ?amount "rev ?counts"] by (simp_all add: n_def)
  have "take (length rest - n) (rev ?counts) = rev (drop n ?counts)" using n(1) by (simp add: take_rev)
  then have gone: "sum_list (map (\<lambda>t. t + ?sep) (take (length rest - n) (rev ?counts))) = sum_list (map (\<lambda>t. t + ?sep) (drop n ?counts))"
    by (simp add: rev_map [symmetric] del: map_map)
  have split: "sum_list (map f (take n rest)) + sum_list (map f (drop n rest)) = sum_list (map f rest)" for f :: "string \<Rightarrow> int"
    by (metis append_take_drop_id map_append sum_list_append)
  have "?amount = tok pre + sum_list (map (\<lambda>p. tok (''--- '' @ p) + ?sep) rest)"
    by (simp add: sum_list_addf sum_list_triv algebra_simps)
  then have fits: "n = 0 \<or> tok pre + sum_list (map (\<lambda>p. tok (''--- '' @ p) + ?sep) (take n rest)) \<le> ?target"
    using n(2) gone split [of "\<lambda>p. tok (''--- '' @ p) + ?sep"] by (auto simp: drop_map comp_def)
  have front: "prefix (prompt_front (pre # rest) n) prompt"
    using join_take_prefix [OF parts(2), of FILE_MARKER pre n] join_split_marker [of prompt] parts(1) by (simp add: prompt_front_def)
  have kept: "pre @ (if take n (map (\<lambda>p. ''--- '' @ p) rest) = [] then [] else [NL, NL] @ join [NL, NL] (take n (map (\<lambda>p. ''--- '' @ p) rest)))
      = prompt_front (pre # rest) n"
  proof (cases "take n rest = []")
    case True
    then show ?thesis by (auto simp: prompt_front_def take_map)
  next
    case False
    then show ?thesis
      by (simp only: prompt_front_def take_map take_Suc_Cons map_is_Nil_conv if_False join_blocks [OF False] join_Cons [OF False])
  qed
  obtain a as where rest: "rest = a # as" using parts(2) by (cases rest) auto
  have "truncate_prompt_to_budget tok ctx prompt estimated =
      drop_trailing tok ?target ?amount pre (map (\<lambda>p. ''--- '' @ p) rest)"
    using parts estimate over pre unfolding truncate_prompt_to_budget_def Let_def rest
    by (cases estimated) (simp_all add: comp_def del: append.simps)
  also have "\<dots> = prompt_front (pre # rest) n @ (if n < length rest then removed_notice (int (length rest - n)) else [])"
    unfolding drop_trailing_def Let_def map_map comp_def n_def [symmetric] kept length_map
    using n(1) by (simp add: of_nat_diff)
  finally have "truncate_prompt_to_budget tok ctx prompt estimated =
      prompt_front (pre # rest) n @ (if n < length rest then removed_notice (int (length rest - n)) else [])" .
  then show ?thesis using n(1) front fits by blast
qed

end
