(* ===== verification/Feed_Examples.thy ===== *)
theory Feed_Examples
  imports Feed_Packing Body_Cap
begin

text \<open>
  The packing on small inputs: a three-line file with one finding on its last line, three files in three
  tiers, a body of two blocks over its cap and a prompt of two files over its window.
\<close>

definition narrow_env :: env where
  "narrow_env = (\<lambda>k. if k = ''VULTURE_LLM_SNIPPET_CONTEXT'' then Some ''0'' else None)"

definition last_line_finding :: pydict where
  "last_line_finding = [(''file_path'', PStr ''x.py''), (''line_start'', PInt 3), (''line_end'', PInt 0)]"

lemma narrow_run:
  "present_findings_snippet narrow_env three_lines [last_line_finding] ''x.py'' None = Ret ''3: c''"
  "omitted_ranges narrow_env [last_line_finding] ''x.py'' (int (length (split_content_lines three_lines))) None = Ret [(1, 2)]"
  "present_findings_snippet narrow_env three_lines [last_line_finding] ''x.py'' (Some 0) = Ret ''3: c''"
  "present_findings_snippet narrow_env three_lines [last_line_finding] ''x.py'' (Some 1) = Ret (''2: b'' @ [NL] @ ''3: c'')"
  "line_numbers_enabled narrow_env" "whole_file_max_lines narrow_env = 0" "length (split_content_lines three_lines) = 3"
  by code_simp+

theorem header_names_exactly_the_hidden_lines_witness: "row_at (split_content_lines three_lines) 3 \<in> code_rows ''3: c''"
  using header_names_exactly_the_hidden_lines [OF narrow_run(1,2,5), of 3] narrow_run(6,7) by (simp add: gap_lines_def)

theorem wider_context_shows_more_witness: "code_rows ''3: c'' \<subseteq> code_rows (''2: b'' @ [NL] @ ''3: c'')"
  by (rule wider_context_shows_more [OF narrow_run(3,4)]) simp

theorem cited_lines_are_shown_witness: "row_at (split_content_lines three_lines) 3 \<in> code_rows ''3: c''"
proof (rule cited_lines_are_shown [OF narrow_run(3), of last_line_finding 3 0])
  show "names_file ''x.py'' last_line_finding = Ret True" by code_simp
  show "get_or last_line_finding ''line_start'' (PInt 0) = PInt 3" "get_or last_line_finding ''line_end'' (PInt 0) = PInt 0" by code_simp+
qed (simp_all add: narrow_run(7))

definition small_world :: feed_world where
  "small_world = \<lparr>fw_env = (\<lambda>_. None), fw_read = (\<lambda>p. if p = ''src/empty.py'' then Some '' '' else Some ''x = 1''), fw_size = (\<lambda>_. Some 5)\<rparr>"

definition small_files :: "string list" where
  "small_files = [''src/util.py'', ''src/main.py'', ''src/empty.py'', ''src/db.py'']"

definition small_findings :: "pydict list" where
  "small_findings = [[(''file_path'', PStr ''db.py''), (''line_start'', PInt 1)]]"

lemma small_runs:
  "prioritize_files small_world small_files ''src'' small_findings True = Ret [''src/db.py'', ''src/main.py'', ''src/util.py'', ''src/empty.py'']"
  "map_result (\<lambda>(body, paths). Ret paths) (case build_source_batches small_world small_files ''src'' 60 small_findings 2 of Inr bs \<Rightarrow> bs | Inl _ \<Rightarrow> [])
     = Ret [[''util.py'', ''main.py''], [''db.py'']]"
  "map_sum id snd (pack_files small_world small_files ''src'' 30 small_findings) = Ret [''util.py'']"
  by code_simp+

theorem prioritising_loses_no_file_witness: "mset [''src/db.py'', ''src/main.py'', ''src/util.py'', ''src/empty.py''] = mset small_files"
  using prioritising_loses_no_file [OF small_runs(1)] by blast

definition small_batches :: "(string \<times> string list) list" where
  "small_batches = (case build_source_batches small_world small_files ''src'' 60 small_findings 2 of Inr bs \<Rightarrow> bs | Inl _ \<Rightarrow> [])"

lemma small_batches_run: "build_source_batches small_world small_files ''src'' 60 small_findings 2 = Ret small_batches"
  by code_simp

theorem batches_cover_every_file_witness:
  "\<exists>bs. file_blocks small_world small_files ''src'' small_findings = Ret bs \<and> concat (map snd small_batches) = map fst bs"
  using batches_cover_every_file [OF small_batches_run] by blast

definition small_pack :: "string \<times> string list" where
  "small_pack = (case pack_files small_world small_files ''src'' 30 small_findings of Inr p \<Rightarrow> p | Inl _ \<Rightarrow> ([], []))"

lemma small_pack_run: "pack_files small_world small_files ''src'' 30 small_findings = Ret (fst small_pack, snd small_pack)"
  by code_simp

theorem packed_context_fits_witness: "int (length (fst small_pack)) \<le> 30"
  using packed_context_fits [OF small_pack_run] by simp

definition two_blocks :: string where
  "two_blocks = ''--- a ---'' @ [NL] @ replicate 90 (CHR ''x'') @ [NL, NL] @ ''--- b ---'' @ [NL] @ replicate 90 (CHR ''y'')"

lemma two_blocks_bytes: "bytes two_blocks = 202"
  by code_simp

theorem capped_body_fits_witness: "bytes (fst (enforce_body_byte_cap (\<lambda>_. None) two_blocks 150 None)) \<le> 150"
  by (rule capped_body_fits) (simp_all add: two_blocks_bytes BODY_TRUNCATION_NOTICE_BYTES_def)

theorem size_retry_halves_witness: "2 * bytes (fst (halve_source_context (\<lambda>_. None) two_blocks None)) \<le> 202"
  using size_retry_halves [of two_blocks "\<lambda>_. None" None] by (simp add: two_blocks_bytes)

theorem every_cut_is_counted_witness: "snd (enforce_body_byte_cap (\<lambda>_. None) two_blocks 150 (Some 4)) = Some 5"
  using every_cut_is_counted [of 150 "\<lambda>_. None" two_blocks 4] by (simp add: two_blocks_bytes)

definition two_files :: string where
  "two_files = ''p'' @ FILE_MARKER @ ''a'' @ FILE_MARKER @ ''b''"

definition flat_tok :: "string \<Rightarrow> int" where "flat_tok = (\<lambda>_. 10)"

lemma two_files_parts: "split_marker two_files = ''p'' # [''a'', ''b'']" "target_tokens 50 = 40"
  by code_simp+

theorem truncated_prompt_is_a_front_witness:
  "\<exists>n. n \<le> Suc (Suc 0) \<and> prefix (prompt_front [''p'', ''a'', ''b''] n) two_files"
  using truncated_prompt_is_a_front [OF two_files_parts(1), of None 50 flat_tok] by (auto simp: two_files_parts(2) flat_tok_def)

end
