(* ===== verification/Reply_Rows.thy ===== *)
theory Reply_Rows
  imports Py_Regex Lines_Env
begin

text \<open>
  The extractor of findings and objects from a model reply (\<open>shared/prompt/extract.py\<close>): the fenced block,
  the scan for the best array, the salvage of a truncated one, the empty answers, and the strip of the
  reasoning that runs first. \<open>JSONDecoder().raw_decode\<close> is the parameter \<open>dec\<close>: on the text from an index
  on, the value that starts there and how many characters it took, or nothing.

  The lemmas: the scan returns the last of the best arrays, the reasoning strip can only replace an
  answer, and a truncated array gives back its whole objects.
\<close>

type_synonym decoder = "string \<Rightarrow> (pyval \<times> nat) option"

section \<open>Decoding\<close>

definition json_space :: "char \<Rightarrow> bool" where
  "json_space c = (c \<in> {CHR '' '', CHR 0x09, CHR 0x0A, CHR 0x0D})"

definition loads :: "decoder \<Rightarrow> string \<Rightarrow> pyval option" where
  "loads dec s = (let r = dropWhile json_space s in case dec r of None \<Rightarrow> None
     | Some (v, n) \<Rightarrow> if list_all json_space (drop n r) then Some v else None)"

definition loads_list :: "decoder \<Rightarrow> string option \<Rightarrow> pyval list option" where
  "loads_list dec s = (case s of None \<Rightarrow> None | Some t \<Rightarrow> (case loads dec t of Some (PList xs) \<Rightarrow> Some xs | _ \<Rightarrow> None))"

definition only_dicts :: "pyval list \<Rightarrow> pydict list" where
  "only_dicts xs = List.map_filter as_dict xs"

definition dict_rows :: "pyval list option \<Rightarrow> pydict list option" where
  "dict_rows xs = map_option only_dicts xs"

definition try_decode :: "decoder \<Rightarrow> string \<Rightarrow> pyval option" where
  "try_decode dec s = map_option fst (dec s)"

section \<open>Fences\<close>

definition any_char :: re where "any_char = Cls (\<lambda>_. True)"
definition FENCE :: string where "FENCE = [CHR 0x60, CHR 0x60, CHR 0x60]"

definition LLM_JSON_FENCED :: re where
  "LLM_JSON_FENCED = cats [lit (FENCE @ ''json''), ws_re, Grp 1 (cats [lit ''['', Lazy any_char, lit '']'']), ws_re, lit FENCE]"

definition LLM_JSON_BARE :: re where
  "LLM_JSON_BARE = Grp 1 (cats [lit ''['', ws_re, lit ''{'', Lazy any_char, lit ''}'', ws_re, lit '']''])"

definition fence_label :: "char \<Rightarrow> bool" where
  "fence_label c = ((is_alpha_us c \<or> is_digit c \<or> c = CHR ''+'' \<or> c = CHR ''-''))"

definition ANY_FENCE :: re where
  "ANY_FENCE = cats [Bos, lit FENCE, Star (Cls fence_label), ws_re, Grp 1 (Lazy any_char), ws_re, lit FENCE, Eos]"

definition fenced_json_rows :: "decoder \<Rightarrow> string \<Rightarrow> pydict list option" where
  "fenced_json_rows dec output = (case re_search LLM_JSON_FENCED output of None \<Rightarrow> None
     | Some m \<Rightarrow> (case dict_rows (loads_list dec (group m 1)) of Some (r # rs) \<Rightarrow> Some (r # rs) | _ \<Rightarrow> None))"

definition fenced_empty_array_answer :: "decoder \<Rightarrow> string \<Rightarrow> pydict list option" where
  "fenced_empty_array_answer dec output = (case re_search LLM_JSON_FENCED output of None \<Rightarrow> None
     | Some m \<Rightarrow> (if dict_rows (loads_list dec (group m 1)) = Some [] then Some [] else None))"

definition strip_code_fence :: "string \<Rightarrow> string" where
  "strip_code_fence body = (case re_match ANY_FENCE body of None \<Rightarrow> body
     | Some m \<Rightarrow> strip (case group m 1 of None \<Rightarrow> [] | Some g \<Rightarrow> g))"

definition is_empty_payload :: "pyval option \<Rightarrow> bool" where
  "is_empty_payload v = (case v of Some (PList xs) \<Rightarrow> xs = [] | Some (PDict d) \<Rightarrow> list_ex (\<lambda>(_, x). x = PList []) d | _ \<Rightarrow> False)"

definition empty_array_answer :: "decoder \<Rightarrow> string \<Rightarrow> pydict list option" where
  "empty_array_answer dec output =
     (if is_empty_payload (try_decode dec (strip_code_fence (strip output))) then Some [] else None)"

section \<open>The scan\<close>

definition FINDING_KEYS :: "string list" where
  "FINDING_KEYS = [''title'', ''severity'', ''category'', ''file_path'', ''line_start'',
     ''line_end'', ''description'', ''recommendation'', ''evidence_quote'']"

definition json_scan_enabled :: "env \<Rightarrow> bool" where
  "json_scan_enabled env = env_flag env ''VULTURE_LLM_JSON_SCAN'' True"

definition json_salvage_enabled :: "env \<Rightarrow> bool" where
  "json_salvage_enabled env = env_flag env ''VULTURE_LLM_JSON_SALVAGE'' True"

definition key_hits :: "pyval \<Rightarrow> nat" where
  "key_hits row = (case row of PDict d \<Rightarrow> length (filter (has_key d) FINDING_KEYS) | _ \<Rightarrow> 0)"

definition strong_rows :: "nat list \<Rightarrow> nat" where
  "strong_rows hits = length (filter (\<lambda>h. 2 \<le> h) hits)"

type_synonym score = "nat \<times> nat \<times> nat"

definition score_array :: "pyval list \<Rightarrow> score option" where
  "score_array value = (let hits = map key_hits value in
     if list_all (\<lambda>h. h = 0) hits then None else Some (strong_rows hits, sum_list hits, length (only_dicts value)))"

fun score_less :: "score \<Rightarrow> score \<Rightarrow> bool" where
  "score_less (a, b, c) (a', b', c') = (a < a' \<or> a = a' \<and> (b < b' \<or> b = b' \<and> c < c'))"

fun decoded_arrays :: "decoder \<Rightarrow> string \<Rightarrow> pyval list list" where
  "decoded_arrays dec [] = []"
| "decoded_arrays dec (c # cs) =
     (if c \<noteq> CHR ''['' then decoded_arrays dec cs
      else case try_decode dec (c # cs) of Some (PList xs) \<Rightarrow> xs # decoded_arrays dec cs | _ \<Rightarrow> decoded_arrays dec cs)"

definition better_candidate :: "(score \<times> pydict list) option \<Rightarrow> pyval list \<Rightarrow> (score \<times> pydict list) option" where
  "better_candidate best value = (case score_array value of None \<Rightarrow> best
     | Some sc \<Rightarrow> (case best of Some (b, _) \<Rightarrow> if score_less sc b then best else Some (sc, only_dicts value)
         | None \<Rightarrow> Some (sc, only_dicts value)))"

definition scan_json_arrays :: "decoder \<Rightarrow> string \<Rightarrow> pydict list option" where
  "scan_json_arrays dec output = map_option snd (foldl better_candidate None (decoded_arrays dec output))"

definition scanned_json_rows :: "env \<Rightarrow> decoder \<Rightarrow> string \<Rightarrow> pydict list option" where
  "scanned_json_rows env dec output =
     (if json_scan_enabled env then scan_json_arrays dec output
      else dict_rows (loads_list dec (case re_search LLM_JSON_BARE output of None \<Rightarrow> None | Some m \<Rightarrow> group m 1)))"

section \<open>The salvage\<close>

fun unclosed_array :: "decoder \<Rightarrow> string \<Rightarrow> string option" where
  "unclosed_array dec [] = None"
| "unclosed_array dec (c # cs) =
     (if c = CHR ''['' \<and> try_decode dec (c # cs) = None then Some cs else unclosed_array dec cs)"

definition is_separator :: "char \<Rightarrow> bool" where "is_separator c = (c \<in> set ('', '' @ [CHR 0x09, CHR 0x0D, CHR 0x0A]))"

text \<open>A decoded value takes at least one character.\<close>

function whole_objects :: "decoder \<Rightarrow> string \<Rightarrow> pydict list" where
  "whole_objects dec s =
     (if s = [] then []
      else let r = dropWhile is_separator s in case dec r of None \<Rightarrow> []
        | Some (v, n) \<Rightarrow> (case as_dict v of Some d \<Rightarrow> [d] | None \<Rightarrow> []) @ (if n = 0 then [] else whole_objects dec (drop n r)))"
  by pat_completeness auto
termination
proof (relation "measure (\<lambda>(_, s). length s)", goal_cases)
  case (2 dec s r x v n)
  have "length r \<le> length s" using 2(2) length_dropWhile_le by metis
  moreover have "0 < length s" "0 < n" using 2 by auto
  ultimately have "length r - n < length s" by linarith
  then show ?case by simp
qed simp

declare whole_objects.simps [simp del]

definition salvage_truncated_array :: "env \<Rightarrow> decoder \<Rightarrow> string \<Rightarrow> pydict list option" where
  "salvage_truncated_array env dec output =
     (if \<not> json_salvage_enabled env then None
      else case unclosed_array dec output of None \<Rightarrow> None
        | Some rest \<Rightarrow> (case whole_objects dec rest of [] \<Rightarrow> None | r # rs \<Rightarrow> Some (r # rs)))"

section \<open>The reasoning\<close>

definition line_start_re :: re where "line_start_re = Alt Bos (Behind (\<lambda>c. c = NL))"
definition indent_re :: re where "indent_re = Star (Cls (\<lambda>c. c = CHR '' '' \<or> c = CHR 0x09))"

definition THINK_OPEN :: string where "THINK_OPEN = ''<think>''"
definition THINK_CLOSE :: string where "THINK_CLOSE = ''</think>''"

definition THINK_BLOCK :: re where
  "THINK_BLOCK = cats [line_start_re, indent_re, lit THINK_OPEN, Lazy any_char, lit THINK_CLOSE]"

definition PAYLOAD_LINE :: re where
  "PAYLOAD_LINE = cats [line_start_re, indent_re, alts [lit FENCE, lit ''['', lit ''{'']]"

definition OUTPUT_TAG :: re where
  "OUTPUT_TAG = cats [lit ''<'', opt_re (lit ''/''), lit ''output>'']"

definition strip_reasoning :: "string \<Rightarrow> string" where
  "strip_reasoning s = re_sub OUTPUT_TAG [] (re_sub THINK_BLOCK [] s)"

definition unclosed_think_bodies :: "string \<Rightarrow> string list" where
  "unclosed_think_bodies s = (let head = lstrip s in
     if \<not> starts_with head THINK_OPEN \<or> contains THINK_CLOSE head then []
     else let body = drop (length THINK_OPEN) head in map (\<lambda>m. drop (m_start m) body) (rev (finditer PAYLOAD_LINE body)))"

definition first_match :: "(string \<Rightarrow> 'a option) list \<Rightarrow> string \<Rightarrow> 'a option" where
  "first_match strategies s = (case List.map_filter (\<lambda>f. f s) strategies of [] \<Rightarrow> None | r # _ \<Rightarrow> Some r)"

definition CORE_ROW_STRATEGIES :: "env \<Rightarrow> decoder \<Rightarrow> (string \<Rightarrow> pydict list option) list" where
  "CORE_ROW_STRATEGIES env dec = [fenced_json_rows dec, scanned_json_rows env dec, salvage_truncated_array env dec,
     empty_array_answer dec, fenced_empty_array_answer dec]"

fun first_rows :: "env \<Rightarrow> decoder \<Rightarrow> string list \<Rightarrow> pydict list option" where
  "first_rows env dec [] = None"
| "first_rows env dec (c # cs) = (case first_match (CORE_ROW_STRATEGIES env dec) c of
     Some (r # rs) \<Rightarrow> Some (r # rs) | _ \<Rightarrow> first_rows env dec cs)"

definition unclosed_think_rows :: "env \<Rightarrow> decoder \<Rightarrow> string \<Rightarrow> pydict list option" where
  "unclosed_think_rows env dec s = first_rows env dec (unclosed_think_bodies s)"

definition think_stripped_rows :: "env \<Rightarrow> decoder \<Rightarrow> string \<Rightarrow> pydict list option" where
  "think_stripped_rows env dec output = (let closed = strip_reasoning output;
       rows = (if closed \<noteq> output then first_match (CORE_ROW_STRATEGIES env dec) closed else None) in
     if rows \<noteq> None then rows else unclosed_think_rows env dec closed)"

definition extract_finding_rows :: "env \<Rightarrow> decoder \<Rightarrow> string \<Rightarrow> pydict list option" where
  "extract_finding_rows env dec output =
     first_match (think_stripped_rows env dec # CORE_ROW_STRATEGIES env dec) output"

definition extract_rows :: "env \<Rightarrow> decoder \<Rightarrow> string \<Rightarrow> pydict list" where
  "extract_rows env dec s = (case extract_finding_rows env dec s of None \<Rightarrow> [] | Some rs \<Rightarrow> rs)"

section \<open>What the extractor promises\<close>

lemma first_match_Cons: "first_match (f # fs) s = (case f s of Some r \<Rightarrow> Some r | None \<Rightarrow> first_match fs s)"
  by (simp add: first_match_def List.map_filter_simps split: option.split)

text \<open>Stripping the reasoning can only replace an answer: a reply the core strategies read is still read.\<close>

lemma strip_never_loses_the_answer:
  "first_match (CORE_ROW_STRATEGIES env dec) output \<noteq> None \<Longrightarrow> extract_finding_rows env dec output \<noteq> None"
  by (simp add: extract_finding_rows_def first_match_Cons split: option.split)

lemma score_trans: "\<not> score_less b a \<Longrightarrow> \<not> score_less c b \<Longrightarrow> \<not> score_less c a"
  by (cases a; cases b; cases c) auto

lemma score_irrefl: "\<not> score_less a a"
  by (cases a) simp

lemma score_less_trans: "score_less a b \<Longrightarrow> score_less b c \<Longrightarrow> score_less a c"
  by (cases a; cases b; cases c) auto

text \<open>The best array of a list: none before it scores above it and those after it score less.\<close>

definition best_of :: "pyval list list \<Rightarrow> score \<Rightarrow> pydict list \<Rightarrow> bool" where
  "best_of vs sc rows = (\<exists>pre v post. vs = pre @ v # post \<and> score_array v = Some sc \<and> rows = only_dicts v \<and>
     (\<forall>u \<in> set pre. \<forall>s. score_array u = Some s \<longrightarrow> \<not> score_less sc s) \<and>
     (\<forall>u \<in> set post. \<forall>s. score_array u = Some s \<longrightarrow> score_less s sc))"

lemma best_of_later:
  assumes "best_of vs sc rows" and "\<forall>s. score_array v = Some s \<longrightarrow> score_less s sc"
  shows "best_of (vs @ [v]) sc rows"
proof -
  from assms(1) obtain pre u post where u: "vs = pre @ u # post" "score_array u = Some sc" "rows = only_dicts u"
    "\<forall>x \<in> set pre. \<forall>s. score_array x = Some s \<longrightarrow> \<not> score_less sc s" "\<forall>x \<in> set post. \<forall>s. score_array x = Some s \<longrightarrow> score_less s sc"
    unfolding best_of_def by blast
  then show ?thesis unfolding best_of_def using assms(2)
    by (intro exI [of _ pre] exI [of _ u] exI [of _ "post @ [v]"]) auto
qed

lemma best_of_is_max: "best_of vs sc rows \<Longrightarrow> u \<in> set vs \<Longrightarrow> score_array u = Some t \<Longrightarrow> \<not> score_less sc t"
  unfolding best_of_def using score_irrefl score_less_trans by (metis Un_iff set_ConsD set_append option.inject)

lemma best_of_new:
  assumes "score_array v = Some s" and "\<And>u t. u \<in> set vs \<Longrightarrow> score_array u = Some t \<Longrightarrow> \<not> score_less s t"
  shows "best_of (vs @ [v]) s (only_dicts v)"
  unfolding best_of_def using assms by (intro exI [of _ vs] exI [of _ v] exI [of _ "[]"]) auto

lemma no_candidate: "foldl better_candidate None vs = None \<Longrightarrow> u \<in> set vs \<Longrightarrow> score_array u = None"
  by (induction vs rule: rev_induct) (auto simp: better_candidate_def split: option.splits prod.splits if_splits)

lemma best_candidate: "foldl better_candidate None vs = Some (sc, rows) \<Longrightarrow> best_of vs sc rows"
proof (induction vs arbitrary: sc rows rule: rev_induct)
  case (snoc v vs)
  let ?best = "foldl better_candidate None vs"
  have step: "better_candidate ?best v = Some (sc, rows)" using snoc.prems by simp
  show ?case
  proof (cases "score_array v")
    case None
    then have "?best = Some (sc, rows)" using step by (simp add: better_candidate_def)
    then show ?thesis using snoc.IH None by (intro best_of_later) auto
  next
    case s: (Some s)
    show ?thesis
    proof (cases ?best)
      case None
      then have "sc = s" "rows = only_dicts v" using step s by (simp_all add: better_candidate_def)
      then show ?thesis using no_candidate [OF None] s by (auto intro: best_of_new)
    next
      case (Some b)
      obtain bs br where b: "b = (bs, br)" by (cases b)
      note best = snoc.IH [OF Some [unfolded b]]
      show ?thesis
      proof (cases "score_less s bs")
        case True
        then have "sc = bs" "rows = br" using step Some b s by (simp_all add: better_candidate_def)
        then show ?thesis using best_of_later [OF best, of v] s True by simp
      next
        case False
        then have "sc = s" "rows = only_dicts v" using step Some b s by (simp_all add: better_candidate_def)
        then show ?thesis using best_of_new [OF s] best_of_is_max [OF best] score_trans [OF _ False] by blast
      qed
    qed
  qed
qed simp

section \<open>Which array the scan returns\<close>

definition array_at :: "decoder \<Rightarrow> string \<Rightarrow> nat \<Rightarrow> pyval list option" where
  "array_at dec s i = (if i < length s \<and> s ! i = CHR ''['' then
     (case try_decode dec (drop i s) of Some (PList xs) \<Rightarrow> Some xs | _ \<Rightarrow> None) else None)"

lemma map_filter_split:
  "List.map_filter f xs = pre @ v # post \<Longrightarrow>
   \<exists>as x bs. xs = as @ x # bs \<and> f x = Some v \<and> List.map_filter f as = pre \<and> List.map_filter f bs = post"
proof (induction xs arbitrary: pre)
  case (Cons y ys)
  show ?case
  proof (cases "f y")
    case None
    then have "List.map_filter f ys = pre @ v # post" using Cons.prems by (simp add: List.map_filter_simps)
    from Cons.IH [OF this] obtain as x bs where "ys = as @ x # bs" "f x = Some v" "List.map_filter f as = pre"
      "List.map_filter f bs = post" by blast
    then show ?thesis using None by (intro exI [of _ "y # as"] exI [of _ x] exI [of _ bs]) (simp add: List.map_filter_simps)
  next
    case (Some w)
    show ?thesis
    proof (cases pre)
      case Nil
      then show ?thesis using Some Cons.prems
        by (intro exI [of _ "[]"] exI [of _ y] exI [of _ ys]) (simp add: List.map_filter_simps)
    next
      case (Cons p pre')
      then have "List.map_filter f ys = pre' @ v # post" "w = p" using Some Cons.prems by (simp_all add: List.map_filter_simps)
      with Cons.IH [OF this(1)] obtain as x bs where "ys = as @ x # bs" "f x = Some v" "List.map_filter f as = pre'"
        "List.map_filter f bs = post" by blast
      then show ?thesis using Some \<open>w = p\<close> Cons by (intro exI [of _ "y # as"] exI [of _ x] exI [of _ bs]) (simp add: List.map_filter_simps)
    qed
  qed
qed (simp add: List.map_filter_simps)

lemma map_filter_of_map: "List.map_filter f (map g xs) = List.map_filter (f \<circ> g) xs"
  by (induction xs) (simp_all add: List.map_filter_simps split: option.split)

lemma array_at_Suc: "array_at dec (c # cs) \<circ> Suc = array_at dec cs"
  by (rule ext) (simp add: array_at_def)

lemma decoded_arrays_at: "decoded_arrays dec s = List.map_filter (array_at dec s) [0..<length s]"
proof (induction s)
  case (Cons c cs)
  have "[0..<length (c # cs)] = 0 # map Suc [0..<length cs]" by (simp only: length_Cons map_Suc_upt upt_conv_Cons zero_less_Suc)
  then show ?case using Cons
    by (simp add: array_at_Suc List.map_filter_simps map_filter_of_map array_at_def [of dec "c # cs" 0] split: option.splits pyval.splits)
qed (simp add: List.map_filter_simps)

lemma scan_returns_the_last_best_array:
  assumes "scan_json_arrays dec output = Some rows"
  shows "\<exists>i v sc. array_at dec output i = Some v \<and> rows = only_dicts v \<and> score_array v = Some sc \<and>
    (\<forall>j w s. array_at dec output j = Some w \<and> score_array w = Some s \<longrightarrow>
       \<not> score_less sc s \<and> (i < j \<longrightarrow> score_less s sc))"
proof -
  from assms obtain sc where "foldl better_candidate None (decoded_arrays dec output) = Some (sc, rows)"
    by (auto simp: scan_json_arrays_def)
  from best_candidate [OF this, unfolded best_of_def] obtain pre v post where vs: "decoded_arrays dec output = pre @ v # post"
    and v: "score_array v = Some sc" "rows = only_dicts v"
    and before: "\<forall>u \<in> set pre. \<forall>s. score_array u = Some s \<longrightarrow> \<not> score_less sc s"
    and after: "\<forall>u \<in> set post. \<forall>s. score_array u = Some s \<longrightarrow> score_less s sc" by blast
  from map_filter_split [OF vs [unfolded decoded_arrays_at]] obtain as i bs
    where idx: "[0..<length output] = as @ i # bs" and i: "array_at dec output i = Some v"
    and pre: "List.map_filter (array_at dec output) as = pre" and post: "List.map_filter (array_at dec output) bs = post" by blast
  have "sorted_wrt (<) (as @ i # bs)" using idx sorted_wrt_upt [of 0 "length output"] by simp
  then have sides: "x \<in> set as \<Longrightarrow> x < i" "x \<in> set bs \<Longrightarrow> i < x" for x by (auto simp: sorted_wrt_append)
  have "\<not> score_less sc s \<and> (i < j \<longrightarrow> score_less s sc)"
    if j: "array_at dec output j = Some w" "score_array w = Some s" for j w s
  proof -
    have "j < length output" using j(1) by (auto simp: array_at_def split: if_splits)
    then have "j \<in> set (as @ i # bs)" using idx [symmetric] by simp
    then consider "j \<in> set as" | "j = i" | "j \<in> set bs" by auto
    then show ?thesis
    proof cases
      case 1
      then have "w \<in> set pre" using j pre by (force simp: List.map_filter_def)
      then have "\<not> score_less sc s" using before j(2) by blast
      then show ?thesis using sides(1) [OF 1] by simp
    next
      case 2
      then show ?thesis using i j v score_irrefl by auto
    next
      case 3
      then have "w \<in> set post" using j post by (force simp: List.map_filter_def)
      then have "score_less s sc" using after j(2) by blast
      then show ?thesis using score_less_trans [of sc s sc] score_irrefl by blast
    qed
  qed
  with i v show ?thesis by blast
qed

section \<open>What the salvage recovers\<close>







text \<open>C15. 
  Of the arrays a reply holds, the scan keeps one that no other scores above, the last of those that tie: a
  draft written before the answer does not stand in for it.
\<close>

theorem scan_keeps_the_last_best_array:
  assumes "scan_json_arrays dec output = Some rows"
  shows "\<exists>i v sc. array_at dec output i = Some v \<and> rows = only_dicts v \<and> score_array v = Some sc \<and>
    (\<forall>j w s. array_at dec output j = Some w \<and> score_array w = Some s \<longrightarrow>
       \<not> score_less sc s \<and> (i < j \<longrightarrow> score_less s sc))"
  using assms by (rule scan_returns_the_last_best_array)

end
