(* ===== verification/Reply_Object.thy ===== *)
theory Reply_Object
  imports Reply_Rows Json_Scan
begin

text \<open>
  The one JSON object of a reply (\<open>shared/prompt/extract.py\<close>, the object strategies): the whole answer, the
  object after a preamble, the fenced one, and the first balanced braces, each tried first on the text
  without its reasoning.

  The lemmas: the brace matcher finds the span the generator of \<open>shared/llm/jsonscan.py\<close> yields first, for a
  text whose escapes stand inside strings, and the two part company on an escape outside one.
\<close>

section \<open>Braces outside strings\<close>

fun unquoted_chars :: "bool \<Rightarrow> nat \<Rightarrow> string \<Rightarrow> (nat \<times> char) list" where
  "unquoted_chars in_string i [] = []"
| "unquoted_chars in_string i (c # cs) =
     (if c = backslash then unquoted_chars in_string (i + 2) (drop 1 cs)
      else if c = quote_char then unquoted_chars (\<not> in_string) (i + 1) cs
      else if in_string then unquoted_chars in_string (i + 1) cs
      else (i, c) # unquoted_chars in_string (i + 1) cs)"

definition brace_depth :: "char \<Rightarrow> int" where
  "brace_depth c = (if c = CHR ''{'' then 1 else if c = CHR ''}'' then - 1 else 0)"

fun brace_exit :: "int \<Rightarrow> (nat \<times> char) list \<Rightarrow> nat option" where
  "brace_exit depth [] = None"
| "brace_exit depth ((i, c) # r) = (let d = depth + brace_depth c in if d = 0 \<and> c = CHR ''}'' then Some i else brace_exit d r)"

text \<open>On the text from the opening brace on; the index counts from that brace.\<close>

definition matching_brace :: "string \<Rightarrow> nat option" where
  "matching_brace s = brace_exit 0 (unquoted_chars False 0 s)"

section \<open>The strategies\<close>

definition direct_object :: "decoder \<Rightarrow> string \<Rightarrow> pydict option" where
  "direct_object dec s = (case try_decode dec (strip s) of Some (PDict d) \<Rightarrow> Some d | _ \<Rightarrow> None)"

definition THINKING_PREAMBLE :: re where
  "THINKING_PREAMBLE = cats [Bos, Lazy any_char,
     alts [lit ''Thinking Process'', lit ''Analysis'', lit ''Reasoning'', lit ''Thought'',
       cats [lit ''Step'', Cls (\<lambda>c. c \<in> set ''- ''), lit ''by'', Cls (\<lambda>c. c \<in> set ''- ''), lit ''Step''], lit ''Let me''],
     Lazy any_char, Ahead (lit ''{'')]"

definition preamble_object :: "decoder \<Rightarrow> string \<Rightarrow> pydict option" where
  "preamble_object dec s = (let body = strip s in
     if re_match THINKING_PREAMBLE body = None \<or> CHR ''{'' \<notin> set body then None
     else direct_object dec (dropWhile (\<lambda>c. c \<noteq> CHR ''{'') body))"

fun fence_capture :: "bool \<Rightarrow> string list \<Rightarrow> string list" where
  "fence_capture in_fence [] = []"
| "fence_capture in_fence (l # ls) =
     (if starts_with (strip l) FENCE then fence_capture (\<not> in_fence) ls
      else if in_fence then l # fence_capture in_fence ls else fence_capture in_fence ls)"

definition fenced_lines :: "string \<Rightarrow> string" where
  "fenced_lines s = (let captured = fence_capture False (split_nl s) in
     if captured = [] then s else strip (join [NL] captured))"

definition fenced_object :: "decoder \<Rightarrow> string \<Rightarrow> pydict option" where
  "fenced_object dec s = (let body = strip s in
     if \<not> contains FENCE body then None else direct_object dec (fenced_lines body))"

text \<open>On the text from the brace on; the retry starts at the next brace before the end of the span.\<close>

function balanced_from :: "decoder \<Rightarrow> string \<Rightarrow> pydict option" where
  "balanced_from dec s = (case matching_brace s of None \<Rightarrow> None
     | Some e \<Rightarrow> (case try_decode dec (take (Suc e) s) of Some (PDict d) \<Rightarrow> Some d
         | _ \<Rightarrow> (case find_sub ''{'' (tl s) of None \<Rightarrow> None
             | Some j \<Rightarrow> if s \<noteq> [] \<and> Suc j < e then balanced_from dec (drop (Suc j) s) else None)))"
  by pat_completeness auto
termination
  by (relation "measure (\<lambda>(_, s). length s)") auto

declare balanced_from.simps [simp del]

definition balanced_object :: "decoder \<Rightarrow> string \<Rightarrow> pydict option" where
  "balanced_object dec s = (case find_sub ''{'' s of None \<Rightarrow> None | Some i \<Rightarrow> balanced_from dec (drop i s))"

definition CORE_OBJECT_STRATEGIES :: "decoder \<Rightarrow> (string \<Rightarrow> pydict option) list" where
  "CORE_OBJECT_STRATEGIES dec = [direct_object dec, preamble_object dec, fenced_object dec, balanced_object dec]"

fun unclosed_think_object :: "decoder \<Rightarrow> string list \<Rightarrow> pydict option" where
  "unclosed_think_object dec [] = None"
| "unclosed_think_object dec (c # cs) = (case first_match (CORE_OBJECT_STRATEGIES dec) c of
     Some (p # d) \<Rightarrow> Some (p # d) | _ \<Rightarrow> unclosed_think_object dec cs)"

definition think_stripped_object :: "decoder \<Rightarrow> string \<Rightarrow> pydict option" where
  "think_stripped_object dec s = (let closed = strip_reasoning s;
       found = (if closed \<noteq> s then first_match (CORE_OBJECT_STRATEGIES dec) closed else None) in
     if found \<noteq> None then found else unclosed_think_object dec (unclosed_think_bodies closed))"

definition extract_object :: "decoder \<Rightarrow> string \<Rightarrow> pydict option" where
  "extract_object dec s = first_match (think_stripped_object dec # CORE_OBJECT_STRATEGIES dec) s"

section \<open>The two brace matchers\<close>

text \<open>Every escape stands inside a string.\<close>

fun escapes_in_strings :: "bool \<Rightarrow> string \<Rightarrow> bool" where
  "escapes_in_strings in_string [] = True"
| "escapes_in_strings in_string (c # cs) =
     (if c = backslash then in_string \<and> escapes_in_strings in_string (drop 1 cs)
      else escapes_in_strings (if c = quote_char then \<not> in_string else in_string) cs)"

lemma brace_facts [simp]:
  "backslash \<noteq> quote_char" "backslash \<noteq> CHR ''{''" "backslash \<noteq> CHR ''}''" "quote_char \<noteq> CHR ''{''" "quote_char \<noteq> CHR ''}''"
  "quote_char \<noteq> backslash" "CHR ''{'' \<noteq> backslash" "CHR ''}'' \<noteq> backslash" "CHR ''{'' \<noteq> quote_char" "CHR ''}'' \<noteq> quote_char"
  by (simp_all add: backslash_def quote_char_def)

lemma span_and_exit:
  "0 < depth \<Longrightarrow> escapes_in_strings in_string cs \<Longrightarrow>
   (case brace_exit (int depth) (unquoted_chars in_string i cs) of
      None \<Rightarrow> objects_from depth acc in_string False cs = []
    | Some e \<Rightarrow> i \<le> e \<and> (\<exists>more. objects_from depth acc in_string False cs = (rev acc @ take (Suc (e - i)) cs) # more))"
proof (induction in_string i cs arbitrary: depth acc rule: unquoted_chars.induct)
  case (2 in_string i c cs)
  consider (esc) "c = backslash" "in_string" | (quot) "c = quote_char" | (inside) "c \<noteq> backslash" "c \<noteq> quote_char" "in_string"
    | (outside) "c \<noteq> backslash" "c \<noteq> quote_char" "\<not> in_string" using "2.prems" by (auto split: if_splits)
  then show ?case
  proof cases
    case esc
    show ?thesis
    proof (cases cs)
      case (Cons d ds)
      have ih: "case brace_exit (int depth) (unquoted_chars in_string (i + 2) ds) of
          None \<Rightarrow> objects_from depth (d # c # acc) in_string False ds = []
        | Some e \<Rightarrow> i + 2 \<le> e \<and> (\<exists>more. objects_from depth (d # c # acc) in_string False ds =
            (rev (d # c # acc) @ take (Suc (e - (i + 2))) ds) # more)"
        using "2.IH"(1) [of depth "d # c # acc"] "2.prems" esc Cons by (simp split: option.splits)
      then show ?thesis using esc Cons "2.prems"(1) by (auto simp: take_Cons' Suc_diff_Suc split: option.splits)
    qed (use esc "2.prems"(1) in simp)
  next
    case quot
    then show ?thesis using "2.IH"(2) [of depth "c # acc"] "2.prems" by (auto simp: take_Cons' Suc_diff_Suc Let_def split: option.splits)
  next
    case inside
    then show ?thesis using "2.IH"(3) [of depth "c # acc"] "2.prems" by (auto simp: take_Cons' Suc_diff_Suc Let_def split: option.splits)
  next
    case outside
    consider (deeper) "c = CHR ''{''" | (last_one) "c = CHR ''}''" "depth = 1" | (up) "c = CHR ''}''" "1 < depth"
      | (other) "c \<noteq> CHR ''{''" "c \<noteq> CHR ''}''" using "2.prems"(1) by linarith
    then show ?thesis
    proof cases
      case deeper
      then show ?thesis using outside "2.IH"(4) [of "depth + 1" "c # acc"] "2.prems"
        by (auto simp: brace_depth_def take_Cons' Suc_diff_Suc Let_def add.commute split: option.splits)
    next
      case last_one
      then show ?thesis using outside by (simp add: brace_depth_def)
    next
      case up
      then show ?thesis using outside "2.IH"(4) [of "depth - 1" "c # acc"] "2.prems"
        by (auto simp: brace_depth_def take_Cons' Suc_diff_Suc Let_def of_nat_diff split: option.splits)
    next
      case other
      then show ?thesis using outside "2.IH"(4) [of depth "c # acc"] "2.prems"
        by (auto simp: brace_depth_def take_Cons' Suc_diff_Suc Let_def split: option.splits)
    qed
  qed
qed simp

text \<open>C23. 
  The brace matcher of the reply extractor and the generator of balanced objects are one function on a text that
  opens with a brace and keeps its escapes inside strings.
\<close>

theorem brace_matchers_agree:
  assumes "escapes_in_strings False s" and "starts_with s ''{''"
  shows "map_option (\<lambda>e. take (Suc e) s) (matching_brace s)
    = (case iter_balanced_objects s of [] \<Rightarrow> None | w # _ \<Rightarrow> Some w)"
proof -
  obtain cs where s: "s = CHR ''{'' # cs" using assms(2) by (cases s) (auto simp: starts_with_def)
  have "escapes_in_strings False cs" using assms(1) s by simp
  from span_and_exit [where depth = 1 and i = "Suc 0" and acc = "[CHR ''{'']", OF _ this] show ?thesis
    by (auto simp: s matching_brace_def iter_balanced_objects_def brace_depth_def Let_def split: option.splits)
qed

text \<open>An escape outside a string hides the brace after it from one of the two only.\<close>

lemma brace_matchers_part:
  "matching_brace [CHR ''{'', backslash, CHR ''}''] = None"
  "iter_balanced_objects [CHR ''{'', backslash, CHR ''}''] = [[CHR ''{'', backslash, CHR ''}'']]"
  by (simp_all add: matching_brace_def iter_balanced_objects_def brace_depth_def)

text \<open>A reply that is the object, with no reasoning around it, is returned as it is.\<close>

lemma whole_object_is_returned:
  assumes "dec (strip s) = Some (PDict d, n)" and "strip_reasoning s = s" and "unclosed_think_bodies s = []"
  shows "extract_object dec s = Some d"
  using assms by (simp add: extract_object_def think_stripped_object_def first_match_Cons CORE_OBJECT_STRATEGIES_def
      direct_object_def try_decode_def)

end
