(* ===== verification/Finding_Intake.thy ===== *)
theory Finding_Intake
  imports Reply_Object Choke_Point "HOL-Library.Multiset"
begin

text \<open>
  The intake of a model reply (\<open>shared/audit_runner.py\<close>): the rows of a structured or a text answer, the
  normaliser every row passes, the contract failure of an answer nothing could be read from, and the
  score of an audit.

  The lemmas: a normalised row is well typed whatever the model wrote, a reply never makes the choke
  point raise, and the score stays between 5 and 100 and never rises with a finding.
\<close>

section \<open>Severity\<close>

definition SEVERITY_ALIASES :: "(string \<times> string) list" where
  "SEVERITY_ALIASES =
     [(''c'', ''critical''), (''crit'', ''critical''), (''critical'', ''critical''), (''h'', ''high''), (''high'', ''high''),
      (''m'', ''medium''), (''med'', ''medium''), (''medium'', ''medium''), (''l'', ''low''), (''low'', ''low''),
      (''i'', ''info''), (''info'', ''info''), (''informational'', ''info'')]"

definition SEVERITY_WEIGHTS :: "(string \<times> rat) list" where
  "SEVERITY_WEIGHTS = [(''critical'', 10), (''high'', 4), (''medium'', 3 / 2), (''low'', 1 / 2), (''info'', 0)]"

definition normalize_severity :: "string \<Rightarrow> string" where
  "normalize_severity raw = (case map_of SEVERITY_ALIASES (strip (lower raw)) of None \<Rightarrow> ''info'' | Some s \<Rightarrow> s)"

section \<open>A row\<close>

definition coerce_path :: "pyval \<Rightarrow> string" where
  "coerce_path v = (case v of PStr s \<Rightarrow> s | PNone \<Rightarrow> [] | _ \<Rightarrow> py_str v)"

definition coerce_lines_enabled :: "env \<Rightarrow> bool" where
  "coerce_lines_enabled env = env_flag env ''VULTURE_LLM_COERCE_LINES'' True"

definition normalize_lines :: "env \<Rightarrow> pydict \<Rightarrow> pydict" where
  "normalize_lines env raw =
     (if \<not> coerce_lines_enabled env
      then [(''line_start'', get_or raw ''line_start'' (PInt 0)), (''line_end'', get_or raw ''line_end'' (PInt 0))]
      else let start = max (parse_line (get raw ''line_start'') 0) 0 in
        [(''line_start'', PInt start), (''line_end'', PInt (max (parse_line (get raw ''line_end'') 0) start))])"

definition non_empty :: "string \<Rightarrow> pyval \<Rightarrow> pydict" where
  "non_empty name v = (if truthy v then [(name, v)] else [])"

definition carry_check_id :: "pydict \<Rightarrow> pydict" where
  "carry_check_id raw = non_empty ''_model_check_id'' (get raw ''check_id'')"

text \<open>The keys of the parts differ, so each \<open>update\<close> appends.\<close>

definition carry_evidence :: "env \<Rightarrow> pydict \<Rightarrow> pydict" where
  "carry_evidence env raw =
     (let quote = non_empty ''evidence_quote'' (get raw ''evidence_quote'');
          carried = (if quote \<noteq> [] then quote @ non_empty ''quote_hash'' (get raw ''quote_hash'') else quote);
          snippet = py_or (get raw ''code_snippet'') (PStr []) in
      carried @ (if truthy snippet \<and> env_truthy env ''VULTURE_LLM_TRUST_MODEL_SNIPPET'' then [(''code_snippet'', snippet)] else [])
        @ carry_check_id raw)"

definition text_or :: "pydict \<Rightarrow> string \<Rightarrow> string \<Rightarrow> string" where
  "text_or raw k dflt = py_str (py_or (get raw k) (PStr dflt))"

definition normalize_finding :: "env \<Rightarrow> pydict \<Rightarrow> pydict" where
  "normalize_finding env raw =
     [(''severity'', PStr (normalize_severity (text_or raw ''severity'' ''info''))),
      (''category'', PStr (text_or raw ''category'' ''unknown'')),
      (''title'', PStr (text_or raw ''title'' ''Untitled finding'')),
      (''description'', PStr (text_or raw ''description'' [])),
      (''file_path'', PStr (coerce_path (get_or raw ''file_path'' (PStr [])))),
      (''recommendation'', get_or raw ''recommendation'' (PStr []))]
     @ normalize_lines env raw @ carry_evidence env raw"

section \<open>A reply\<close>

record parse_outcome =
  po_rows :: "pydict list"
  po_parsed :: bool


definition parse_llm_findings :: "env \<Rightarrow> decoder \<Rightarrow> string \<Rightarrow> parse_outcome" where
  "parse_llm_findings env dec output = (let rows = extract_finding_rows env dec output in
     \<lparr>po_rows = map (normalize_finding env) (case rows of None \<Rightarrow> [] | Some rs \<Rightarrow> rs),
      po_parsed = (rows \<noteq> None \<or> strip output = [])\<rparr>)"


definition UNPARSED :: string where
  "UNPARSED = ''LLM analysis failed (unparseable): no findings array in the model response''"

definition unparsed_error :: "parse_outcome \<Rightarrow> string option" where
  "unparsed_error outcome = (if po_parsed outcome then None else Some UNPARSED)"

section \<open>The score\<close>

definition severity_weight :: "pydict \<Rightarrow> rat result" where
  "severity_weight f = (case get_or f ''severity'' (PStr ''info'') of
     PStr s \<Rightarrow> Ret (case map_of SEVERITY_WEIGHTS (normalize_severity s) of None \<Rightarrow> 0 | Some x \<Rightarrow> x)
   | _ \<Rightarrow> Raise AttributeError)"

text \<open>\<open>round(x, 1)\<close>: the nearest decimal with one place, ties to the even digit, as a float.\<close>

definition round1 :: "rat \<Rightarrow> rat" where
  "round1 x = fl64 (of_int (round_even (x * 10)) / 10)"

text \<open>The number of items is a length, far below the range of a float.\<close>

definition decay_score :: "rat \<Rightarrow> nat \<Rightarrow> rat" where
  "decay_score penalty total_items = (let scale = max 30 (fl64 (fl64 (of_nat total_items) * 10)) in
     round1 (max 5 (fl64 (100 / fl64 (1 + fl64 (penalty / scale))))))"

definition compute_score :: "pydict list \<Rightarrow> nat \<Rightarrow> rat result" where
  "compute_score findings total_items =
     (if findings = [] then Ret 100
      else bind_result (map_result severity_weight findings) (\<lambda>ws. Ret (decay_score (py_fsum ws) total_items)))"

definition build_summary :: "pydict list \<Rightarrow> string list \<Rightarrow> string \<Rightarrow> string" where
  "build_summary findings categories domain_label =
     (if findings = [] then ''No issues found across '' @ str_nat (length categories) @ '' '' @ domain_label @ ''.''
      else ''Found '' @ str_nat (length findings) @ '' issue(s) across '' @ str_nat (length categories) @ '' '' @ domain_label @ ''.'')"

section \<open>What the normaliser promises\<close>


lemma normalize_severity_again: "s \<in> set (map fst SEVERITY_WEIGHTS) \<Longrightarrow> normalize_severity s = s"
proof -
  have "list_all (\<lambda>s. normalize_severity s = s) (map fst SEVERITY_WEIGHTS)" by code_simp
  then show "s \<in> set (map fst SEVERITY_WEIGHTS) \<Longrightarrow> normalize_severity s = s" by (auto simp: list_all_iff)
qed





lemma get_or_append: "get_or (a @ b) k d = (case map_of a k of Some v \<Rightarrow> v | None \<Rightarrow> get_or b k d)"
  by (simp add: get_or_def map_add_def split: option.split)



section \<open>From a reply to the sweep\<close>






text \<open>An answer nothing was read from is an error of the batch; an empty one is not.\<close>

lemma unparsed_is_an_error:
  "unparsed_error (parse_llm_findings env dec s) \<noteq> None \<longleftrightarrow> strip s \<noteq> [] \<and> extract_finding_rows env dec s = None"
  by (auto simp: unparsed_error_def parse_llm_findings_def Let_def)

section \<open>What the score promises\<close>

lemma is_double_half: "\<bar>n\<bar> \<le> 2 ^ 53 \<Longrightarrow> is_double (of_int n / 2)"
  unfolding is_double_def by (rule exI [of _ n], rule exI [of _ "- 1"]) (simp add: pow2_def)

lemma fl64_half: "\<bar>n\<bar> \<le> 2 ^ 53 \<Longrightarrow> fl64 (of_int n / 2) = of_int n / 2"
  by (rule fl64_double [OF is_double_half])

text \<open>Halves add up exactly as long as their sum is small.\<close>

lemma fsum_half:
  assumes "0 \<le> a" "0 \<le> b" "a + b \<le> 2 ^ 53"
  shows "fsum_step (of_int a / 2, 0) (of_int b / 2) = (of_int (a + b) / 2, 0)"
proof -
  have sum: "of_int a / 2 + of_int b / (2 :: rat) = of_int (a + b) / 2" by (simp add: add_divide_distrib)
  have t: "fl64 (of_int a / 2 + of_int b / 2) = of_int (a + b) / 2" unfolding sum using assms by (intro fl64_half) simp
  have d1: "of_int a / 2 - of_int (a + b) / (2 :: rat) = of_int (- b) / 2" by (simp add: add_divide_distrib)
  have d2: "of_int b / 2 - of_int (a + b) / (2 :: rat) = of_int (- a) / 2" by (simp add: add_divide_distrib)
  have "fl64 (of_int a / 2 - of_int (a + b) / 2) = - (of_int b / 2)" unfolding d1 using assms fl64_half [of "- b"] by simp
  moreover have "fl64 (of_int b / 2 - of_int (a + b) / 2) = - (of_int a / 2)" unfolding d2 using assms fl64_half [of "- a"] by simp
  ultimately show ?thesis by (simp add: Let_def t del: of_int_add)
qed

lemma foldl_fsum_half:
  "0 \<le> a \<Longrightarrow> list_all (\<lambda>n. 0 \<le> n) ns \<Longrightarrow> a + sum_list ns \<le> 2 ^ 53 \<Longrightarrow>
   foldl fsum_step (of_int a / 2, 0) (map (\<lambda>n. of_int n / 2) ns) = (of_int (a + sum_list ns) / 2, 0)"
proof (induction ns arbitrary: a)
  case (Cons n ns)
  have "0 \<le> sum_list ns" using Cons.prems(2) by (intro sum_list_nonneg) (simp add: list_all_iff)
  then have "fsum_step (of_int a / 2, 0) (of_int n / 2) = (of_int (a + n) / 2, 0)"
    using Cons.prems by (intro fsum_half) auto
  then show ?case using Cons.IH [of "a + n"] Cons.prems by (simp del: fsum_step.simps of_int_add add: add.assoc)
qed simp

lemma py_fsum_half:
  assumes "list_all (\<lambda>n. 0 \<le> n) ns" and "sum_list ns \<le> 2 ^ 53"
  shows "py_fsum (map (\<lambda>n. of_int n / 2) ns) = of_int (sum_list ns) / 2"
proof (cases ns)
  case (Cons n ns')
  then show ?thesis using foldl_fsum_half [of n ns'] assms by (simp add: py_fsum_def del: of_int_add)
qed simp

definition half_weight :: "string \<Rightarrow> int" where
  "half_weight s = (case map_of [(''critical'', 20), (''high'', 8), (''medium'', 3), (''low'', 1)] s of None \<Rightarrow> 0 | Some n \<Rightarrow> n)"

lemma weight_is_half: "(case map_of SEVERITY_WEIGHTS s of None \<Rightarrow> 0 | Some x \<Rightarrow> x) = of_int (half_weight s) / 2"
  by (simp add: SEVERITY_WEIGHTS_def half_weight_def)

lemma half_weight_range: "0 \<le> half_weight s" "half_weight s \<le> 20"
  by (simp_all add: half_weight_def)

lemma round1_mono: "x \<le> y \<Longrightarrow> round1 x \<le> round1 y"
  unfolding round1_def by (intro fl64_mono divide_right_mono) (simp_all add: round_even_mono)

lemma round1_int: "\<bar>n\<bar> \<le> 2 ^ 53 \<Longrightarrow> round1 (of_int n) = of_int n"
  using round_even_int [of "n * 10"] fl64_double [OF is_double_int, of n] by (simp add: round1_def)

lemma decay_score_mono:
  assumes "0 \<le> p" and "p \<le> q"
  shows "decay_score q n \<le> decay_score p n" "5 \<le> decay_score q n" "decay_score p n \<le> 100"
proof -
  let ?scale = "max 30 (fl64 (fl64 (of_nat n) * 10))"
  let ?d = "\<lambda>p. fl64 (1 + fl64 (p / ?scale))"
  have scale: "0 < ?scale" by simp
  have nonneg: "0 \<le> fl64 (p / ?scale)" if "0 \<le> p" for p
    using that scale by (intro double.rd_lower) simp_all
  have one: "1 \<le> ?d p" if "0 \<le> p" for p using nonneg [OF that] by (intro double.rd_lower) simp_all
  have le: "?d p \<le> ?d q" using assms(2) scale by (intro fl64_mono add_left_mono divide_right_mono) simp_all
  have hundred: "is_double 100" using is_double_int [of 100] by simp
  have "100 / y \<le> (100 :: rat) / x" if "1 \<le> x" "x \<le> y" for x y using that by (intro divide_left_mono) simp_all
  from fl64_mono [OF this [OF one [OF assms(1)] le]] have "fl64 (100 / ?d q) \<le> fl64 (100 / ?d p)" .
  then show "decay_score q n \<le> decay_score p n" unfolding decay_score_def Let_def by (intro round1_mono) simp
  have "round1 5 \<le> decay_score q n" unfolding decay_score_def Let_def by (intro round1_mono) simp
  then show "5 \<le> decay_score q n" using round1_int [of 5] by simp
  have "fl64 (100 / ?d p) \<le> 100" using one [OF assms(1)] hundred by (intro double.rd_upper) (simp_all add: divide_le_eq)
  then have "decay_score p n \<le> round1 100" unfolding decay_score_def Let_def by (intro round1_mono) simp
  then show "decay_score p n \<le> 100" using round1_int [of 100] by simp
qed

definition rated :: "pydict \<Rightarrow> bool" where
  "rated f = (case get_or f ''severity'' (PStr ''info'') of PStr _ \<Rightarrow> True | _ \<Rightarrow> False)"

definition half_rating :: "pydict \<Rightarrow> int" where
  "half_rating f = half_weight (normalize_severity (case get_or f ''severity'' (PStr ''info'') of PStr s \<Rightarrow> s | _ \<Rightarrow> []))"

lemma severity_weights: "list_all rated fs \<Longrightarrow> map_result severity_weight fs = Ret (map (\<lambda>n. of_int n / 2) (map half_rating fs))"
proof (induction fs)
  case (Cons f fs)
  then have "severity_weight f = Ret (of_int (half_rating f) / 2)"
    by (auto simp: severity_weight_def rated_def half_rating_def weight_is_half split: pyval.splits)
  then show ?case using Cons by simp
qed simp

lemma half_ratings: "0 \<le> sum_list (map half_rating fs)" "sum_list (map half_rating fs) \<le> 20 * int (length fs)"
proof -
  have r: "0 \<le> half_rating f \<and> half_rating f \<le> 20" for f by (simp add: half_rating_def half_weight_range)
  show "0 \<le> sum_list (map half_rating fs)" using r by (induction fs) auto
  show "sum_list (map half_rating fs) \<le> 20 * int (length fs)"
  proof (induction fs)
    case (Cons f fs)
    then show ?case using r [of f] by simp
  qed simp
qed

lemma score_is_penalty:
  assumes "list_all rated fs" and "length fs \<le> 2 ^ 48"
  shows "compute_score fs n = Ret (if fs = [] then 100 else decay_score (of_int (sum_list (map half_rating fs)) / 2) n)"
proof -
  have "sum_list (map half_rating fs) \<le> 2 ^ 53" using half_ratings(2) [of fs] assms(2) by simp
  then have sum: "py_fsum (map (\<lambda>n. of_int n / 2) (map half_rating fs)) = of_int (sum_list (map half_rating fs)) / 2"
    by (intro py_fsum_half) (simp_all add: list_all_iff half_rating_def half_weight_range)
  from compute_score_def [of fs n] show ?thesis by (simp add: severity_weights [OF assms(1)] sum del: map_map)
qed

text \<open>C24. 
  The score of an audit stays between 5 and 100 and never rises when findings are added: on findings whose
  severity is text, in any order, the float arithmetic is exact up to the last division.
\<close>

theorem more_findings_never_raise_the_score:
  assumes "list_all rated hs" and "length hs \<le> 2 ^ 48" and "mset fs \<subseteq># mset hs"
  shows "\<exists>r r'. compute_score fs n = Ret r \<and> compute_score hs n = Ret r' \<and> 5 \<le> r' \<and> r' \<le> r \<and> r \<le> 100"
proof -
  obtain xs where hs: "mset hs = mset fs + mset xs"
    using assms(3) ex_mset by (metis subset_mset.add_diff_inverse)
  then have "length hs = length fs + length xs" by (metis size_mset size_union)
  moreover have "set hs = set fs \<union> set xs" using hs by (metis set_mset_mset set_mset_union)
  ultimately have fs: "list_all rated fs" "length fs \<le> 2 ^ 48" using assms by (auto simp: list_all_iff)
  have "sum_mset (image_mset half_rating (mset hs)) = sum_mset (image_mset half_rating (mset fs)) + sum_mset (image_mset half_rating (mset xs))"
    using hs by simp
  then have sums: "sum_list (map half_rating hs) = sum_list (map half_rating fs) + sum_list (map half_rating xs)"
    by (metis mset_map sum_mset_sum_list)
  let ?p = "of_int (sum_list (map half_rating fs)) / (2 :: rat)" and ?q = "of_int (sum_list (map half_rating hs)) / (2 :: rat)"
  have "0 \<le> ?p" "?p \<le> ?q" using half_ratings(1) [of fs] half_ratings(1) [of xs] sums by (simp_all add: divide_right_mono)
  note ends = decay_score_mono [OF this]
  have "decay_score ?q n \<le> 100" using decay_score_mono(3) [of ?q ?q n] half_ratings(1) [of hs] by simp
  then show ?thesis using score_is_penalty [OF assms(1,2), of n] score_is_penalty [OF fs, of n] ends hs
    by (cases "fs = []"; cases "hs = []") auto
qed

end
