(* ===== verification/Intake_Examples.thy ===== *)
theory Intake_Examples
  imports Finding_Intake
begin

text \<open>
  The intake on small replies: a decoder that knows the text \<open>{}\<close>, an array cut after two rows, two arrays
  of which the later answers, a row full of junk, and a scored audit.
\<close>

definition ex_row :: pydict where "ex_row = [(''title'', PStr ''x'')]"

definition ex_dec :: decoder where
  "ex_dec s = (if starts_with s ''{}'' then Some (PDict ex_row, 2)
     else if starts_with s ''[{}]'' then Some (PList [PDict ex_row], 4) else None)"




lemma ex_scan: "scan_json_arrays ex_dec ''[{}] or [{}]'' = Some [ex_row]"
  by code_simp

lemma scan_keeps_the_last_best_array_witness:
  "\<exists>i v. array_at ex_dec ''[{}] or [{}]'' i = Some v \<and> [ex_row] = only_dicts v"
  using scan_keeps_the_last_best_array [OF ex_scan] by blast

lemma brace_matchers_agree_witness:
  "map_option (\<lambda>e. take (Suc e) ''{a {b} c} d'') (matching_brace ''{a {b} c} d'') = Some ''{a {b} c}''"
proof -
  have "escapes_in_strings False ''{a {b} c} d''" "starts_with ''{a {b} c} d'' ''{''" by code_simp+
  moreover have "iter_balanced_objects ''{a {b} c} d'' = [''{a {b} c}'']" by code_simp
  ultimately show ?thesis using brace_matchers_agree by (metis list.case(2))
qed





lemma more_findings_never_raise_the_score_witness:
  "\<exists>r r'. compute_score [[(''severity'', PStr ''high'')]] 3 = Ret r \<and>
     compute_score [[(''severity'', PStr ''low'')], [(''severity'', PStr ''high'')]] 3 = Ret r' \<and> 5 \<le> r' \<and> r' \<le> r \<and> r \<le> 100"
  by (rule more_findings_never_raise_the_score) (simp_all add: rated_def get_or_def)

end
