(* ===== verification/Finalize_Skill.thy ===== *)
theory Finalize_Skill
  imports Choke_Point Collapse Category Redaction_Promises Stage_Layer1
begin

text \<open>
  What an audit without a model does to the rows of its skills (\<open>shared/audit_runner.py\<close>,
  \<open>_classify_deterministic_provenance\<close> to \<open>finalize_skill_findings\<close>): provenance, category, root path,
  identifier and redaction of each row, the collapse of the lines, the code windows, the deterministic
  validation stage and the public view. Each step is the model of the function the code calls, so this is
  where the components meet. The vocabulary of the audit, the paths, the hash and the worlds of the
  components are the record \<open>finalize_world\<close>; the tally of conformed categories is threaded. A row that
  cannot be redacted stops the pass, with the rows as they stand.
\<close>

section \<open>Provenance\<close>

definition classify_deterministic_provenance :: "pydict \<Rightarrow> string" where
  "classify_deterministic_provenance finding =
     (let sig_status = get finding ''signature_status'' in
      if sig_status = PStr ''trusted'' then ''signature_trusted''
      else if sig_status = PStr ''candidate'' then ''signature_candidate''
      else if ends_with (py_str (get_or finding ''check_id'' (PStr []))) ''.rollup'' then ''catalog_rollup''
      else ''skill'')"

definition set_provenance :: "pydict \<Rightarrow> pydict" where
  "set_provenance finding =
     (if truthy (get finding ''provenance'') then finding
      else put ''provenance'' (PStr (classify_deterministic_provenance finding)) finding)"

section \<open>Windows\<close>

definition WIDE_SNIPPET_CONTEXT :: int where "WIDE_SNIPPET_CONTEXT = 10"

definition FLOW_EVIDENCE_CATEGORIES :: "string list" where
  "FLOW_EVIDENCE_CATEGORIES = [''CWE-78'', ''CWE-22'', ''CWE-94'', ''CWE-918'', ''CWE-200'', ''CWE-532'']"

definition wide_scope :: "string \<Rightarrow> bool" where
  "wide_scope category = (case map_of REFUTATION_MAP category of None \<Rightarrow> False
     | Some r \<Rightarrow> rf_scope_reviewed r \<and> rf_scope r \<in> {FUNCTION, FILE, WIRING})"

text \<open>Looking a list or a dictionary up raises; no other value equals a class name.\<close>

definition snippet_params_for :: "pyval \<Rightarrow> (int \<times> int option) result" where
  "snippet_params_for category = (case category of
     PList _ \<Rightarrow> Raise TypeError
   | PDict _ \<Rightarrow> Raise TypeError
   | PStr c \<Rightarrow> Ret (if wide_scope c \<or> c \<in> set FLOW_EVIDENCE_CATEGORIES then (WIDE_SNIPPET_CONTEXT, None) else (2, Some 200))
   | _ \<Rightarrow> Ret (2, Some 200))"

definition window_parity_enabled :: "env \<Rightarrow> bool" where
  "window_parity_enabled env = env_flag env ''VULTURE_FINDING_WINDOW_PARITY'' True"

record finalize_world =
  fw_choke :: choke_world
  fw_realpath :: "string \<Rightarrow> string"
  fw_digest :: "string \<Rightarrow> string"
  fw_masker :: "string \<Rightarrow> string"
  fw_catalog :: catalog_world
  fw_layer1 :: l1_world
  fw_stage :: stage_world
  fw_categories :: "string list"

abbreviation fw_env :: "finalize_world \<Rightarrow> env" where "fw_env w \<equiv> cw_env (fw_choke w)"

definition redact_in_place :: "(string \<Rightarrow> string) \<Rightarrow> pydict \<Rightarrow> unit result \<times> pydict" where
  "redact_in_place masker finding = (case redact_finding masker finding of
     Inl e \<Rightarrow> (Raise e, mask_secret_shapes masker finding) | Inr f \<Rightarrow> (Ret (), f))"

definition load_deps :: "finalize_world \<Rightarrow> window_deps" where
  "load_deps w = \<lparr>wd_resolve = resolve_finding_path (fw_choke w), wd_read_lines = cw_reader (fw_choke w),
     wd_snippet_params = snippet_params_for, wd_redact = redact_in_place (fw_masker w),
     wd_secret_line_index = secret_line_index, wd_redact_secret_lines = redact_secret_lines\<rparr>"

definition attach_code_snippet ::
  "finalize_world \<Rightarrow> pydict list \<Rightarrow> string \<Rightarrow> unit result \<times> pydict list" where
  "attach_code_snippet w findings source_path =
     ensure_code_window (map set_provenance findings) source_path (load_deps w) (window_parity_enabled (fw_env w))"

definition attach_code_snippet_safely :: "finalize_world \<Rightarrow> pydict list \<Rightarrow> string \<Rightarrow> pydict list" where
  "attach_code_snippet_safely w findings source_path = snd (attach_code_snippet w findings source_path)"

section \<open>Identifiers\<close>

definition identity_text :: "string \<Rightarrow> pydict \<Rightarrow> nat \<Rightarrow> string" where
  "identity_text audit_id finding index =
     audit_id @ '':'' @ py_str (get_or finding ''title'' (PStr [])) @ '':''
       @ py_str (get_or finding ''file_path'' (PStr [])) @ '':'' @ str_nat index"

definition assign_finding_id :: "(string \<Rightarrow> string) \<Rightarrow> pydict \<Rightarrow> string \<Rightarrow> nat \<Rightarrow> pydict" where
  "assign_finding_id digest finding audit_id index =
     (if truthy (get finding ''id'') then finding
      else put ''id'' (PStr (take 32 (digest (identity_text audit_id finding index)))) finding)"

text \<open>The slots of the skills an audit submits; the last one is the model's.\<close>

type_synonym 'k finding_slots = "('k \<times> nat) list"

definition slots_of :: "'k list \<Rightarrow> 'k finding_slots" where
  "slots_of submitted = foldl (\<lambda>d (ordinal, key). AList.update key ordinal d) [] (enum_from 0 submitted)"

definition slot_at :: "'k finding_slots \<Rightarrow> nat \<Rightarrow> nat \<Rightarrow> nat" where
  "slot_at s slot position = position * (length s + 1) + slot"

definition skill_slot :: "'k finding_slots \<Rightarrow> 'k \<Rightarrow> nat \<Rightarrow> nat result" where
  "skill_slot s key position =
     (case map_of s key of None \<Rightarrow> Raise KeyError | Some ordinal \<Rightarrow> Ret (slot_at s ordinal position))"

definition llm_slot :: "'k finding_slots \<Rightarrow> nat \<Rightarrow> nat" where
  "llm_slot s position = slot_at s (length s) position"

definition ONE_SKILL :: "nat finding_slots" where "ONE_SKILL = slots_of [0]"

section \<open>The pass over a row\<close>

definition cite_root_as_token :: "(string \<Rightarrow> string) \<Rightarrow> pydict \<Rightarrow> string \<Rightarrow> pydict" where
  "cite_root_as_token realpath finding source_path = (case get finding ''file_path'' of
     PStr fp \<Rightarrow> if is_scan_root realpath fp source_path then put ''file_path'' (PStr REPO_ROOT_PATH) finding else finding
   | _ \<Rightarrow> finding)"

definition finalize_finding ::
  "finalize_world \<Rightarrow> pydict \<Rightarrow> string \<Rightarrow> nat \<Rightarrow> string \<Rightarrow> conform_tally option \<Rightarrow>
   unit result \<times> pydict \<times> conform_tally option" where
  "finalize_finding w finding run_id index source_path t =
     (case conform_category (fw_env w) (fw_categories w) (set_provenance finding) t of (f, t') \<Rightarrow>
      case redact_in_place (fw_masker w)
          (assign_finding_id (fw_digest w) (cite_root_as_token (fw_realpath w) f source_path) run_id index) of
        (r, f') \<Rightarrow> (r, f', t'))"

fun finalize_rows ::
  "finalize_world \<Rightarrow> string \<Rightarrow> string \<Rightarrow> nat \<Rightarrow> pydict list \<Rightarrow> conform_tally option \<Rightarrow>
   unit result \<times> pydict list \<times> conform_tally option" where
  "finalize_rows w source_path run_id position [] t = (Ret (), [], t)"
| "finalize_rows w source_path run_id position (f # fs) t =
     (case skill_slot ONE_SKILL 0 position of
        Inl e \<Rightarrow> (Raise e, f # fs, t)
      | Inr index \<Rightarrow> (case finalize_finding w f run_id index source_path t of
          (Inl e, f', t') \<Rightarrow> (Raise e, f' # fs, t')
        | (Inr _, f', t') \<Rightarrow> (case finalize_rows w source_path run_id (position + 1) fs t' of
            (r, fs', t'') \<Rightarrow> (r, f' # fs', t''))))"

section \<open>The stage without a judge\<close>

definition validate_enabled :: "env \<Rightarrow> bool" where
  "validate_enabled env = (lower (getenv env ''VULTURE_DISABLE_VALIDATE'' []) \<noteq> ''true'')"

definition validate_config_for :: "env \<Rightarrow> bool option \<Rightarrow> bool \<Rightarrow> int option \<Rightarrow> int option \<Rightarrow> validate_config" where
  "validate_config_for env validate_use_llm l5_enabled l5_top_n l5_batch_size = default_config
     \<lparr>cf_compliance_mode := lower (getenv env ''VULTURE_COMPLIANCE_MODE'' []) = ''true'', cf_enable_l1 := True,
      cf_enable_l2 := True, cf_enable_l5 := l5_enabled, cf_enable_l5_override := validate_use_llm,
      cf_l5_top_n_override := l5_top_n, cf_l5_batch_size_override := l5_batch_size\<rparr>"

definition validate_without_llm ::
  "finalize_world \<Rightarrow> pydict list \<Rightarrow> string \<Rightarrow> string \<Rightarrow> gate_state \<Rightarrow> pydict list result" where
  "validate_without_llm w findings source_path run_id st =
     (if \<not> validate_enabled (fw_env w) then Ret findings
      else bind_result (validate (with_layer1 (fw_layer1 w) (fw_stage w))
          (Some (validate_config_for (fw_env w) (Some False) False None None)) source_path run_id st findings)
        (\<lambda>r. Ret (vr_findings r @ vr_rollups r)))"

definition finalize_skill_findings ::
  "finalize_world \<Rightarrow> pydict list \<Rightarrow> string \<Rightarrow> string \<Rightarrow> gate_state \<Rightarrow> conform_tally option \<Rightarrow>
   pydict list result \<times> conform_tally option" where
  "finalize_skill_findings w findings source_path run_id st t =
     (case finalize_rows w source_path run_id 0 findings t of
        (Inl e, fs, t') \<Rightarrow> (Raise e, t')
      | (Inr _, fs, t') \<Rightarrow>
          let kept = fst (collapse_skill_findings (fw_env w) (fw_catalog w) fs);
              shown = attach_code_snippet_safely w kept source_path
          in (bind_result (validate_without_llm w shown source_path run_id st) (\<lambda>rows. Ret (map public_view rows)), t'))"

end
