(* ===== verification/Finalize_Promises.thy ===== *)
theory Finalize_Promises
  imports Finalize_Skill
begin

text \<open>
  What the offline pass promises: no two rows of one audit share an index or, as far as the hash tells their
  texts apart, an identifier; a row that is finalised keeps its identity through every later step; and the
  report carries public fields only, each row with an identifier and a deterministic provenance. The locale
  \<open>carried_invariant\<close> extends \<open>final_invariant\<close> to properties the rows have before the validation stage.
\<close>

section \<open>Slots\<close>

lemma update_fresh: "k \<notin> fst ` set d \<Longrightarrow> AList.update k v d = d @ [(k, v)]"
  by (induction d) auto

lemma slots_from: "distinct xs \<Longrightarrow> set xs \<inter> fst ` set d = {} \<Longrightarrow>
   foldl (\<lambda>d (ordinal, key). AList.update key ordinal d) d (enum_from n xs) = d @ map prod.swap (enum_from n xs)"
proof (induction xs arbitrary: n d)
  case (Cons x xs)
  then have "foldl (\<lambda>d (ordinal, key). AList.update key ordinal d) (d @ [(x, n)]) (enum_from (Suc n) xs)
      = (d @ [(x, n)]) @ map prod.swap (enum_from (Suc n) xs)" by (intro Cons.IH) auto
  then show ?case using Cons.prems by (simp add: update_fresh)
qed simp

lemma slots_of_distinct: "distinct xs \<Longrightarrow> slots_of xs = map prod.swap (enum_from 0 xs)"
  using slots_from [of xs "[]" 0] by (simp add: slots_of_def)

lemma slot_lookup:
  assumes "distinct xs"
  shows "map_of (slots_of xs) k = Some i \<longleftrightarrow> i < length xs \<and> xs ! i = k"
proof -
  have "map fst (map prod.swap (enum_from 0 xs)) = xs" by (simp add: o_def)
  then have "distinct (map fst (slots_of xs))" using assms by (simp add: slots_of_distinct o_def)
  then have "map_of (slots_of xs) k = Some i \<longleftrightarrow> (i, k) \<in> set (enum_from 0 xs)"
    using assms by (force simp: map_of_eq_Some_iff slots_of_distinct)
  then show ?thesis by (auto simp: in_set_enum_from)
qed

lemma slot_at_inj:
  assumes "a \<le> length s" and "b \<le> length s" and "slot_at s a p = slot_at s b q"
  shows "a = b \<and> p = q"
proof -
  have "(p * (length s + 1) + a) mod (length s + 1) = a" "(q * (length s + 1) + b) mod (length s + 1) = b"
    unfolding mod_mult_self3 using assms(1,2) by simp_all
  then have "a = b" using assms(3) by (simp add: slot_at_def)
  then have "p * (length s + 1) = q * (length s + 1)" using assms(3) by (simp add: slot_at_def)
  then show ?thesis using \<open>a = b\<close> unfolding mult_cancel2 by simp
qed

text \<open>The index of a row: of a skill's result, or of the model's.\<close>

definition row_index :: "'k finding_slots \<Rightarrow> 'k option \<Rightarrow> nat \<Rightarrow> nat result" where
  "row_index s tier position = (case tier of None \<Rightarrow> Ret (llm_slot s position) | Some k \<Rightarrow> skill_slot s k position)"

lemma row_index_slot:
  assumes "distinct xs" and "row_index (slots_of xs) tier p = Ret i"
  obtains a where "a \<le> length (slots_of xs)" "i = slot_at (slots_of xs) a p"
    "tier = (if a < length xs then Some (xs ! a) else None)"
proof (cases tier)
  case None
  then show ?thesis using that [of "length xs"] assms by (simp add: row_index_def llm_slot_def slots_of_distinct)
next
  case (Some k)
  then obtain a where "map_of (slots_of xs) k = Some a" "i = slot_at (slots_of xs) a p"
    using assms(2) by (auto simp: row_index_def skill_slot_def split: option.splits)
  moreover from this have "a < length xs" "xs ! a = k" using slot_lookup [OF assms(1)] by auto
  ultimately show ?thesis using that [of a] Some assms(1) by (simp add: slots_of_distinct)
qed

lemma row_index_inj:
  assumes "distinct xs" and "row_index (slots_of xs) a p = Ret i" and "row_index (slots_of xs) b q = Ret i"
  shows "a = b \<and> p = q"
proof -
  obtain m where m: "m \<le> length (slots_of xs)" "i = slot_at (slots_of xs) m p" "a = (if m < length xs then Some (xs ! m) else None)"
    using row_index_slot [OF assms(1,2)] .
  obtain n where n: "n \<le> length (slots_of xs)" "i = slot_at (slots_of xs) n q" "b = (if n < length xs then Some (xs ! n) else None)"
    using row_index_slot [OF assms(1,3)] .
  have "m = n \<and> p = q" by (rule slot_at_inj [OF m(1) n(1)]) (use m(2) n(2) in simp)
  then show ?thesis using m(3) n(3) by simp
qed

text \<open>A title or a path may contain colons; the index is what follows the last one.\<close>

lemma identity_text_index:
  assumes "identity_text a f i = identity_text b g j"
  shows "i = j"
proof -
  have last_part: "takeWhile (\<lambda>c. c \<noteq> CHR '':'') (rev (identity_text a f i)) = rev (str_nat i)" for a f i
  proof -
    have "c \<noteq> CHR '':''" if "c \<in> set (rev (str_nat i))" for c
      using str_nat_digits [of c i] that by (auto simp: is_digit_def)
    then have "takeWhile (\<lambda>c. c \<noteq> CHR '':'') (rev (str_nat i) @ CHR '':'' # more) = rev (str_nat i)" for more
      by (subst takeWhile_append2) auto
    then show ?thesis by (simp add: identity_text_def)
  qed
  have "rev (str_nat i) = rev (str_nat j)" using last_part [of a f i] last_part [of b g j] assms by simp
  then show ?thesis using nat_of_digits_str_nat by (metis rev_rev_ident)
qed

section \<open>What a row keeps through the stage\<close>

locale carried_invariant = final_invariant I w cfg for I w cfg +
  assumes carried: "I f \<Longrightarrow> I (apply_validation_to_finding w cfg f cs)"
begin

lemma rows_carried:
  "fst (provisional_rows w cfg l1 l2 fs st) = Ret rows \<Longrightarrow> list_all I (map snd fs) \<Longrightarrow> rows_ok I (length fs) rows"
proof (induction fs arbitrary: st rows)
  case (Cons p fs)
  obtain i f where p: "p = (i, f)" by fastforce
  obtain r1 st1 where o: "ensure_obligation w f (l1 ! i @ l2 ! i) st = (r1, st1)" by fastforce
  obtain r2 st2 where r: "provisional_rows w cfg l1 l2 fs st1 = (r2, st2)" by fastforce
  obtain cs rest where ok: "r1 = Ret cs" "r2 = Ret rest" "rows = apply_validation_to_finding w cfg f cs # rest"
    using Cons.prems p o r by (cases r1; cases r2) (auto split: if_splits)
  have "rows_ok I (length fs) rest" using Cons.IH [of st1 rest] Cons.prems(2) r ok(2) by simp
  then show ?case using ok(3) carried Cons.prems(2) p by (simp add: rows_ok_def)
qed (simp add: rows_ok_def)

lemma validate_carries:
  assumes "validate w config src aid st fs = Ret r" and "effective_config config = cfg" and "list_all I fs"
  shows "list_all I (vr_findings r)"
  using assms(1)
proof (cases rule: validate_cases)
  case (run l1 st1 lg1 l2 rollups st2 lg2 out lg3 out' rollups' lg4 parents lg5)
  have "rows_ok I (length fs) out"
    using rows_carried [of l1 l2 "enum_from 0 fs" st2] run(4) assms(2,3) by (auto simp: provisional_vote_def bind_result_Ret)
  then show ?thesis using phase_keeps [of l1 rollups out lg3 out' rollups' lg4] run assms(2) by (simp add: to_result_def rows_ok_def)
qed (simp add: to_result_def)

end

definition SKILL_TAGS :: "string list" where
  "SKILL_TAGS = [''signature_trusted'', ''signature_candidate'', ''catalog_rollup'', ''skill'']"

definition tagged :: "pydict \<Rightarrow> bool" where
  "tagged f \<longleftrightarrow> truthy (get f ''id'') \<and> get f ''provenance'' \<in> PStr ` set SKILL_TAGS"

lemma retag_other: "get f ''provenance'' \<noteq> PStr ''llm'' \<Longrightarrow> retag_l5_verified cs f = f"
  by (simp add: retag_l5_verified_def Let_def)

lemma tagged_not_llm: "tagged f \<Longrightarrow> get f ''provenance'' \<noteq> PStr ''llm''"
  by (auto simp: tagged_def SKILL_TAGS_def)

lemma tagged_cong: "get f ''id'' = get g ''id'' \<Longrightarrow> get f ''provenance'' = get g ''provenance'' \<Longrightarrow> tagged f = tagged g"
  by (simp add: tagged_def)

lemma strip_get: "k \<notin> insert ''quote_hash'' (set PRIVATE_FIELDS) \<Longrightarrow> get_or (strip_private store f) k d = get_or f k d"
  by (simp add: strip_private_def strip_private_fields_def)

lemma tagged_stamp: "tagged f \<Longrightarrow> tagged (stamp_validation fv p f)"
  by (rule tagged_cong [THEN iffD1, rotated -1]) (simp_all add: stamp_get)

lemma tagged_apply: "tagged f \<Longrightarrow> tagged (apply_validation_to_finding w cfg f cs)"
proof -
  assume f: "tagged f"
  have "tagged (strip_private (sw_store w) f)" using f by (simp add: tagged_def strip_get PRIVATE_FIELDS_def)
  then have "tagged (stamp_validation (voted cfg (sw_now w) cs) (get f ''validation'') (strip_private (sw_store w) f))"
    by (rule tagged_stamp)
  then have "tagged (if window_reason_of f \<noteq> [] then record_window_reason (stamp_validation (voted cfg (sw_now w) cs)
      (get f ''validation'') (strip_private (sw_store w) f)) (window_reason_of f)
     else stamp_validation (voted cfg (sw_now w) cs) (get f ''validation'') (strip_private (sw_store w) f))"
    by (simp add: tagged_def record_other_keys)
  then show ?thesis unfolding apply_validation_to_finding_def Let_def using retag_other tagged_not_llm by simp
qed

interpretation tagged: carried_invariant tagged w cfg for w cfg
proof unfold_locales
  fix f c assume f: "tagged f"
  show "tagged (append_check c f)" using f by (simp add: tagged_def append_get)
  show "tagged (rewrite_l5_check c f)" using f by (simp add: tagged_def rewrite_get)
  show "tagged f'" if "revote_finding_in_place w cfg f = Ret f'" for f'
    using revote_result [OF that] tagged_stamp [OF f] retag_other tagged_not_llm by metis
qed (simp_all add: tagged_apply)

lemma built_parent_tagged: "build_rollup_parent digest w aid c fp ms n st = (Ret p, st') \<Longrightarrow> tagged p"
  by (auto simp: build_rollup_parent_def bind_result_Ret parent_record_def tagged_def SKILL_TAGS_def get_or_def rollup_id_def
      split: sum.splits prod.splits)

lemma tagged_coverage: "tagged p \<Longrightarrow> tagged (stamp_coverage r why p)"
  by (rule tagged.stamped)

lemma tagged_derived: "derive_parent now by_id p = Ret p' \<Longrightarrow> tagged p' = tagged p"
  by (auto simp: derive_parent_def bind_result_Ret tagged_def split: pyval.splits)

lemma tagged_mirrored: "mirror_parent p = Ret p' \<Longrightarrow> tagged p' = tagged p"
  by (auto simp: mirror_parent_def tagged_def split: pyval.splits)

lemma parents_tagged:
  assumes "validate w config src aid st fs = Ret r"
  shows "list_all tagged (vr_rollups r)"
  using assms
proof (cases rule: validate_cases)
  case (run l1 st1 lg1 l2 rollups st2 lg2 out lg3 out' rollups' lg4 parents lg5)
  have "list_all tagged rollups" by (rule l2_parents [OF run(3)]) (rule built_parent_tagged)
  then have 1: "list_all tagged rollups'"
    using run(5) by (auto simp: run_l5_phase_def Let_def bind_result_Ret list_all_iff tagged_coverage split: if_splits prod.splits)
  obtain ps where ps: "derive_parent_verdicts (sw_now w) out' rollups' = Ret ps" "map_result mirror_parent ps = Ret parents"
    using run(6) by (auto simp: emit_summary_def bind_result_Ret)
  have "list_all tagged ps"
    using ps(1) 1 by (auto simp: derive_parent_verdicts_def bind_result_Ret list_all_iff in_map_result tagged_derived split: if_splits)
  then have "list_all tagged parents" using ps(2) by (auto simp: list_all_iff in_map_result tagged_mirrored)
  then show ?thesis using run(7) by (simp add: to_result_def)
qed (simp add: to_result_def)

section \<open>What a row keeps on the way to the stage\<close>

lemma mask_field_get: "k' \<noteq> k \<Longrightarrow> get (mask_field masker f k) k' = get f k'"
  by (simp add: mask_field_def split: pyval.split)

lemma mask_shapes_get: "k \<notin> {''code_snippet'', ''description''} \<Longrightarrow> get (mask_secret_shapes masker f) k = get f k"
  by (simp add: mask_secret_shapes_def SHAPE_MASKED_FIELDS_def mask_field_get)

lemma redact_in_place_get:
  assumes "redact_in_place masker f = (r, f')" and "k \<notin> {''code_snippet'', ''description''}"
  shows "get f' k = get f k"
proof (cases "redact_finding masker f")
  case (Inr g)
  have "get g k = get (mask_secret_shapes masker f) k"
    using Inr assms(2) by (auto simp: redact_finding_def Let_def split: if_splits pyval.splits)
  then show ?thesis using assms Inr by (simp add: redact_in_place_def mask_shapes_get)
qed (use assms in \<open>auto simp: redact_in_place_def mask_shapes_get\<close>)

definition WINDOW_FIELDS :: "string list" where
  "WINDOW_FIELDS = [''code_snippet'', CODE_SNIPPET_START, ''description'', ''validation'']"

lemma window_fields: "k \<notin> set WINDOW_FIELDS \<Longrightarrow>
    k \<noteq> ''code_snippet'' \<and> k \<noteq> CODE_SNIPPET_START \<and> k \<noteq> ''description'' \<and> k \<noteq> ''validation''"
  by (simp add: WINDOW_FIELDS_def)

lemma discard_get:
  "discard_stale_window f ls n = Ret f' \<Longrightarrow> k \<notin> set WINDOW_FIELDS \<Longrightarrow> get f' k = get f k"
  by (auto simp: discard_stale_window_def bind_result_Ret dest: window_fields split: if_splits)

lemma attach_get: "k \<notin> set WINDOW_FIELDS \<Longrightarrow> get (attach_window f ls n c m) k = get f k"
  by (simp add: attach_window_def Let_def window_fields)

lemma windowed_get:
  "windowed_reason f ls n deps = Ret (reason, f') \<Longrightarrow> k \<notin> set WINDOW_FIELDS \<Longrightarrow> get f' k = get f k"
  by (auto simp: windowed_reason_def bind_result_Ret Let_def attach_get discard_get)

lemma window_reason_get:
  assumes "window_reason_for f src deps = Ret (reason, ls, f')" and "k \<notin> set WINDOW_FIELDS"
  shows "get f' k = get f k"
proof (cases "int_field f ''line_start'' < 1")
  case False
  then obtain lines where "f' = pop CODE_SNIPPET_START (pop ''code_snippet'' f) \<or>
      windowed_reason f lines (int_field f ''line_start'') deps = Ret (reason, f')"
    using assms(1) by (auto simp: window_reason_for_def Let_def bind_result_Ret split: if_splits)
  then show ?thesis using windowed_get [OF _ assms(2)] window_fields [OF assms(2)] by auto
qed (use assms(1) in \<open>auto simp: window_reason_for_def Let_def bind_result_Ret\<close>)

lemma ensure_one_get:
  assumes "ensure_one src (load_deps w) idx rec f = (r, f')" and "k \<notin> set WINDOW_FIELDS"
  shows "get f' k = get f k"
proof -
  note k = window_fields [OF assms(2)]
  have start: "record_window_start g ls = Ret g' \<Longrightarrow> get g' k = get g k" for g ls g'
    using k by (auto simp: record_window_start_def Let_def bind_result_Ret split: if_splits pyval.splits)
  have red: "wd_redact (load_deps w) g = (q, g') \<Longrightarrow> get g' k = get g k" for g q g'
    using k redact_in_place_get [of "fw_masker w" g q g' k] by (simp add: load_deps_def)
  have lines: "wd_redact_secret_lines (load_deps w) g idx = Ret g' \<Longrightarrow> get g' k = get g k" for g g'
    using k by (auto simp: load_deps_def redact_secret_lines_def bind_result_Ret split: if_splits option.splits pyval.splits)
  show ?thesis
    using assms(1) window_reason_get [OF _ assms(2)] start red lines k record_other_keys
    by (fastforce simp: ensure_one_def split: sum.splits prod.splits if_splits)
qed

lemma ensure_rows_all:
  assumes "ensure_rows src deps idx rec fs = (r, fs')" and "list_all P fs"
    and "\<And>f r f'. ensure_one src deps idx rec f = (r, f') \<Longrightarrow> P f \<Longrightarrow> P f'"
  shows "list_all P fs'"
  using assms(1,2)
proof (induction fs arbitrary: r fs')
  case (Cons f fs)
  obtain r1 f1 where o: "ensure_one src deps idx rec f = (r1, f1)" by fastforce
  obtain r2 fs2 where rs: "ensure_rows src deps idx rec fs = (r2, fs2)" by fastforce
  show ?case using Cons.IH [OF rs] Cons.prems o rs assms(3) [OF o] by (cases r1) auto
qed simp

lemma attach_keeps_tags:
  assumes "list_all tagged fs"
  shows "list_all tagged (attach_code_snippet_safely w fs src)"
proof -
  have same: "map set_provenance fs = fs"
    using assms by (auto simp: list_all_iff tagged_def set_provenance_def SKILL_TAGS_def intro!: map_idI)
  have one: "tagged f'" if "ensure_one src (load_deps w) idx rec f = (r, f')" "tagged f" for idx rec f r f'
    using ensure_one_get [OF that(1), of "''id''"] ensure_one_get [OF that(1), of "''provenance''"] that(2)
    by (simp add: tagged_def WINDOW_FIELDS_def CODE_SNIPPET_START_def)
  show ?thesis
  proof (cases "secret_line_index fs")
    case (Inr idx)
    obtain r fs' where e: "ensure_rows src (load_deps w) idx (window_parity_enabled (fw_env w)) fs = (r, fs')" by fastforce
    have "list_all tagged fs'" by (rule ensure_rows_all [OF e assms one])
    then show ?thesis using e Inr
      by (simp add: attach_code_snippet_safely_def attach_code_snippet_def same ensure_code_window_def load_deps_def)
  qed (use assms in \<open>simp add: attach_code_snippet_safely_def attach_code_snippet_def same ensure_code_window_def load_deps_def\<close>)
qed

lemma collapse_keeps_tags:
  assumes "list_all tagged fs"
  shows "list_all tagged (fst (collapse_skill_findings env cat fs))"
proof -
  have "list_all tagged kept" if call: "collapse_line_stacks fs anc = Ret (kept, n)" for anc kept n
  proof -
    obtain surv where surv: "survivors fs anc surv" and kept: "kept = map snd surv"
      using collapse_survivors [OF call] by blast
    have "tagged r" if "(i, r) \<in> set surv" for i r
    proof -
      have "tagged (fs ! i)" "carries (fs ! i) r" using survivor_origin [OF surv that] assms by (auto simp: list_all_length)
      then show ?thesis by (simp add: tagged_def carries_get)
    qed
    then show ?thesis by (auto simp: kept list_all_iff)
  qed
  then show ?thesis using assms
    by (auto simp: collapse_skill_findings_def bind_result_Ret split: sum.splits)
qed

lemma validated_tagged:
  assumes "validate_without_llm w fs src run st = Ret rs" and "list_all tagged fs"
  shows "list_all tagged rs"
  using assms tagged.validate_carries [OF _ refl] parents_tagged
  by (fastforce simp: validate_without_llm_def bind_result_Ret split: if_splits)

lemma public_view_keys: "has_key (public_view f) k \<Longrightarrow> \<not> starts_with k ''_''"
  by (induction f) (auto simp: has_key_def public_view_def split: if_splits)

lemma tagged_public: "tagged f \<Longrightarrow> tagged (public_view f)"
  by (simp add: tagged_def get_public_view starts_with_def)

section \<open>The pass over a row\<close>

lemma conform_get:
  assumes "k \<notin> {''category'', ''practice'', ''description''}"
  shows "get (fst (conform_category env allowed f t)) k = get f k"
proof -
  have reported: "get (reported_as raw g) k = get g k" for raw g
    using assms by (simp add: reported_as_def split: pyval.split)
  have "get (set_default ''practice'' v g) k = get g k" for v g
    using assms by (simp add: get_set_default)
  then show ?thesis using assms by (simp add: conform_category_def Let_def reported split: pyval.split)
qed

definition conformed :: "env \<Rightarrow> string list \<Rightarrow> pyval \<Rightarrow> pyval" where
  "conformed env allowed category = (case category of
     PStr raw \<Rightarrow> PStr (if allowed = [] then raw else normalize_to_enum env raw allowed) | v \<Rightarrow> v)"

lemma conform_get_category: "get (fst (conform_category env allowed f t)) ''category'' = conformed env allowed (get f ''category'')"
  by (simp add: conform_category_def conformed_def Let_def get_set_default split: pyval.split)

lemma conformed_again: "conformed env allowed (conformed env allowed v) = conformed env allowed v"
  by (simp add: conformed_def normalize_idem split: pyval.split)

definition rooted :: "(string \<Rightarrow> string) \<Rightarrow> string \<Rightarrow> pyval \<Rightarrow> pyval" where
  "rooted realpath source_path path = (case path of
     PStr fp \<Rightarrow> PStr (if is_scan_root realpath fp source_path then REPO_ROOT_PATH else fp) | v \<Rightarrow> v)"

lemma cite_root_get: "get (cite_root_as_token realpath f src) k =
    (if k = ''file_path'' then rooted realpath src (get f k) else get f k)"
  by (simp add: cite_root_as_token_def rooted_def split: pyval.split)

lemma rooted_again: "rooted realpath src (rooted realpath src v) = rooted realpath src v"
  by (simp add: rooted_def split: pyval.split)

lemma assign_id_get: "k \<noteq> ''id'' \<Longrightarrow> get (assign_finding_id digest f run i) k = get f k"
  by (simp add: assign_finding_id_def)

lemma set_provenance_get: "k \<noteq> ''provenance'' \<Longrightarrow> get (set_provenance f) k = get f k"
  by (simp add: set_provenance_def)

lemma classified: "truthy (PStr (classify_deterministic_provenance f)) \<and> classify_deterministic_provenance f \<in> set SKILL_TAGS"
  by (simp add: classify_deterministic_provenance_def SKILL_TAGS_def Let_def)

text \<open>Each identifying field of a finalised row is a function of that field alone, but for the identifier.\<close>

definition final_provenance :: "pydict \<Rightarrow> pyval" where
  "final_provenance f = (if truthy (get f ''provenance'') then get f ''provenance'' else PStr (classify_deterministic_provenance f))"

lemma finalised_fields:
  assumes "finalize_finding w f run i src t = (r, f', t')"
  shows "get f' ''provenance'' = final_provenance f"
    and "get f' ''category'' = conformed (fw_env w) (fw_categories w) (get f ''category'')"
    and "get f' ''file_path'' = rooted (fw_realpath w) src (get f ''file_path'')"
    and "truthy (get f ''id'') \<Longrightarrow> get f' ''id'' = get f ''id''"
    and "\<not> truthy (get f ''id'') \<Longrightarrow> \<exists>g. get f' ''id'' = PStr (take 32 (fw_digest w (identity_text run g i)))"
proof -
  let ?g = "fst (conform_category (fw_env w) (fw_categories w) (set_provenance f) t)"
  let ?h = "cite_root_as_token (fw_realpath w) ?g src"
  have red: "redact_in_place (fw_masker w) (assign_finding_id (fw_digest w) ?h run i) = (r, f')"
    using assms by (auto simp: finalize_finding_def split: prod.splits)
  have same: "get f' k = get (assign_finding_id (fw_digest w) ?h run i) k" if "k \<notin> {''code_snippet'', ''description''}" for k
    using redact_in_place_get [OF red that] .
  have "get (set_provenance f) ''provenance'' = final_provenance f"
    by (simp add: set_provenance_def final_provenance_def)
  then show "get f' ''provenance'' = final_provenance f"
    by (simp add: same assign_id_get cite_root_get conform_get)
  show "get f' ''category'' = conformed (fw_env w) (fw_categories w) (get f ''category'')"
    by (simp add: same assign_id_get cite_root_get conform_get_category set_provenance_get)
  show "get f' ''file_path'' = rooted (fw_realpath w) src (get f ''file_path'')"
    by (simp add: same assign_id_get cite_root_get conform_get set_provenance_get)
  have "get ?h ''id'' = get f ''id''" by (simp add: cite_root_get conform_get set_provenance_get)
  then show "truthy (get f ''id'') \<Longrightarrow> get f' ''id'' = get f ''id''"
    and "\<not> truthy (get f ''id'') \<Longrightarrow> \<exists>g. get f' ''id'' = PStr (take 32 (fw_digest w (identity_text run g i)))"
    by (auto simp: same assign_finding_id_def)
qed

lemma finalised_tagged:
  assumes "finalize_finding w f run i src t = (r, f', t')" and "\<And>s. fw_digest w s \<noteq> []"
    and "truthy (get f ''provenance'') \<Longrightarrow> get f ''provenance'' \<in> PStr ` set SKILL_TAGS"
  shows "tagged f'"
proof -
  have "truthy (get f' ''id'')"
    using finalised_fields(4,5) [OF assms(1)] assms(2) by (cases "truthy (get f ''id'')") (auto simp: Let_def)
  then show ?thesis using finalised_fields(1) [OF assms(1)] classified assms(3) by (simp add: tagged_def final_provenance_def)
qed

lemma rows_tagged:
  assumes "finalize_rows w src run n fs t = (Ret (), fs', t')" and "\<And>s. fw_digest w s \<noteq> []"
    and "\<forall>f \<in> set fs. truthy (get f ''provenance'') \<longrightarrow> get f ''provenance'' \<in> PStr ` set SKILL_TAGS"
  shows "list_all tagged fs'"
  using assms(1,3)
proof (induction fs arbitrary: n t fs' t')
  case (Cons f fs)
  obtain i where i: "skill_slot ONE_SKILL 0 n = Ret i"
    by (cases "skill_slot ONE_SKILL 0 n") (use Cons.prems in auto)
  obtain r1 f1 t1 where o: "finalize_finding w f run i src t = (r1, f1, t1)" by (metis prod.exhaust)
  obtain r2 fs2 t2 where rs: "finalize_rows w src run (n + 1) fs t1 = (r2, fs2, t2)" by (metis prod.exhaust)
  have "fs' = f1 # fs2" "r2 = Ret ()" using Cons.prems i o rs by (cases r1; auto)+
  then show ?case using Cons.IH rs Cons.prems(2) finalised_tagged [OF o assms(2)] by simp
qed simp

section \<open>Promises\<close>

text \<open>C12. No two rows of one audit share an identifier: whichever skill or tier they come from and wherever in its
  result they stand, whatever their titles and paths, two rows that came without an identifier get different
  ones, as far as the truncated hash tells their two texts apart.\<close>

theorem no_two_rows_share_an_id:
  assumes "distinct submitted" and "row_index (slots_of submitted) a p = Ret i" and "row_index (slots_of submitted) b q = Ret j"
    and "(a, p) \<noteq> (b, q)" and "\<not> truthy (get f ''id'')" and "\<not> truthy (get g ''id'')"
    and "inj_on (\<lambda>s. take 32 (digest s)) {identity_text run f i, identity_text run g j}"
  shows "get (assign_finding_id digest f run i) ''id'' \<noteq> get (assign_finding_id digest g run j) ''id''"
proof -
  have "i \<noteq> j" using row_index_inj [OF assms(1,2)] assms(3,4) by blast
  then have "identity_text run f i \<noteq> identity_text run g j" using identity_text_index by blast
  then show ?thesis using assms(5-7) by (auto simp: assign_finding_id_def inj_on_def)
qed

text \<open>A row that reaches the pass twice keeps its identity: finalised again, under any run and any index, it has
  the same identifier, provenance, category and path.\<close>

theorem finalised_row_keeps_its_identity:
  assumes "finalize_finding w f run i src t = (r, f', t')" and "finalize_finding w f' run' j src u = (r', f'', u')"
    and "\<And>s. fw_digest w s \<noteq> []" and "k \<in> {''id'', ''provenance'', ''category'', ''file_path''}"
  shows "get f'' k = get f' k"
proof -
  note one = finalised_fields [OF assms(1)] and two = finalised_fields [OF assms(2)]
  have id: "truthy (get f' ''id'')"
    using one(4,5) assms(3) by (cases "truthy (get f ''id'')") (auto simp: Let_def)
  have prov: "truthy (get f' ''provenance'')" using one(1) classified by (simp add: final_provenance_def)
  have "get f'' ''id'' = get f' ''id''" using two(4) id by simp
  moreover have "get f'' ''provenance'' = get f' ''provenance''" using two(1) prov by (simp add: final_provenance_def)
  moreover have "get f'' ''category'' = get f' ''category''" "get f'' ''file_path'' = get f' ''file_path''"
    using one(2,3) two(2,3) by (simp_all add: conformed_again rooted_again)
  ultimately show ?thesis using assms(4) by auto
qed

text \<open>C11. The report of an audit without a model: whatever the skills returned, if none of their rows claims a
  model's provenance, every reported row, finding or rollup parent, carries public fields only, has an
  identifier, and names one of the four deterministic tiers.\<close>

theorem offline_report_is_public_and_identified:
  assumes "finalize_skill_findings w findings src run st t = (Ret rows, t')" and "\<And>s. fw_digest w s \<noteq> []"
    and "\<forall>f \<in> set findings. truthy (get f ''provenance'') \<longrightarrow> get f ''provenance'' \<in> PStr ` set SKILL_TAGS"
  shows "\<forall>row \<in> set rows. (\<forall>k. has_key row k \<longrightarrow> \<not> starts_with k ''_'') \<and> truthy (get row ''id'')
    \<and> get row ''provenance'' \<in> PStr ` set SKILL_TAGS"
proof -
  obtain fs where fs: "finalize_rows w src run 0 findings t = (Ret (), fs, t')"
    and rest: "bind_result (validate_without_llm w (attach_code_snippet_safely w
        (fst (collapse_skill_findings (fw_env w) (fw_catalog w) fs)) src) src run st) (\<lambda>rs. Ret (map public_view rs)) = Ret rows"
    using assms(1) by (auto simp: finalize_skill_findings_def Let_def split: prod.splits sum.splits)
  let ?kept = "fst (collapse_skill_findings (fw_env w) (fw_catalog w) fs)"
  have "list_all tagged ?kept" using collapse_keeps_tags rows_tagged [OF fs assms(2,3)] .
  then have shown: "list_all tagged (attach_code_snippet_safely w ?kept src)" by (rule attach_keeps_tags)
  obtain rs where "validate_without_llm w (attach_code_snippet_safely w ?kept src) src run st = Ret rs" and rows: "rows = map public_view rs"
    using rest by (auto simp: bind_result_Ret)
  then have rs: "list_all tagged rs" using validated_tagged shown by blast
  show ?thesis
  proof
    fix row assume "row \<in> set rows"
    then obtain f where "f \<in> set rs" and row: "row = public_view f" using rows by auto
    then have "tagged row" using rs tagged_public by (simp add: list_all_iff)
    then show "(\<forall>k. has_key row k \<longrightarrow> \<not> starts_with k ''_'') \<and> truthy (get row ''id'')
        \<and> get row ''provenance'' \<in> PStr ` set SKILL_TAGS"
      using public_view_keys unfolding row tagged_def by blast
  qed
qed

end
