(* ===== verification/Finalize_Examples.thy ===== *)
theory Finalize_Examples
  imports Finalize_Promises Stage_Examples
begin

text \<open>
  The offline pass on small rows: a hard-coded password whose category is spelled in lower case, and a row on
  a base image with a field of its skill's own. The validation stage is switched off by its environment
  switch, every other switch is unset, and the hash reverses its text.
\<close>

definition off_env :: env where
  "off_env k = (if k = ''VULTURE_DISABLE_VALIDATE'' then Some ''TRUE'' else None)"

definition off_l1 :: l1_world where
  "off_l1 = \<lparr>lw_gate = ex_world ''observe'', lw_open = \<lambda>p. Raise OSError,
     lw_resolve = \<lambda>p. Some p, lw_redact = \<lambda>t. t, lw_message = \<lambda>e. ''boom''\<rparr>"

definition off_world :: finalize_world where
  "off_world = \<lparr>fw_choke = \<lparr>cw_env = off_env, cw_reader = (\<lambda>p. if p = ''/src/a.py'' then Some [''FROM python''] else None),
       cw_is_file = (\<lambda>p. p = ''/src/a.py''), cw_resolve = Some, cw_store = (\<lambda>_. None)\<rparr>,
     fw_realpath = (\<lambda>p. p), fw_digest = (\<lambda>s. CHR ''#'' # rev s), fw_masker = (\<lambda>s. s),
     fw_catalog = \<lparr>ca_env = off_env, ca_roots = [], ca_is_dir = (\<lambda>_. False), ca_is_file = (\<lambda>_. False), ca_glob = (\<lambda>_ _. []), ca_json = (\<lambda>_. None)\<rparr>,
     fw_layer1 = off_l1, fw_stage = ex_stage, fw_categories = [''CWE-798'']\<rparr>"

definition off_secret :: pydict where
  "off_secret = [(''title'', PStr ''hard-coded password''), (''category'', PStr ''cwe-798''), (''file_path'', PStr ''/src/''),
     (''line_start'', PInt 1), (''signature_status'', PStr ''trusted'')]"

definition off_image :: pydict where
  "off_image = [(''title'', PStr ''unpinned base image''), (''file_path'', PStr ''a.py''), (''line_start'', PInt 1),
     (''_scratch'', PInt 1)]"

lemma off_digest: "fw_digest off_world s \<noteq> []"
  by (simp add: off_world_def)

section \<open>Identifiers\<close>

text \<open>The first rows of the first skill and of the model, with one title and one path.\<close>

theorem no_two_rows_share_an_id_witness:
  "get (assign_finding_id rev off_image ''A1'' 0) ''id'' \<noteq> get (assign_finding_id rev off_image ''A1'' 2) ''id''"
proof (rule no_two_rows_share_an_id)
  show "distinct [''cwe'', ''asvs'']" by simp
  show "row_index (slots_of [''cwe'', ''asvs'']) (Some ''cwe'') 0 = Ret 0" by code_simp
  show "row_index (slots_of [''cwe'', ''asvs'']) None 0 = Ret 2" by code_simp
  show "inj_on (\<lambda>s. take 32 (rev s)) {identity_text ''A1'' off_image 0, identity_text ''A1'' off_image 2}"
    unfolding inj_on_def by code_simp
qed (simp_all add: off_image_def get_or_def)

section \<open>A row that comes twice\<close>

definition off_once :: "unit result \<times> pydict \<times> conform_tally option" where
  "off_once = finalize_finding off_world off_secret ''A1'' 0 ''/src'' None"

definition off_twice :: "unit result \<times> pydict \<times> conform_tally option" where
  "off_twice = finalize_finding off_world (fst (snd off_once)) ''A2'' 7 ''/src'' None"

lemma off_once_fields: "get (fst (snd off_once)) ''category'' = PStr ''CWE-798''" "get (fst (snd off_once)) ''file_path'' = PStr ''.''"
  by code_simp+

theorem finalised_row_keeps_its_identity_witness:
  "get (fst (snd off_twice)) ''id'' = get (fst (snd off_once)) ''id'' \<and> get (fst (snd off_twice)) ''category'' = PStr ''CWE-798''
    \<and> get (fst (snd off_twice)) ''file_path'' = PStr ''.''"
proof -
  obtain r f' t where one: "finalize_finding off_world off_secret ''A1'' 0 ''/src'' None = (r, f', t)" by (metis prod.exhaust)
  obtain r2 f'' t2 where two: "finalize_finding off_world f' ''A2'' 7 ''/src'' None = (r2, f'', t2)" by (metis prod.exhaust)
  have f: "fst (snd off_once) = f'" "fst (snd off_twice) = f''" using one two by (simp_all add: off_once_def off_twice_def)
  have "get f'' k = get f' k" if "k \<in> {''id'', ''provenance'', ''category'', ''file_path''}" for k
    by (rule finalised_row_keeps_its_identity [OF one two off_digest that])
  then show ?thesis using off_once_fields unfolding f by simp
qed

section \<open>The report\<close>

definition off_run :: "pydict list result \<times> conform_tally option" where
  "off_run = finalize_skill_findings off_world [off_image] ''/src'' ''A1'' ex_state None"

lemma off_rows: "case finalize_rows off_world ''/src'' ''A1'' 0 [off_image] None of (r, fs, t) \<Rightarrow>
    r = Ret () \<and> length (attach_code_snippet_safely off_world (fst (collapse_skill_findings off_env (fw_catalog off_world) fs)) ''/src'') = 1"
  by code_simp

lemma off_ran: obtains rows t where "off_run = (Ret rows, t)" "length rows = 1"
proof -
  obtain fs t where fs: "finalize_rows off_world ''/src'' ''A1'' 0 [off_image] None = (Ret (), fs, t)"
    "length (attach_code_snippet_safely off_world (fst (collapse_skill_findings off_env (fw_catalog off_world) fs)) ''/src'') = 1"
    using off_rows by (auto split: prod.splits)
  have env: "fw_env off_world = off_env" by (simp add: off_world_def)
  have "\<not> validate_enabled off_env" by code_simp
  then show ?thesis using that fs by (simp add: off_run_def finalize_skill_findings_def validate_without_llm_def env Let_def)
qed

theorem offline_report_is_public_and_identified_witness:
  "has_key off_image ''_scratch'' \<and> (\<exists>row rows t. off_run = (Ret rows, t) \<and> row \<in> set rows \<and> \<not> has_key row ''_scratch''
    \<and> truthy (get row ''id'') \<and> get row ''provenance'' \<in> PStr ` set SKILL_TAGS)"
proof -
  obtain rows t where r: "off_run = (Ret rows, t)" "length rows = 1" by (rule off_ran)
  have bare: "\<forall>f \<in> set [off_image]. truthy (get f ''provenance'') \<longrightarrow> get f ''provenance'' \<in> PStr ` set SKILL_TAGS"
    by (simp add: off_image_def get_or_def)
  have mem: "rows ! 0 \<in> set rows" using r(2) by simp
  have "starts_with ''_scratch'' ''_''" by (simp add: starts_with_def)
  then show ?thesis
    using bspec [OF offline_report_is_public_and_identified [OF r(1) [unfolded off_run_def] off_digest bare] mem] r(1) mem
    by (intro conjI exI [of _ "rows ! 0"] exI [of _ rows] exI [of _ t]) (auto simp: has_key_def off_image_def)
qed

end
