(* ===== verification/Spec2Isabelle.thy ===== *)
theory Spec2Isabelle
  imports Anchor_Examples Line_Format Calibration Window_Examples Rollup_Examples Judge_Examples Language
    Stage_Examples Layer1_Examples Stage_Layer1 Cooldown Loop_Detector Cancel_Token Judge_Calls_Examples
    Collapse_Examples Category Redaction_Examples Merge_Examples Choke_Examples Scan_Examples Feed_Examples Intake_Examples
    Finalize_Examples
begin

text \<open>
  \<^bold>\<open>The Vulture audit agents: a verification development.\<close>

  Vulture audits a source tree with deterministic skills and with a language model. The Python package
  \<open>agents/shared/shared\<close> is the core all its agents share, and this development models that core. An audit
  runs in five stages, and the theories follow them.

  \<^enum> \<^bold>\<open>Scan.\<close> \<open>tools/file_scanner.py\<close> walks the tree: \<open>Scan_Names\<close> (what a file name says: backup markers,
     extension sets, test and generated files), \<open>Scan_Walk\<close> (ignore rules, the autorun allowlist, the walk
     and its record of pruned directories), \<open>Scan_Probe\<close> (\<open>walk_reaches\<close>, \<open>walk_excludes\<close>, \<open>path_ignored\<close>,
     the capped scans), \<open>Scan_Promises\<close>. \<open>language.py\<close> is \<open>Language\<close>.
  \<^enum> \<^bold>\<open>Feed.\<close> \<open>audit_runner.py\<close> builds what the model reads: \<open>Feed_Windows\<close> (windows around known findings,
     the numbered rendering, the header that names the hidden lines), \<open>Feed_Packing\<close> (tiers, one packed
     context, the batches of a sweep), \<open>Body_Cap\<close> (the byte cap, the halving retry, the prompt budget).
     \<open>tools/line_format.py\<close> is \<open>Line_Format\<close>, \<open>prompt/slots.py\<close> is \<open>Prompt_Slots\<close>, \<open>llm/request_cap.py\<close>
     is \<open>Request_Cap\<close>.
  \<^enum> \<^bold>\<open>Call and reply.\<close> \<open>Llm_Errors\<close> (\<open>llm/errors.py\<close>: classification and retries of a failed call),
     \<open>Cooldown\<close> (\<open>llm/cooldown.py\<close>), \<open>Loop_Detector\<close> (\<open>llm/loop_detector.py\<close>, \<open>llm/loop_guard.py\<close>),
     \<open>Cancel_Token\<close> (\<open>cancellation.py\<close>), \<open>Json_Scan\<close> (\<open>llm/jsonscan.py\<close>), \<open>Reply_Rows\<close> and \<open>Reply_Object\<close>
     (\<open>prompt/extract.py\<close>: rows and the one object of an answer), \<open>Finding_Intake\<close> (\<open>audit_runner.py\<close>: the
     normaliser of a row, the outcome of a parse, the score).
  \<^enum> \<^bold>\<open>Intake of findings.\<close> \<open>Anchor\<close> (\<open>anchor.py\<close>: is the quoted code where the finding says), \<open>Py_Path\<close> and
     \<open>Choke_Point\<close> (\<open>audit_runner.py\<close>: path confined to the root, anchor stamps, re-anchored line, identity),
     \<open>Finding_Merge\<close> with \<open>Merge_Promises\<close> and \<open>Merge_Ledger\<close> (dedup of the model's rows among themselves
     and against the skills'), \<open>Category\<close> (\<open>tools/category_enum.py\<close>), \<open>Collapse\<close>
     (\<open>tools/finding_collapse.py\<close>: rows that share a line and the CWE hierarchy), \<open>Redaction\<close> with
     \<open>Redaction_Promises\<close> (secrets in what leaves the process), \<open>Snippet\<close> and \<open>Window\<close>
     (\<open>tools/snippet.py\<close>, \<open>tools/window.py\<close>: the code window on a finding).
  \<^enum> \<^bold>\<open>Validation\<close> (\<open>validate/\<close>). \<open>Validate_Stage\<close> is \<open>__init__.py\<close>: layer L1 (\<open>Input_Guards\<close>, \<open>Layer1\<close> for
     \<open>context_heuristics.py\<close>), the obligations of a weakness class (\<open>Refutation\<close>) with the detector
     calibration (\<open>Calibration\<close>) and the route model of an Express tree (\<open>Wiring\<close>), layer L2 (\<open>Rollup\<close>), the
     vote (\<open>Voter\<close> for \<open>types.py\<close>, \<open>voter.py\<close>, \<open>compliance.py\<close>), and the judge layer L5: \<open>Judge_Config\<close>,
     \<open>Judge_Verdict\<close> (from the text of an answer to a check), \<open>Judge\<close> (selection, batches, safeguards,
     coverage), \<open>Judge_Calls\<close> with \<open>Judge_Bounds\<close> (the requests of one batch), \<open>L5_Cache\<close>
     (\<open>l5_cache.py\<close>). \<open>Stage_Layer1\<close> runs the stage with its own layer L1 in place.

  \<open>Finalize_Skill\<close> puts the stages together the way \<open>finalize_skill_findings\<close> does for an audit without a
  model: identity of each row, collapse, code windows, validation and public view, each step the model of the
  component it calls; \<open>Finalize_Promises\<close> proves what the report is.

  \<^bold>\<open>The ground.\<close> \<open>Prelude\<close> holds the errors and results (\<open>Ret\<close>, \<open>Raise\<close>), the simplification collections
  and the generic lemmas; \<open>Py_Text\<close> Python strings as Latin-1 character lists with their UTF-8 lengths;
  \<open>Py_Float\<close> binary64 floats as rationals with NaN and infinities and the rounding \<open>fl64\<close>; \<open>Py_Value\<close> and
  \<open>Py_Order\<close> untyped values, dictionaries as association lists in insertion order, truth, conversion and
  comparison; \<open>Py_Regex\<close> the matcher of Python's \<open>re\<close> with its choice order; \<open>Lines_Env\<close> the leaf
  readers (\<open>lines.py\<close>, \<open>gospace.py\<close>, \<open>env.py\<close>, \<open>provenance.py\<close>). The theories \<open>*_Examples\<close> hold small
  concrete worlds and apply the properties to them.

  \<^bold>\<open>State.\<close> A finding is a \<open>pydict\<close>; code that mutates it returns it updated, and where an exception leaves a
  half-done update the result is paired with the rows as they stand (\<open>Window.ensure_code_window\<close>,
  \<open>Validate_Stage.l5_guarded\<close>). Exceptions are values: \<open>Raise e\<close>, or the outcomes of \<open>Judge_Calls\<close>, where
  cancellation is not an error. Process-wide caches and context variables are arguments and results
  (\<open>gate_state\<close>, \<open>rule_cache\<close>, \<open>cooldown_manager\<close>, \<open>cancel_state\<close>, \<open>l5_cache\<close>). The interleaving of
  cancelling threads is the step relation \<open>cancel_step\<close>, the events on the demoted-rule cache are
  \<open>cal_step\<close>, the calls on the cooldown manager \<open>managed\<close>; the judge's thread pool is the list of its
  completion events in any order.

  \<^bold>\<open>Interfaces.\<close> Each is a locale, interpreted on the model's own definitions. \<open>monotone_rounding\<close> (what
  sums and products may rely on of a rounding; by \<open>fl64\<close>), \<open>dict_contract\<close> (what a dictionary promises; by
  association lists), \<open>quote_verifier\<close> (an anchor verdict never refutes code that is there; by
  \<open>verify_anchor\<close>), \<open>ancestry\<close> (the closure of the parents; by \<open>cwe_ancestors\<close>), \<open>route_model\<close> (the protocol
  class of \<open>wiring.py\<close>; by the Express model), and the chain \<open>row_invariant\<close>, \<open>final_invariant\<close>,
  \<open>stage_invariant\<close>: what a fact about one row must satisfy to hold of every row the validation stage
  returns, with \<open>carried_invariant\<close> for a fact the rows bring with them (identifier and provenance). The chain is interpreted for the private fields, the compliance override, the obligations, the
  mirrored verdict and the coverage of the judge, and each property of the stage is one of these facts.

  \<^bold>\<open>What the lemmas show.\<close>
  \<^item> \<open>Voter\<close>: a finding is confirmed exactly when the vote may confirm it, confidence stays within 0 and 1
    whatever floats the checks carry, JSON of a record reads back; \<open>Calibration\<close>: the cached answer is the
    file's.
  \<^item> \<open>Anchor\<close>, \<open>Choke_Point\<close>: a quote that stands in the file is never refuted, \<open>absent\<close> means every place
    was searched, a row whose line was moved carries its quote there, a path outside the root is not read.
  \<^item> \<open>Refutation\<close>, \<open>Wiring\<close>, \<open>Layer1\<close>: an obligation is refuted only when every mount of the route is
    guarded; layer L1 gives every declared class its obligation and promotes nothing.
  \<^item> \<open>Judge\<close>, \<open>Judge_Calls\<close>, \<open>Judge_Bounds\<close>: demotions that stand are admissible and their share is capped;
    the requests and tool runs of a batch are bounded, and nothing is sent after a transport failure.
  \<^item> \<open>Stage_Promises\<close>, \<open>Stage_Layer1\<close>: the stage keeps every row, covers every row, lets no private field out
    and, in compliance mode, dismisses nothing; an unhashable category stops it.
  \<^item> \<open>Redaction_Promises\<close>: what is shown does not depend on the secret literal, and a line one finding marks as
    secret is hidden in the windows of its neighbours.
  \<^item> \<open>Collapse\<close>, \<open>Merge_Promises\<close>, \<open>Merge_Ledger\<close>, \<open>Rollup\<close>: one best row per key, bounded records of what was
    merged, nothing lost by a collapse, every member of a rollup listed by its parent.
  \<^item> \<open>Scan_Promises\<close>: the probes agree with the walk, every unread file is accounted for, nothing below a
    pruned prefix is read. \<open>Feed_Windows\<close>, \<open>Feed_Packing\<close>, \<open>Body_Cap\<close>: the header names exactly the hidden
    lines, the batches cover every file once and in order, the capped body fits.
  \<^item> \<open>Reply_Rows\<close>, \<open>Reply_Object\<close>, \<open>Finding_Intake\<close>: a cut array keeps its whole rows, the best of the arrays
    wins and the last of equals, a normalised row is well typed and passes the choke point without an
    exception, more findings never raise the score.
  \<^item> \<open>Finalize_Promises\<close>: rows of one audit never share an identifier, a row finalised twice keeps its
    identity, and an offline report has public fields only, each row identified and of a deterministic tier.
  \<^item> \<open>Cooldown\<close>, \<open>Loop_Detector\<close>, \<open>L5_Cache\<close> refine the histories of their calls; \<open>Llm_Errors\<close>: retries end.

  \<^bold>\<open>Bounds.\<close> Every function is total. Loops of the source are structural, have a measure, or are bounded by
  the length of the text they scan: the matcher's \<open>finditer\<close> and \<open>sub\<close> take the length of the text as their
  bound, which suffices because a match of the patterns they serve is not empty (each step consumes a
  character); the closure of the CWE hierarchy is bounded by the number of its unvisited codes. The bounds
  of retries, tool turns, anchor windows and caps are the constants of the source.

  \<^bold>\<open>Parameters.\<close> What is not source of this repository or answers from outside: the environment (a map from
  names to text), the tree on disk and its readers, \<open>realpath\<close>, hashes, clocks, random numbers,
  \<open>json.loads\<close>, \<open>pathspec\<close>, the token estimator, the provider of the model with its completion events, tools
  and the rendered prompts. They are fields of the records \<open>gate_world\<close>, \<open>l1_world\<close>, \<open>stage_world\<close>,
  \<open>judge_world\<close>, \<open>choke_world\<close>, \<open>catalog_world\<close>, \<open>feed_world\<close>, \<open>finalize_world\<close>,
  \<open>window_deps\<close> or plain arguments. Theorems that
  need a law of one (an injective hash, a token count that grows with the text) name it as a hypothesis and
  have a witness with a concrete function.

  \<^bold>\<open>Not modelled.\<close>
  \<^item> The skills (\<open>agents/cwe\<close>, \<open>agents/asvs\<close> and the other agents) and the syntax trees of \<open>shared/ast\<close>: thousands of
    independent detection rules over third-party parsers, whose behaviour is their pattern tables; there is
    no promise to state beyond the patterns themselves. What the core does with their rows is modelled.
  \<^item> The driver of a run in \<open>audit_runner.py\<close> (\<open>run_combined_audit\<close>, the streaming of events, the sweep over
    batches, prompt texts): generators over the Agents SDK, threads and HTTP.
  \<^item> The provider adapters, the health probes and the broker of \<open>shared/llm\<close>, \<open>shared/transport\<close>,
    \<open>shared/diag\<close>, \<open>shared/discovery\<close>: network and process input and output.
  \<^item> Log lines, metrics, locks (each locked operation is one step), and characters beyond Latin-1.
\<close>

end
